(* ===== verification/Usbip_Prelude.thy ===== *)
theory Usbip_Prelude
  imports Main "HOL-Library.Word" "HOL-Library.Monad_Syntax"
begin

text \<open>
  Shared vocabulary of the development: the fixed-width integers of
  \<^verbatim>\<open>common/types.h\<close>, C character buffers and the string routines the program uses
  (\<^verbatim>\<open>str_copy\<close> of \<^verbatim>\<open>common/string_utils.h\<close>, and \<open>strncpy\<close>, \<open>strcmp\<close>,
  \<open>strlen\<close>, \<open>strstr\<close> of the C library), byte extraction and reassembly of words on a
  little-endian host, and the byte-order macros.

  A character array is the list of its bytes, all of them: the bytes after the first
  zero byte are kept, because several arrays are sent over the network whole.
\<close>

unbundle bit_operations_syntax

named_theorems cbuf_simps \<open>closed forms of the buffer and string routines\<close>
named_theorems wire_simps \<open>byte layout of words and packed structures\<close>
named_theorems io_simps \<open>one-step equations of the socket loops\<close>

type_synonym byte = "8 word"
type_synonym uint8_t = "8 word"
type_synonym uint16_t = "16 word"
type_synonym uint32_t = "32 word"
type_synonym uint64_t = "64 word"
type_synonym cbuf = "byte list"

section \<open>C strings in character buffers\<close>

text \<open>The C string held by a buffer: everything before the first zero byte.\<close>

definition cstr :: "cbuf \<Rightarrow> byte list" where
  "cstr b = takeWhile (\<lambda>c. c \<noteq> 0) b"

definition strlen :: "cbuf \<Rightarrow> nat" where
  "strlen b = length (cstr b)"

text \<open>\<open>streq a b\<close> is the test \<^verbatim>\<open>strcmp(a, b) == 0\<close>.\<close>

definition streq :: "cbuf \<Rightarrow> cbuf \<Rightarrow> bool" where
  "streq a b \<longleftrightarrow> cstr a = cstr b"

text \<open>
  Reading \<open>s[i]\<close> of a string argument. The list holds the bytes in front of the
  terminator (and possibly the terminator and more); its end reads as the terminator.
\<close>

definition char_at :: "cbuf \<Rightarrow> nat \<Rightarrow> byte" where
  "char_at s i = (if i < length s then s ! i else 0)"

text \<open>\<open>strncpy(dst, src, n)\<close>: at most \<open>n\<close> bytes of the string, then zeros up to \<open>n\<close>.\<close>

definition strncpy :: "cbuf \<Rightarrow> cbuf \<Rightarrow> nat \<Rightarrow> cbuf" where
  "strncpy dst src n =
     (let s = take n (cstr src) in s @ replicate (n - length s) 0 @ drop n dst)"

text \<open>The loop of \<^verbatim>\<open>str_copy\<close>: byte by byte until the string ends or one cell is left.\<close>

function str_copy_loop :: "cbuf \<Rightarrow> cbuf \<Rightarrow> nat \<Rightarrow> nat \<Rightarrow> cbuf" where
  "str_copy_loop dst src dst_size i =
     (if i < dst_size - 1 \<and> char_at src i \<noteq> 0
      then str_copy_loop (dst[i := char_at src i]) src dst_size (Suc i)
      else dst[i := 0])"
  by pat_completeness auto
termination
  by (relation "measure (\<lambda>(dst, src, n, i). n - i)") auto

declare str_copy_loop.simps [simp del]

definition str_copy :: "cbuf \<Rightarrow> cbuf \<Rightarrow> nat \<Rightarrow> cbuf" where
  "str_copy dst src dst_size =
     (if dst_size = 0 then dst else str_copy_loop dst src dst_size 0)"

lemma cstr_zero_free [simp]: "0 \<notin> set (cstr b)"
  by (auto simp: cstr_def dest: set_takeWhileD)

lemma cstr_Nil [simp]: "cstr [] = []"
  by (simp add: cstr_def)

lemma cstr_Cons [simp]: "cstr (c # b) = (if c = 0 then [] else c # cstr b)"
  by (simp add: cstr_def)

lemma cstr_append_zero [simp]: "0 \<notin> set s \<Longrightarrow> cstr (s @ 0 # b) = s"
  by (induction s) auto

lemma cstr_append_zero_replicate [simp]:
  "0 \<notin> set s \<Longrightarrow> cstr (s @ replicate n 0) = s"
  by (induction s) (auto simp: cstr_def takeWhile_replicate)

lemma cstr_id: "0 \<notin> set s \<Longrightarrow> cstr s = s"
  by (induction s) auto

lemma cstr_idem [simp]: "cstr (cstr b) = cstr b"
  by (rule cstr_id) simp

lemma cstr_take_cstr [simp]: "cstr (take n (cstr b)) = take n (cstr b)"
  by (rule cstr_id) (auto dest: in_set_takeD)

lemma zero_notin_take_cstr [simp]: "0 \<notin> set (take n (cstr b))"
  by (auto dest: in_set_takeD)

lemma cstr_replicate0 [simp]: "cstr (replicate n 0) = []"
  by (cases n) simp_all

lemma cstr_eq_Nil_iff: "cstr b = [] \<longleftrightarrow> char_at b 0 = 0"
  by (cases b) (auto simp: char_at_def)

lemma cstr_update0 [simp]: "cstr (b[0 := 0]) = []"
  by (cases b) auto

lemma length_cstr_le: "length (cstr b) \<le> length b"
  by (simp add: cstr_def length_takeWhile_le)

lemma char_at_cstr: "i < length (cstr s) \<Longrightarrow> char_at s i = cstr s ! i"
  using length_cstr_le[of s]
  by (simp add: char_at_def cstr_def takeWhile_nth)

lemma char_at_cstr_end: "char_at s (length (cstr s)) = 0"
  unfolding char_at_def cstr_def
  by (auto dest: nth_length_takeWhile)

lemma streq_refl [simp]: "streq a a"
  by (simp add: streq_def)

lemma streq_sym: "streq a b \<Longrightarrow> streq b a"
  by (simp add: streq_def)

lemma streq_trans: "streq a b \<Longrightarrow> streq b c \<Longrightarrow> streq a c"
  by (simp add: streq_def)

lemma length_strncpy [simp]: "n \<le> length dst \<Longrightarrow> length (strncpy dst src n) = length dst"
  by (simp add: strncpy_def Let_def min_def)

lemma length_str_copy_loop [simp]: "length (str_copy_loop dst src n i) = length dst"
proof (induction dst src n i rule: str_copy_loop.induct)
  case (1 dst src n i)
  then show ?case by (subst str_copy_loop.simps) simp
qed

lemma length_str_copy [simp]: "length (str_copy dst src n) = length dst"
  by (simp add: str_copy_def)

text \<open>The closed form of the loop, from any position inside the string.\<close>

lemma str_copy_loop_eq:
  assumes "i \<le> length (cstr src)" and "i < n" and "n \<le> length dst"
    and "take i dst = take i (cstr src)"
  shows "str_copy_loop dst src n i
    = take (n - 1) (cstr src) @ 0 # drop (Suc (min (n - 1) (length (cstr src)))) dst"
  using assms
proof (induction dst src n i rule: str_copy_loop.induct)
  case (1 dst src n i)
  show ?case
  proof (cases "i < n - 1 \<and> char_at src i \<noteq> 0")
    case True
    then have lt: "i < length (cstr src)"
      using "1.prems"(1) char_at_cstr_end[of src] by (metis le_neq_implies_less)
    have tk: "take (Suc i) (dst[i := char_at src i]) = take (Suc i) (cstr src)"
      using lt "1.prems" True by (simp add: take_Suc_conv_app_nth char_at_cstr)
    have "str_copy_loop dst src n i = str_copy_loop (dst[i := char_at src i]) src n (Suc i)"
      using True by (subst str_copy_loop.simps) simp
    also have "\<dots> = take (n - 1) (cstr src) @
        0 # drop (Suc (min (n - 1) (length (cstr src)))) (dst[i := char_at src i])"
      using True lt "1.prems" tk by (intro "1.IH") auto
    also have "drop (Suc (min (n - 1) (length (cstr src)))) (dst[i := char_at src i])
        = drop (Suc (min (n - 1) (length (cstr src)))) dst"
      using lt True by (intro drop_update_cancel) linarith
    finally show ?thesis .
  next
    case False
    then have stop: "i = n - 1 \<or> i = length (cstr src)"
      using "1.prems"(1,2) char_at_cstr[of i src] cstr_zero_free[of src]
      by (metis One_nat_def Suc_leI Suc_pred le_neq_implies_less less_Suc_eq_le
          not_less_zero nth_mem order_le_less zero_less_iff_neq_zero)
    have i: "i = min (n - 1) (length (cstr src))"
      using stop "1.prems"(1,2) by auto
    have "str_copy_loop dst src n i = dst[i := 0]"
      using False by (subst str_copy_loop.simps) (simp only: if_False)
    also have "\<dots> = take i dst @ 0 # drop (Suc i) dst"
      using "1.prems"(2,3) by (simp add: upd_conv_take_nth_drop)
    also have "take i dst = take (n - 1) (cstr src)"
      using "1.prems"(4) stop i by (auto simp: min_def)
    finally show ?thesis using i by simp
  qed
qed

lemma str_copy_eq [cbuf_simps]:
  assumes "0 < n" and "n \<le> length dst"
  shows "str_copy dst src n
    = take (n - 1) (cstr src) @ 0 # drop (Suc (min (n - 1) (length (cstr src)))) dst"
  using assms by (simp add: str_copy_def str_copy_loop_eq)

lemma cstr_str_copy [simp]:
  "0 < n \<Longrightarrow> n \<le> length dst \<Longrightarrow> cstr (str_copy dst src n) = take (n - 1) (cstr src)"
  by (simp add: str_copy_eq)

lemma cstr_strncpy:
  assumes "n < length dst" and "drop n dst = replicate (length dst - n) 0"
  shows "cstr (strncpy dst src n) = take n (cstr src)"
proof -
  let ?s = "take n (cstr src)"
  have "strncpy dst src n = ?s @ replicate (n - length ?s + (length dst - n)) 0"
    using assms(2) by (simp only: strncpy_def Let_def replicate_add)
  then show ?thesis by simp
qed

section \<open>Searching in strings\<close>

text \<open>
  \<open>strstr_pos h n\<close> is \<^verbatim>\<open>strstr\<close>: the offset of the first occurrence of the string
  \<open>n\<close> in the string \<open>h\<close>, both given without terminators.
\<close>

fun strstr_pos :: "byte list \<Rightarrow> byte list \<Rightarrow> nat option" where
  "strstr_pos h n =
     (if take (length n) h = n then Some 0
      else (case h of [] \<Rightarrow> None | c # h' \<Rightarrow> map_option Suc (strstr_pos h' n)))"

declare strstr_pos.simps [simp del]

definition contains :: "byte list \<Rightarrow> byte list \<Rightarrow> bool" where
  "contains h n \<longleftrightarrow> strstr_pos h n \<noteq> None"

lemma contains_Nil [simp]: "contains [] n \<longleftrightarrow> n = []"
  by (simp add: contains_def strstr_pos.simps)

lemma contains_Cons: "contains (c # h) n \<longleftrightarrow> take (length n) (c # h) = n \<or> contains h n"
  by (simp add: contains_def strstr_pos.simps[of "c # h"])

lemma contains_iff: "contains h n \<longleftrightarrow> (\<exists>p s. h = p @ n @ s)"
proof
  assume "contains h n"
  then show "\<exists>p s. h = p @ n @ s"
  proof (induction h)
    case Nil
    then show ?case by simp
  next
    case (Cons c h)
    then consider "take (length n) (c # h) = n" | "contains h n"
      by (auto simp: contains_Cons)
    then show ?case
    proof cases
      case 1
      then have "c # h = [] @ n @ drop (length n) (c # h)"
        by (metis append_Nil append_take_drop_id)
      then show ?thesis by blast
    next
      case 2
      then obtain p s where "h = p @ n @ s" using Cons.IH by blast
      then have "c # h = (c # p) @ n @ s" by simp
      then show ?thesis by blast
    qed
  qed
next
  assume "\<exists>p s. h = p @ n @ s"
  then obtain p s where "h = p @ n @ s" by blast
  then show "contains h n"
  proof (induction p arbitrary: h)
    case Nil
    then show ?case by (simp add: contains_def strstr_pos.simps)
  next
    case (Cons c p)
    then show ?case by (simp add: contains_Cons)
  qed
qed

text \<open>ASCII text as bytes, and the case folding of \<^verbatim>\<open>_stricmp\<close> and \<^verbatim>\<open>_strnicmp\<close>.\<close>

definition ascii :: "string \<Rightarrow> byte list" where
  "ascii s = map of_char s"

text \<open>
  The blanks of the C library, and decimal numbers: \<open>atoi\<close> skips blanks, takes a sign and
  digits, and saturates at the bounds of \<open>int\<close>.
\<close>

definition isspace :: "byte \<Rightarrow> bool" where
  "isspace c \<longleftrightarrow> c = 32 \<or> 9 \<le> c \<and> c \<le> 13"

fun atoi_digits :: "int \<Rightarrow> byte list \<Rightarrow> int" where
  "atoi_digits acc [] = acc"
| "atoi_digits acc (c # cs) =
     (if 48 \<le> c \<and> c \<le> 57 then atoi_digits (10 * acc + uint (c - 48)) cs else acc)"

definition atoi :: "cbuf \<Rightarrow> int" where
  "atoi s =
     (let f = dropWhile isspace (cstr s);
          neg = (f \<noteq> [] \<and> hd f = 45);
          v = atoi_digits 0 (if f \<noteq> [] \<and> (hd f = 45 \<or> hd f = 43) then tl f else f)
      in if neg then max (- (2 ^ 31)) (- v) else min (2 ^ 31 - 1) v)"

definition to_lower :: "byte \<Rightarrow> byte" where
  "to_lower c = (if 0x41 \<le> c \<and> c \<le> 0x5A then c + 0x20 else c)"

definition strieq :: "cbuf \<Rightarrow> cbuf \<Rightarrow> bool" where
  "strieq a b \<longleftrightarrow> map to_lower (cstr a) = map to_lower (cstr b)"

section \<open>Bytes of words\<close>

text \<open>\<open>byte_at i x\<close> is the byte at address offset \<open>i\<close> of \<open>x\<close> in little-endian memory.\<close>

definition byte_at :: "nat \<Rightarrow> 'a::len word \<Rightarrow> byte" where
  "byte_at i x = ucast (drop_bit (8 * i) x)"

definition mk16 :: "byte \<Rightarrow> byte \<Rightarrow> uint16_t" where
  "mk16 b0 b1 = ucast b0 OR push_bit 8 (ucast b1)"

definition mk32 :: "byte \<Rightarrow> byte \<Rightarrow> byte \<Rightarrow> byte \<Rightarrow> uint32_t" where
  "mk32 b0 b1 b2 b3 =
     ucast b0 OR push_bit 8 (ucast b1) OR push_bit 16 (ucast b2) OR push_bit 24 (ucast b3)"

definition mem16 :: "uint16_t \<Rightarrow> byte list" where
  "mem16 x = [byte_at 0 x, byte_at 1 x]"

definition mem32 :: "uint32_t \<Rightarrow> byte list" where
  "mem32 x = [byte_at 0 x, byte_at 1 x, byte_at 2 x, byte_at 3 x]"

text \<open>Big-endian encodings, the wire format of the protocol.\<close>

definition be16 :: "uint16_t \<Rightarrow> byte list" where
  "be16 x = [byte_at 1 x, byte_at 0 x]"

definition be32 :: "uint32_t \<Rightarrow> byte list" where
  "be32 x = [byte_at 3 x, byte_at 2 x, byte_at 1 x, byte_at 0 x]"

text \<open>Loading a word from memory at a byte offset.\<close>

definition load16 :: "byte list \<Rightarrow> nat \<Rightarrow> uint16_t" where
  "load16 m i = mk16 (m ! i) (m ! (i + 1))"

definition load32 :: "byte list \<Rightarrow> nat \<Rightarrow> uint32_t" where
  "load32 m i = mk32 (m ! i) (m ! (i + 1)) (m ! (i + 2)) (m ! (i + 3))"

definition store32 :: "byte list \<Rightarrow> nat \<Rightarrow> uint32_t \<Rightarrow> byte list" where
  "store32 m i x = m[i := byte_at 0 x, i + 1 := byte_at 1 x, i + 2 := byte_at 2 x, i + 3 := byte_at 3 x]"

definition store8s :: "byte list \<Rightarrow> nat \<Rightarrow> byte list \<Rightarrow> byte list" where
  "store8s m i bs = take i m @ bs @ drop (i + length bs) m"

text \<open>
  \<open>htons\<close>, \<open>htonl\<close> and their inverses reverse the bytes on the little-endian machines
  the program is built for; \<^verbatim>\<open>htobe64\<close> and \<^verbatim>\<open>be64toh\<close> are the functions of \<^verbatim>\<open>types.h\<close>.
\<close>

definition htobe16 :: "uint16_t \<Rightarrow> uint16_t" where
  "htobe16 x = mk16 (byte_at 1 x) (byte_at 0 x)"

definition htobe32 :: "uint32_t \<Rightarrow> uint32_t" where
  "htobe32 x = mk32 (byte_at 3 x) (byte_at 2 x) (byte_at 1 x) (byte_at 0 x)"

definition be16toh :: "uint16_t \<Rightarrow> uint16_t" where
  "be16toh x = mk16 (byte_at 1 x) (byte_at 0 x)"

definition be32toh :: "uint32_t \<Rightarrow> uint32_t" where
  "be32toh x = mk32 (byte_at 3 x) (byte_at 2 x) (byte_at 1 x) (byte_at 0 x)"

definition htobe64 :: "uint64_t \<Rightarrow> uint64_t" where
  "htobe64 x = push_bit 32 (ucast (htobe32 (ucast (x AND 0xFFFFFFFF)))) OR
     ucast (htobe32 (ucast (drop_bit 32 x)))"

definition be64toh :: "uint64_t \<Rightarrow> uint64_t" where
  "be64toh x = push_bit 32 (ucast (be32toh (ucast (x AND 0xFFFFFFFF)))) OR
     ucast (be32toh (ucast (drop_bit 32 x)))"

lemma bit_byte_at [simp]: "bit (byte_at i x) n \<longleftrightarrow> n < 8 \<and> bit x (8 * i + n)"
  by (auto simp: byte_at_def bit_simps)

lemma bit_byte_ge: "8 \<le> n \<Longrightarrow> \<not> bit (b :: byte) n"
  by (auto dest: bit_imp_le_length)

lemma byte_at_mk16 [simp]:
  "byte_at 0 (mk16 b0 b1) = b0" "byte_at (Suc 0) (mk16 b0 b1) = b1"
  by (auto intro!: bit_word_eqI simp: mk16_def bit_simps bit_byte_ge)

lemma byte_at_mk32 [simp]:
  "byte_at 0 (mk32 b0 b1 b2 b3) = b0" "byte_at (Suc 0) (mk32 b0 b1 b2 b3) = b1"
  "byte_at 2 (mk32 b0 b1 b2 b3) = b2" "byte_at 3 (mk32 b0 b1 b2 b3) = b3"
  by (auto intro!: bit_word_eqI simp: mk32_def bit_simps bit_byte_ge)

lemma mk16_byte_at [simp]: "mk16 (byte_at 0 x) (byte_at (Suc 0) x) = x"
  by (rule bit_word_eqI) (auto simp: mk16_def bit_simps bit_byte_ge)

lemma mk32_byte_at [simp]:
  "mk32 (byte_at 0 x) (byte_at (Suc 0) x) (byte_at 2 x) (byte_at 3 x) = x"
proof (rule bit_word_eqI)
  fix n assume "n < LENGTH(32)"
  then have "n < 32" by simp
  then consider "n < 8" | "8 \<le> n" "n < 16" | "16 \<le> n" "n < 24" | "24 \<le> n" "n < 32"
    by linarith
  then show "bit (mk32 (byte_at 0 x) (byte_at (Suc 0) x) (byte_at 2 x) (byte_at 3 x)) n \<longleftrightarrow> bit x n"
    by cases (auto simp: mk32_def bit_simps)
qed

lemma byte_at_mk32_Suc [simp]:
  "byte_at (Suc (Suc 0)) (mk32 b0 b1 b2 b3) = b2"
  "byte_at (Suc (Suc (Suc 0))) (mk32 b0 b1 b2 b3) = b3"
  using byte_at_mk32(3,4)[of b0 b1 b2 b3] by (simp_all add: numeral_eq_Suc)

lemma mk32_byte_at_Suc [simp]:
  "mk32 (byte_at 0 x) (byte_at (Suc 0) x) (byte_at (Suc (Suc 0)) x) (byte_at (Suc (Suc (Suc 0))) x) = x"
  using mk32_byte_at[of x] by (simp add: numeral_eq_Suc)

lemma nth_update: "xs[i := x] ! j = (if i = j \<and> i < length xs then x else xs ! j)"
  by (cases "i < length xs") (auto simp: list_update_beyond)

lemma length_mem16 [simp]: "length (mem16 x) = 2" by (simp add: mem16_def)
lemma length_mem32 [simp]: "length (mem32 x) = 4" by (simp add: mem32_def)
lemma length_be16 [simp]: "length (be16 x) = 2" by (simp add: be16_def)
lemma length_be32 [simp]: "length (be32 x) = 4" by (simp add: be32_def)

lemma htobe16_inverse [simp]: "be16toh (htobe16 x) = x" "htobe16 (be16toh x) = x"
  by (simp_all add: htobe16_def be16toh_def)

lemma htobe32_inverse [simp]: "be32toh (htobe32 x) = x" "htobe32 (be32toh x) = x"
  by (simp_all add: htobe32_def be32toh_def)

lemma mem16_htobe16 [wire_simps]: "mem16 (htobe16 x) = be16 x"
  by (simp add: mem16_def be16_def htobe16_def)

lemma mem32_htobe32 [wire_simps]: "mem32 (htobe32 x) = be32 x"
  by (simp add: mem32_def be32_def htobe32_def)

lemma load16_mem16 [simp]: "load16 (mem16 x @ m) 0 = x"
  by (simp add: load16_def mem16_def)

lemma load32_mem32 [simp]: "load32 (mem32 x @ m) 0 = x"
  by (simp add: load32_def mem32_def)

lemma load32_append [simp]: "length p = i \<Longrightarrow> load32 (p @ m) (i + j) = load32 m j"
  by (simp add: load32_def nth_append)

lemma length_store32 [simp]: "length (store32 m i x) = length m"
  by (simp add: store32_def)

lemma load32_store32_same [simp]: "i + 4 \<le> length m \<Longrightarrow> load32 (store32 m i x) i = x"
  by (simp add: load32_def store32_def)

lemma load32_store32_other [simp]:
  "i + 4 \<le> j \<or> j + 4 \<le> i \<Longrightarrow> load32 (store32 m i x) j = load32 m j"
  by (auto simp: load32_def store32_def)

lemma length_store8s [simp]: "i + length bs \<le> length m \<Longrightarrow> length (store8s m i bs) = length m"
  by (simp add: store8s_def)

lemma htobe64_example: "htobe64 0x0102030405060708 = 0x0807060504030201"
  by (simp add: htobe64_def htobe32_def mk32_def byte_at_def)

section \<open>Machine limits\<close>

text \<open>A \<open>size_t\<close> length passed to Winsock is narrowed to \<open>int\<close>; the program's lengths fit.\<close>

definition INT_MAX :: nat where
  "INT_MAX = 2147483647"

end
