(* ===== verification/Error_Codes.thy ===== *)
theory Error_Codes
  imports Usbip_Prelude
begin

text \<open>
  Error codes and error reporting: \<^verbatim>\<open>common/error.h\<close> and \<^verbatim>\<open>common/error.c\<close>.
  The enumeration \<^verbatim>\<open>error_code_t\<close> is a datatype with the source's constructors;
  \<open>error_value\<close> is the number the C compiler gives each of them. \<open>error_messages\<close> is
  the message table in the source's order and \<open>error_string\<close> the loop over it. The
  thread-local error context is the record \<open>error_context\<close>; the operating system's
  error numbers and the text of \<^verbatim>\<open>FormatMessageA\<close> are arguments.
\<close>

datatype (plugins only: code) error_code =
    ERR_SUCCESS | ERR_GENERAL | ERR_OUT_OF_MEMORY | ERR_INVALID_PARAM | ERR_NOT_FOUND |
    ERR_ALREADY_EXISTS | ERR_NOT_SUPPORTED | ERR_TIMEOUT | ERR_BUSY | ERR_PERMISSION_DENIED |
    ERR_IO_ERROR | ERR_BUFFER_TOO_SMALL | ERR_INVALID_STATE | ERR_CANCELLED |
    ERR_NOT_INITIALIZED | ERR_ALREADY_INITIALIZED | ERR_NETWORK_INIT | ERR_SOCKET_CREATE |
    ERR_SOCKET_BIND | ERR_SOCKET_LISTEN | ERR_SOCKET_ACCEPT | ERR_SOCKET_CONNECT |
    ERR_SOCKET_SEND | ERR_SOCKET_RECV | ERR_SOCKET_CLOSE | ERR_SOCKET_OPTION |
    ERR_HOST_NOT_FOUND | ERR_CONNECTION_REFUSED | ERR_CONNECTION_RESET |
    ERR_CONNECTION_TIMEOUT | ERR_NETWORK_UNREACHABLE | ERR_ADDRESS_IN_USE | ERR_USB_INIT |
    ERR_USB_NOT_FOUND | ERR_USB_ACCESS_DENIED | ERR_USB_BUSY | ERR_USB_NO_DEVICE |
    ERR_USB_CLAIM_FAILED | ERR_USB_RELEASE_FAILED | ERR_USB_IO_FAILED | ERR_USB_STALL |
    ERR_USB_OVERFLOW | ERR_USB_PIPE_ERROR | ERR_USB_INTERRUPTED | ERR_USB_NO_MEMORY |
    ERR_USB_INVALID_ENDPOINT | ERR_USB_INVALID_INTERFACE | ERR_USB_DETACHED |
    ERR_USB_DESCRIPTOR_ERROR | ERR_DEVICE_BUSY | ERR_PROTOCOL_VERSION | ERR_PROTOCOL_INVALID |
    ERR_PROTOCOL_UNSUPPORTED | ERR_PROTOCOL_SEQUENCE | ERR_PROTOCOL_HEADER |
    ERR_PROTOCOL_DATA | ERR_PROTOCOL_CHECKSUM | ERR_PROTOCOL_STATE | ERR_VHCI_INIT |
    ERR_VHCI_NOT_FOUND | ERR_VHCI_ATTACH_FAILED | ERR_VHCI_DETACH_FAILED |
    ERR_VHCI_NO_FREE_PORT | ERR_VHCI_INVALID_PORT | ERR_VHCI_DRIVER_ERROR | ERR_SYSTEM_INIT |
    ERR_THREAD_CREATE | ERR_THREAD_JOIN | ERR_MUTEX_INIT | ERR_MUTEX_LOCK | ERR_FILE_OPEN |
    ERR_FILE_READ | ERR_FILE_WRITE | ERR_REGISTRY_ACCESS | ERR_MAX

primrec error_value :: "error_code \<Rightarrow> nat" where
  "error_value ERR_SUCCESS = 0x0000"
| "error_value ERR_GENERAL = 0x0001"
| "error_value ERR_OUT_OF_MEMORY = 0x0002"
| "error_value ERR_INVALID_PARAM = 0x0003"
| "error_value ERR_NOT_FOUND = 0x0004"
| "error_value ERR_ALREADY_EXISTS = 0x0005"
| "error_value ERR_NOT_SUPPORTED = 0x0006"
| "error_value ERR_TIMEOUT = 0x0007"
| "error_value ERR_BUSY = 0x0008"
| "error_value ERR_PERMISSION_DENIED = 0x0009"
| "error_value ERR_IO_ERROR = 0x000A"
| "error_value ERR_BUFFER_TOO_SMALL = 0x000B"
| "error_value ERR_INVALID_STATE = 0x000C"
| "error_value ERR_CANCELLED = 0x000D"
| "error_value ERR_NOT_INITIALIZED = 0x000E"
| "error_value ERR_ALREADY_INITIALIZED = 0x000F"
| "error_value ERR_NETWORK_INIT = 0x0100"
| "error_value ERR_SOCKET_CREATE = 0x0101"
| "error_value ERR_SOCKET_BIND = 0x0102"
| "error_value ERR_SOCKET_LISTEN = 0x0103"
| "error_value ERR_SOCKET_ACCEPT = 0x0104"
| "error_value ERR_SOCKET_CONNECT = 0x0105"
| "error_value ERR_SOCKET_SEND = 0x0106"
| "error_value ERR_SOCKET_RECV = 0x0107"
| "error_value ERR_SOCKET_CLOSE = 0x0108"
| "error_value ERR_SOCKET_OPTION = 0x0109"
| "error_value ERR_HOST_NOT_FOUND = 0x010A"
| "error_value ERR_CONNECTION_REFUSED = 0x010B"
| "error_value ERR_CONNECTION_RESET = 0x010C"
| "error_value ERR_CONNECTION_TIMEOUT = 0x010D"
| "error_value ERR_NETWORK_UNREACHABLE = 0x010E"
| "error_value ERR_ADDRESS_IN_USE = 0x010F"
| "error_value ERR_USB_INIT = 0x0200"
| "error_value ERR_USB_NOT_FOUND = 0x0201"
| "error_value ERR_USB_ACCESS_DENIED = 0x0202"
| "error_value ERR_USB_BUSY = 0x0203"
| "error_value ERR_USB_NO_DEVICE = 0x0204"
| "error_value ERR_USB_CLAIM_FAILED = 0x0205"
| "error_value ERR_USB_RELEASE_FAILED = 0x0206"
| "error_value ERR_USB_IO_FAILED = 0x0207"
| "error_value ERR_USB_STALL = 0x0208"
| "error_value ERR_USB_OVERFLOW = 0x0209"
| "error_value ERR_USB_PIPE_ERROR = 0x020A"
| "error_value ERR_USB_INTERRUPTED = 0x020B"
| "error_value ERR_USB_NO_MEMORY = 0x020C"
| "error_value ERR_USB_INVALID_ENDPOINT = 0x020D"
| "error_value ERR_USB_INVALID_INTERFACE = 0x020E"
| "error_value ERR_USB_DETACHED = 0x020F"
| "error_value ERR_USB_DESCRIPTOR_ERROR = 0x0210"
| "error_value ERR_DEVICE_BUSY = 0x0211"
| "error_value ERR_PROTOCOL_VERSION = 0x0300"
| "error_value ERR_PROTOCOL_INVALID = 0x0301"
| "error_value ERR_PROTOCOL_UNSUPPORTED = 0x0302"
| "error_value ERR_PROTOCOL_SEQUENCE = 0x0303"
| "error_value ERR_PROTOCOL_HEADER = 0x0304"
| "error_value ERR_PROTOCOL_DATA = 0x0305"
| "error_value ERR_PROTOCOL_CHECKSUM = 0x0306"
| "error_value ERR_PROTOCOL_STATE = 0x0307"
| "error_value ERR_VHCI_INIT = 0x0400"
| "error_value ERR_VHCI_NOT_FOUND = 0x0401"
| "error_value ERR_VHCI_ATTACH_FAILED = 0x0402"
| "error_value ERR_VHCI_DETACH_FAILED = 0x0403"
| "error_value ERR_VHCI_NO_FREE_PORT = 0x0404"
| "error_value ERR_VHCI_INVALID_PORT = 0x0405"
| "error_value ERR_VHCI_DRIVER_ERROR = 0x0406"
| "error_value ERR_SYSTEM_INIT = 0x0500"
| "error_value ERR_THREAD_CREATE = 0x0501"
| "error_value ERR_THREAD_JOIN = 0x0502"
| "error_value ERR_MUTEX_INIT = 0x0503"
| "error_value ERR_MUTEX_LOCK = 0x0504"
| "error_value ERR_FILE_OPEN = 0x0505"
| "error_value ERR_FILE_READ = 0x0506"
| "error_value ERR_FILE_WRITE = 0x0507"
| "error_value ERR_REGISTRY_ACCESS = 0x0508"
| "error_value ERR_MAX = 0x0509"

text \<open>The message table; the end marker has no message.\<close>

definition error_messages :: "(error_code \<times> string option) list" where
  "error_messages =
    [(ERR_SUCCESS, Some ''Success''),
     (ERR_GENERAL, Some ''General error''),
     (ERR_OUT_OF_MEMORY, Some ''Out of memory''),
     (ERR_INVALID_PARAM, Some ''Invalid parameter''),
     (ERR_NOT_FOUND, Some ''Not found''),
     (ERR_ALREADY_EXISTS, Some ''Already exists''),
     (ERR_NOT_SUPPORTED, Some ''Not supported''),
     (ERR_TIMEOUT, Some ''Operation timed out''),
     (ERR_BUSY, Some ''Resource is busy''),
     (ERR_PERMISSION_DENIED, Some ''Permission denied''),
     (ERR_IO_ERROR, Some ''I/O error''),
     (ERR_BUFFER_TOO_SMALL, Some ''Buffer too small''),
     (ERR_INVALID_STATE, Some ''Invalid state''),
     (ERR_CANCELLED, Some ''Operation cancelled''),
     (ERR_NOT_INITIALIZED, Some ''Not initialized''),
     (ERR_ALREADY_INITIALIZED, Some ''Already initialized''),
     (ERR_NETWORK_INIT, Some ''Network initialization failed''),
     (ERR_SOCKET_CREATE, Some ''Failed to create socket''),
     (ERR_SOCKET_BIND, Some ''Failed to bind socket''),
     (ERR_SOCKET_LISTEN, Some ''Failed to listen on socket''),
     (ERR_SOCKET_ACCEPT, Some ''Failed to accept connection''),
     (ERR_SOCKET_CONNECT, Some ''Failed to connect''),
     (ERR_SOCKET_SEND, Some ''Failed to send data''),
     (ERR_SOCKET_RECV, Some ''Failed to receive data''),
     (ERR_SOCKET_CLOSE, Some ''Failed to close socket''),
     (ERR_SOCKET_OPTION, Some ''Failed to set socket option''),
     (ERR_HOST_NOT_FOUND, Some ''Host not found''),
     (ERR_CONNECTION_REFUSED, Some ''Connection refused''),
     (ERR_CONNECTION_RESET, Some ''Connection reset by peer''),
     (ERR_CONNECTION_TIMEOUT, Some ''Connection timed out''),
     (ERR_NETWORK_UNREACHABLE, Some ''Network is unreachable''),
     (ERR_ADDRESS_IN_USE, Some ''Address already in use''),
     (ERR_USB_INIT, Some ''USB initialization failed''),
     (ERR_USB_NOT_FOUND, Some ''USB device not found''),
     (ERR_USB_ACCESS_DENIED, Some ''USB device access denied''),
     (ERR_USB_BUSY, Some ''USB device is busy''),
     (ERR_USB_NO_DEVICE, Some ''No USB device''),
     (ERR_USB_CLAIM_FAILED, Some ''Failed to claim USB interface''),
     (ERR_USB_RELEASE_FAILED, Some ''Failed to release USB interface''),
     (ERR_USB_IO_FAILED, Some ''USB I/O operation failed''),
     (ERR_USB_STALL, Some ''USB endpoint stall''),
     (ERR_USB_OVERFLOW, Some ''USB data overflow''),
     (ERR_USB_PIPE_ERROR, Some ''USB pipe error''),
     (ERR_USB_INTERRUPTED, Some ''USB operation interrupted''),
     (ERR_USB_NO_MEMORY, Some ''USB no memory''),
     (ERR_USB_INVALID_ENDPOINT, Some ''Invalid USB endpoint''),
     (ERR_USB_INVALID_INTERFACE, Some ''Invalid USB interface''),
     (ERR_USB_DETACHED, Some ''USB device detached''),
     (ERR_USB_DESCRIPTOR_ERROR, Some ''USB descriptor error''),
     (ERR_PROTOCOL_VERSION, Some ''Protocol version mismatch''),
     (ERR_PROTOCOL_INVALID, Some ''Invalid protocol data''),
     (ERR_PROTOCOL_UNSUPPORTED, Some ''Unsupported protocol operation''),
     (ERR_PROTOCOL_SEQUENCE, Some ''Protocol sequence error''),
     (ERR_PROTOCOL_HEADER, Some ''Invalid protocol header''),
     (ERR_PROTOCOL_DATA, Some ''Invalid protocol data''),
     (ERR_PROTOCOL_CHECKSUM, Some ''Protocol checksum error''),
     (ERR_PROTOCOL_STATE, Some ''Invalid protocol state''),
     (ERR_VHCI_INIT, Some ''VHCI initialization failed''),
     (ERR_VHCI_NOT_FOUND, Some ''VHCI driver not found''),
     (ERR_VHCI_ATTACH_FAILED, Some ''Failed to attach device to VHCI''),
     (ERR_VHCI_DETACH_FAILED, Some ''Failed to detach device from VHCI''),
     (ERR_VHCI_NO_FREE_PORT, Some ''No free VHCI port available''),
     (ERR_VHCI_INVALID_PORT, Some ''Invalid VHCI port''),
     (ERR_VHCI_DRIVER_ERROR, Some ''VHCI driver error''),
     (ERR_SYSTEM_INIT, Some ''System initialization failed''),
     (ERR_THREAD_CREATE, Some ''Failed to create thread''),
     (ERR_THREAD_JOIN, Some ''Failed to join thread''),
     (ERR_MUTEX_INIT, Some ''Failed to initialize mutex''),
     (ERR_MUTEX_LOCK, Some ''Failed to lock mutex''),
     (ERR_FILE_OPEN, Some ''Failed to open file''),
     (ERR_FILE_READ, Some ''Failed to read file''),
     (ERR_FILE_WRITE, Some ''Failed to write file''),
     (ERR_REGISTRY_ACCESS, Some ''Failed to access registry''),
     (ERR_MAX, None)]"

text \<open>The search loop: it stops at the entry without a message.\<close>

fun error_string_loop :: "(error_code \<times> string option) list \<Rightarrow> error_code \<Rightarrow> string" where
  "error_string_loop [] code = ''Unknown error''"
| "error_string_loop ((c, None) # t) code = ''Unknown error''"
| "error_string_loop ((c, Some m) # t) code = (if c = code then m else error_string_loop t code)"

definition error_string :: "error_code \<Rightarrow> string" where
  "error_string code = error_string_loop error_messages code"

section \<open>Categories\<close>

definition ERROR_IS_NETWORK :: "error_code \<Rightarrow> bool" where
  "ERROR_IS_NETWORK e \<longleftrightarrow> 0x0100 \<le> error_value e \<and> error_value e < 0x0200"

definition ERROR_IS_USB :: "error_code \<Rightarrow> bool" where
  "ERROR_IS_USB e \<longleftrightarrow> 0x0200 \<le> error_value e \<and> error_value e < 0x0300"

definition ERROR_IS_PROTOCOL :: "error_code \<Rightarrow> bool" where
  "ERROR_IS_PROTOCOL e \<longleftrightarrow> 0x0300 \<le> error_value e \<and> error_value e < 0x0400"

definition ERROR_IS_VHCI :: "error_code \<Rightarrow> bool" where
  "ERROR_IS_VHCI e \<longleftrightarrow> 0x0400 \<le> error_value e \<and> error_value e < 0x0500"

definition ERROR_IS_SYSTEM :: "error_code \<Rightarrow> bool" where
  "ERROR_IS_SYSTEM e \<longleftrightarrow> 0x0500 \<le> error_value e \<and> error_value e < 0x0600"

definition IS_SUCCESS :: "error_code \<Rightarrow> bool" where
  "IS_SUCCESS e \<longleftrightarrow> e = ERR_SUCCESS"

definition IS_ERROR :: "error_code \<Rightarrow> bool" where
  "IS_ERROR e \<longleftrightarrow> e \<noteq> ERR_SUCCESS"

section \<open>Numbers identify codes\<close>

definition error_codes :: "error_code list" where
  "error_codes =
    [ERR_SUCCESS, ERR_GENERAL, ERR_OUT_OF_MEMORY, ERR_INVALID_PARAM, ERR_NOT_FOUND,
     ERR_ALREADY_EXISTS, ERR_NOT_SUPPORTED, ERR_TIMEOUT, ERR_BUSY, ERR_PERMISSION_DENIED,
     ERR_IO_ERROR, ERR_BUFFER_TOO_SMALL, ERR_INVALID_STATE, ERR_CANCELLED, ERR_NOT_INITIALIZED,
     ERR_ALREADY_INITIALIZED, ERR_NETWORK_INIT, ERR_SOCKET_CREATE, ERR_SOCKET_BIND,
     ERR_SOCKET_LISTEN, ERR_SOCKET_ACCEPT, ERR_SOCKET_CONNECT, ERR_SOCKET_SEND,
     ERR_SOCKET_RECV, ERR_SOCKET_CLOSE, ERR_SOCKET_OPTION, ERR_HOST_NOT_FOUND,
     ERR_CONNECTION_REFUSED, ERR_CONNECTION_RESET, ERR_CONNECTION_TIMEOUT,
     ERR_NETWORK_UNREACHABLE, ERR_ADDRESS_IN_USE, ERR_USB_INIT, ERR_USB_NOT_FOUND,
     ERR_USB_ACCESS_DENIED, ERR_USB_BUSY, ERR_USB_NO_DEVICE, ERR_USB_CLAIM_FAILED,
     ERR_USB_RELEASE_FAILED, ERR_USB_IO_FAILED, ERR_USB_STALL, ERR_USB_OVERFLOW,
     ERR_USB_PIPE_ERROR, ERR_USB_INTERRUPTED, ERR_USB_NO_MEMORY, ERR_USB_INVALID_ENDPOINT,
     ERR_USB_INVALID_INTERFACE, ERR_USB_DETACHED, ERR_USB_DESCRIPTOR_ERROR, ERR_DEVICE_BUSY,
     ERR_PROTOCOL_VERSION, ERR_PROTOCOL_INVALID, ERR_PROTOCOL_UNSUPPORTED,
     ERR_PROTOCOL_SEQUENCE, ERR_PROTOCOL_HEADER, ERR_PROTOCOL_DATA, ERR_PROTOCOL_CHECKSUM,
     ERR_PROTOCOL_STATE, ERR_VHCI_INIT, ERR_VHCI_NOT_FOUND, ERR_VHCI_ATTACH_FAILED,
     ERR_VHCI_DETACH_FAILED, ERR_VHCI_NO_FREE_PORT, ERR_VHCI_INVALID_PORT,
     ERR_VHCI_DRIVER_ERROR, ERR_SYSTEM_INIT, ERR_THREAD_CREATE, ERR_THREAD_JOIN,
     ERR_MUTEX_INIT, ERR_MUTEX_LOCK, ERR_FILE_OPEN, ERR_FILE_READ, ERR_FILE_WRITE,
     ERR_REGISTRY_ACCESS, ERR_MAX]"

lemma distinct_error_values: "distinct (map error_value error_codes)"
  by (simp add: error_codes_def)

lemma error_codes_UNIV: "e \<in> set error_codes"
  by (cases e) (simp_all add: error_codes_def)

lemma error_value_inject [simp]: "error_value a = error_value b \<longleftrightarrow> a = b"
  using distinct_error_values error_codes_UNIV[of a] error_codes_UNIV[of b]
  by (auto simp: distinct_map dest: inj_onD)

text \<open>The order of the numbers.\<close>

instantiation error_code :: linorder
begin

definition less_eq_error_code :: "error_code \<Rightarrow> error_code \<Rightarrow> bool" where
  "less_eq_error_code a b \<longleftrightarrow> error_value a \<le> error_value b"

definition less_error_code :: "error_code \<Rightarrow> error_code \<Rightarrow> bool" where
  "less_error_code a b \<longleftrightarrow> error_value a < error_value b"

instance
  by standard (auto simp: less_eq_error_code_def less_error_code_def)

end

section \<open>The error context\<close>

record error_context =
  ec_code :: error_code
  ec_system_error :: uint32_t
  ec_socket_error :: int
  ec_message :: string
  ec_file :: string
  ec_line :: int
  ec_function :: string

definition no_error_context :: error_context where
  "no_error_context =
     \<lparr>ec_code = ERR_SUCCESS, ec_system_error = 0, ec_socket_error = 0, ec_message = [],
      ec_file = [], ec_line = 0, ec_function = []\<rparr>"

text \<open>
  \<^verbatim>\<open>snprintf\<close> and \<^verbatim>\<open>vsnprintf\<close> keep at most \<open>n - 1\<close> characters of the formatted text.
\<close>

definition snprintf :: "nat \<Rightarrow> string \<Rightarrow> string" where
  "snprintf n s = take (n - 1) s"

text \<open>
  \<open>error_set\<close> receives the formatted message (\<open>None\<close> for a null format) and the values
  \<^verbatim>\<open>GetLastError()\<close> and \<^verbatim>\<open>WSAGetLastError()\<close> return.
\<close>

definition error_set :: "uint32_t \<Rightarrow> int \<Rightarrow> error_code \<Rightarrow> string \<Rightarrow> int \<Rightarrow> string \<Rightarrow> string option
    \<Rightarrow> error_context \<Rightarrow> error_context" where
  "error_set gle wsa code file line func fmt ctx =
     ctx\<lparr>ec_code := code, ec_system_error := gle, ec_socket_error := wsa, ec_file := file,
         ec_line := line, ec_function := func,
         ec_message := (case fmt of Some m \<Rightarrow> snprintf 256 m | None \<Rightarrow> [])\<rparr>"

definition error_clear :: "error_context \<Rightarrow> error_context" where
  "error_clear ctx = no_error_context"

definition error_get_code :: "error_context \<Rightarrow> error_code" where
  "error_get_code ctx = ec_code ctx"

definition error_get_system :: "error_context \<Rightarrow> uint32_t" where
  "error_get_system ctx = ec_system_error ctx"

text \<open>Decimal printing, as \<^verbatim>\<open>%u\<close>, \<^verbatim>\<open>%d\<close> and \<^verbatim>\<open>%lu\<close> do on non-negative numbers.\<close>

definition digit_char :: "nat \<Rightarrow> char" where
  "digit_char d = char_of (48 + d)"

fun show_nat :: "nat \<Rightarrow> string" where
  "show_nat n = (if n < 10 then [digit_char n] else show_nat (n div 10) @ [digit_char (n mod 10)])"

declare show_nat.simps [simp del]

text \<open>Trailing line breaks of the system's message are cut off.\<close>

definition strip_newlines :: "string \<Rightarrow> string" where
  "strip_newlines s = rev (dropWhile (\<lambda>c. c = CHR 0x0A \<or> c = CHR 0x0D) (rev s))"

text \<open>\<open>fmt_msg\<close> is the text \<^verbatim>\<open>FormatMessageA\<close> leaves in a 256-byte buffer for a system error.\<close>

definition error_detail :: "(uint32_t \<Rightarrow> string) \<Rightarrow> error_context \<Rightarrow> string" where
  "error_detail fmt_msg ctx =
     (let sys = (if ec_system_error ctx \<noteq> 0
                 then strip_newlines (fmt_msg (ec_system_error ctx)) else []);
          name = error_string (ec_code ctx);
          num = show_nat (unat (ec_system_error ctx))
      in if ec_message ctx \<noteq> [] then
           if sys \<noteq> [] then
             snprintf 1024 (name @ '': '' @ ec_message ctx @ '' (System: '' @ sys @ '' ['' @ num @ ''])'')
           else snprintf 1024 (name @ '': '' @ ec_message ctx)
         else if sys \<noteq> [] then snprintf 1024 (name @ '' (System: '' @ sys @ '' ['' @ num @ ''])'')
         else snprintf 1024 name)"

lemma length_snprintf: "length (snprintf n s) \<le> n - 1"
  by (simp add: snprintf_def)

text \<open>The loop answers the unknown message exactly for the codes the table does not list.\<close>

lemma error_string_loop_unknown:
  assumes "\<forall>x \<in> set t. snd x \<noteq> None \<and> snd x \<noteq> Some ''Unknown error''"
  shows "error_string_loop (t @ [(c, None)]) code = ''Unknown error'' \<longleftrightarrow> code \<notin> fst ` set t"
  using assms
proof (induction t)
  case Nil
  then show ?case by simp
next
  case (Cons x t)
  then show ?case by (cases x; cases "snd x") auto
qed

lemma error_messages_split:
  "error_messages = butlast error_messages @ [(ERR_MAX, None)]"
  by (simp add: error_messages_def)

lemma error_messages_all:
  "\<forall>x \<in> set (butlast error_messages). snd x \<noteq> None \<and> snd x \<noteq> Some ''Unknown error''"
  by (simp add: error_messages_def)

lemma error_messages_codes:
  "map fst (butlast error_messages) = filter (\<lambda>e. e \<noteq> ERR_DEVICE_BUSY \<and> e \<noteq> ERR_MAX) error_codes"
  by (simp add: error_messages_def error_codes_def)

lemma error_messages_dom:
  "code \<in> fst ` set (butlast error_messages) \<longleftrightarrow> code \<noteq> ERR_DEVICE_BUSY \<and> code \<noteq> ERR_MAX"
proof -
  have "fst ` set (butlast error_messages) = set (map fst (butlast error_messages))"
    by simp
  also have "\<dots> = {e \<in> set error_codes. e \<noteq> ERR_DEVICE_BUSY \<and> e \<noteq> ERR_MAX}"
    by (simp only: error_messages_codes set_filter)
  finally show ?thesis
    using error_codes_UNIV[of code] by (simp only: mem_Collect_eq simp_thms)
qed

lemma show_nat_digits: "c \<in> set (show_nat n) \<Longrightarrow> 48 \<le> (of_char c :: nat) \<and> (of_char c :: nat) \<le> 57"
proof (induction n rule: show_nat.induct)
  case (1 n)
  then show ?case
    by (subst (asm) show_nat.simps)
      (auto simp: digit_char_def of_char_of take_bit_eq_mod split: if_splits)
qed

lemma show_nat_small: "n < 10 \<Longrightarrow> show_nat n = [digit_char n]"
  by (simp add: show_nat.simps)

section \<open>Properties\<close>

text \<open>
  Every code of the enumeration has its own message in the table, except
  \<^verbatim>\<open>ERR_DEVICE_BUSY\<close>, which the table leaves out although the server returns it when a
  device is already exported, and the end marker \<^verbatim>\<open>ERR_MAX\<close>: for these two, and only for
  these, \<open>error_string\<close> falls through to the unknown message.
\<close>

lemma error_string_unknown_iff:
  "error_string e = ''Unknown error'' \<longleftrightarrow> e = ERR_DEVICE_BUSY \<or> e = ERR_MAX"
  unfolding error_string_def
  by (subst error_messages_split)
    (simp only: error_string_loop_unknown[OF error_messages_all] error_messages_dom de_Morgan_conj not_not)

text \<open>
  The number ranges of \<^verbatim>\<open>error.h\<close> classify every code: it is success, a general error
  below \<open>0x0100\<close>, or in exactly one of the five ranges the category macros test.
\<close>

lemma error_categories_partition:
  "length (filter id [e = ERR_SUCCESS, ERR_SUCCESS < e \<and> e < ERR_NETWORK_INIT, ERROR_IS_NETWORK e,
     ERROR_IS_USB e, ERROR_IS_PROTOCOL e, ERROR_IS_VHCI e, ERROR_IS_SYSTEM e]) = 1"
  by (cases e) (simp_all add: less_error_code_def ERROR_IS_NETWORK_def ERROR_IS_USB_def
      ERROR_IS_PROTOCOL_def ERROR_IS_VHCI_def ERROR_IS_SYSTEM_def)

text \<open>
  Whatever the recorded context and whatever text the operating system supplies, the
  detail message fits the 1024-byte thread-local buffer, and recording an error keeps the
  custom message within its 256-byte field.
\<close>

lemma error_detail_bounded:
  "length (error_detail fmt_msg ctx) < 1024 \<and>
   length (ec_message (error_set gle wsa code file line func fmt ctx)) < 256 \<and>
   error_get_code (error_set gle wsa code file line func fmt ctx) = code \<and>
   error_get_code (error_clear ctx) = ERR_SUCCESS"
  by (auto simp: error_detail_def error_set_def error_clear_def error_get_code_def
      no_error_context_def Let_def snprintf_def split: option.splits)

end
