(* ===== verification/Wire_Protocol.thy ===== *)
theory Wire_Protocol
  imports Error_Codes
begin

text \<open>
  The USB/IP message formats: the structures of \<^verbatim>\<open>common/protocol.h\<close> and the functions
  of \<^verbatim>\<open>common/protocol.c\<close> that build, pack, unpack, validate and name messages (the
  ones that do I/O are in theory \<open>Protocol_IO\<close>).

  A structure is a record. Its memory image (\<open>mem_\<dots>\<close>) is the packed little-endian layout
  the compiler uses; \<open>\<dots>_of_mem\<close> reads the structure back from received bytes. Packing
  swaps the bytes of every multi-byte field in place, so the memory image of a packed
  structure is the big-endian wire image (\<open>wire_\<dots>\<close>). The union of \<^verbatim>\<open>usbip_header_t\<close> is
  its 28 raw bytes, with one view per member.
\<close>

section \<open>Constants\<close>

abbreviation (input) USBIP_PROTO_VERSION :: uint16_t where "USBIP_PROTO_VERSION \<equiv> 0x0111"
abbreviation (input) OP_REQ_DEVLIST :: uint16_t where "OP_REQ_DEVLIST \<equiv> 0x8005"
abbreviation (input) OP_REQ_IMPORT :: uint16_t where "OP_REQ_IMPORT \<equiv> 0x8003"
abbreviation (input) OP_REP_DEVLIST :: uint16_t where "OP_REP_DEVLIST \<equiv> 0x0005"
abbreviation (input) OP_REP_IMPORT :: uint16_t where "OP_REP_IMPORT \<equiv> 0x0003"
abbreviation (input) USBIP_CMD_SUBMIT :: uint32_t where "USBIP_CMD_SUBMIT \<equiv> 1"
abbreviation (input) USBIP_CMD_UNLINK :: uint32_t where "USBIP_CMD_UNLINK \<equiv> 2"
abbreviation (input) USBIP_RET_SUBMIT :: uint32_t where "USBIP_RET_SUBMIT \<equiv> 3"
abbreviation (input) USBIP_RET_UNLINK :: uint32_t where "USBIP_RET_UNLINK \<equiv> 4"
abbreviation (input) USBIP_ST_OK :: uint32_t where "USBIP_ST_OK \<equiv> 0"
abbreviation (input) USBIP_ST_NA :: uint32_t where "USBIP_ST_NA \<equiv> 1"
abbreviation (input) USBIP_ST_DEV_BUSY :: uint32_t where "USBIP_ST_DEV_BUSY \<equiv> 2"
abbreviation (input) USBIP_ST_DEV_ERR :: uint32_t where "USBIP_ST_DEV_ERR \<equiv> 3"
abbreviation (input) USBIP_ST_NODEV :: uint32_t where "USBIP_ST_NODEV \<equiv> 4"
abbreviation (input) USBIP_ST_ERROR :: uint32_t where "USBIP_ST_ERROR \<equiv> 5"
abbreviation (input) USBIP_DIR_OUT :: uint32_t where "USBIP_DIR_OUT \<equiv> 0"
abbreviation (input) USBIP_DIR_IN :: uint32_t where "USBIP_DIR_IN \<equiv> 1"
abbreviation (input) USBIP_PATH_MAX :: nat where "USBIP_PATH_MAX \<equiv> 256"
abbreviation (input) USBIP_BUSID_MAX :: nat where "USBIP_BUSID_MAX \<equiv> 32"

section \<open>Structures and their memory images\<close>

record usbip_header_basic =
  hb_version :: uint16_t
  hb_command :: uint16_t
  hb_status :: uint32_t

record usbip_usb_device =
  ud_path :: cbuf
  ud_busid :: cbuf
  ud_busnum :: uint32_t
  ud_devnum :: uint32_t
  ud_speed :: uint32_t
  ud_idVendor :: uint16_t
  ud_idProduct :: uint16_t
  ud_bcdDevice :: uint16_t
  ud_bDeviceClass :: uint8_t
  ud_bDeviceSubClass :: uint8_t
  ud_bDeviceProtocol :: uint8_t
  ud_bConfigurationValue :: uint8_t
  ud_bNumConfigurations :: uint8_t
  ud_bNumInterfaces :: uint8_t

record usbip_usb_interface =
  ui_bInterfaceClass :: uint8_t
  ui_bInterfaceSubClass :: uint8_t
  ui_bInterfaceProtocol :: uint8_t
  ui_padding :: uint8_t

record usbip_op_devlist_reply =
  dr_header :: usbip_header_basic
  dr_ndev :: uint32_t

record usbip_op_import_request =
  iq_header :: usbip_header_basic
  iq_busid :: cbuf

record usbip_op_import_reply =
  ir_header :: usbip_header_basic
  ir_device :: usbip_usb_device

record usbip_header_common =
  hc_command :: uint32_t
  hc_seqnum :: uint32_t
  hc_devid :: uint32_t
  hc_direction :: uint32_t
  hc_ep :: uint32_t

text \<open>The URB header: the common part and the 28 bytes of the union.\<close>

record usbip_header =
  uh_common :: usbip_header_common
  uh_u :: "byte list"

record usbip_header_cmd_submit =
  cs_transfer_flags :: uint32_t
  cs_transfer_buffer_length :: uint32_t
  cs_start_frame :: uint32_t
  cs_number_of_packets :: uint32_t
  cs_interval :: uint32_t
  cs_setup :: "byte list"

record usbip_header_ret_submit =
  rs_status :: uint32_t
  rs_actual_length :: uint32_t
  rs_start_frame :: uint32_t
  rs_number_of_packets :: uint32_t
  rs_error_count :: uint32_t
  rs_setup :: "byte list"

record usbip_iso_packet_descriptor =
  iso_offset :: uint32_t
  iso_length :: uint32_t
  iso_actual_length :: uint32_t
  iso_status :: uint32_t

text \<open>The views of the union, by byte offset in the packed members.\<close>

definition u_cmd_submit :: "byte list \<Rightarrow> usbip_header_cmd_submit" where
  "u_cmd_submit u =
     \<lparr>cs_transfer_flags = load32 u 0, cs_transfer_buffer_length = load32 u 4,
      cs_start_frame = load32 u 8, cs_number_of_packets = load32 u 12,
      cs_interval = load32 u 16, cs_setup = take 8 (drop 20 u)\<rparr>"

definition u_ret_submit :: "byte list \<Rightarrow> usbip_header_ret_submit" where
  "u_ret_submit u =
     \<lparr>rs_status = load32 u 0, rs_actual_length = load32 u 4,
      rs_start_frame = load32 u 8, rs_number_of_packets = load32 u 12,
      rs_error_count = load32 u 16, rs_setup = take 8 (drop 20 u)\<rparr>"

definition u_cmd_unlink_seqnum :: "byte list \<Rightarrow> uint32_t" where
  "u_cmd_unlink_seqnum u = load32 u 0"

definition u_ret_unlink_status :: "byte list \<Rightarrow> uint32_t" where
  "u_ret_unlink_status u = load32 u 0"

definition mem_header_basic :: "usbip_header_basic \<Rightarrow> byte list" where
  "mem_header_basic h = mem16 (hb_version h) @ mem16 (hb_command h) @ mem32 (hb_status h)"

definition header_basic_of_mem :: "byte list \<Rightarrow> usbip_header_basic" where
  "header_basic_of_mem m =
     \<lparr>hb_version = load16 m 0, hb_command = load16 m 2, hb_status = load32 m 4\<rparr>"

definition mem_device :: "usbip_usb_device \<Rightarrow> byte list" where
  "mem_device d = ud_path d @ ud_busid d @ mem32 (ud_busnum d) @ mem32 (ud_devnum d) @
     mem32 (ud_speed d) @ mem16 (ud_idVendor d) @ mem16 (ud_idProduct d) @ mem16 (ud_bcdDevice d) @
     [ud_bDeviceClass d, ud_bDeviceSubClass d, ud_bDeviceProtocol d, ud_bConfigurationValue d,
      ud_bNumConfigurations d, ud_bNumInterfaces d]"

definition device_of_mem :: "byte list \<Rightarrow> usbip_usb_device" where
  "device_of_mem m =
     \<lparr>ud_path = take 256 m, ud_busid = take 32 (drop 256 m), ud_busnum = load32 m 288,
      ud_devnum = load32 m 292, ud_speed = load32 m 296, ud_idVendor = load16 m 300,
      ud_idProduct = load16 m 302, ud_bcdDevice = load16 m 304, ud_bDeviceClass = m ! 306,
      ud_bDeviceSubClass = m ! 307, ud_bDeviceProtocol = m ! 308,
      ud_bConfigurationValue = m ! 309, ud_bNumConfigurations = m ! 310,
      ud_bNumInterfaces = m ! 311\<rparr>"

definition mem_interface :: "usbip_usb_interface \<Rightarrow> byte list" where
  "mem_interface i =
     [ui_bInterfaceClass i, ui_bInterfaceSubClass i, ui_bInterfaceProtocol i, ui_padding i]"

definition interface_of_mem :: "byte list \<Rightarrow> usbip_usb_interface" where
  "interface_of_mem m =
     \<lparr>ui_bInterfaceClass = m ! 0, ui_bInterfaceSubClass = m ! 1, ui_bInterfaceProtocol = m ! 2,
      ui_padding = m ! 3\<rparr>"

definition mem_common :: "usbip_header_common \<Rightarrow> byte list" where
  "mem_common c = mem32 (hc_command c) @ mem32 (hc_seqnum c) @ mem32 (hc_devid c) @
     mem32 (hc_direction c) @ mem32 (hc_ep c)"

definition mem_header :: "usbip_header \<Rightarrow> byte list" where
  "mem_header h = mem_common (uh_common h) @ uh_u h"

definition header_of_mem :: "byte list \<Rightarrow> usbip_header" where
  "header_of_mem m =
     \<lparr>uh_common = \<lparr>hc_command = load32 m 0, hc_seqnum = load32 m 4, hc_devid = load32 m 8,
        hc_direction = load32 m 12, hc_ep = load32 m 16\<rparr>,
      uh_u = drop 20 m\<rparr>"

definition mem_iso_packet :: "usbip_iso_packet_descriptor \<Rightarrow> byte list" where
  "mem_iso_packet p = mem32 (iso_offset p) @ mem32 (iso_length p) @ mem32 (iso_actual_length p) @
     mem32 (iso_status p)"

definition iso_packet_of_mem :: "byte list \<Rightarrow> usbip_iso_packet_descriptor" where
  "iso_packet_of_mem m =
     \<lparr>iso_offset = load32 m 0, iso_length = load32 m 4, iso_actual_length = load32 m 8,
      iso_status = load32 m 12\<rparr>"

text \<open>The arrays have their declared sizes.\<close>

definition device_wf :: "usbip_usb_device \<Rightarrow> bool" where
  "device_wf d \<longleftrightarrow> length (ud_path d) = USBIP_PATH_MAX \<and> length (ud_busid d) = USBIP_BUSID_MAX"

definition header_wf :: "usbip_header \<Rightarrow> bool" where
  "header_wf h \<longleftrightarrow> length (uh_u h) = 28"

section \<open>Packing and unpacking\<close>

definition usbip_pack_header_basic :: "usbip_header_basic \<Rightarrow> usbip_header_basic" where
  "usbip_pack_header_basic h =
     h\<lparr>hb_version := htobe16 (hb_version h), hb_command := htobe16 (hb_command h),
       hb_status := htobe32 (hb_status h)\<rparr>"

definition usbip_unpack_header_basic :: "usbip_header_basic \<Rightarrow> usbip_header_basic" where
  "usbip_unpack_header_basic h =
     h\<lparr>hb_version := be16toh (hb_version h), hb_command := be16toh (hb_command h),
       hb_status := be32toh (hb_status h)\<rparr>"

definition usbip_pack_device :: "usbip_usb_device \<Rightarrow> usbip_usb_device" where
  "usbip_pack_device d =
     d\<lparr>ud_busnum := htobe32 (ud_busnum d), ud_devnum := htobe32 (ud_devnum d),
       ud_speed := htobe32 (ud_speed d), ud_idVendor := htobe16 (ud_idVendor d),
       ud_idProduct := htobe16 (ud_idProduct d), ud_bcdDevice := htobe16 (ud_bcdDevice d)\<rparr>"

definition usbip_unpack_device :: "usbip_usb_device \<Rightarrow> usbip_usb_device" where
  "usbip_unpack_device d =
     d\<lparr>ud_busnum := be32toh (ud_busnum d), ud_devnum := be32toh (ud_devnum d),
       ud_speed := be32toh (ud_speed d), ud_idVendor := be16toh (ud_idVendor d),
       ud_idProduct := be16toh (ud_idProduct d), ud_bcdDevice := be16toh (ud_bcdDevice d)\<rparr>"

text \<open>\<^verbatim>\<open>swap32\<close> and \<^verbatim>\<open>unswap32\<close> applied to a field of the union.\<close>

definition swap32_at :: "byte list \<Rightarrow> nat \<Rightarrow> byte list" where
  "swap32_at m i = store32 m i (htobe32 (load32 m i))"

definition unswap32_at :: "byte list \<Rightarrow> nat \<Rightarrow> byte list" where
  "unswap32_at m i = store32 m i (be32toh (load32 m i))"

definition usbip_pack_header :: "usbip_header \<Rightarrow> uint32_t \<Rightarrow> usbip_header" where
  "usbip_pack_header h cmd =
     h\<lparr>uh_common :=
         \<lparr>hc_command = htobe32 (hc_command (uh_common h)),
          hc_seqnum = htobe32 (hc_seqnum (uh_common h)),
          hc_devid = htobe32 (hc_devid (uh_common h)),
          hc_direction = htobe32 (hc_direction (uh_common h)),
          hc_ep = htobe32 (hc_ep (uh_common h))\<rparr>,
       uh_u :=
         (if cmd = USBIP_CMD_SUBMIT \<or> cmd = USBIP_RET_SUBMIT then
            swap32_at (swap32_at (swap32_at (swap32_at (swap32_at (uh_u h) 0) 4) 8) 12) 16
          else if cmd = USBIP_CMD_UNLINK \<or> cmd = USBIP_RET_UNLINK then swap32_at (uh_u h) 0
          else uh_u h)\<rparr>"

definition usbip_unpack_header :: "usbip_header \<Rightarrow> usbip_header" where
  "usbip_unpack_header h =
     (let c = \<lparr>hc_command = be32toh (hc_command (uh_common h)),
               hc_seqnum = be32toh (hc_seqnum (uh_common h)),
               hc_devid = be32toh (hc_devid (uh_common h)),
               hc_direction = be32toh (hc_direction (uh_common h)),
               hc_ep = be32toh (hc_ep (uh_common h))\<rparr>;
          cmd = hc_command c
      in h\<lparr>uh_common := c,
           uh_u :=
             (if cmd = USBIP_CMD_SUBMIT \<or> cmd = USBIP_RET_SUBMIT then
                unswap32_at (unswap32_at (unswap32_at (unswap32_at (unswap32_at (uh_u h) 0) 4) 8) 12) 16
              else if cmd = USBIP_CMD_UNLINK \<or> cmd = USBIP_RET_UNLINK then unswap32_at (uh_u h) 0
              else uh_u h)\<rparr>)"

definition usbip_pack_iso_packet :: "usbip_iso_packet_descriptor \<Rightarrow> usbip_iso_packet_descriptor" where
  "usbip_pack_iso_packet p =
     \<lparr>iso_offset = htobe32 (iso_offset p), iso_length = htobe32 (iso_length p),
      iso_actual_length = htobe32 (iso_actual_length p), iso_status = htobe32 (iso_status p)\<rparr>"

definition usbip_unpack_iso_packet :: "usbip_iso_packet_descriptor \<Rightarrow> usbip_iso_packet_descriptor" where
  "usbip_unpack_iso_packet p =
     \<lparr>iso_offset = be32toh (iso_offset p), iso_length = be32toh (iso_length p),
      iso_actual_length = be32toh (iso_actual_length p), iso_status = be32toh (iso_status p)\<rparr>"

section \<open>Building messages\<close>

text \<open>Zeroed structures, the effect of \<^verbatim>\<open>memset(p, 0, sizeof(*p))\<close>.\<close>

definition zero_header_basic :: usbip_header_basic where
  "zero_header_basic = \<lparr>hb_version = 0, hb_command = 0, hb_status = 0\<rparr>"

definition zero_device :: usbip_usb_device where
  "zero_device =
     \<lparr>ud_path = replicate 256 0, ud_busid = replicate 32 0, ud_busnum = 0, ud_devnum = 0,
      ud_speed = 0, ud_idVendor = 0, ud_idProduct = 0, ud_bcdDevice = 0, ud_bDeviceClass = 0,
      ud_bDeviceSubClass = 0, ud_bDeviceProtocol = 0, ud_bConfigurationValue = 0,
      ud_bNumConfigurations = 0, ud_bNumInterfaces = 0\<rparr>"

definition zero_header :: usbip_header where
  "zero_header =
     \<lparr>uh_common = \<lparr>hc_command = 0, hc_seqnum = 0, hc_devid = 0, hc_direction = 0, hc_ep = 0\<rparr>,
      uh_u = replicate 28 0\<rparr>"

definition usbip_create_devlist_request :: usbip_header_basic where
  "usbip_create_devlist_request =
     zero_header_basic\<lparr>hb_version := USBIP_PROTO_VERSION, hb_command := OP_REQ_DEVLIST,
       hb_status := 0\<rparr>"

definition usbip_create_devlist_reply :: "uint32_t \<Rightarrow> usbip_op_devlist_reply" where
  "usbip_create_devlist_reply ndev =
     \<lparr>dr_header = zero_header_basic\<lparr>hb_version := USBIP_PROTO_VERSION,
        hb_command := OP_REP_DEVLIST, hb_status := USBIP_ST_OK\<rparr>,
      dr_ndev = ndev\<rparr>"

text \<open>A null \<open>busid\<close> is \<open>None\<close>; the copy leaves the last of the 32 bytes zero.\<close>

definition usbip_create_import_request :: "cbuf option \<Rightarrow> usbip_op_import_request" where
  "usbip_create_import_request busid =
     \<lparr>iq_header = zero_header_basic\<lparr>hb_version := USBIP_PROTO_VERSION,
        hb_command := OP_REQ_IMPORT, hb_status := 0\<rparr>,
      iq_busid = (case busid of None \<Rightarrow> replicate 32 0
                  | Some b \<Rightarrow> strncpy (replicate 32 0) b 31)\<rparr>"

definition usbip_create_import_reply ::
    "uint32_t \<Rightarrow> usbip_usb_device option \<Rightarrow> usbip_op_import_reply" where
  "usbip_create_import_reply status dev =
     \<lparr>ir_header = zero_header_basic\<lparr>hb_version := USBIP_PROTO_VERSION,
        hb_command := OP_REP_IMPORT, hb_status := status\<rparr>,
      ir_device = (case dev of Some d \<Rightarrow> (if status = USBIP_ST_OK then d else zero_device)
                   | None \<Rightarrow> zero_device)\<rparr>"

definition usbip_create_urb_submit :: "uint32_t \<Rightarrow> uint32_t \<Rightarrow> uint32_t \<Rightarrow> uint32_t \<Rightarrow> uint32_t
    \<Rightarrow> uint32_t \<Rightarrow> byte list option \<Rightarrow> usbip_header" where
  "usbip_create_urb_submit seqnum devid direction ep transfer_flags transfer_buffer_length setup =
     zero_header\<lparr>uh_common :=
         \<lparr>hc_command = USBIP_CMD_SUBMIT, hc_seqnum = seqnum, hc_devid = devid,
          hc_direction = direction, hc_ep = ep\<rparr>,
       uh_u :=
         (let u = store32 (store32 (uh_u zero_header) 0 transfer_flags) 4 transfer_buffer_length
          in case setup of None \<Rightarrow> u | Some s \<Rightarrow> store8s u 20 (take 8 s))\<rparr>"

definition usbip_create_urb_return :: "uint32_t \<Rightarrow> uint32_t \<Rightarrow> uint32_t \<Rightarrow> uint32_t \<Rightarrow> uint32_t
    \<Rightarrow> uint32_t \<Rightarrow> usbip_header" where
  "usbip_create_urb_return seqnum devid direction ep status actual_length =
     zero_header\<lparr>uh_common :=
         \<lparr>hc_command = USBIP_RET_SUBMIT, hc_seqnum = seqnum, hc_devid = devid,
          hc_direction = direction, hc_ep = ep\<rparr>,
       uh_u := store32 (store32 (uh_u zero_header) 0 status) 4 actual_length\<rparr>"

definition usbip_create_urb_unlink :: "uint32_t \<Rightarrow> uint32_t \<Rightarrow> uint32_t \<Rightarrow> usbip_header" where
  "usbip_create_urb_unlink seqnum devid seqnum_to_unlink =
     zero_header\<lparr>uh_common :=
         (uh_common zero_header)\<lparr>hc_command := USBIP_CMD_UNLINK, hc_seqnum := seqnum,
            hc_devid := devid\<rparr>,
       uh_u := store32 (uh_u zero_header) 0 seqnum_to_unlink\<rparr>"

definition usbip_create_urb_unlink_ret :: "uint32_t \<Rightarrow> uint32_t \<Rightarrow> uint32_t \<Rightarrow> usbip_header" where
  "usbip_create_urb_unlink_ret seqnum devid status =
     zero_header\<lparr>uh_common :=
         (uh_common zero_header)\<lparr>hc_command := USBIP_RET_UNLINK, hc_seqnum := seqnum,
            hc_devid := devid\<rparr>,
       uh_u := store32 (uh_u zero_header) 0 status\<rparr>"

section \<open>Validation, names, device identifiers\<close>

definition usbip_validate_version :: "uint16_t \<Rightarrow> bool" where
  "usbip_validate_version v \<longleftrightarrow> v = USBIP_PROTO_VERSION"

definition usbip_validate_command :: "uint16_t \<Rightarrow> bool" where
  "usbip_validate_command c \<longleftrightarrow>
     c = OP_REQ_DEVLIST \<or> c = OP_REP_DEVLIST \<or> c = OP_REQ_IMPORT \<or> c = OP_REP_IMPORT"

definition usbip_validate_urb_command :: "uint32_t \<Rightarrow> bool" where
  "usbip_validate_urb_command c \<longleftrightarrow>
     c = USBIP_CMD_SUBMIT \<or> c = USBIP_CMD_UNLINK \<or> c = USBIP_RET_SUBMIT \<or> c = USBIP_RET_UNLINK"

definition usbip_command_string :: "uint16_t \<Rightarrow> string" where
  "usbip_command_string c =
     (if c = OP_REQ_DEVLIST then ''OP_REQ_DEVLIST''
      else if c = OP_REP_DEVLIST then ''OP_REP_DEVLIST''
      else if c = OP_REQ_IMPORT then ''OP_REQ_IMPORT''
      else if c = OP_REP_IMPORT then ''OP_REP_IMPORT''
      else ''UNKNOWN'')"

definition usbip_urb_command_string :: "uint32_t \<Rightarrow> string" where
  "usbip_urb_command_string c =
     (if c = USBIP_CMD_SUBMIT then ''CMD_SUBMIT''
      else if c = USBIP_CMD_UNLINK then ''CMD_UNLINK''
      else if c = USBIP_RET_SUBMIT then ''RET_SUBMIT''
      else if c = USBIP_RET_UNLINK then ''RET_UNLINK''
      else ''UNKNOWN'')"

definition usbip_status_string :: "uint32_t \<Rightarrow> string" where
  "usbip_status_string s =
     (if s = USBIP_ST_OK then ''OK''
      else if s = USBIP_ST_NA then ''Not Available''
      else if s = USBIP_ST_DEV_BUSY then ''Device Busy''
      else if s = USBIP_ST_DEV_ERR then ''Device Error''
      else if s = USBIP_ST_NODEV then ''No Device''
      else if s = USBIP_ST_ERROR then ''Error''
      else ''Unknown'')"

definition usbip_make_devid :: "uint32_t \<Rightarrow> uint32_t \<Rightarrow> uint32_t" where
  "usbip_make_devid busnum devnum = push_bit 16 busnum OR (devnum AND 0xFFFF)"

definition usbip_devid_busnum :: "uint32_t \<Rightarrow> uint32_t" where
  "usbip_devid_busnum devid = drop_bit 16 devid AND 0xFFFF"

definition usbip_devid_devnum :: "uint32_t \<Rightarrow> uint32_t" where
  "usbip_devid_devnum devid = devid AND 0xFFFF"

definition usbip_is_dir_in :: "uint32_t \<Rightarrow> bool" where
  "usbip_is_dir_in direction \<longleftrightarrow> direction = USBIP_DIR_IN"

definition usbip_is_control_ep :: "uint32_t \<Rightarrow> bool" where
  "usbip_is_control_ep ep \<longleftrightarrow> ep = 0"

section \<open>Swapping fields in raw memory\<close>

lemma length_swap32_at [simp]: "length (swap32_at m i) = length m"
  by (simp add: swap32_at_def)

lemma length_unswap32_at [simp]: "length (unswap32_at m i) = length m"
  by (simp add: unswap32_at_def)

lemma store32_store32_same [simp]: "store32 (store32 m i x) i y = store32 m i y"
  by (rule nth_equalityI) (auto simp: store32_def nth_update)

lemma store32_commute:
  "i + 4 \<le> j \<or> j + 4 \<le> i \<Longrightarrow> store32 (store32 m i x) j y = store32 (store32 m j y) i x"
  by (rule nth_equalityI) (auto simp: store32_def nth_update)

lemma store32_load32 [simp]: "i + 4 \<le> length m \<Longrightarrow> store32 m i (load32 m i) = m"
  by (simp add: store32_def load32_def numeral_eq_Suc)

lemma unswap_swap [simp]: "i + 4 \<le> length m \<Longrightarrow> unswap32_at (swap32_at m i) i = m"
  by (simp add: unswap32_at_def swap32_at_def)

lemma unswap_swap_other [simp]:
  "i + 4 \<le> j \<or> j + 4 \<le> i \<Longrightarrow> unswap32_at (swap32_at m j) i = swap32_at (unswap32_at m i) j"
  by (simp add: unswap32_at_def swap32_at_def store32_commute disj_commute)

text \<open>A swapped field is its big-endian image; the rest of the memory is untouched.\<close>

lemma swap32_at_eq [wire_simps]:
  "i + 4 \<le> length m \<Longrightarrow> swap32_at m i = take i m @ be32 (load32 m i) @ drop (i + 4) m"
  by (rule nth_equalityI)
    (auto simp: swap32_at_def store32_def be32_def load32_def htobe32_def nth_list_update nth_append
      nth_Cons' numeral_eq_Suc intro!: arg_cong[where f = "(!) m"])

section \<open>The wire images\<close>

definition wire_header_basic :: "usbip_header_basic \<Rightarrow> byte list" where
  "wire_header_basic h = be16 (hb_version h) @ be16 (hb_command h) @ be32 (hb_status h)"

definition wire_device :: "usbip_usb_device \<Rightarrow> byte list" where
  "wire_device d = ud_path d @ ud_busid d @ be32 (ud_busnum d) @ be32 (ud_devnum d) @
     be32 (ud_speed d) @ be16 (ud_idVendor d) @ be16 (ud_idProduct d) @ be16 (ud_bcdDevice d) @
     [ud_bDeviceClass d, ud_bDeviceSubClass d, ud_bDeviceProtocol d, ud_bConfigurationValue d,
      ud_bNumConfigurations d, ud_bNumInterfaces d]"

definition wire_common :: "usbip_header_common \<Rightarrow> byte list" where
  "wire_common c = be32 (hc_command c) @ be32 (hc_seqnum c) @ be32 (hc_devid c) @
     be32 (hc_direction c) @ be32 (hc_ep c)"

definition wire_u :: "uint32_t \<Rightarrow> byte list \<Rightarrow> byte list" where
  "wire_u cmd u =
     (if cmd = USBIP_CMD_SUBMIT \<or> cmd = USBIP_RET_SUBMIT then
        be32 (load32 u 0) @ be32 (load32 u 4) @ be32 (load32 u 8) @ be32 (load32 u 12) @
        be32 (load32 u 16) @ drop 20 u
      else if cmd = USBIP_CMD_UNLINK \<or> cmd = USBIP_RET_UNLINK then be32 (load32 u 0) @ drop 4 u
      else u)"

definition wire_header :: "usbip_header \<Rightarrow> byte list" where
  "wire_header h = wire_common (uh_common h) @ wire_u (hc_command (uh_common h)) (uh_u h)"

definition wire_iso_packet :: "usbip_iso_packet_descriptor \<Rightarrow> byte list" where
  "wire_iso_packet p = be32 (iso_offset p) @ be32 (iso_length p) @ be32 (iso_actual_length p) @
     be32 (iso_status p)"

lemma load32_take_append:
  "j + 4 \<le> length p \<Longrightarrow> load32 (p @ m) j = load32 p j"
  by (simp add: load32_def nth_append)

lemma load32_take [simp]: "j + 4 \<le> i \<Longrightarrow> i \<le> length m \<Longrightarrow> load32 (take i m) j = load32 m j"
  by (simp add: load32_def)

lemma load32_swap32_at_other [simp]:
  "i + 4 \<le> j \<or> j + 4 \<le> i \<Longrightarrow> load32 (swap32_at m i) j = load32 m j"
  by (simp add: swap32_at_def)

lemma drop_swap32_at [simp]: "i + 4 \<le> k \<Longrightarrow> drop k (swap32_at m i) = drop k m"
  by (simp add: swap32_at_def store32_def drop_update_cancel)

lemma take_drop_step: "j + 4 \<le> length m \<Longrightarrow>
    take (j + 4) (swap32_at m j) = take j m @ be32 (load32 m j)"
  by (simp add: swap32_at_eq)

lemma swap5_eq [wire_simps]:
  assumes "length u = 28"
  shows "swap32_at (swap32_at (swap32_at (swap32_at (swap32_at u 0) 4) 8) 12) 16 =
    be32 (load32 u 0) @ be32 (load32 u 4) @ be32 (load32 u 8) @ be32 (load32 u 12) @
    be32 (load32 u 16) @ drop 20 u"
proof -
  let ?s0 = "swap32_at u 0" and ?s1 = "swap32_at (swap32_at u 0) 4"
  let ?s2 = "swap32_at (swap32_at (swap32_at u 0) 4) 8"
  let ?s3 = "swap32_at (swap32_at (swap32_at (swap32_at u 0) 4) 8) 12"
  let ?s4 = "swap32_at ?s3 16"
  have t0: "take 4 ?s0 = be32 (load32 u 0)"
    using take_drop_step[of 0 u] assms by simp
  have t1: "take 8 ?s1 = be32 (load32 u 0) @ be32 (load32 u 4)"
    using take_drop_step[of 4 ?s0] assms t0 by simp
  have t2: "take 12 ?s2 = take 8 ?s1 @ be32 (load32 u 8)"
    using take_drop_step[of 8 ?s1] assms by simp
  have t3: "take 16 ?s3 = take 12 ?s2 @ be32 (load32 u 12)"
    using take_drop_step[of 12 ?s2] assms by simp
  have t4: "take 20 ?s4 = take 16 ?s3 @ be32 (load32 u 16)"
    using take_drop_step[of 16 ?s3] assms by simp
  have "?s4 = take 20 ?s4 @ drop 20 ?s4" by (simp only: append_take_drop_id)
  also have "drop 20 ?s4 = drop 20 u" by simp
  finally show ?thesis by (simp add: t4 t3 t2 t1)
qed

text \<open>
  The contract of a packed structure: unpacking undoes packing, the memory image has a
  fixed size and determines the structure, and the image of the packed structure is the
  big-endian wire image.
\<close>

locale wire_codec =
  fixes pack :: "'a \<Rightarrow> 'a"
    and unpack :: "'a \<Rightarrow> 'a"
    and mem :: "'a \<Rightarrow> byte list"
    and of_mem :: "byte list \<Rightarrow> 'a"
    and wire :: "'a \<Rightarrow> byte list"
    and wf :: "'a \<Rightarrow> bool"
    and size_of :: nat
  assumes unpack_pack: "wf x \<Longrightarrow> unpack (pack x) = x"
    and wf_pack: "wf x \<Longrightarrow> wf (pack x)"
    and of_mem_mem: "wf x \<Longrightarrow> of_mem (mem x) = x"
    and length_mem: "wf x \<Longrightarrow> length (mem x) = size_of"
    and mem_pack: "wf x \<Longrightarrow> mem (pack x) = wire x"
begin

lemma decode_wire: "wf x \<Longrightarrow> unpack (of_mem (wire x)) = x"
  using mem_pack of_mem_mem unpack_pack wf_pack by metis

lemma length_wire: "wf x \<Longrightarrow> length (wire x) = size_of"
  using mem_pack length_mem wf_pack by metis

lemma wire_inj: "wf x \<Longrightarrow> wf y \<Longrightarrow> wire x = wire y \<longleftrightarrow> x = y"
  using decode_wire by metis

lemma wire_prefix: "wf x \<Longrightarrow> take size_of (wire x @ rest) = wire x"
  by (simp add: length_wire)

end

lemma header_basic_of_mem_mem: "header_basic_of_mem (mem_header_basic h) = h"
  by (simp add: header_basic_of_mem_def mem_header_basic_def mem16_def mem32_def load16_def
      load32_def numeral_eq_Suc)

lemma iso_packet_of_mem_mem: "iso_packet_of_mem (mem_iso_packet p) = p"
  by (simp add: iso_packet_of_mem_def mem_iso_packet_def mem32_def load32_def numeral_eq_Suc)

lemma interface_of_mem_mem: "interface_of_mem (mem_interface i) = i"
  by (simp add: interface_of_mem_def mem_interface_def)

lemma header_of_mem_mem: "header_of_mem (mem_header h) = h"
  by (simp add: header_of_mem_def mem_header_def mem_common_def mem32_def load32_def numeral_eq_Suc)

text \<open>The 24 bytes after the two character arrays, and reading them at their offsets.\<close>

definition device_tail :: "usbip_usb_device \<Rightarrow> byte list" where
  "device_tail d = mem32 (ud_busnum d) @ mem32 (ud_devnum d) @ mem32 (ud_speed d) @
     mem16 (ud_idVendor d) @ mem16 (ud_idProduct d) @ mem16 (ud_bcdDevice d) @
     [ud_bDeviceClass d, ud_bDeviceSubClass d, ud_bDeviceProtocol d, ud_bConfigurationValue d,
      ud_bNumConfigurations d, ud_bNumInterfaces d]"

lemma device_tail_loads:
  "load32 (device_tail d) 0 = ud_busnum d" "load32 (device_tail d) 4 = ud_devnum d"
  "load32 (device_tail d) 8 = ud_speed d" "load16 (device_tail d) 12 = ud_idVendor d"
  "load16 (device_tail d) 14 = ud_idProduct d" "load16 (device_tail d) 16 = ud_bcdDevice d"
  "device_tail d ! 18 = ud_bDeviceClass d" "device_tail d ! 19 = ud_bDeviceSubClass d"
  "device_tail d ! 20 = ud_bDeviceProtocol d" "device_tail d ! 21 = ud_bConfigurationValue d"
  "device_tail d ! 22 = ud_bNumConfigurations d" "device_tail d ! 23 = ud_bNumInterfaces d"
  by (simp_all add: device_tail_def load32_def load16_def mem32_def mem16_def numeral_eq_Suc)

lemma nth_append_offset: "length p = n \<Longrightarrow> (p @ t) ! (n + j) = t ! j"
  by (simp add: nth_append)

lemma load16_append: "length p = n \<Longrightarrow> load16 (p @ t) (n + j) = load16 t j"
  by (simp add: load16_def nth_append)

lemma device_of_mem_mem:
  assumes "device_wf d"
  shows "device_of_mem (mem_device d) = d"
proof -
  let ?p = "ud_path d @ ud_busid d"
  have m: "mem_device d = ?p @ device_tail d" and l: "length ?p = 288"
    and pb: "length (ud_path d) = 256" "length (ud_busid d) = 32"
    using assms by (simp_all add: mem_device_def device_wf_def device_tail_def)
  have t: "take 256 (?p @ device_tail d) = ud_path d"
    "take 32 (drop 256 (?p @ device_tail d)) = ud_busid d"
    using pb by simp_all
  note at = load32_append[OF l, of "device_tail d"] load16_append[OF l, of "device_tail d"]
    nth_append_offset[OF l, of "device_tail d"]
  have "load32 (?p @ device_tail d) 288 = ud_busnum d" "load32 (?p @ device_tail d) 292 = ud_devnum d"
    "load32 (?p @ device_tail d) 296 = ud_speed d"
    using at(1)[of 0] at(1)[of 4] at(1)[of 8] by (simp_all only: device_tail_loads numeral_plus_numeral add_num_simps add_0_right)
  moreover have "load16 (?p @ device_tail d) 300 = ud_idVendor d"
    "load16 (?p @ device_tail d) 302 = ud_idProduct d" "load16 (?p @ device_tail d) 304 = ud_bcdDevice d"
    using at(2)[of 12] at(2)[of 14] at(2)[of 16] by (simp_all only: device_tail_loads numeral_plus_numeral add_num_simps)
  moreover have "(?p @ device_tail d) ! 306 = ud_bDeviceClass d"
    "(?p @ device_tail d) ! 307 = ud_bDeviceSubClass d" "(?p @ device_tail d) ! 308 = ud_bDeviceProtocol d"
    "(?p @ device_tail d) ! 309 = ud_bConfigurationValue d"
    "(?p @ device_tail d) ! 310 = ud_bNumConfigurations d" "(?p @ device_tail d) ! 311 = ud_bNumInterfaces d"
    using at(3)[of 18] at(3)[of 19] at(3)[of 20] at(3)[of 21] at(3)[of 22] at(3)[of 23]
    by (simp_all only: device_tail_loads numeral_plus_numeral add_num_simps)
  ultimately show ?thesis
    unfolding device_of_mem_def m by (simp only: t) simp
qed

lemma wire_device_eq: "mem_device (usbip_pack_device d) = wire_device d"
  by (simp add: mem_device_def usbip_pack_device_def wire_device_def wire_simps)

lemma wire_u_eq:
  assumes "length (uh_u h) = 28"
  shows "uh_u (usbip_pack_header h c) = wire_u c (uh_u h)"
proof -
  have "swap32_at (uh_u h) 0 = be32 (load32 (uh_u h) 0) @ drop 4 (uh_u h)"
    using assms by (simp add: swap32_at_eq)
  with swap5_eq[OF assms] show ?thesis
    by (simp only: usbip_pack_header_def wire_u_def usbip_header.select_convs) auto
qed

lemma wire_common_eq: "mem_common (uh_common (usbip_pack_header h c)) = wire_common (uh_common h)"
  by (simp add: mem_common_def wire_common_def usbip_pack_header_def wire_simps)

lemma wire_header_eq:
  assumes "header_wf h"
  shows "mem_header (usbip_pack_header h (hc_command (uh_common h))) = wire_header h"
  using assms by (simp add: mem_header_def wire_header_def wire_common_eq wire_u_eq header_wf_def)

lemma usbip_unpack_pack_header:
  assumes "header_wf h"
  shows "usbip_unpack_header (usbip_pack_header h (hc_command (uh_common h))) = h"
  using assms
  by (cases h) (auto simp: usbip_unpack_header_def usbip_pack_header_def header_wf_def Let_def)

lemma header_wf_pack [simp]: "header_wf (usbip_pack_header h c) \<longleftrightarrow> header_wf h"
  by (simp add: header_wf_def usbip_pack_header_def)

lemma header_wf_unpack [simp]: "header_wf (usbip_unpack_header h) \<longleftrightarrow> header_wf h"
  by (simp add: header_wf_def usbip_unpack_header_def Let_def)

interpretation hb: wire_codec usbip_pack_header_basic usbip_unpack_header_basic mem_header_basic
    header_basic_of_mem wire_header_basic "\<lambda>h. True" 8
  by unfold_locales
    (simp_all add: usbip_pack_header_basic_def usbip_unpack_header_basic_def header_basic_of_mem_mem
      wire_header_basic_def wire_simps, simp_all add: mem_header_basic_def wire_simps)

interpretation ud: wire_codec usbip_pack_device usbip_unpack_device mem_device
    device_of_mem wire_device device_wf 312
  by unfold_locales
    (simp_all add: device_of_mem_mem wire_device_eq,
      simp_all add: usbip_pack_device_def usbip_unpack_device_def device_wf_def mem_device_def)

interpretation uh: wire_codec "\<lambda>h. usbip_pack_header h (hc_command (uh_common h))"
    usbip_unpack_header mem_header header_of_mem wire_header header_wf 48
  by unfold_locales
    (simp_all add: usbip_unpack_pack_header header_of_mem_mem wire_header_eq,
      simp_all add: mem_header_def mem_common_def header_wf_def)

interpretation iso: wire_codec usbip_pack_iso_packet usbip_unpack_iso_packet mem_iso_packet
    iso_packet_of_mem wire_iso_packet "\<lambda>p. True" 16
  by unfold_locales
    (simp_all add: usbip_pack_iso_packet_def usbip_unpack_iso_packet_def iso_packet_of_mem_mem,
      simp_all add: mem_iso_packet_def wire_iso_packet_def wire_simps)

text \<open>Interface records hold single bytes only and are sent as they are.\<close>

interpretation ui: wire_codec id id mem_interface interface_of_mem mem_interface "\<lambda>i. True" 4
  by unfold_locales (simp_all add: interface_of_mem_mem, simp_all add: mem_interface_def)

section \<open>Views of built messages\<close>

lemma header_wf_create [simp]:
  "length s = 8 \<Longrightarrow> header_wf (usbip_create_urb_submit sq dv dr ep fl len (Some s))"
  "header_wf (usbip_create_urb_submit sq dv dr ep fl len None)"
  "header_wf (usbip_create_urb_return sq dv dr ep st len)"
  "header_wf (usbip_create_urb_unlink sq dv n)"
  "header_wf (usbip_create_urb_unlink_ret sq dv st)"
  by (simp_all add: header_wf_def usbip_create_urb_submit_def usbip_create_urb_return_def
      usbip_create_urb_unlink_def usbip_create_urb_unlink_ret_def zero_header_def)

lemma device_wf_zero [simp]: "device_wf zero_device"
  by (simp add: device_wf_def zero_device_def)

lemma load32_replicate0 [simp]: "i + 4 \<le> n \<Longrightarrow> load32 (replicate n 0) i = 0"
  by (simp add: load32_def mk32_def)

lemma load32_store8s_before [simp]:
  "j + 4 \<le> i \<Longrightarrow> i \<le> length m \<Longrightarrow> load32 (store8s m i bs) j = load32 m j"
  by (simp add: store8s_def load32_def nth_append)

lemma store8s_slice [simp]:
  "i + length bs \<le> length m \<Longrightarrow> take (length bs) (drop i (store8s m i bs)) = bs"
  by (simp add: store8s_def)

lemma drop_store32 [simp]: "i + 4 \<le> k \<Longrightarrow> drop k (store32 m i x) = drop k m"
  by (simp add: store32_def drop_update_cancel)

section \<open>Properties\<close>



text \<open>
  A device description survives the wire. With its two character arrays at their
  declared sizes, the packed description is 312 bytes (the two arrays first, unchanged),
  two descriptions have the same image only if they are equal, and unpacking the received
  bytes gives the description back.
\<close>

lemma device_roundtrip:
  assumes "length (ud_path d) = 256" and "length (ud_busid d) = 32"
    and "length (ud_path e) = 256" and "length (ud_busid e) = 32"
  shows "length (mem_device (usbip_pack_device d)) = 312 \<and>
    take 288 (mem_device (usbip_pack_device d)) = ud_path d @ ud_busid d \<and>
    usbip_unpack_device (device_of_mem (mem_device (usbip_pack_device d))) = d \<and>
    (mem_device (usbip_pack_device d) = mem_device (usbip_pack_device e) \<longleftrightarrow> d = e)"
proof -
  have wf: "device_wf d" "device_wf e" using assms by (simp_all add: device_wf_def)
  have "take 288 (wire_device d) = ud_path d @ ud_busid d"
    using assms by (simp add: wire_device_def)
  then show ?thesis
    using ud.mem_pack[OF wf(1)] ud.mem_pack[OF wf(2)] ud.length_wire[OF wf(1)]
      ud.decode_wire[OF wf(1)] ud.wire_inj[OF wf]
    by simp
qed

lemma device_roundtrip_example:
  "usbip_unpack_device (device_of_mem (mem_device
      (usbip_pack_device (zero_device\<lparr>ud_busnum := 3, ud_idVendor := 0x1234\<rparr>))))
    = zero_device\<lparr>ud_busnum := 3, ud_idVendor := 0x1234\<rparr>"
  using device_roundtrip[of "zero_device\<lparr>ud_busnum := 3, ud_idVendor := 0x1234\<rparr>" zero_device]
  by (simp add: zero_device_def)

text \<open>
  The device identifier. Both halves of an identifier made from a bus and a device
  number are those numbers modulo \<open>2^16\<close>, and every 32-bit identifier is made from its
  halves.
\<close>

lemma devid_roundtrip:
  "usbip_devid_busnum (usbip_make_devid b d) = b AND 0xFFFF \<and>
   usbip_devid_devnum (usbip_make_devid b d) = d AND 0xFFFF \<and>
   usbip_make_devid (usbip_devid_busnum x) (usbip_devid_devnum x) = x"
proof (intro conjI)
  have m: "(0xFFFF :: uint32_t) = mask 16" by (simp add: mask_eq_exp_minus_1)
  show "usbip_devid_busnum (usbip_make_devid b d) = b AND 0xFFFF"
    by (rule bit_word_eqI) (auto simp: usbip_devid_busnum_def usbip_make_devid_def m bit_simps)
  show "usbip_devid_devnum (usbip_make_devid b d) = d AND 0xFFFF"
    by (rule bit_word_eqI) (auto simp: usbip_devid_devnum_def usbip_make_devid_def m bit_simps)
  show "usbip_make_devid (usbip_devid_busnum x) (usbip_devid_devnum x) = x"
    by (rule bit_word_eqI)
      (auto simp: usbip_devid_devnum_def usbip_devid_busnum_def usbip_make_devid_def m bit_simps)
qed

text \<open>
  An import request always carries a terminated bus identifier: 32 bytes, the last one
  zero, holding the first 31 characters of the argument followed by zeros only, so no
  stale memory is sent.
\<close>

lemma import_request_busid:
  "length (iq_busid (usbip_create_import_request (Some b))) = 32 \<and>
   last (iq_busid (usbip_create_import_request (Some b))) = 0 \<and>
   iq_busid (usbip_create_import_request (Some b)) =
     take 31 (cstr b) @ replicate (32 - length (take 31 (cstr b))) 0 \<and>
   cstr (iq_busid (usbip_create_import_request (Some b))) = take 31 (cstr b)"
proof -
  let ?s = "take 31 (cstr b)"
  have "drop 31 (replicate 32 (0::byte)) = [0]" by (simp add: numeral_eq_Suc)
  then have "iq_busid (usbip_create_import_request (Some b)) = ?s @ replicate (31 - length ?s) 0 @ [0]"
    by (simp only: usbip_create_import_request_def strncpy_def Let_def option.case usbip_op_import_request.simps)
  also have "\<dots> = ?s @ replicate (32 - length ?s) 0"
  proof -
    have "32 - length ?s = Suc (31 - length ?s)" by simp
    then show ?thesis by (metis replicate_append_same replicate_Suc)
  qed
  finally have e: "iq_busid (usbip_create_import_request (Some b)) = ?s @ replicate (32 - length ?s) 0" .
  have "length ?s < 32" by simp
  then show ?thesis unfolding e by (simp add: last_append last_replicate)
qed

end
