(* ===== verification/Network.thy ===== *)
theory Network
  imports Wire_Protocol
begin

text \<open>
  The socket layer, \<^verbatim>\<open>common/network.h\<close> and \<^verbatim>\<open>common/network_win32.c\<close>.

  What Winsock answers is an argument. For data transfer it is the record \<open>conn\<close>: the
  events the receiving side will see, in order (\<open>rx\<close>), how the kernel will take the
  following \<open>send\<close> calls (\<open>txs\<close>), the values \<open>GetTickCount\<close> and \<open>select\<close> will return
  (\<open>ticks\<close>, \<open>sel\<close>), and the bytes accepted so far (\<open>sent\<close>). A call whose answer is not
  in the script blocks for ever: the result is \<open>None\<close>. A \<open>send\<close> beyond its script is
  that of a healthy blocking socket and accepts the whole buffer. For the functions that
  create and configure sockets the answers are the fields of the record \<open>winsock\<close>, and
  the calls made are returned as a trace.
\<close>

section \<open>Streams\<close>

text \<open>
  \<open>RxData bs\<close>: the bytes become available together, an empty chunk is no event.
  \<open>RxWouldBlock\<close> is one call that fails with \<^verbatim>\<open>WSAEWOULDBLOCK\<close>. A closed or failed
  connection stays so.
\<close>

datatype rx_event = RxData "byte list" | RxWouldBlock | RxClosed | RxError
datatype tx_event = TxAccept nat | TxWouldBlock | TxError

datatype io_answer = Count nat | WouldBlock | SockError

record conn =
  rx :: "rx_event list"
  txs :: "tx_event list"
  sent :: "byte list"
  ticks :: "uint32_t list"
  sel :: "int list"

text \<open>\<open>recv\<close>: the answer, the bytes written to the buffer, the remaining script.\<close>

fun sys_recv :: "nat \<Rightarrow> rx_event list \<Rightarrow> (io_answer \<times> byte list \<times> rx_event list) option" where
  "sys_recv n [] = None"
| "sys_recv n (RxWouldBlock # r) = Some (WouldBlock, [], r)"
| "sys_recv n (RxClosed # r) = Some (Count 0, [], RxClosed # r)"
| "sys_recv n (RxError # r) = Some (SockError, [], RxError # r)"
| "sys_recv n (RxData bs # r) =
     (if bs = [] then sys_recv n r
      else if length bs \<le> n then Some (Count (length bs), bs, r)
      else Some (Count n, take n bs, RxData (drop n bs) # r))"

text \<open>\<open>send\<close>: the answer and the remaining script; the first \<open>k\<close> bytes are taken for \<open>Count k\<close>.\<close>

fun sys_send :: "nat \<Rightarrow> tx_event list \<Rightarrow> io_answer \<times> tx_event list" where
  "sys_send n [] = (Count n, [])"
| "sys_send n (TxAccept k # t) = (Count (min k n), t)"
| "sys_send n (TxWouldBlock # t) = (WouldBlock, t)"
| "sys_send n (TxError # t) = (SockError, TxError # t)"

fun_cases sys_recv_cases: "sys_recv n r = Some x"

section \<open>Sending and receiving\<close>

definition net_send :: "byte list \<Rightarrow> conn \<Rightarrow> int \<times> conn" where
  "net_send buf c =
     (case sys_send (length buf) (txs c) of
        (Count k, t) \<Rightarrow> (int k, c\<lparr>txs := t, sent := sent c @ take k buf\<rparr>)
      | (WouldBlock, t) \<Rightarrow> (0, c\<lparr>txs := t\<rparr>)
      | (SockError, t) \<Rightarrow> (-1, c\<lparr>txs := t\<rparr>))"

definition net_recv :: "nat \<Rightarrow> conn \<Rightarrow> (int \<times> byte list \<times> conn) option" where
  "net_recv len c =
     (case sys_recv len (rx c) of
        None \<Rightarrow> None
      | Some (Count k, bs, r) \<Rightarrow> Some (int k, bs, c\<lparr>rx := r\<rparr>)
      | Some (WouldBlock, bs, r) \<Rightarrow> Some (0, [], c\<lparr>rx := r\<rparr>)
      | Some (SockError, bs, r) \<Rightarrow> Some (-1, [], c\<lparr>rx := r\<rparr>))"

text \<open>
  The loop of \<^verbatim>\<open>net_send_all\<close> over the bytes not sent yet: the return value, the accepted
  bytes, the remaining script. \<open>len\<close> is the length of the whole buffer.
\<close>

function net_send_all_loop ::
    "nat \<Rightarrow> byte list \<Rightarrow> tx_event list \<Rightarrow> int \<times> byte list \<times> tx_event list" where
  "net_send_all_loop len rest t =
     (if rest = [] then (int len, [], t)
      else case sys_send (length rest) t of
        (WouldBlock, t') \<Rightarrow> net_send_all_loop len rest t'
      | (SockError, t') \<Rightarrow> (-1, [], t')
      | (Count k, t') \<Rightarrow>
          (if k = 0 then (int (len - length rest), [], t')
           else (case net_send_all_loop len (drop k rest) t' of
                   (ret, bs, t'') \<Rightarrow> (ret, take k rest @ bs, t''))))"
  by pat_completeness auto

lemma sys_send_WouldBlock: "sys_send n t = (WouldBlock, t') \<Longrightarrow> length t' < length t"
  by (cases "(n, t)" rule: sys_send.cases) auto

lemma sys_send_Count:
  "sys_send n t = (Count k, t') \<Longrightarrow> k \<le> n \<and> length t' \<le> length t"
  by (cases "(n, t)" rule: sys_send.cases) auto

termination net_send_all_loop
  by (relation "measures [\<lambda>(len, rest, t). length rest, \<lambda>(len, rest, t). length t]")
    (auto dest: sys_send_WouldBlock[OF sym])

declare net_send_all_loop.simps [simp del]

definition net_send_all :: "byte list \<Rightarrow> conn \<Rightarrow> int \<times> conn" where
  "net_send_all buf c =
     (case net_send_all_loop (length buf) buf (txs c) of
        (ret, bs, t) \<Rightarrow> (ret, c\<lparr>txs := t, sent := sent c @ bs\<rparr>))"

text \<open>
  The loop of \<^verbatim>\<open>net_recv_all\<close>: \<open>got\<close> bytes are in the buffer, \<open>remaining\<close> are missing.
\<close>

function net_recv_all_loop ::
    "nat \<Rightarrow> nat \<Rightarrow> rx_event list \<Rightarrow> (int \<times> byte list \<times> rx_event list) option" where
  "net_recv_all_loop len remaining r =
     (if remaining = 0 then Some (int len, [], r)
      else case sys_recv remaining r of
        None \<Rightarrow> None
      | Some (WouldBlock, _, r') \<Rightarrow> net_recv_all_loop len remaining r'
      | Some (SockError, _, r') \<Rightarrow> Some (-1, [], r')
      | Some (Count k, bs, r') \<Rightarrow>
          (if k = 0 then Some (int (len - remaining), [], r')
           else (case net_recv_all_loop len (remaining - k) r' of
                   None \<Rightarrow> None
                 | Some (ret, bs', r'') \<Rightarrow> Some (ret, bs @ bs', r''))))"
  by pat_completeness auto

lemma sys_recv_WouldBlock: "sys_recv n r = Some (WouldBlock, b, r') \<Longrightarrow> length r' < length r"
  by (induction n r rule: sys_recv.induct) (auto split: if_splits)

termination net_recv_all_loop
  by (relation "measures [\<lambda>(len, remaining, r). remaining, \<lambda>(len, remaining, r). length r]")
    (auto dest: sys_recv_WouldBlock)

declare net_recv_all_loop.simps [simp del]

definition net_recv_all :: "nat \<Rightarrow> conn \<Rightarrow> (int \<times> byte list \<times> conn) option" where
  "net_recv_all len c =
     (case net_recv_all_loop len len (rx c) of
        None \<Rightarrow> None
      | Some (ret, bs, r) \<Rightarrow> Some (ret, bs, c\<lparr>rx := r\<rparr>))"

section \<open>Socket sets and waiting\<close>

type_synonym socket_t = "64 word"

abbreviation (input) INVALID_SOCKET_VAL :: socket_t where "INVALID_SOCKET_VAL \<equiv> -1"

record socket_set =
  read_fds :: "socket_t list"
  write_fds :: "socket_t list"
  error_fds :: "socket_t list"
  max_fd :: int

text \<open>\<^verbatim>\<open>FD_SET\<close> of Winsock: no duplicates, nothing is added beyond \<^verbatim>\<open>FD_SETSIZE\<close> = 64.\<close>

definition FD_SET :: "socket_t \<Rightarrow> socket_t list \<Rightarrow> socket_t list" where
  "FD_SET fd s = (if fd \<in> set s \<or> 64 \<le> length s then s else s @ [fd])"

text \<open>The cast \<^verbatim>\<open>(int)fd\<close>.\<close>

definition int_of_socket :: "socket_t \<Rightarrow> int" where
  "int_of_socket fd = sint (ucast fd :: 32 word)"

definition socket_set_init :: socket_set where
  "socket_set_init = \<lparr>read_fds = [], write_fds = [], error_fds = [], max_fd = 0\<rparr>"

definition socket_set_add_read :: "socket_set \<Rightarrow> socket_t \<Rightarrow> socket_set" where
  "socket_set_add_read s fd =
     s\<lparr>read_fds := FD_SET fd (read_fds s),
       max_fd := (if int_of_socket fd > max_fd s then int_of_socket fd else max_fd s)\<rparr>"

definition socket_set_add_write :: "socket_set \<Rightarrow> socket_t \<Rightarrow> socket_set" where
  "socket_set_add_write s fd =
     s\<lparr>write_fds := FD_SET fd (write_fds s),
       max_fd := (if int_of_socket fd > max_fd s then int_of_socket fd else max_fd s)\<rparr>"

definition socket_set_add_error :: "socket_set \<Rightarrow> socket_t \<Rightarrow> socket_set" where
  "socket_set_add_error s fd =
     s\<lparr>error_fds := FD_SET fd (error_fds s),
       max_fd := (if int_of_socket fd > max_fd s then int_of_socket fd else max_fd s)\<rparr>"

definition socket_is_readable :: "socket_set \<Rightarrow> socket_t \<Rightarrow> bool" where
  "socket_is_readable s fd \<longleftrightarrow> fd \<in> set (read_fds s)"

definition socket_is_writable :: "socket_set \<Rightarrow> socket_t \<Rightarrow> bool" where
  "socket_is_writable s fd \<longleftrightarrow> fd \<in> set (write_fds s)"

definition socket_has_error :: "socket_set \<Rightarrow> socket_t \<Rightarrow> bool" where
  "socket_has_error s fd \<longleftrightarrow> fd \<in> set (error_fds s)"

text \<open>
  The \<open>timeval\<close> that \<^verbatim>\<open>socket_select\<close> passes to \<open>select\<close>: seconds and microseconds, or none
  (wait for ever) for the value \<open>(uint32_t)-1\<close>.
\<close>

definition select_timeval :: "uint32_t \<Rightarrow> (nat \<times> nat) option" where
  "select_timeval timeout_ms =
     (if timeout_ms \<noteq> -1
      then Some (unat (timeout_ms div 1000), unat (timeout_ms mod 1000 * 1000)) else None)"

definition socket_select ::
    "(int \<Rightarrow> socket_set \<Rightarrow> (nat \<times> nat) option \<Rightarrow> int \<times> socket_set) \<Rightarrow> socket_set \<Rightarrow> uint32_t
      \<Rightarrow> int \<times> socket_set" where
  "socket_select select s timeout_ms = select (max_fd s + 1) s (select_timeval timeout_ms)"

section \<open>Transfers with a deadline\<close>

definition GetTickCount :: "conn \<Rightarrow> (uint32_t \<times> conn) option" where
  "GetTickCount c = (case ticks c of [] \<Rightarrow> None | t # ts \<Rightarrow> Some (t, c\<lparr>ticks := ts\<rparr>))"

text \<open>The answer of \<^verbatim>\<open>socket_select\<close> on a set that holds this socket alone.\<close>

definition select_one :: "conn \<Rightarrow> (int \<times> conn) option" where
  "select_one c = (case sel c of [] \<Rightarrow> None | v # vs \<Rightarrow> Some (v, c\<lparr>sel := vs\<rparr>))"

text \<open>
  Every turn of the two loops reads the clock once, so the clock script bounds the
  iterations; the difference of two tick counts is taken modulo \<open>2^32\<close>.
\<close>

function net_send_all_timeout_loop ::
    "nat \<Rightarrow> uint32_t \<Rightarrow> uint32_t \<Rightarrow> byte list \<Rightarrow> conn \<Rightarrow> (int \<times> conn) option" where
  "net_send_all_timeout_loop len start timeout_ms rest c =
     (if rest = [] then Some (int len, c)
      else case GetTickCount c of
        None \<Rightarrow> None
      | Some (now, c1) \<Rightarrow>
          (if now - start \<ge> timeout_ms then Some (-1, c1)
           else case select_one c1 of
             None \<Rightarrow> None
           | Some (result, c2) \<Rightarrow>
               (if result \<le> 0 then Some (-1, c2)
                else case sys_send (length rest) (txs c2) of
                  (WouldBlock, t) \<Rightarrow>
                    net_send_all_timeout_loop len start timeout_ms rest (c2\<lparr>txs := t\<rparr>)
                | (SockError, t) \<Rightarrow> Some (-1, c2\<lparr>txs := t\<rparr>)
                | (Count k, t) \<Rightarrow>
                    net_send_all_timeout_loop len start timeout_ms (drop k rest)
                      (c2\<lparr>txs := t, sent := sent c2 @ take k rest\<rparr>))))"
  by pat_completeness auto

lemma GetTickCount_ticks: "GetTickCount c = Some (now, c1) \<Longrightarrow> length (ticks c1) < length (ticks c)"
  by (auto simp: GetTickCount_def split: list.splits)

lemma select_one_ticks: "select_one c = Some (v, c1) \<Longrightarrow> ticks c1 = ticks c"
  by (auto simp: select_one_def split: list.splits)

termination net_send_all_timeout_loop
  by (relation "measure (\<lambda>(len, start, tmo, rest, c). length (ticks c))")
    (auto dest!: GetTickCount_ticks select_one_ticks)

declare net_send_all_timeout_loop.simps [simp del]

definition net_send_all_timeout :: "byte list \<Rightarrow> uint32_t \<Rightarrow> conn \<Rightarrow> (int \<times> conn) option" where
  "net_send_all_timeout buf timeout_ms c =
     (case GetTickCount c of
        None \<Rightarrow> None
      | Some (start, c1) \<Rightarrow> net_send_all_timeout_loop (length buf) start timeout_ms buf c1)"

function net_recv_all_timeout_loop ::
    "nat \<Rightarrow> uint32_t \<Rightarrow> uint32_t \<Rightarrow> byte list \<Rightarrow> nat \<Rightarrow> conn \<Rightarrow> (int \<times> byte list \<times> conn) option" where
  "net_recv_all_timeout_loop len start timeout_ms got remaining c =
     (if remaining = 0 then Some (int len, got, c)
      else case GetTickCount c of
        None \<Rightarrow> None
      | Some (now, c1) \<Rightarrow>
          (if now - start \<ge> timeout_ms then Some (-1, got, c1)
           else case select_one c1 of
             None \<Rightarrow> None
           | Some (result, c2) \<Rightarrow>
               (if result \<le> 0 then Some (-1, got, c2)
                else case sys_recv remaining (rx c2) of
                  None \<Rightarrow> None
                | Some (WouldBlock, _, r) \<Rightarrow>
                    net_recv_all_timeout_loop len start timeout_ms got remaining (c2\<lparr>rx := r\<rparr>)
                | Some (SockError, _, r) \<Rightarrow> Some (-1, got, c2\<lparr>rx := r\<rparr>)
                | Some (Count k, bs, r) \<Rightarrow>
                    (if k = 0 then Some (int (len - remaining), got, c2\<lparr>rx := r\<rparr>)
                     else net_recv_all_timeout_loop len start timeout_ms (got @ bs) (remaining - k)
                       (c2\<lparr>rx := r\<rparr>)))))"
  by pat_completeness auto
termination net_recv_all_timeout_loop
  by (relation "measure (\<lambda>(len, start, tmo, got, rem, c). length (ticks c))")
    (auto dest!: GetTickCount_ticks select_one_ticks)

declare net_recv_all_timeout_loop.simps [simp del]

definition net_recv_all_timeout :: "nat \<Rightarrow> uint32_t \<Rightarrow> conn \<Rightarrow> (int \<times> byte list \<times> conn) option" where
  "net_recv_all_timeout len timeout_ms c =
     (case GetTickCount c of
        None \<Rightarrow> None
      | Some (start, c1) \<Rightarrow> net_recv_all_timeout_loop len start timeout_ms [] len c1)"

section \<open>What a stream delivers\<close>

text \<open>The bytes a script delivers before it ends, and how it ends.\<close>

datatype rx_status = RxBlocks | RxEnds | RxFails

fun rx_bytes :: "rx_event list \<Rightarrow> byte list" where
  "rx_bytes [] = []"
| "rx_bytes (RxData bs # r) = bs @ rx_bytes r"
| "rx_bytes (RxWouldBlock # r) = rx_bytes r"
| "rx_bytes (RxClosed # r) = []"
| "rx_bytes (RxError # r) = []"

fun rx_end :: "rx_event list \<Rightarrow> rx_status" where
  "rx_end [] = RxBlocks"
| "rx_end (RxData bs # r) = rx_end r"
| "rx_end (RxWouldBlock # r) = rx_end r"
| "rx_end (RxClosed # r) = RxEnds"
| "rx_end (RxError # r) = RxFails"

definition tx_ok :: "tx_event list \<Rightarrow> bool" where
  "tx_ok t \<longleftrightarrow> TxError \<notin> set t \<and> TxAccept 0 \<notin> set t"

lemma sys_recv_None: "sys_recv n r = None \<Longrightarrow> rx_bytes r = [] \<and> rx_end r = RxBlocks"
  by (induction n r rule: sys_recv.induct) (auto split: if_splits)

lemma sys_recv_Count:
  "sys_recv n r = Some (Count k, bs, r') \<Longrightarrow> 0 < n \<Longrightarrow>
     length bs = k \<and> k \<le> n \<and> rx_bytes r = bs @ rx_bytes r' \<and> rx_end r' = rx_end r \<and>
     (k = 0 \<longrightarrow> rx_bytes r = [] \<and> rx_end r = RxEnds)"
  by (induction n r rule: sys_recv.induct) (auto split: if_splits)

lemma sys_recv_WouldBlock_stream:
  "sys_recv n r = Some (WouldBlock, bs, r') \<Longrightarrow> rx_bytes r' = rx_bytes r \<and> rx_end r' = rx_end r"
  by (induction n r rule: sys_recv.induct) (auto split: if_splits)

lemma sys_recv_SockError:
  "sys_recv n r = Some (SockError, bs, r') \<Longrightarrow>
     rx_bytes r = [] \<and> rx_end r = RxFails \<and> rx_bytes r' = [] \<and> rx_end r' = RxFails"
  by (induction n r rule: sys_recv.induct) (auto split: if_splits)

lemmas sys_recv_facts = sys_recv_None sys_recv_Count sys_recv_WouldBlock_stream sys_recv_SockError

text \<open>
  The complete behaviour of the receive loop, in terms of the delivered bytes \<open>b\<close> and the
  end \<open>e\<close> of the script alone.
\<close>

definition recv_spec :: "nat \<Rightarrow> nat \<Rightarrow> byte list \<Rightarrow> rx_status
    \<Rightarrow> (int \<times> byte list \<times> rx_event list) option \<Rightarrow> bool" where
  "recv_spec len n b e out \<longleftrightarrow>
     (case out of
        None \<Rightarrow> length b < n \<and> e = RxBlocks
      | Some (ret, bs, r) \<Rightarrow>
          bs = take n b \<and> rx_bytes r = drop n b \<and> rx_end r = e \<and>
          ret = (if n \<le> length b then int len
                 else if e = RxEnds then int (len - n + length b) else -1) \<and>
          (n \<le> length b \<or> e \<noteq> RxBlocks))"

lemma recv_spec_count:
  assumes "recv_spec len (n - k) b e out" and "length bs = k" and "k \<le> n" and "n \<le> len"
  shows "recv_spec len n (bs @ b) e
    (case out of None \<Rightarrow> None | Some (ret, bs', r) \<Rightarrow> Some (ret, bs @ bs', r))"
  using assms by (auto simp: recv_spec_def split: option.splits)

lemma net_recv_all_loop_spec:
  "n \<le> len \<Longrightarrow> recv_spec len n (rx_bytes r) (rx_end r) (net_recv_all_loop len n r)"
proof (induction len n r rule: net_recv_all_loop.induct)
  case (1 len n r)
  note step = net_recv_all_loop.simps[of len n r]
  show ?case
  proof (cases "n = 0")
    case True
    then show ?thesis by (simp add: net_recv_all_loop.simps[of len 0] recv_spec_def)
  next
    case n: False
    consider (blocked) "sys_recv n r = None"
      | (wouldblock) bs r' where "sys_recv n r = Some (WouldBlock, bs, r')"
      | (failed) bs r' where "sys_recv n r = Some (SockError, bs, r')"
      | (count) k bs r' where "sys_recv n r = Some (Count k, bs, r')"
      by (metis io_answer.exhaust option.exhaust prod_cases3)
    then show ?thesis
    proof cases
      case blocked
      then show ?thesis using n sys_recv_None[OF blocked] by (simp add: step recv_spec_def)
    next
      case wouldblock
      then show ?thesis using n "1.IH"(2)[OF n wouldblock refl refl refl "1.prems"]
          sys_recv_WouldBlock_stream[OF wouldblock] by (simp add: step)
    next
      case failed
      then show ?thesis using n sys_recv_SockError[OF failed] by (simp add: step recv_spec_def)
    next
      case count
      note f = sys_recv_Count[OF count]
      show ?thesis
      proof (cases "k = 0")
        case True
        then show ?thesis using n f count by (auto simp: step recv_spec_def)
      next
        case False
        then have "recv_spec len (n - k) (rx_bytes r') (rx_end r') (net_recv_all_loop len (n - k) r')"
          using n "1.IH"(1)[OF n] "1.prems" count by simp
        then show ?thesis
          using n f count False "1.prems" recv_spec_count[of len n k _ _ _ bs] by (simp add: step)
      qed
    qed
  qed
qed

text \<open>One receive of \<open>n\<close> bytes on a connection, by how the stream goes on.\<close>

lemma net_recv_all_ok:
  assumes "n \<le> length (rx_bytes (rx c))"
  shows "\<exists>r. net_recv_all n c = Some (int n, take n (rx_bytes (rx c)), c\<lparr>rx := r\<rparr>) \<and>
    rx_bytes r = drop n (rx_bytes (rx c)) \<and> rx_end r = rx_end (rx c)"
  using net_recv_all_loop_spec[of n n "rx c"] assms
  by (auto simp: recv_spec_def net_recv_all_def split: option.splits)

lemma net_recv_all_short:
  assumes "length (rx_bytes (rx c)) < n" and "rx_end (rx c) \<noteq> RxBlocks"
  shows "\<exists>ret bs r. net_recv_all n c = Some (ret, bs, c\<lparr>rx := r\<rparr>) \<and> ret \<noteq> int n \<and>
    rx_bytes r = [] \<and> rx_end r = rx_end (rx c)"
  using net_recv_all_loop_spec[of n n "rx c"] assms
  by (auto simp: recv_spec_def net_recv_all_def split: option.splits if_splits)

lemma net_recv_all_None_iff:
  "net_recv_all n c = None \<longleftrightarrow> length (rx_bytes (rx c)) < n \<and> rx_end (rx c) = RxBlocks"
  using net_recv_all_loop_spec[of n n "rx c"]
  by (auto simp: recv_spec_def net_recv_all_def split: option.splits)

lemma net_recv_all_frame:
  "net_recv_all n c = Some (ret, bs, c') \<Longrightarrow> \<exists>r. c' = c\<lparr>rx := r\<rparr>"
  by (auto simp: net_recv_all_def split: option.splits)

lemma net_recv_all_ret:
  assumes "net_recv_all n c = Some (ret, bs, c')"
  shows "ret = int n \<longleftrightarrow> n \<le> length (rx_bytes (rx c))"
    and "bs = take n (rx_bytes (rx c))"
    and "rx_bytes (rx c') = drop n (rx_bytes (rx c))"
    and "rx_end (rx c') = rx_end (rx c)"
  using net_recv_all_loop_spec[of n n "rx c"] assms
  by (auto simp: recv_spec_def net_recv_all_def split: option.splits if_splits)

section \<open>What a sender delivers\<close>

lemma net_send_all_loop_spec:
  "net_send_all_loop len rest t = (ret, bs, t') \<Longrightarrow> length rest \<le> len \<Longrightarrow>
   \<exists>k. bs = take k rest \<and> k \<le> length rest \<and>
     (ret = -1 \<and> k < length rest \<or> ret = int (len - length rest + k)) \<and>
     (tx_ok t \<longrightarrow> ret = int len \<and> bs = rest \<and> tx_ok t')"
proof (induction len rest t arbitrary: ret bs t' rule: net_send_all_loop.induct)
  case (1 len rest t)
  note step = net_send_all_loop.simps[of len rest t]
  show ?case
  proof (cases "rest = []")
    case True
    then show ?thesis using "1.prems" by (simp add: net_send_all_loop.simps[of len "[]"])
  next
    case rest: False
    obtain ans t1 where s: "sys_send (length rest) t = (ans, t1)" by fastforce
    then have ok: "tx_ok t \<Longrightarrow> tx_ok t1 \<and> ans \<noteq> SockError \<and> ans \<noteq> Count 0"
      using rest by (cases "(length rest, t)" rule: sys_send.cases) (auto simp: tx_ok_def min_def split: if_splits)
    show ?thesis
    proof (cases ans)
      case WouldBlock
      then show ?thesis using "1.IH"(2)[OF rest s[symmetric] WouldBlock] "1.prems" rest s ok
        by (auto simp: step)
    next
      case SockError
      then have "ret = -1" "bs = []" using "1.prems" rest s by (simp_all add: step)
      then show ?thesis using SockError rest ok by (auto intro!: exI[of _ 0])
    next
      case (Count k)
      note f = sys_send_Count[OF s[unfolded Count]]
      show ?thesis
      proof (cases "k = 0")
        case True
        then have "ret = int (len - length rest)" "bs = []"
          using "1.prems" rest s Count by (simp_all add: step)
        then show ?thesis using True Count rest ok by (auto intro!: exI[of _ 0])
      next
        case False
        obtain bs1 where l: "net_send_all_loop len (drop k rest) t1 = (ret, bs1, t')"
          and bs: "bs = take k rest @ bs1"
          using "1.prems"(1) rest s Count False by (auto simp: step split: prod.splits)
        obtain j where j: "bs1 = take j (drop k rest)" "j \<le> length (drop k rest)"
          "ret = -1 \<and> j < length (drop k rest) \<or> ret = int (len - length (drop k rest) + j)"
          "tx_ok t1 \<longrightarrow> ret = int len \<and> bs1 = drop k rest \<and> tx_ok t'"
          using "1.IH"(1)[OF rest s[symmetric] Count False l] "1.prems"(2) by fastforce
        have "bs = take (k + j) rest" using j(1) bs by (simp add: take_add)
        moreover have "k + j \<le> length rest" using j(2) f by auto
        moreover have "ret = -1 \<and> k + j < length rest \<or> ret = int (len - length rest + (k + j))"
          using j(2,3) f "1.prems"(2) by auto
        moreover have "tx_ok t \<longrightarrow> ret = int len \<and> bs = rest \<and> tx_ok t'"
          using j(4) ok bs by simp
        ultimately show ?thesis by blast
      qed
    qed
  qed
qed

lemma net_send_all_spec:
  assumes "net_send_all buf c = (ret, c')"
  shows "\<exists>k t. k \<le> length buf \<and> c' = c\<lparr>txs := t, sent := sent c @ take k buf\<rparr> \<and>
    (ret = int k \<or> ret = -1 \<and> k < length buf)"
  using assms net_send_all_loop_spec[of "length buf" buf "txs c"]
  by (fastforce simp: net_send_all_def split: prod.splits)

lemma net_send_all_ok:
  assumes "tx_ok (txs c)"
  shows "\<exists>t. net_send_all buf c = (int (length buf), c\<lparr>txs := t, sent := sent c @ buf\<rparr>) \<and> tx_ok t"
  using assms net_send_all_loop_spec[of "length buf" buf "txs c"]
  by (fastforce simp: net_send_all_def split: prod.splits)

section \<open>Deadlines\<close>

lemma GetTickCount_Some:
  "GetTickCount c = Some (now, c1) \<longleftrightarrow> ticks c = now # ticks c1 \<and> c1 = c\<lparr>ticks := ticks c1\<rparr>"
  by (cases c; cases c1) (auto simp: GetTickCount_def split: list.splits)

lemma select_one_Some:
  "select_one c = Some (v, c1) \<longleftrightarrow> sel c = v # sel c1 \<and> c1 = c\<lparr>sel := sel c1\<rparr>"
  by (cases c; cases c1) (auto simp: select_one_def split: list.splits)

lemma clock_frame:
  "GetTickCount c = Some (now, c1) \<Longrightarrow> rx c1 = rx c \<and> txs c1 = txs c \<and> sent c1 = sent c"
  "select_one c = Some (v, c1) \<Longrightarrow> rx c1 = rx c \<and> txs c1 = txs c \<and> sent c1 = sent c"
  by (auto simp: GetTickCount_def select_one_def split: list.splits)

text \<open>
  A timed receive stores and consumes the next \<open>k\<close> bytes of the stream; it reports the full
  length exactly when all the bytes asked for arrived.
\<close>

definition timed_recv_spec ::
    "nat \<Rightarrow> byte list \<Rightarrow> nat \<Rightarrow> conn \<Rightarrow> (int \<times> byte list \<times> conn) option \<Rightarrow> bool" where
  "timed_recv_spec len got n c out \<longleftrightarrow>
     (case out of None \<Rightarrow> True
      | Some (ret, bs, c') \<Rightarrow>
          (\<exists>k\<le>n. bs = got @ take k (rx_bytes (rx c)) \<and>
             rx_bytes (rx c') = drop k (rx_bytes (rx c)) \<and> k \<le> length (rx_bytes (rx c)) \<and>
             (ret = -1 \<and> k < n \<or> ret = int (len - n + k)) \<and> txs c' = txs c \<and> sent c' = sent c))"

lemma timed_recv_spec_stop:
  "n \<noteq> 0 \<Longrightarrow> rx_bytes (rx c') = rx_bytes (rx c) \<Longrightarrow> txs c' = txs c \<Longrightarrow> sent c' = sent c \<Longrightarrow>
   timed_recv_spec len got n c (Some (-1, got, c'))"
  by (auto simp: timed_recv_spec_def intro!: exI[of _ 0])

lemma timed_recv_spec_count:
  assumes "timed_recv_spec len (got @ bs) (n - k) c2 out" and "length bs = k" and "k \<le> n"
    and "rx_bytes (rx c) = bs @ rx_bytes (rx c2)" and "txs c2 = txs c" and "sent c2 = sent c"
    and "n \<le> len"
  shows "timed_recv_spec len got n c out"
proof (cases out)
  case None
  then show ?thesis by (simp add: timed_recv_spec_def)
next
  case (Some x)
  obtain ret bs' c' where x: "out = Some (ret, bs', c')" using Some by (cases x) auto
  obtain j where j: "j \<le> n - k" "bs' = (got @ bs) @ take j (rx_bytes (rx c2))"
    "rx_bytes (rx c') = drop j (rx_bytes (rx c2))" "j \<le> length (rx_bytes (rx c2))"
    "ret = -1 \<and> j < n - k \<or> ret = int (len - (n - k) + j)" "txs c' = txs c2" "sent c' = sent c2"
    using assms(1) unfolding x timed_recv_spec_def by auto
  have "ret = -1 \<and> k + j < n \<or> ret = int (len - n + (k + j))"
    using j(1,5) assms(3,7) by auto
  then show ?thesis
    using j assms(2-6) unfolding x timed_recv_spec_def option.case prod.case
    by (intro exI[of _ "k + j"] conjI) auto
qed

lemma timed_recv_turn:
  assumes "n \<noteq> 0"
  obtains (blocked) "net_recv_all_timeout_loop len start tmo got n c = None"
  | (stopped) c' where "net_recv_all_timeout_loop len start tmo got n c = Some (-1, got, c')"
      "rx c' = rx c" "txs c' = txs c" "sent c' = sent c"
  | (receive) now c1 v c2 where "GetTickCount c = Some (now, c1)" "\<not> tmo \<le> now - start"
      "select_one c1 = Some (v, c2)" "\<not> v \<le> 0" "rx c2 = rx c" "txs c2 = txs c" "sent c2 = sent c"
      "net_recv_all_timeout_loop len start tmo got n c =
         (case sys_recv n (rx c2) of
            None \<Rightarrow> None
          | Some (WouldBlock, _, r) \<Rightarrow>
              net_recv_all_timeout_loop len start tmo got n (c2\<lparr>rx := r\<rparr>)
          | Some (SockError, _, r) \<Rightarrow> Some (-1, got, c2\<lparr>rx := r\<rparr>)
          | Some (Count k, bs, r) \<Rightarrow>
              (if k = 0 then Some (int (len - n), got, c2\<lparr>rx := r\<rparr>)
               else net_recv_all_timeout_loop len start tmo (got @ bs) (n - k) (c2\<lparr>rx := r\<rparr>)))"
proof -
  note step = net_recv_all_timeout_loop.simps[of len start tmo got n c]
  show ?thesis
  proof (cases "GetTickCount c")
    case None
    then show ?thesis using blocked assms by (simp add: step)
  next
    case tick: (Some a)
    obtain now c1 where a: "a = (now, c1)" by fastforce
    note f1 = clock_frame(1)[OF tick[unfolded a]]
    show ?thesis
    proof (cases "tmo \<le> now - start")
      case True
      then show ?thesis using stopped[of c1] assms tick a f1 by (simp add: step)
    next
      case live: False
      show ?thesis
      proof (cases "select_one c1")
        case None
        then show ?thesis using blocked assms tick a live by (simp add: step)
      next
        case sel: (Some b)
        obtain v c2 where b: "b = (v, c2)" by fastforce
        note f2 = clock_frame(2)[OF sel[unfolded b]]
        show ?thesis
          using stopped[of c2] receive[OF tick[unfolded a] live sel[unfolded b]] assms tick a live sel b f1 f2
          by (cases "v \<le> 0") (simp_all add: step)
      qed
    qed
  qed
qed

lemma net_recv_all_timeout_loop_spec:
  "n \<le> len \<Longrightarrow>
   timed_recv_spec len got n c (net_recv_all_timeout_loop len start tmo got n c)"
proof (induction len start tmo got n c rule: net_recv_all_timeout_loop.induct)
  case (1 len start tmo got n c)
  show ?case
  proof (cases "n = 0")
    case True
    then show ?thesis
      by (simp add: net_recv_all_timeout_loop.simps[of _ _ _ _ 0] timed_recv_spec_def)
  next
    case n: False
    then show ?thesis
    proof (cases rule: timed_recv_turn[of n len start tmo got c])
      case (receive now c1 v c2)
      note ih = "1.IH"[OF n receive(1) refl receive(2,3) refl receive(4)]
      consider (blocked) "sys_recv n (rx c2) = None"
        | (wouldblock) bs r' where "sys_recv n (rx c2) = Some (WouldBlock, bs, r')"
        | (failed) bs r' where "sys_recv n (rx c2) = Some (SockError, bs, r')"
        | (count) k bs r' where "sys_recv n (rx c2) = Some (Count k, bs, r')"
        by (metis io_answer.exhaust option.exhaust prod_cases3)
      then show ?thesis
      proof cases
        case blocked
        then show ?thesis using receive by (simp add: timed_recv_spec_def)
      next
        case wouldblock
        then show ?thesis
          using ih(2)[OF wouldblock refl refl refl "1.prems"] receive
            sys_recv_WouldBlock_stream[OF wouldblock]
            timed_recv_spec_count[of len got "[]" n 0 "c2\<lparr>rx := r'\<rparr>" _ c] "1.prems"
          by simp
      next
        case failed
        then show ?thesis using receive n sys_recv_SockError[OF failed]
          by (auto intro!: timed_recv_spec_stop)
      next
        case count
        note f = sys_recv_Count[OF count]
        have n0: "0 < n" using n by simp
        show ?thesis
        proof (cases "k = 0")
          case True
          then show ?thesis using f[OF n0] count receive
            by (auto simp: timed_recv_spec_def intro!: exI[of _ 0])
        next
          case False
          then have "timed_recv_spec len (got @ bs) (n - k) (c2\<lparr>rx := r'\<rparr>)
              (net_recv_all_timeout_loop len start tmo (got @ bs) (n - k) (c2\<lparr>rx := r'\<rparr>))"
            using ih(1)[OF count refl refl refl] "1.prems" by simp
          then show ?thesis
            using timed_recv_spec_count[of len got bs n k "c2\<lparr>rx := r'\<rparr>" _ c] f[OF n0] count receive
              False "1.prems" by simp
        qed
      qed
    qed (use n in \<open>simp_all add: timed_recv_spec_def[of _ _ _ _ None] timed_recv_spec_stop\<close>)
  qed
qed

text \<open>The timed send accepts a prefix of the buffer, all of it exactly when it reports so.\<close>

lemma net_send_all_timeout_loop_spec:
  "net_send_all_timeout_loop len start tmo rest c = Some (ret, c') \<Longrightarrow> length rest \<le> len \<Longrightarrow>
   \<exists>k\<le>length rest. sent c' = sent c @ take k rest \<and> rx c' = rx c \<and>
     (ret = -1 \<and> k < length rest \<or> ret = int len \<and> k = length rest)"
proof (induction len start tmo rest c arbitrary: ret c' rule: net_send_all_timeout_loop.induct)
  case (1 len start tmo rest c)
  note step = net_send_all_timeout_loop.simps[of len start tmo rest c]
  show ?case
  proof (cases "rest = []")
    case True
    then show ?thesis using "1.prems" by (simp add: net_send_all_timeout_loop.simps[of _ _ _ "[]"])
  next
    case rest: False
    consider (stopped) "ret = -1" "sent c' = sent c" "rx c' = rx c"
      | (sending) now c1 v c2 ans t where "GetTickCount c = Some (now, c1)" "\<not> tmo \<le> now - start"
        "select_one c1 = Some (v, c2)" "\<not> v \<le> 0" "rx c2 = rx c" "sent c2 = sent c"
        "sys_send (length rest) (txs c2) = (ans, t)" "ans \<noteq> SockError"
      using "1.prems"(1) rest
      by (fastforce simp: step dest: clock_frame split: option.splits if_splits prod.splits io_answer.splits)
    then show ?thesis
    proof cases
      case stopped
      then show ?thesis using rest by (auto intro!: exI[of _ 0])
    next
      case sending
      note ih = "1.IH"[OF rest sending(1) refl sending(2,3) refl sending(4) sending(7)[symmetric]]
      show ?thesis
      proof (cases ans)
        case WouldBlock
        then show ?thesis using ih(2)[OF WouldBlock] "1.prems" sending rest by (simp add: step)
      next
        case (Count k)
        then have loop: "net_send_all_timeout_loop len start tmo (drop k rest)
            (c2\<lparr>txs := t, sent := sent c2 @ take k rest\<rparr>) = Some (ret, c')"
          using "1.prems" sending rest by (simp add: step)
        have "length (drop k rest) \<le> len" using "1.prems"(2) by simp
        then obtain j where "j \<le> length rest - k" "sent c' = sent c @ take k rest @ take j (drop k rest)"
          "rx c' = rx c" "ret = -1 \<and> j < length rest - k \<or> ret = int len \<and> j = length rest - k"
          using ih(1)[OF Count loop] sending(5,6) by auto
        then show ?thesis
          using sys_send_Count[of "length rest" "txs c2" k t] sending Count
          by (intro exI[of _ "k + j"]) (auto simp: take_add)
      qed (use sending in simp)
    qed
  qed
qed

text \<open>Tick counts are compared modulo \<open>2^32\<close>, which is the true distance below 49.7 days.\<close>

lemma tick_distance:
  assumes "t0 \<le> t1" and "t1 - t0 < 2 ^ 32"
  shows "unat (word_of_nat t1 - word_of_nat t0 :: uint32_t) = t1 - t0"
proof -
  have "(word_of_nat t1 - word_of_nat t0 :: uint32_t) = word_of_nat (t1 - t0)"
    using assms(1) by (simp add: of_nat_diff)
  then show ?thesis using assms(2) by (simp add: unsigned_of_nat take_bit_nat_eq_self)
qed

lemma timed_recv_prefix:
  assumes "net_recv_all_timeout n tmo c = Some (ret, bs, c')"
  shows "rx_bytes (rx c) = bs @ rx_bytes (rx c')" and "length bs \<le> n"
    and "ret = int n \<longleftrightarrow> length bs = n" and "sent c' = sent c" and "txs c' = txs c"
proof -
  obtain start c1 where c1: "GetTickCount c = Some (start, c1)"
    "net_recv_all_timeout_loop n start tmo [] n c1 = Some (ret, bs, c')"
    using assms by (auto simp: net_recv_all_timeout_def split: option.splits)
  note spec = net_recv_all_timeout_loop_spec[of n n "[]" c1 start tmo] c1(2) clock_frame(1)[OF c1(1)]
  show "rx_bytes (rx c) = bs @ rx_bytes (rx c')" "length bs \<le> n"
    "ret = int n \<longleftrightarrow> length bs = n" "sent c' = sent c" "txs c' = txs c"
    using spec by (auto simp: timed_recv_spec_def)
qed

text \<open>
  A calm connection: the clock readings stay within the timeout of each other, every wait
  reports the socket ready, and both scripts outlast the pending events by \<open>m\<close>. On it a
  timed receive of available bytes succeeds.
\<close>

definition calm :: "nat \<Rightarrow> uint32_t \<Rightarrow> conn \<Rightarrow> bool" where
  "calm m tmo c \<longleftrightarrow>
     sorted_wrt (\<lambda>s t. t - s < tmo) (ticks c) \<and> (\<forall>v\<in>set (sel c). 0 < v) \<and>
     length (rx c) + m \<le> length (ticks c) \<and> length (rx c) + m \<le> length (sel c)"

lemma sys_recv_shorter:
  "sys_recv n r = Some (Count k, bs, r') \<Longrightarrow> 0 < n \<Longrightarrow>
     length r' \<le> length r \<and> (0 < k \<and> k < n \<longrightarrow> length r' < length r)"
  by (induction n r rule: sys_recv.induct) (auto split: if_splits)

lemma sys_recv_data:
  "rx_bytes r \<noteq> [] \<Longrightarrow> 0 < n \<Longrightarrow>
     (\<exists>bs r'. sys_recv n r = Some (WouldBlock, bs, r')) \<or>
     (\<exists>k bs r'. sys_recv n r = Some (Count k, bs, r') \<and> k \<noteq> 0)"
  by (induction n r rule: sys_recv.induct) auto

lemma calm_recv_loop:
  "\<forall>t\<in>set (ticks c). t - start < tmo \<Longrightarrow> calm (Suc m) tmo c \<Longrightarrow> n \<le> length (rx_bytes (rx c)) \<Longrightarrow>
   \<exists>bs c'. net_recv_all_timeout_loop len start tmo got n c = Some (int len, bs, c') \<and> calm m tmo c'"
proof (induction len start tmo got n c rule: net_recv_all_timeout_loop.induct)
  case (1 len start tmo got n c)
  show ?case
  proof (cases "n = 0")
    case True
    then show ?thesis using "1.prems"(2)
      by (auto simp: net_recv_all_timeout_loop.simps[of _ _ _ _ 0] calm_def)
  next
    case n: False
    obtain now ts v vs where tv: "ticks c = now # ts" "sel c = v # vs"
      using "1.prems"(2) by (cases "ticks c"; cases "sel c") (auto simp: calm_def)
    define c2 where "c2 = c\<lparr>ticks := ts, sel := vs\<rparr>"
    have live: "\<not> tmo \<le> now - start" and ready: "\<not> v \<le> 0"
      using "1.prems"(1,2) tv by (auto simp: calm_def not_le)
    have t: "GetTickCount c = Some (now, c\<lparr>ticks := ts\<rparr>)"
      and v: "select_one (c\<lparr>ticks := ts\<rparr>) = Some (v, c2)"
      using tv by (simp_all add: GetTickCount_def select_one_def c2_def)
    note ih = "1.IH"[OF n t refl live v refl ready]
    note step = net_recv_all_timeout_loop.simps[of len start tmo got n c]
    have some: "rx_bytes (rx c2) \<noteq> []" using "1.prems"(3) n by (auto simp: c2_def)
    have calm: "calm (Suc m) tmo (c2\<lparr>rx := r\<rparr>)" if "length r < length (rx c)" for r
      using "1.prems"(2) that tv by (auto simp: calm_def c2_def)
    have calm': "calm m tmo (c2\<lparr>rx := r\<rparr>)" if "length r \<le> length (rx c)" for r
      using "1.prems"(2) that tv by (auto simp: calm_def c2_def)
    have tail: "\<forall>t\<in>set (ticks (c2\<lparr>rx := r\<rparr>)). t - start < tmo" for r
      using "1.prems"(1) tv by (simp add: c2_def)
    consider (wouldblock) bs r where "sys_recv n (rx c2) = Some (WouldBlock, bs, r)"
      | (count) k bs r where "sys_recv n (rx c2) = Some (Count k, bs, r)" "k \<noteq> 0"
      using sys_recv_data[OF some, of n] n by blast
    then show ?thesis
    proof cases
      case wouldblock
      have "length r < length (rx c)" using sys_recv_WouldBlock[OF wouldblock] by (simp add: c2_def)
      then show ?thesis
        using ih(2)[OF wouldblock refl refl refl tail calm] "1.prems"(3)
          sys_recv_WouldBlock_stream[OF wouldblock] n t live v ready wouldblock
        by (auto simp: step c2_def)
    next
      case count
      have n0: "0 < n" using n by simp
      note f = sys_recv_Count[OF count(1) n0] and g = sys_recv_shorter[OF count(1) n0]
      have eq: "net_recv_all_timeout_loop len start tmo got n c =
          net_recv_all_timeout_loop len start tmo (got @ bs) (n - k) (c2\<lparr>rx := r\<rparr>)"
        using n t live v ready count by (simp add: step)
      show ?thesis
      proof (cases "k = n")
        case True
        then show ?thesis using g calm'[of r] unfolding eq
          by (simp add: net_recv_all_timeout_loop.simps[of _ _ _ _ 0] c2_def)
      next
        case False
        then have lt: "length r < length (rx c)" using f g count(2) by (simp add: c2_def)
        have "n - k \<le> length (rx_bytes (rx (c2\<lparr>rx := r\<rparr>)))"
          using f "1.prems"(3) by (simp add: c2_def)
        then show ?thesis using ih(1)[OF count(1) refl refl refl count(2) tail calm[OF lt]]
          unfolding eq by blast
      qed
    qed
  qed
qed

lemma calm_recv:
  assumes "calm (Suc (Suc m)) tmo c" and "n \<le> length (rx_bytes (rx c))"
  shows "\<exists>c'. net_recv_all_timeout n tmo c = Some (int n, take n (rx_bytes (rx c)), c') \<and>
    rx_bytes (rx c') = drop n (rx_bytes (rx c)) \<and> calm m tmo c'"
proof -
  obtain start ts where ts: "ticks c = start # ts"
    using assms(1) by (cases "ticks c") (auto simp: calm_def)
  let ?c1 = "c\<lparr>ticks := ts\<rparr>"
  have "\<forall>t\<in>set (ticks ?c1). t - start < tmo" "calm (Suc m) tmo ?c1"
    using assms(1) ts by (auto simp: calm_def)
  then obtain bs c' where "net_recv_all_timeout_loop n start tmo [] n ?c1 = Some (int n, bs, c')"
    and calm: "calm m tmo c'"
    using calm_recv_loop[of ?c1 start tmo m n n "[]"] assms(2) by auto
  then have r: "net_recv_all_timeout n tmo c = Some (int n, bs, c')"
    by (simp add: net_recv_all_timeout_def GetTickCount_def ts)
  have "length bs = n" using timed_recv_prefix(3)[OF r] by simp
  then show ?thesis using r calm timed_recv_prefix(1)[OF r] by simp
qed

section \<open>Properties\<close>


text \<open>
  \<^verbatim>\<open>net_send_all\<close> hands over a prefix of the buffer, in order and without repetition,
  whatever sizes the kernel accepts. It returns the number of bytes handed over, or \<open>-1\<close>
  with part of the buffer missing; when no call fails or accepts nothing, the whole buffer
  is sent.
\<close>

lemma net_send_all_delivers:
  "\<exists>k t ret. net_send_all buf c = (ret, c\<lparr>txs := t, sent := sent c @ take k buf\<rparr>) \<and>
     k \<le> length buf \<and> (ret = int k \<or> ret = -1 \<and> k < length buf) \<and>
     (tx_ok (txs c) \<longrightarrow> k = length buf \<and> ret = int (length buf))"
proof -
  obtain ret c' where r: "net_send_all buf c = (ret, c')" by fastforce
  show ?thesis
  proof (cases "tx_ok (txs c)")
    case True
    then show ?thesis using net_send_all_ok[OF True, of buf] by (metis order_refl take_all)
  next
    case False
    then show ?thesis using net_send_all_spec[OF r] r by auto
  qed
qed

lemma net_send_all_delivers_example:
  "\<exists>t ret. net_send_all [1, 2, 3, 4, 5]
      \<lparr>rx = [], txs = [TxAccept 2, TxWouldBlock, TxAccept 1], sent = [9], ticks = [], sel = []\<rparr> =
     (ret, \<lparr>rx = [], txs = t, sent = [9, 1, 2, 3, 4, 5], ticks = [], sel = []\<rparr>) \<and> ret = 5"
  using net_send_all_delivers[of "[1, 2, 3, 4, 5]"
      "\<lparr>rx = [], txs = [TxAccept 2, TxWouldBlock, TxAccept 1], sent = [9], ticks = [], sel = []\<rparr>"]
  by (auto simp: tx_ok_def)

text \<open>
  The deadline of the timed receive is the true elapsed time, also when the 32-bit
  millisecond counter wraps between the two readings. With \<open>t0\<close>, \<open>t1\<close> the true times of the
  first two readings, less than \<open>2^32\<close> ms apart, the call gives up at the second reading
  exactly if the timeout has passed; if not and the socket is reported readable with data,
  the bytes it asks for are returned.
\<close>

lemma recv_deadline_wraps:
  assumes "ticks c = word_of_nat t0 # word_of_nat t1 # ts" and "t0 \<le> t1" and "t1 - t0 < 2 ^ 32"
    and "rx c = RxData bs # r" and "length bs = n" and "0 < n" and "sel c = 1 # vs"
  shows "net_recv_all_timeout n tmo c =
    (if unat tmo \<le> t1 - t0 then Some (-1, [], c\<lparr>ticks := ts\<rparr>)
     else Some (int n, bs, c\<lparr>ticks := ts, sel := vs, rx := r\<rparr>))"
proof -
  have late: "tmo \<le> word_of_nat t1 - word_of_nat t0 \<longleftrightarrow> unat tmo \<le> t1 - t0"
    using tick_distance[OF assms(2,3)] by (simp add: word_le_nat_alt)
  have "bs \<noteq> []" using assms(5,6) by auto
  then show ?thesis
    using assms late
    by (simp add: net_recv_all_timeout_def GetTickCount_def select_one_def
        net_recv_all_timeout_loop.simps[of _ _ _ _ n] net_recv_all_timeout_loop.simps[of _ _ _ _ 0])
qed

lemma recv_deadline_wraps_example:
  "net_recv_all_timeout 2 1000
     \<lparr>rx = [RxData [7, 8]], txs = [], sent = [], ticks = [0xFFFFFFF0, 0x10], sel = [1]\<rparr> =
   Some (2, [7, 8], \<lparr>rx = [], txs = [], sent = [], ticks = [], sel = []\<rparr>)"
  using recv_deadline_wraps[of
      "\<lparr>rx = [RxData [7, 8]], txs = [], sent = [], ticks = [0xFFFFFFF0, 0x10], sel = [1]\<rparr>"
      "0xFFFFFFF0" "0x100000010" "[]" "[7, 8]" "[]" 2 "[]" 1000]
  by simp

text \<open>
  A timed receive never loses or invents data: whatever it returns, the bytes in the
  buffer are the next bytes of the stream, the stream goes on right behind them, and the
  full length is returned only when all of them are there.
\<close>

lemma net_recv_all_timeout_prefix:
  assumes "net_recv_all_timeout n tmo c = Some (ret, bs, c')"
  shows "rx_bytes (rx c) = bs @ rx_bytes (rx c') \<and> length bs \<le> n \<and>
    (ret = int n \<longleftrightarrow> length bs = n) \<and> sent c' = sent c"
  using timed_recv_prefix[OF assms] by blast

lemma net_recv_all_timeout_prefix_example:
  "rx_bytes [RxData [1], RxWouldBlock, RxClosed] =
     [1] @ rx_bytes (rx \<lparr>rx = [RxClosed], txs = [], sent = [], ticks = [], sel = []\<rparr>)"
proof -
  have late: "\<not> 50 \<le> (1 :: uint32_t)" "\<not> 50 \<le> (2 :: uint32_t)" "\<not> 50 \<le> (3 :: uint32_t)"
    by (simp_all add: word_le_nat_alt)
  have "net_recv_all_timeout 2 50 \<lparr>rx = [RxData [1], RxWouldBlock, RxClosed], txs = [], sent = [],
      ticks = [0, 1, 2, 3], sel = [1, 1, 1]\<rparr> =
    Some (1, [1], \<lparr>rx = [RxClosed], txs = [], sent = [], ticks = [], sel = []\<rparr>)"
    by (simp add: net_recv_all_timeout_def GetTickCount_def select_one_def late
        net_recv_all_timeout_loop.simps)
  from net_recv_all_timeout_prefix[OF this] show ?thesis by simp
qed

end
