(* ===== verification/Protocol_IO.thy ===== *)
theory Protocol_IO
  imports Network
begin

text \<open>
  Sending and receiving protocol structures over a connection: the I/O functions of
  \<^verbatim>\<open>common/protocol.c\<close>. A receive returns the unpacked structure or the error code, or
  \<open>None\<close> when it waits for ever. The locale \<open>wire_io\<close> states once what a pair of such
  functions gives over the codec of its structure; it is interpreted for the basic header,
  the device, the interface and the URB header.
\<close>

section \<open>Transfer of a memory image\<close>

definition send_mem :: "nat \<Rightarrow> byte list \<Rightarrow> conn \<Rightarrow> error_code \<times> conn" where
  "send_mem sz bs c =
     (case net_send_all bs c of
        (ret, c') \<Rightarrow> (if ret \<noteq> int sz then ERR_SOCKET_SEND else ERR_SUCCESS, c'))"

definition recv_mem :: "nat \<Rightarrow> (byte list \<Rightarrow> 'a) \<Rightarrow> conn \<Rightarrow> ((error_code + 'a) \<times> conn) option" where
  "recv_mem sz decode c =
     (case net_recv_all sz c of
        None \<Rightarrow> None
      | Some (ret, bs, c') \<Rightarrow>
          Some (if ret \<noteq> int sz then Inl ERR_SOCKET_RECV else Inr (decode bs), c'))"

section \<open>The functions of the protocol\<close>

definition usbip_send_header_basic :: "usbip_header_basic \<Rightarrow> conn \<Rightarrow> error_code \<times> conn" where
  "usbip_send_header_basic h c = send_mem 8 (mem_header_basic (usbip_pack_header_basic h)) c"

definition usbip_recv_header_basic :: "conn \<Rightarrow> ((error_code + usbip_header_basic) \<times> conn) option" where
  "usbip_recv_header_basic c =
     recv_mem 8 (\<lambda>bs. usbip_unpack_header_basic (header_basic_of_mem bs)) c"

definition usbip_send_device :: "usbip_usb_device \<Rightarrow> conn \<Rightarrow> error_code \<times> conn" where
  "usbip_send_device d c = send_mem 312 (mem_device (usbip_pack_device d)) c"

definition usbip_recv_device :: "conn \<Rightarrow> ((error_code + usbip_usb_device) \<times> conn) option" where
  "usbip_recv_device c = recv_mem 312 (\<lambda>bs. usbip_unpack_device (device_of_mem bs)) c"

definition usbip_send_interface :: "usbip_usb_interface \<Rightarrow> conn \<Rightarrow> error_code \<times> conn" where
  "usbip_send_interface i c = send_mem 4 (mem_interface i) c"

definition usbip_recv_interface :: "conn \<Rightarrow> ((error_code + usbip_usb_interface) \<times> conn) option" where
  "usbip_recv_interface c = recv_mem 4 interface_of_mem c"

definition usbip_send_urb_header :: "usbip_header \<Rightarrow> conn \<Rightarrow> error_code \<times> conn" where
  "usbip_send_urb_header h c =
     send_mem 48 (mem_header (usbip_pack_header h (hc_command (uh_common h)))) c"

definition usbip_recv_urb_header :: "conn \<Rightarrow> ((error_code + usbip_header) \<times> conn) option" where
  "usbip_recv_urb_header c = recv_mem 48 (\<lambda>bs. usbip_unpack_header (header_of_mem bs)) c"

text \<open>The data argument is the first \<open>length\<close> bytes of the buffer.\<close>

definition usbip_send_urb_data :: "byte list \<Rightarrow> conn \<Rightarrow> error_code \<times> conn" where
  "usbip_send_urb_data data c =
     (if length data = 0 then (ERR_SUCCESS, c) else send_mem (length data) data c)"

definition usbip_recv_urb_data :: "nat \<Rightarrow> conn \<Rightarrow> ((error_code + byte list) \<times> conn) option" where
  "usbip_recv_urb_data n c =
     (if n = 0 then Some (Inr [], c) else recv_mem n id c)"

section \<open>Laws of the transfers\<close>

text \<open>
  \<open>sent_to c bs c'\<close>: the operation appended \<open>bs\<close> to what was sent and left a healthy sender;
  \<open>got_from c bs c'\<close>: it consumed exactly \<open>bs\<close> of the stream.
\<close>

definition sent_to :: "conn \<Rightarrow> byte list \<Rightarrow> conn \<Rightarrow> bool" where
  "sent_to c bs c' \<longleftrightarrow> (\<exists>t. c' = c\<lparr>txs := t, sent := sent c @ bs\<rparr> \<and> tx_ok t)"

definition got_from :: "conn \<Rightarrow> byte list \<Rightarrow> conn \<Rightarrow> bool" where
  "got_from c bs c' \<longleftrightarrow>
     (\<exists>r. c' = c\<lparr>rx := r\<rparr> \<and> rx_bytes (rx c) = bs @ rx_bytes r \<and> rx_end r = rx_end (rx c))"

lemma sent_to_refl: "tx_ok (txs c) \<Longrightarrow> sent_to c [] c"
  by (auto simp: sent_to_def intro!: exI[of _ "txs c"])

lemma sent_to_trans: "sent_to c bs c1 \<Longrightarrow> sent_to c1 bs' c2 \<Longrightarrow> sent_to c (bs @ bs') c2"
  by (auto simp: sent_to_def)

lemma sent_toD [dest]:
  assumes "sent_to c bs c'"
  shows "sent c' = sent c @ bs" and "tx_ok (txs c')" and "rx c' = rx c"
    and "ticks c' = ticks c" and "sel c' = sel c"
  using assms by (auto simp: sent_to_def)

lemma got_from_refl: "got_from c [] c"
  by (auto simp: got_from_def intro!: exI[of _ "rx c"])

lemma got_from_trans: "got_from c bs c1 \<Longrightarrow> got_from c1 bs' c2 \<Longrightarrow> got_from c (bs @ bs') c2"
  by (auto simp: got_from_def)

lemma got_fromD [dest]:
  assumes "got_from c bs c'"
  shows "rx_bytes (rx c) = bs @ rx_bytes (rx c')" and "rx_end (rx c') = rx_end (rx c)"
    and "txs c' = txs c" and "sent c' = sent c" and "ticks c' = ticks c" and "sel c' = sel c"
  using assms by (auto simp: got_from_def)

lemma send_mem_ok:
  assumes "tx_ok (txs c)" and "length bs = n"
  shows "\<exists>c'. send_mem n bs c = (ERR_SUCCESS, c') \<and> sent_to c bs c'"
  using net_send_all_ok[OF assms(1), of bs] assms(2) by (auto simp: send_mem_def sent_to_def)

lemma send_mem_cases:
  assumes "send_mem n bs c = (e, c')" and "length bs = n"
  shows "\<exists>k. sent c' = sent c @ take k bs \<and> k \<le> n \<and> rx c' = rx c \<and>
    (e = ERR_SUCCESS \<and> k = n \<or> e = ERR_SOCKET_SEND)"
proof -
  obtain ret where r: "net_send_all bs c = (ret, c')" "e = (if ret \<noteq> int n then ERR_SOCKET_SEND else ERR_SUCCESS)"
    using assms(1) by (auto simp: send_mem_def split: prod.splits)
  show ?thesis using net_send_all_spec[OF r(1)] r(2) assms(2) by auto
qed

lemma recv_mem_ok:
  assumes "rx_bytes (rx c) = bs @ rest" and "length bs = n"
  shows "\<exists>c'. recv_mem n decode c = Some (Inr (decode bs), c') \<and> got_from c bs c'"
  using net_recv_all_ok[of n c] assms by (auto simp: recv_mem_def got_from_def)

lemma recv_mem_short:
  assumes "length (rx_bytes (rx c)) < n" and "rx_end (rx c) \<noteq> RxBlocks"
  shows "\<exists>c'. recv_mem n decode c = Some (Inl ERR_SOCKET_RECV, c') \<and> sent c' = sent c"
  using net_recv_all_short[OF assms] by (auto simp: recv_mem_def)

lemma recv_mem_cases:
  assumes "recv_mem n decode c = Some (out, c')"
  shows "out = Inl ERR_SOCKET_RECV \<and> length (rx_bytes (rx c)) < n \<or>
    (\<exists>bs. out = Inr (decode bs) \<and> length bs = n \<and> got_from c bs c')"
proof -
  obtain ret bs where r: "net_recv_all n c = Some (ret, bs, c')"
    "out = (if ret \<noteq> int n then Inl ERR_SOCKET_RECV else Inr (decode bs))"
    using assms by (auto simp: recv_mem_def split: option.splits)
  note f = net_recv_all_ret[OF r(1)]
  show ?thesis
  proof (cases "ret = int n")
    case True
    then have "length bs = n" "got_from c bs c'"
      using f net_recv_all_frame[OF r(1)] by (auto simp: got_from_def)
    then show ?thesis using True r(2) by auto
  next
    case False
    then show ?thesis using f(1) r(2) by simp
  qed
qed

text \<open>The interface of a pair of transfer functions over a codec.\<close>

locale wire_io = wire_codec pack unpack mem of_mem wire wf size_of
  for pack :: "'a \<Rightarrow> 'a" and unpack :: "'a \<Rightarrow> 'a" and mem :: "'a \<Rightarrow> byte list"
    and of_mem :: "byte list \<Rightarrow> 'a" and wire :: "'a \<Rightarrow> byte list" and wf :: "'a \<Rightarrow> bool"
    and size_of :: nat +
  fixes send :: "'a \<Rightarrow> conn \<Rightarrow> error_code \<times> conn"
    and recv :: "conn \<Rightarrow> ((error_code + 'a) \<times> conn) option"
  assumes send_eq: "send x c = send_mem size_of (mem (pack x)) c"
    and recv_eq: "recv c = recv_mem size_of (\<lambda>bs. unpack (of_mem bs)) c"
begin

lemma send_ok:
  "wf x \<Longrightarrow> tx_ok (txs c) \<Longrightarrow> \<exists>c'. send x c = (ERR_SUCCESS, c') \<and> sent_to c (wire x) c'"
  using send_mem_ok[of c "wire x" size_of] by (simp add: send_eq mem_pack length_wire)

lemma send_cases:
  assumes "wf x" and "send x c = (e, c')"
  shows "\<exists>k \<le> size_of. sent c' = sent c @ take k (wire x) \<and> rx c' = rx c \<and>
    (e = ERR_SUCCESS \<and> k = size_of \<or> e = ERR_SOCKET_SEND)"
  using send_mem_cases[of size_of "wire x" c e c'] assms by (auto simp: send_eq mem_pack length_wire)

lemma recv_ok:
  assumes "wf x" and "rx_bytes (rx c) = wire x @ rest"
  shows "\<exists>c'. recv c = Some (Inr x, c') \<and> got_from c (wire x) c'"
  using recv_mem_ok[OF assms(2) length_wire[OF assms(1)], of "\<lambda>bs. unpack (of_mem bs)"] assms(1)
  by (simp add: recv_eq decode_wire)

lemma recv_short:
  assumes "length (rx_bytes (rx c)) < size_of" and "rx_end (rx c) \<noteq> RxBlocks"
  shows "\<exists>c'. recv c = Some (Inl ERR_SOCKET_RECV, c') \<and> sent c' = sent c"
  using recv_mem_short[OF assms] by (simp add: recv_eq)

lemma send_recv:
  assumes "wf x" and "tx_ok (txs c)" and "sent c = []" and "send x c = (e, c')"
    and "rx_bytes (rx d) = sent c' @ rest"
  shows "e = ERR_SUCCESS \<and> (\<exists>d'. recv d = Some (Inr x, d') \<and> rx_bytes (rx d') = rest)"
proof -
  obtain c1 where c1: "send x c = (ERR_SUCCESS, c1)" "sent_to c (wire x) c1"
    using send_ok[OF assms(1,2)] by blast
  then have e: "e = ERR_SUCCESS" and b: "rx_bytes (rx d) = wire x @ rest"
    using assms(3-5) by auto
  from recv_ok[OF assms(1) b] obtain d' where "recv d = Some (Inr x, d')" "got_from d (wire x) d'"
    by blast
  then show ?thesis using e b by (auto dest!: got_fromD(1))
qed

end

interpretation hb_io: wire_io usbip_pack_header_basic usbip_unpack_header_basic mem_header_basic
    header_basic_of_mem wire_header_basic "\<lambda>h. True" 8 usbip_send_header_basic usbip_recv_header_basic
  by unfold_locales (simp_all add: usbip_send_header_basic_def usbip_recv_header_basic_def)

interpretation ud_io: wire_io usbip_pack_device usbip_unpack_device mem_device device_of_mem
    wire_device device_wf 312 usbip_send_device usbip_recv_device
  by unfold_locales (simp_all add: usbip_send_device_def usbip_recv_device_def)

interpretation uh_io: wire_io "\<lambda>h. usbip_pack_header h (hc_command (uh_common h))"
    usbip_unpack_header mem_header header_of_mem wire_header header_wf 48
    usbip_send_urb_header usbip_recv_urb_header
  by unfold_locales (simp_all add: usbip_send_urb_header_def usbip_recv_urb_header_def)

interpretation ui_io: wire_io id id mem_interface interface_of_mem mem_interface "\<lambda>i. True" 4
    usbip_send_interface usbip_recv_interface
  by unfold_locales (simp_all add: usbip_send_interface_def usbip_recv_interface_def)

lemma usbip_send_urb_data_ok:
  assumes "tx_ok (txs c)"
  shows "\<exists>c'. usbip_send_urb_data data c = (ERR_SUCCESS, c') \<and> sent_to c data c'"
  using send_mem_ok[OF assms, of data "length data"] sent_to_refl[OF assms]
  by (auto simp: usbip_send_urb_data_def)

lemma usbip_recv_urb_data_ok:
  assumes "rx_bytes (rx c) = data @ rest" and "length data = n"
  shows "\<exists>c'. usbip_recv_urb_data n c = Some (Inr data, c') \<and> got_from c data c'"
  using recv_mem_ok[OF assms, of id] got_from_refl assms(2) by (auto simp: usbip_recv_urb_data_def)

section \<open>Properties\<close>

text \<open>
  A URB with its data survives the connection. When a header and a data block are sent
  on a healthy connection and the peer receives the bytes in chunks of any size with any
  number of calls that would block, receiving a header and then as many data bytes returns
  both unchanged and leaves the following bytes in the stream.
\<close>

lemma urb_transfer_roundtrip:
  assumes "length (uh_u h) = 28" and "tx_ok (txs c)" and "sent c = []"
    and "usbip_send_urb_header h c = (e1, c1)" and "usbip_send_urb_data data c1 = (e2, c2)"
    and "rx_bytes (rx d) = sent c2 @ rest"
  shows "e1 = ERR_SUCCESS \<and> e2 = ERR_SUCCESS \<and> length (sent c2) = 48 + length data \<and>
    (\<exists>d1 d2. usbip_recv_urb_header d = Some (Inr h, d1) \<and>
       usbip_recv_urb_data (length data) d1 = Some (Inr data, d2) \<and> rx_bytes (rx d2) = rest)"
proof -
  have wf: "header_wf h" using assms(1) by (simp add: header_wf_def)
  have s1: "e1 = ERR_SUCCESS" "sent_to c (wire_header h) c1"
    using uh_io.send_ok[OF wf assms(2)] assms(4) by auto
  have s2: "e2 = ERR_SUCCESS" "sent_to c1 data c2"
    using usbip_send_urb_data_ok[OF sent_toD(2)[OF s1(2)], of data] assms(5) by auto
  have sent: "sent c2 = wire_header h @ data"
    using sent_toD(1)[OF sent_to_trans[OF s1(2) s2(2)]] assms(3) by simp
  have b: "rx_bytes (rx d) = wire_header h @ data @ rest" using assms(6) sent by simp
  obtain d1 where d1: "usbip_recv_urb_header d = Some (Inr h, d1)" "got_from d (wire_header h) d1"
    using uh_io.recv_ok[OF wf b] by blast
  then have "rx_bytes (rx d1) = data @ rest" using got_fromD(1)[OF d1(2)] b by simp
  from usbip_recv_urb_data_ok[OF this refl] obtain d2 where
    "usbip_recv_urb_data (length data) d1 = Some (Inr data, d2)" "got_from d1 data d2" by blast
  then show ?thesis
    using s1 s2 d1 sent uh.length_wire[OF wf] got_fromD(1)[of d1 data d2] \<open>rx_bytes (rx d1) = data @ rest\<close>
    by auto
qed

definition sample_conn :: conn where
  "sample_conn = \<lparr>rx = [], txs = [], sent = [], ticks = [], sel = []\<rparr>"

lemma urb_transfer_roundtrip_example:
  "\<exists>c1 c2 d1 d2. usbip_send_urb_header (usbip_create_urb_return 5 1 0 2 0 3) sample_conn = (ERR_SUCCESS, c1) \<and>
     usbip_send_urb_data [1, 2, 3] c1 = (ERR_SUCCESS, c2) \<and>
     usbip_recv_urb_header (sample_conn\<lparr>rx := [RxData (take 7 (sent c2)), RxWouldBlock,
       RxData (drop 7 (sent c2) @ [9])]\<rparr>) = Some (Inr (usbip_create_urb_return 5 1 0 2 0 3), d1) \<and>
     usbip_recv_urb_data 3 d1 = Some (Inr [1, 2, 3], d2) \<and> rx_bytes (rx d2) = [9]"
proof -
  let ?h = "usbip_create_urb_return 5 1 0 2 0 3"
  obtain e1 c1 where s1: "usbip_send_urb_header ?h sample_conn = (e1, c1)" by fastforce
  obtain e2 c2 where s2: "usbip_send_urb_data [1, 2, 3] c1 = (e2, c2)" by fastforce
  let ?d = "sample_conn\<lparr>rx := [RxData (take 7 (sent c2)), RxWouldBlock, RxData (drop 7 (sent c2) @ [9])]\<rparr>"
  have "length (uh_u ?h) = 28" by (simp add: usbip_create_urb_return_def zero_header_def)
  moreover have "tx_ok (txs sample_conn)" "sent sample_conn = []"
    by (simp_all add: sample_conn_def tx_ok_def)
  moreover have "rx_bytes (rx ?d) = sent c2 @ [9]" by simp
  ultimately have t: "e1 = ERR_SUCCESS \<and> e2 = ERR_SUCCESS \<and> length (sent c2) = 48 + length [1, 2, 3 :: byte] \<and>
      (\<exists>d1 d2. usbip_recv_urb_header ?d = Some (Inr ?h, d1) \<and>
       usbip_recv_urb_data (length [1, 2, 3 :: byte]) d1 = Some (Inr [1, 2, 3], d2) \<and> rx_bytes (rx d2) = [9])"
    using urb_transfer_roundtrip[of ?h sample_conn e1 c1 "[1, 2, 3]" e2 c2 ?d "[9]"] s1 s2 by blast
  have "length [1, 2, 3 :: byte] = 3" by simp
  with t s1 s2 show ?thesis by metis
qed

end
