(* ===== verification/Usb_Defs.thy ===== *)
theory Usb_Defs
  imports Usbip_Prelude
begin

text \<open>
  The definitions of \<^verbatim>\<open>common/usb_defs.h\<close>: the setup packet and the descriptors as packed
  structures, the macros on endpoint addresses and descriptor selectors, and the names of speeds
  and classes. The locale \<open>packed_layout\<close> states what a packed structure is: a value is the bytes
  of its fields, one behind the other, without padding.
\<close>

abbreviation (input) USB_SPEED_HIGH :: uint32_t where "USB_SPEED_HIGH \<equiv> 3"
abbreviation (input) USB_DIR_OUT :: uint8_t where "USB_DIR_OUT \<equiv> 0"
abbreviation (input) USB_DIR_IN :: uint8_t where "USB_DIR_IN \<equiv> 0x80"
abbreviation (input) USB_DIR_MASK :: uint8_t where "USB_DIR_MASK \<equiv> 0x80"
abbreviation (input) USB_ENDPOINT_XFER_CONTROL :: uint8_t where "USB_ENDPOINT_XFER_CONTROL \<equiv> 0"
abbreviation (input) USB_ENDPOINT_XFER_BULK :: uint8_t where "USB_ENDPOINT_XFER_BULK \<equiv> 2"
abbreviation (input) USB_ENDPOINT_XFER_MASK :: uint8_t where "USB_ENDPOINT_XFER_MASK \<equiv> 3"
abbreviation (input) USB_ENDPOINT_NUMBER_MASK :: uint8_t where "USB_ENDPOINT_NUMBER_MASK \<equiv> 0x0F"

section \<open>Structures\<close>

record usb_setup_packet =
  sp_bmRequestType :: uint8_t
  sp_bRequest :: uint8_t
  sp_wValue :: uint16_t
  sp_wIndex :: uint16_t
  sp_wLength :: uint16_t

record usb_device_descriptor =
  dd_bLength :: uint8_t
  dd_bDescriptorType :: uint8_t
  dd_bcdUSB :: uint16_t
  dd_bDeviceClass :: uint8_t
  dd_bDeviceSubClass :: uint8_t
  dd_bDeviceProtocol :: uint8_t
  dd_bMaxPacketSize0 :: uint8_t
  dd_idVendor :: uint16_t
  dd_idProduct :: uint16_t
  dd_bcdDevice :: uint16_t
  dd_iManufacturer :: uint8_t
  dd_iProduct :: uint8_t
  dd_iSerialNumber :: uint8_t
  dd_bNumConfigurations :: uint8_t

record usb_config_descriptor =
  cd_bLength :: uint8_t
  cd_bDescriptorType :: uint8_t
  cd_wTotalLength :: uint16_t
  cd_bNumInterfaces :: uint8_t
  cd_bConfigurationValue :: uint8_t
  cd_iConfiguration :: uint8_t
  cd_bmAttributes :: uint8_t
  cd_bMaxPower :: uint8_t

record usb_interface_descriptor =
  id_bLength :: uint8_t
  id_bDescriptorType :: uint8_t
  id_bInterfaceNumber :: uint8_t
  id_bAlternateSetting :: uint8_t
  id_bNumEndpoints :: uint8_t
  id_bInterfaceClass :: uint8_t
  id_bInterfaceSubClass :: uint8_t
  id_bInterfaceProtocol :: uint8_t
  id_iInterface :: uint8_t

record usb_endpoint_descriptor =
  ed_bLength :: uint8_t
  ed_bDescriptorType :: uint8_t
  ed_bEndpointAddress :: uint8_t
  ed_bmAttributes :: uint8_t
  ed_wMaxPacketSize :: uint16_t
  ed_bInterval :: uint8_t

text \<open>The head of a string descriptor; more characters follow it in memory.\<close>

record usb_string_descriptor =
  sd_bLength :: uint8_t
  sd_bDescriptorType :: uint8_t
  sd_wString :: uint16_t

section \<open>Their bytes in memory\<close>

definition mem_setup_packet :: "usb_setup_packet \<Rightarrow> byte list" where
  "mem_setup_packet p =
     [sp_bmRequestType p, sp_bRequest p] @ mem16 (sp_wValue p) @ mem16 (sp_wIndex p) @ mem16 (sp_wLength p)"

definition setup_packet_of_mem :: "byte list \<Rightarrow> usb_setup_packet" where
  "setup_packet_of_mem m =
     \<lparr>sp_bmRequestType = m ! 0, sp_bRequest = m ! 1, sp_wValue = load16 m 2, sp_wIndex = load16 m 4,
      sp_wLength = load16 m 6\<rparr>"

definition mem_device_descriptor :: "usb_device_descriptor \<Rightarrow> byte list" where
  "mem_device_descriptor d =
     [dd_bLength d, dd_bDescriptorType d] @ mem16 (dd_bcdUSB d) @
     [dd_bDeviceClass d, dd_bDeviceSubClass d, dd_bDeviceProtocol d, dd_bMaxPacketSize0 d] @
     mem16 (dd_idVendor d) @ mem16 (dd_idProduct d) @ mem16 (dd_bcdDevice d) @
     [dd_iManufacturer d, dd_iProduct d, dd_iSerialNumber d, dd_bNumConfigurations d]"

definition device_descriptor_of_mem :: "byte list \<Rightarrow> usb_device_descriptor" where
  "device_descriptor_of_mem m =
     \<lparr>dd_bLength = m ! 0, dd_bDescriptorType = m ! 1, dd_bcdUSB = load16 m 2, dd_bDeviceClass = m ! 4,
      dd_bDeviceSubClass = m ! 5, dd_bDeviceProtocol = m ! 6, dd_bMaxPacketSize0 = m ! 7,
      dd_idVendor = load16 m 8, dd_idProduct = load16 m 10, dd_bcdDevice = load16 m 12,
      dd_iManufacturer = m ! 14, dd_iProduct = m ! 15, dd_iSerialNumber = m ! 16,
      dd_bNumConfigurations = m ! 17\<rparr>"

definition mem_config_descriptor :: "usb_config_descriptor \<Rightarrow> byte list" where
  "mem_config_descriptor d =
     [cd_bLength d, cd_bDescriptorType d] @ mem16 (cd_wTotalLength d) @
     [cd_bNumInterfaces d, cd_bConfigurationValue d, cd_iConfiguration d, cd_bmAttributes d, cd_bMaxPower d]"

definition config_descriptor_of_mem :: "byte list \<Rightarrow> usb_config_descriptor" where
  "config_descriptor_of_mem m =
     \<lparr>cd_bLength = m ! 0, cd_bDescriptorType = m ! 1, cd_wTotalLength = load16 m 2, cd_bNumInterfaces = m ! 4,
      cd_bConfigurationValue = m ! 5, cd_iConfiguration = m ! 6, cd_bmAttributes = m ! 7, cd_bMaxPower = m ! 8\<rparr>"

definition mem_interface_descriptor :: "usb_interface_descriptor \<Rightarrow> byte list" where
  "mem_interface_descriptor d =
     [id_bLength d, id_bDescriptorType d, id_bInterfaceNumber d, id_bAlternateSetting d, id_bNumEndpoints d,
      id_bInterfaceClass d, id_bInterfaceSubClass d, id_bInterfaceProtocol d, id_iInterface d]"

definition interface_descriptor_of_mem :: "byte list \<Rightarrow> usb_interface_descriptor" where
  "interface_descriptor_of_mem m =
     \<lparr>id_bLength = m ! 0, id_bDescriptorType = m ! 1, id_bInterfaceNumber = m ! 2, id_bAlternateSetting = m ! 3,
      id_bNumEndpoints = m ! 4, id_bInterfaceClass = m ! 5, id_bInterfaceSubClass = m ! 6,
      id_bInterfaceProtocol = m ! 7, id_iInterface = m ! 8\<rparr>"

definition mem_endpoint_descriptor :: "usb_endpoint_descriptor \<Rightarrow> byte list" where
  "mem_endpoint_descriptor d =
     [ed_bLength d, ed_bDescriptorType d, ed_bEndpointAddress d, ed_bmAttributes d] @
     mem16 (ed_wMaxPacketSize d) @ [ed_bInterval d]"

definition endpoint_descriptor_of_mem :: "byte list \<Rightarrow> usb_endpoint_descriptor" where
  "endpoint_descriptor_of_mem m =
     \<lparr>ed_bLength = m ! 0, ed_bDescriptorType = m ! 1, ed_bEndpointAddress = m ! 2, ed_bmAttributes = m ! 3,
      ed_wMaxPacketSize = load16 m 4, ed_bInterval = m ! 6\<rparr>"

definition mem_string_descriptor :: "usb_string_descriptor \<Rightarrow> byte list" where
  "mem_string_descriptor d = [sd_bLength d, sd_bDescriptorType d] @ mem16 (sd_wString d)"

definition string_descriptor_of_mem :: "byte list \<Rightarrow> usb_string_descriptor" where
  "string_descriptor_of_mem m = \<lparr>sd_bLength = m ! 0, sd_bDescriptorType = m ! 1, sd_wString = load16 m 2\<rparr>"

section \<open>Packed structures\<close>

locale packed_layout =
  fixes mem :: "'a \<Rightarrow> byte list" and of_mem :: "byte list \<Rightarrow> 'a" and size_of :: nat
  assumes mem_length: "length (mem x) = size_of"
    and of_mem_mem: "of_mem (mem x @ rest) = x"
    and mem_of_mem: "length bs = size_of \<Longrightarrow> mem (of_mem bs) = bs"
begin

lemma mem_inject: "mem x = mem y \<longleftrightarrow> x = y"
  using of_mem_mem[of _ "[]"] by (metis append_Nil2)

text \<open>Only the first bytes matter, so a cast of a longer buffer reads its beginning.\<close>

lemma of_mem_take:
  assumes "size_of \<le> length bs"
  shows "of_mem bs = of_mem (take size_of bs)"
proof -
  have "mem (of_mem (take size_of bs)) = take size_of bs" using assms by (intro mem_of_mem) simp
  then have "of_mem (take size_of bs @ drop size_of bs) = of_mem (take size_of bs)" using of_mem_mem by metis
  then show ?thesis by simp
qed

lemma mem_of_mem_take: "size_of \<le> length bs \<Longrightarrow> mem (of_mem bs) = take size_of bs"
  by (subst of_mem_take) (simp_all add: mem_of_mem)

end

text \<open>The fields of a structure of \<open>n\<close> bytes, read one by one, are the bytes.\<close>

lemma all_bytes: "length bs = n \<Longrightarrow> map ((!) bs) [0..<n] = bs"
  using map_nth by blast

lemma mem16_load16 [simp]: "mem16 (load16 m i) = [m ! i, m ! (i + 1)]"
  by (simp add: mem16_def load16_def)

interpretation setup_layout: packed_layout mem_setup_packet setup_packet_of_mem 8
proof unfold_locales
  show "length bs = 8 \<Longrightarrow> mem_setup_packet (setup_packet_of_mem bs) = bs" for bs
    using all_bytes[of bs 8] by (simp add: mem_setup_packet_def setup_packet_of_mem_def upt_rec numeral_eq_Suc)
qed (simp_all add: mem_setup_packet_def setup_packet_of_mem_def mem16_def load16_def)

interpretation device_layout: packed_layout mem_device_descriptor device_descriptor_of_mem 18
proof unfold_locales
  show "length bs = 18 \<Longrightarrow> mem_device_descriptor (device_descriptor_of_mem bs) = bs" for bs
    using all_bytes[of bs 18] by (simp add: mem_device_descriptor_def device_descriptor_of_mem_def upt_rec numeral_eq_Suc)
qed (simp_all add: mem_device_descriptor_def device_descriptor_of_mem_def mem16_def load16_def)

interpretation config_layout: packed_layout mem_config_descriptor config_descriptor_of_mem 9
proof unfold_locales
  show "length bs = 9 \<Longrightarrow> mem_config_descriptor (config_descriptor_of_mem bs) = bs" for bs
    using all_bytes[of bs 9] by (simp add: mem_config_descriptor_def config_descriptor_of_mem_def upt_rec numeral_eq_Suc)
qed (simp_all add: mem_config_descriptor_def config_descriptor_of_mem_def mem16_def load16_def)

interpretation interface_layout: packed_layout mem_interface_descriptor interface_descriptor_of_mem 9
proof unfold_locales
  show "length bs = 9 \<Longrightarrow> mem_interface_descriptor (interface_descriptor_of_mem bs) = bs" for bs
    using all_bytes[of bs 9] by (simp add: mem_interface_descriptor_def interface_descriptor_of_mem_def upt_rec numeral_eq_Suc)
qed (simp_all add: mem_interface_descriptor_def interface_descriptor_of_mem_def)

interpretation endpoint_layout: packed_layout mem_endpoint_descriptor endpoint_descriptor_of_mem 7
proof unfold_locales
  show "length bs = 7 \<Longrightarrow> mem_endpoint_descriptor (endpoint_descriptor_of_mem bs) = bs" for bs
    using all_bytes[of bs 7] by (simp add: mem_endpoint_descriptor_def endpoint_descriptor_of_mem_def upt_rec numeral_eq_Suc)
qed (simp_all add: mem_endpoint_descriptor_def endpoint_descriptor_of_mem_def mem16_def load16_def)

interpretation string_layout: packed_layout mem_string_descriptor string_descriptor_of_mem 4
proof unfold_locales
  show "length bs = 4 \<Longrightarrow> mem_string_descriptor (string_descriptor_of_mem bs) = bs" for bs
    using all_bytes[of bs 4] by (simp add: mem_string_descriptor_def string_descriptor_of_mem_def upt_rec numeral_eq_Suc)
qed (simp_all add: mem_string_descriptor_def string_descriptor_of_mem_def mem16_def load16_def)

section \<open>Endpoint addresses and descriptor selectors\<close>

definition USB_EP_NUM :: "uint8_t \<Rightarrow> uint8_t" where
  "USB_EP_NUM addr = addr AND USB_ENDPOINT_NUMBER_MASK"

definition USB_EP_DIR :: "uint8_t \<Rightarrow> uint8_t" where
  "USB_EP_DIR addr = addr AND USB_DIR_MASK"

definition USB_EP_IS_IN :: "uint8_t \<Rightarrow> bool" where
  "USB_EP_IS_IN addr \<longleftrightarrow> addr AND USB_DIR_MASK = USB_DIR_IN"

definition USB_EP_IS_OUT :: "uint8_t \<Rightarrow> bool" where
  "USB_EP_IS_OUT addr \<longleftrightarrow> addr AND USB_DIR_MASK = USB_DIR_OUT"

definition USB_EP_TYPE :: "uint8_t \<Rightarrow> uint8_t" where
  "USB_EP_TYPE attr = attr AND USB_ENDPOINT_XFER_MASK"

definition USB_EP_ADDR :: "uint8_t \<Rightarrow> uint8_t \<Rightarrow> uint8_t" where
  "USB_EP_ADDR num dir = (num AND 0x0F) OR (dir AND USB_DIR_MASK)"

definition USB_DESC_INDEX :: "uint16_t \<Rightarrow> uint16_t" where
  "USB_DESC_INDEX wValue = wValue AND 0xFF"

definition USB_DESC_TYPE :: "uint16_t \<Rightarrow> uint16_t" where
  "USB_DESC_TYPE wValue = drop_bit 8 wValue AND 0xFF"

definition USB_DESC_WVALUE :: "uint16_t \<Rightarrow> uint16_t \<Rightarrow> uint16_t" where
  "USB_DESC_WVALUE type index = push_bit 8 type OR index"

lemma and_0x80: "(addr :: uint8_t) AND 0x80 = (if bit addr 7 then 0x80 else 0)"
proof -
  have "(0x80 :: uint8_t) = push_bit 7 1" by simp
  then have b: "bit (0x80 :: uint8_t) n \<longleftrightarrow> n = 7" for n
    using bit_push_bit_iff[of 7 "1 :: uint8_t" n] by (simp only:) (auto simp: bit_1_iff)
  show ?thesis by (rule bit_word_eqI) (auto simp only: b bit_and_iff bit_0_eq bot_apply bot_bool_def split: if_splits)
qed

lemma ep_parts:
  "USB_EP_NUM (USB_EP_ADDR num dir) = USB_EP_NUM num" "USB_EP_DIR (USB_EP_ADDR num dir) = USB_EP_DIR dir"
  "USB_EP_IS_IN (USB_EP_ADDR num dir) \<longleftrightarrow> USB_EP_IS_IN dir" "USB_EP_IS_OUT addr \<longleftrightarrow> \<not> USB_EP_IS_IN addr"
proof -
  show "USB_EP_NUM (USB_EP_ADDR num dir) = USB_EP_NUM num"
    by (simp add: USB_EP_NUM_def USB_EP_ADDR_def bit.conj_disj_distrib2 and.assoc)
  show d: "USB_EP_DIR (USB_EP_ADDR num dir) = USB_EP_DIR dir"
    by (simp add: USB_EP_DIR_def USB_EP_ADDR_def bit.conj_disj_distrib2 and.assoc)
  then show "USB_EP_IS_IN (USB_EP_ADDR num dir) \<longleftrightarrow> USB_EP_IS_IN dir"
    by (simp add: USB_EP_IS_IN_def USB_EP_DIR_def)
  show "USB_EP_IS_OUT addr \<longleftrightarrow> \<not> USB_EP_IS_IN addr" by (simp add: USB_EP_IS_OUT_def USB_EP_IS_IN_def and_0x80)
qed

text \<open>An address with direction IN is never 0, even for the control endpoint.\<close>

lemma ep_in_nonzero: "USB_EP_IS_IN addr \<Longrightarrow> addr \<noteq> 0"
  by (auto simp: USB_EP_IS_IN_def)

lemma desc_parts:
  fixes type index :: uint8_t
  shows "USB_DESC_TYPE (USB_DESC_WVALUE (ucast type) (ucast index)) = ucast type"
    and "USB_DESC_INDEX (USB_DESC_WVALUE (ucast type) (ucast index)) = ucast index"
proof -
  have m: "(0xFF :: uint16_t) = mask 8" by (simp add: mask_eq_exp_minus_1)
  show "USB_DESC_TYPE (USB_DESC_WVALUE (ucast type) (ucast index)) = ucast type"
    "USB_DESC_INDEX (USB_DESC_WVALUE (ucast type) (ucast index)) = ucast index"
    unfolding USB_DESC_TYPE_def USB_DESC_WVALUE_def USB_DESC_INDEX_def m
    by (auto intro!: bit_word_eqI simp: bit_simps bit_byte_ge) (use bit_byte_ge not_le in blast)+
qed

section \<open>Names\<close>

definition usb_speed_string :: "uint32_t \<Rightarrow> string" where
  "usb_speed_string speed =
     (if speed = 1 then ''Low (1.5 Mbps)'' else if speed = 2 then ''Full (12 Mbps)''
      else if speed = 3 then ''High (480 Mbps)'' else if speed = 5 then ''Super (5 Gbps)''
      else if speed = 6 then ''Super+ (10 Gbps)'' else ''Unknown'')"

definition usb_class_string :: "uint8_t \<Rightarrow> string" where
  "usb_class_string class_code =
     (if class_code = 0x00 then ''Per Interface''
      else if class_code = 0x01 then ''Audio''
      else if class_code = 0x02 then ''Communications''
      else if class_code = 0x03 then ''HID''
      else if class_code = 0x05 then ''Physical''
      else if class_code = 0x06 then ''Image''
      else if class_code = 0x07 then ''Printer''
      else if class_code = 0x08 then ''Mass Storage''
      else if class_code = 0x09 then ''Hub''
      else if class_code = 0x0A then ''CDC Data''
      else if class_code = 0x0E then ''Video''
      else if class_code = 0xE0 then ''Wireless''
      else if class_code = 0xEF then ''Miscellaneous''
      else if class_code = 0xFF then ''Vendor Specific''
      else ''Unknown'')"

end
