(* ===== verification/Usb_Host.thy ===== *)
theory Usb_Host
  imports Protocol_IO Usb_Defs
begin

text \<open>
  Enumeration of and access to local USB devices, \<^verbatim>\<open>server/usb_host.h\<close> and
  \<^verbatim>\<open>server/usb_host_win32.c\<close>. SetupAPI and WinUSB are arguments: the list of present device
  nodes with their registry properties, and the record \<open>winusb\<close> of answers. Functions that
  free handles or start transfers return the list of those calls.
\<close>

section \<open>Data\<close>

record usb_endpoint_info =
  ep_address :: uint8_t
  ep_attributes :: uint8_t
  ep_max_packet_size :: uint16_t
  ep_interval :: uint8_t

record usb_interface_info =
  if_number :: uint8_t
  if_alt_setting :: uint8_t
  if_class_code :: uint8_t
  if_subclass_code :: uint8_t
  if_protocol :: uint8_t
  if_num_endpoints :: uint8_t
  if_endpoints :: "usb_endpoint_info list"

text \<open>Handles are numbers, \<open>None\<close> is the null handle.\<close>

type_synonym handle = "nat option"

record usb_device =
  dv_path :: cbuf
  dv_busid :: cbuf
  dv_busnum :: uint32_t
  dv_devnum :: uint32_t
  dv_speed :: uint32_t
  dv_vendor_id :: uint16_t
  dv_product_id :: uint16_t
  dv_bcd_device :: uint16_t
  dv_device_class :: uint8_t
  dv_device_subclass :: uint8_t
  dv_device_protocol :: uint8_t
  dv_num_configurations :: uint8_t
  dv_configuration_value :: uint8_t
  dv_num_interfaces :: uint8_t
  dv_manufacturer :: cbuf
  dv_product :: cbuf
  dv_serial :: cbuf
  dv_interfaces :: "usb_interface_info list"
  dv_handle :: handle
  dv_interface_handles :: "handle list"
  dv_is_open :: bool
  dv_is_claimed :: bool
  dv_is_virtual :: bool
  dv_claimed_interface :: int

record usb_urb =
  ub_seqnum :: uint32_t
  ub_devid :: uint32_t
  ub_endpoint :: uint8_t
  ub_direction :: uint8_t
  ub_type :: uint8_t
  ub_transfer_flags :: uint32_t
  ub_setup :: "byte list"
  ub_buffer :: "byte list option"
  ub_buffer_length :: uint32_t
  ub_actual_length :: uint32_t
  ub_status :: int
  ub_start_frame :: uint32_t
  ub_number_of_packets :: uint32_t
  ub_interval :: uint32_t
  ub_completed :: bool
  ub_cancelled :: bool

definition zero_endpoint_info :: usb_endpoint_info where
  "zero_endpoint_info = \<lparr>ep_address = 0, ep_attributes = 0, ep_max_packet_size = 0, ep_interval = 0\<rparr>"

definition zero_interface_info :: usb_interface_info where
  "zero_interface_info =
     \<lparr>if_number = 0, if_alt_setting = 0, if_class_code = 0, if_subclass_code = 0,
      if_protocol = 0, if_num_endpoints = 0, if_endpoints = replicate 32 zero_endpoint_info\<rparr>"

definition zero_usb_device :: usb_device where
  "zero_usb_device =
     \<lparr>dv_path = replicate 256 0, dv_busid = replicate 32 0, dv_busnum = 0, dv_devnum = 0,
      dv_speed = 0, dv_vendor_id = 0, dv_product_id = 0, dv_bcd_device = 0, dv_device_class = 0,
      dv_device_subclass = 0, dv_device_protocol = 0, dv_num_configurations = 0,
      dv_configuration_value = 0, dv_num_interfaces = 0, dv_manufacturer = replicate 256 0,
      dv_product = replicate 256 0, dv_serial = replicate 256 0,
      dv_interfaces = replicate 32 zero_interface_info, dv_handle = None,
      dv_interface_handles = replicate 32 None, dv_is_open = False, dv_is_claimed = False,
      dv_is_virtual = False, dv_claimed_interface = 0\<rparr>"

abbreviation (input) URB_TIMEOUT_MS :: uint32_t where "URB_TIMEOUT_MS \<equiv> 5000"

text \<open>The Windows speed enumeration: low, full, high, super are 0 to 3.\<close>

definition get_usb_speed :: "uint32_t \<Rightarrow> uint32_t" where
  "get_usb_speed speed =
     (if speed = 0 then 1 else if speed = 1 then 2 else if speed = 2 then 3
      else if speed = 3 then 5 else 0)"

definition usb_get_speed :: "uint32_t \<Rightarrow> uint32_t" where
  "usb_get_speed win_speed = get_usb_speed win_speed"

section \<open>Identifiers\<close>

fun fnv1a :: "uint32_t \<Rightarrow> byte list \<Rightarrow> uint32_t" where
  "fnv1a hash [] = hash"
| "fnv1a hash (c # cs) = fnv1a ((hash XOR ucast c) * 0x01000193) cs"

text \<open>The text \<^verbatim>\<open>%u-%u\<close>, written by \<open>snprintf\<close>.\<close>

definition busid_text :: "nat \<Rightarrow> nat \<Rightarrow> byte list" where
  "busid_text b p = ascii (show_nat b @ ''-'' @ show_nat p)"

definition parse_busid_from_path :: "cbuf \<Rightarrow> cbuf \<Rightarrow> nat \<Rightarrow> cbuf" where
  "parse_busid_from_path path busid busid_len =
     (let hash = fnv1a 0x811c9dc5 (cstr path)
      in str_copy busid
           (busid_text (unat (drop_bit 8 hash mod 8 + 1)) (unat (hash mod 16 + 1))) busid_len)"

text \<open>The second hash: \<open>hash * 31 + *p\<close> with a signed \<open>char\<close>.\<close>

fun hash31 :: "uint32_t \<Rightarrow> byte list \<Rightarrow> uint32_t" where
  "hash31 hash [] = hash"
| "hash31 hash (c # cs) = hash31 (hash * 31 + scast c) cs"

text \<open>
  \<open>sscanf(s, "VID_%04hX", &v)\<close> once the four literal characters have matched: blanks are
  skipped, a field of at most four characters is read as a signed hexadecimal number with an
  optional \<open>0x\<close>; without a digit nothing is stored.
\<close>

definition hex_value :: "byte \<Rightarrow> nat option" where
  "hex_value c =
     (if 48 \<le> c \<and> c \<le> 57 then Some (unat c - 48)
      else if 65 \<le> c \<and> c \<le> 70 then Some (unat c - 55)
      else if 97 \<le> c \<and> c \<le> 102 then Some (unat c - 87) else None)"

fun scan_hex_digits :: "nat \<Rightarrow> byte list \<Rightarrow> nat" where
  "scan_hex_digits acc [] = acc"
| "scan_hex_digits acc (c # cs) =
     (case hex_value c of None \<Rightarrow> acc | Some d \<Rightarrow> scan_hex_digits (16 * acc + d) cs)"

definition scan_hX4 :: "byte list \<Rightarrow> uint16_t \<Rightarrow> uint16_t" where
  "scan_hX4 s old =
     (let f = take 4 (dropWhile (\<lambda>c. c = 32 \<or> 9 \<le> c \<and> c \<le> 13) s);
          neg = (f \<noteq> [] \<and> hd f = 45);
          f1 = (if f \<noteq> [] \<and> (hd f = 45 \<or> hd f = 43) then tl f else f);
          f2 = (if length f1 > 2 \<and> f1 ! 0 = 48 \<and> (f1 ! 1 = 120 \<or> f1 ! 1 = 88)
                   \<and> hex_value (f1 ! 2) \<noteq> None then drop 2 f1 else f1)
      in if f2 = [] \<or> hex_value (hd f2) = None then old
         else let v = word_of_nat (scan_hex_digits 0 f2) in if neg then - v else v)"

section \<open>Filters\<close>

fun stristr :: "byte list \<Rightarrow> byte list \<Rightarrow> bool" where
  "stristr h n =
     (if n = [] then True
      else case h of [] \<Rightarrow> False
        | c # h' \<Rightarrow> map to_lower (take (length n) h) = map to_lower n \<or> stristr h' n)"

declare stristr.simps [simp del]

definition has :: "cbuf \<Rightarrow> string \<Rightarrow> bool" where
  "has s t = contains (cstr s) (ascii t)"

definition is_usb_hub :: "cbuf \<Rightarrow> bool" where
  "is_usb_hub hardware_id =
     (has hardware_id ''ROOT_HUB'' \<or> has hardware_id (''USB'' @ CHR 0x5C # ''HUB'') \<or> has hardware_id ''Class_09'')"

definition is_real_usb_device :: "cbuf \<Rightarrow> cbuf \<Rightarrow> cbuf \<Rightarrow> bool" where
  "is_real_usb_device hardware_id device_desc service_name =
     (if strieq service_name (ascii ''USBSTOR'') then True
      else if strieq service_name (ascii ''usbprint'') then True
      else if strieq service_name (ascii ''usbser'') then True
      else if strieq service_name (ascii ''WinUSB'') then True
      else if strieq service_name (ascii ''usbaudio'') then True
      else if strieq service_name (ascii ''usbvideo'') then True
      else if has hardware_id ''VID_096E'' then True
      else if has hardware_id ''VID_0529'' then True
      else if has hardware_id ''VID_064F'' then True
      else if has hardware_id ''VID_0403'' then True
      else if has hardware_id ''VID_10C4'' then True
      else if has hardware_id ''VID_067B'' then True
      else False)"

definition should_skip_device :: "cbuf \<Rightarrow> cbuf \<Rightarrow> cbuf \<Rightarrow> bool" where
  "should_skip_device hardware_id device_desc service_name =
     (if has hardware_id ''BTHUSB'' then True
      else if has hardware_id (''BTH'' @ [CHR 0x5C]) then True
      else if stristr (cstr device_desc) (ascii ''bluetooth'') then True
      else if has hardware_id ''VID_8087'' then True
      else if stristr (cstr device_desc) (ascii ''Host Controller'') then True
      else if stristr (cstr device_desc) (ascii ''Root Hub'') then True
      else if strieq service_name (ascii ''HidUsb'') then
        (if has hardware_id ''VID_096E'' then False
         else if has hardware_id ''VID_0529'' then False
         else if has hardware_id ''VID_064F'' then False
         else True)
      else False)"

section \<open>Enumeration\<close>

text \<open>
  A present device node: its registry properties as the buffers hold them (a property that
  cannot be read leaves an empty buffer; the wide description falls back to the friendly
  name), and its instance identifier.
\<close>

record device_node =
  dn_hardware_id :: cbuf
  dn_service :: cbuf
  dn_desc :: cbuf
  dn_desc_w :: "16 word list option"
  dn_friendly_w :: "16 word list option"
  dn_instance_id :: cbuf

text \<open>\<open>utf8\<close> is \<^verbatim>\<open>WideCharToMultiByte\<close> into a buffer of the given size; \<open>None\<close>: it fails.\<close>

definition wide_to_utf8 :: "(16 word list \<Rightarrow> nat \<Rightarrow> cbuf option) \<Rightarrow> 16 word list \<Rightarrow> cbuf \<Rightarrow> nat \<Rightarrow> cbuf" where
  "wide_to_utf8 utf8 wide dst n =
     (if n = 0 then dst
      else case utf8 wide n of Some t \<Rightarrow> t @ drop (length t) dst | None \<Rightarrow> dst[0 := 0])"

definition node_skipped :: "device_node \<Rightarrow> bool" where
  "node_skipped d =
     (if \<not> has (dn_hardware_id d) ''VID_'' \<or> \<not> has (dn_hardware_id d) ''PID_'' then True
      else if is_usb_hub (dn_hardware_id d) then True
      else if char_at (dn_service d) 0 \<noteq> 0 \<and> strieq (dn_service d) (ascii ''usbccgp'') then True
      else if should_skip_device (dn_hardware_id d) (dn_desc d) (dn_service d) then True
      else if \<not> is_real_usb_device (dn_hardware_id d) (dn_desc d) (dn_service d) then True
      else False)"

definition scan_id :: "cbuf \<Rightarrow> string \<Rightarrow> uint16_t" where
  "scan_id hardware_id tag =
     (case strstr_pos (cstr hardware_id) (ascii tag) of
        None \<Rightarrow> 0
      | Some i \<Rightarrow> scan_hX4 (drop (i + 4) (cstr hardware_id)) 0)"

definition product_name :: "(16 word list \<Rightarrow> nat \<Rightarrow> cbuf option) \<Rightarrow> device_node \<Rightarrow> cbuf \<Rightarrow> cbuf" where
  "product_name utf8 d buf =
     (let friendly = (case dn_friendly_w d of Some w \<Rightarrow> w | None \<Rightarrow> []);
          desc = (case dn_desc_w d of Some w \<Rightarrow> w | None \<Rightarrow> friendly)
      in if friendly \<noteq> [] \<and> hd friendly \<noteq> 0 then wide_to_utf8 utf8 friendly buf 256
         else if desc \<noteq> [] \<and> hd desc \<noteq> 0 then wide_to_utf8 utf8 desc buf 256
         else buf)"

definition node_device :: "(16 word list \<Rightarrow> nat \<Rightarrow> cbuf option) \<Rightarrow> device_node \<Rightarrow> usb_device" where
  "node_device utf8 d =
     (let z = zero_usb_device; hash = hash31 0 (cstr (dn_instance_id d))
      in z\<lparr>dv_path := str_copy (dv_path z) (dn_instance_id d) 256,
           dv_busid := parse_busid_from_path (dn_instance_id d) (dv_busid z) 32,
           dv_vendor_id := scan_id (dn_hardware_id d) ''VID_'',
           dv_product_id := scan_id (dn_hardware_id d) ''PID_'',
           dv_busnum := hash mod 8 + 1,
           dv_devnum := drop_bit 8 hash mod 127 + 1,
           dv_product := product_name utf8 d (dv_product z),
           dv_speed := USB_SPEED_HIGH, dv_num_interfaces := 1, dv_configuration_value := 1,
           dv_num_configurations := 1\<rparr>)"

text \<open>The loop calls back for every node that is not skipped, in enumeration order.\<close>

fun enumerate_loop :: "(16 word list \<Rightarrow> nat \<Rightarrow> cbuf option) \<Rightarrow> ('s \<Rightarrow> usb_device \<Rightarrow> 's) \<Rightarrow> device_node list
    \<Rightarrow> 's \<Rightarrow> 's" where
  "enumerate_loop utf8 callback [] s = s"
| "enumerate_loop utf8 callback (d # ds) s =
     (if node_skipped d then enumerate_loop utf8 callback ds s
      else enumerate_loop utf8 callback ds (callback s (node_device utf8 d)))"

text \<open>\<open>nodes\<close> is \<open>None\<close> when \<^verbatim>\<open>SetupDiGetClassDevsW\<close> fails.\<close>

definition usb_enumerate_devices :: "(16 word list \<Rightarrow> nat \<Rightarrow> cbuf option) \<Rightarrow> bool
    \<Rightarrow> device_node list option \<Rightarrow> ('s \<Rightarrow> usb_device \<Rightarrow> 's) \<Rightarrow> 's \<Rightarrow> error_code \<times> 's" where
  "usb_enumerate_devices utf8 initialized nodes callback s =
     (if \<not> initialized then (ERR_NOT_INITIALIZED, s)
      else case nodes of
        None \<Rightarrow> (ERR_USB_INIT, s)
      | Some ds \<Rightarrow> (ERR_SUCCESS, enumerate_loop utf8 callback ds s))"

text \<open>The globals of the file. The hotplug callback and its argument are pointers.\<close>

record g_usb_host =
  uh_initialized :: bool
  uh_hotplug_callback :: "nat option"
  uh_hotplug_user_data :: "nat option"

definition default_usb_host :: g_usb_host where
  "default_usb_host = \<lparr>uh_initialized = False, uh_hotplug_callback = None, uh_hotplug_user_data = None\<rparr>"

definition usb_host_init :: "g_usb_host \<Rightarrow> error_code \<times> g_usb_host" where
  "usb_host_init h =
     (if uh_initialized h then (ERR_SUCCESS, h) else (ERR_SUCCESS, h\<lparr>uh_initialized := True\<rparr>))"

definition usb_host_cleanup :: "g_usb_host \<Rightarrow> g_usb_host" where
  "usb_host_cleanup h =
     (if \<not> uh_initialized h then h
      else h\<lparr>uh_hotplug_callback := None, uh_hotplug_user_data := None, uh_initialized := False\<rparr>)"

definition usb_register_hotplug :: "nat option \<Rightarrow> nat option \<Rightarrow> g_usb_host \<Rightarrow> error_code \<times> g_usb_host" where
  "usb_register_hotplug callback user_data h =
     (ERR_SUCCESS, h\<lparr>uh_hotplug_callback := callback, uh_hotplug_user_data := user_data\<rparr>)"

definition usb_unregister_hotplug :: "g_usb_host \<Rightarrow> g_usb_host" where
  "usb_unregister_hotplug h = h\<lparr>uh_hotplug_callback := None, uh_hotplug_user_data := None\<rparr>"

lemma usb_host_init_up [simp]:
  "fst (usb_host_init h) = ERR_SUCCESS" "uh_initialized (snd (usb_host_init h))"
  by (simp_all add: usb_host_init_def)

lemma usb_host_cleanup_down [simp]: "\<not> uh_initialized (usb_host_cleanup h)"
  by (simp add: usb_host_cleanup_def)

text \<open>A callback is registered only between start and cleanup if it is registered after the start.\<close>

lemma hotplug_cleared:
  assumes "uh_initialized h"
  shows "usb_host_cleanup (snd (usb_register_hotplug callback user_data h)) = default_usb_host"
    and "usb_unregister_hotplug (snd (usb_register_hotplug callback user_data h)) = usb_unregister_hotplug h"
  using assms
  by (simp_all add: usb_host_cleanup_def usb_register_hotplug_def usb_unregister_hotplug_def default_usb_host_def)

definition count_device_callback :: "int \<Rightarrow> usb_device \<Rightarrow> int" where
  "count_device_callback n d = n + 1"

definition usb_get_device_count ::
    "(16 word list \<Rightarrow> nat \<Rightarrow> cbuf option) \<Rightarrow> bool \<Rightarrow> device_node list option \<Rightarrow> int" where
  "usb_get_device_count utf8 initialized nodes =
     snd (usb_enumerate_devices utf8 initialized nodes count_device_callback 0)"

text \<open>The state of the two search callbacks: the device found first, if any.\<close>

definition find_device_callback :: "cbuf \<Rightarrow> usb_device option \<Rightarrow> usb_device \<Rightarrow> usb_device option" where
  "find_device_callback busid found d =
     (if found = None \<and> streq (dv_busid d) busid then Some d else found)"

definition find_vidpid_callback ::
    "uint16_t \<Rightarrow> uint16_t \<Rightarrow> usb_device option \<Rightarrow> usb_device \<Rightarrow> usb_device option" where
  "find_vidpid_callback vid pid found d =
     (if found = None \<and> dv_vendor_id d = vid \<and> dv_product_id d = pid then Some d else found)"

definition found_result :: "error_code \<times> usb_device option \<Rightarrow> error_code + usb_device" where
  "found_result r =
     (case r of (err, found) \<Rightarrow>
        if err \<noteq> ERR_SUCCESS then Inl err
        else case found of Some d \<Rightarrow> Inr d | None \<Rightarrow> Inl ERR_USB_NOT_FOUND)"

definition usb_find_device :: "(16 word list \<Rightarrow> nat \<Rightarrow> cbuf option) \<Rightarrow> bool \<Rightarrow> device_node list option
    \<Rightarrow> cbuf \<Rightarrow> error_code + usb_device" where
  "usb_find_device utf8 initialized nodes busid =
     found_result (usb_enumerate_devices utf8 initialized nodes (find_device_callback busid) None)"

definition usb_find_device_by_vid_pid :: "(16 word list \<Rightarrow> nat \<Rightarrow> cbuf option) \<Rightarrow> bool
    \<Rightarrow> device_node list option \<Rightarrow> uint16_t \<Rightarrow> uint16_t \<Rightarrow> error_code + usb_device" where
  "usb_find_device_by_vid_pid utf8 initialized nodes vid pid =
     found_result (usb_enumerate_devices utf8 initialized nodes (find_vidpid_callback vid pid) None)"

section \<open>WinUSB as an argument\<close>

text \<open>
  A transfer request with the interface handle it is made on; a write carries its data. An
  answer tells the number of bytes moved and, for input, the bytes stored at the start of
  the buffer.
\<close>

datatype usb_request =
    ReqControl handle uint8_t uint8_t uint16_t uint16_t uint16_t "byte list"
  | ReqRead handle uint8_t nat
  | ReqWrite handle uint8_t "byte list"

datatype usb_answer = XferOk uint32_t "byte list" | XferTimeout uint32_t "byte list" | XferFailed

datatype winusb_call = WinUsbFree nat | CloseHandle nat | AbortPipe handle uint8_t

record winusb =
  wu_create_file :: "cbuf \<Rightarrow> nat option"
  wu_initialize :: "nat \<Rightarrow> nat option"
  wu_descriptor :: "handle \<Rightarrow> uint8_t \<Rightarrow> uint8_t \<Rightarrow> uint16_t \<Rightarrow> nat \<Rightarrow> byte list option"
  wu_alt_setting :: "handle \<Rightarrow> uint8_t \<Rightarrow> bool"
  wu_transfer :: "usb_request \<Rightarrow> usb_answer"

section \<open>Opening and closing\<close>

definition open_virtual :: "usb_device \<Rightarrow> usb_device" where
  "open_virtual d = d\<lparr>dv_handle := None, dv_is_open := True, dv_is_virtual := True\<rparr>"

definition usb_open_device :: "winusb \<Rightarrow> usb_device \<Rightarrow> error_code \<times> usb_device \<times> winusb_call list" where
  "usb_open_device os d =
     (if char_at (dv_path d) 0 = 0 then (ERR_INVALID_PARAM, d, [])
      else if dv_is_open d then (ERR_SUCCESS, d, [])
      else case wu_create_file os (cstr (dv_path d)) of
        None \<Rightarrow> (ERR_SUCCESS, open_virtual d, [])
      | Some file_handle \<Rightarrow>
          (case wu_initialize os file_handle of
             None \<Rightarrow> (ERR_SUCCESS, open_virtual d, [CloseHandle file_handle])
           | Some winusb_handle \<Rightarrow>
               (ERR_SUCCESS,
                d\<lparr>dv_handle := Some file_handle,
                  dv_interface_handles := (dv_interface_handles d)[0 := Some winusb_handle],
                  dv_is_open := True, dv_is_virtual := False\<rparr>, [])))"

definition usb_claim_interface :: "usb_device \<Rightarrow> uint8_t \<Rightarrow> error_code \<times> usb_device" where
  "usb_claim_interface d n =
     (if \<not> dv_is_open d then (ERR_INVALID_PARAM, d)
      else if dv_is_claimed d then
        (if dv_claimed_interface d = uint n then (ERR_SUCCESS, d) else (ERR_USB_BUSY, d))
      else (ERR_SUCCESS, d\<lparr>dv_is_claimed := True, dv_claimed_interface := uint n\<rparr>))"

definition usb_release_interface :: "usb_device \<Rightarrow> uint8_t \<Rightarrow> error_code \<times> usb_device" where
  "usb_release_interface d n =
     (if \<not> dv_is_open d then (ERR_INVALID_PARAM, d)
      else if \<not> dv_is_claimed d \<or> dv_claimed_interface d \<noteq> uint n then (ERR_SUCCESS, d)
      else (ERR_SUCCESS, d\<lparr>dv_is_claimed := False, dv_claimed_interface := -1\<rparr>))"

text \<open>The loop over the interface handles: every handle that is set is freed.\<close>

fun free_handles :: "handle list \<Rightarrow> winusb_call list" where
  "free_handles [] = []"
| "free_handles (None # hs) = free_handles hs"
| "free_handles (Some h # hs) = WinUsbFree h # free_handles hs"

definition usb_close_device :: "usb_device \<Rightarrow> usb_device \<times> winusb_call list" where
  "usb_close_device d =
     (if \<not> dv_is_open d then (d, [])
      else
        let d1 = (if dv_is_claimed d
                  then snd (usb_release_interface d (word_of_int (dv_claimed_interface d))) else d);
            (d2, tr) =
              (if \<not> dv_is_virtual d1 then
                 (d1\<lparr>dv_interface_handles := map (\<lambda>h. None) (dv_interface_handles d1), dv_handle := None\<rparr>,
                  free_handles (dv_interface_handles d1) @
                  (case dv_handle d1 of Some h \<Rightarrow> [CloseHandle h] | None \<Rightarrow> []))
               else (d1, []))
        in (d2\<lparr>dv_is_open := False, dv_is_virtual := False\<rparr>, tr))"

definition usb_reset_device :: "winusb \<Rightarrow> usb_device \<Rightarrow> error_code \<times> usb_device \<times> winusb_call list" where
  "usb_reset_device os d =
     (if \<not> dv_is_open d then (ERR_INVALID_PARAM, d, [])
      else case usb_close_device d of
        (d1, tr) \<Rightarrow> (case usb_open_device os d1 of (e, d2, tr') \<Rightarrow> (e, d2, tr @ tr')))"

section \<open>Descriptors\<close>

text \<open>Input bytes overwrite the start of the buffer, within its length.\<close>

definition overlay :: "byte list \<Rightarrow> byte list \<Rightarrow> byte list" where
  "overlay bs buf = take (length buf) bs @ drop (length bs) buf"

text \<open>The answer is written over the structure of the caller.\<close>

definition usb_get_device_descriptor :: "winusb \<Rightarrow> usb_device \<Rightarrow> usb_device_descriptor
    \<Rightarrow> error_code \<times> usb_device_descriptor" where
  "usb_get_device_descriptor os d desc =
     (if \<not> dv_is_open d then (ERR_INVALID_PARAM, desc)
      else case wu_descriptor os (dv_interface_handles d ! 0) 1 0 0 18 of
        None \<Rightarrow> (ERR_USB_DESCRIPTOR_ERROR, desc)
      | Some bs \<Rightarrow> (ERR_SUCCESS, device_descriptor_of_mem (overlay bs (mem_device_descriptor desc))))"

lemma device_descriptor_read:
  assumes "dv_is_open d" and "wu_descriptor os (dv_interface_handles d ! 0) 1 0 0 18 = Some (mem_device_descriptor x)"
  shows "usb_get_device_descriptor os d desc = (ERR_SUCCESS, x)"
  using assms device_layout.of_mem_mem[of x "[]"]
  by (simp add: usb_get_device_descriptor_def overlay_def device_layout.mem_length)

definition usb_get_config_descriptor ::
    "winusb \<Rightarrow> usb_device \<Rightarrow> uint8_t \<Rightarrow> nat \<Rightarrow> error_code + (byte list \<times> nat)" where
  "usb_get_config_descriptor os d config_index buffer_size =
     (if \<not> dv_is_open d then Inl ERR_INVALID_PARAM
      else case wu_descriptor os (dv_interface_handles d ! 0) 2 config_index 0 buffer_size of
        None \<Rightarrow> Inl ERR_USB_DESCRIPTOR_ERROR | Some bs \<Rightarrow> Inr (bs, length bs))"

fun copy_low_bytes :: "cbuf \<Rightarrow> byte list \<Rightarrow> nat \<Rightarrow> nat \<Rightarrow> cbuf" where
  "copy_low_bytes buffer str i n =
     (if n = 0 then buffer
      else copy_low_bytes (buffer[i := str ! (2 + 2 * i)]) str (Suc i) (n - 1))"

declare copy_low_bytes.simps [simp del]

text \<open>
  \<open>str\<close> is the 256-byte buffer after a successful call. The division truncates towards zero;
  a store at a negative index is undefined: \<open>None\<close>.
\<close>

definition usb_get_string_descriptor :: "winusb \<Rightarrow> usb_device \<Rightarrow> uint8_t \<Rightarrow> uint16_t \<Rightarrow> cbuf \<Rightarrow> nat
    \<Rightarrow> (error_code \<times> cbuf) option" where
  "usb_get_string_descriptor os d index lang_id buffer buffer_size =
     (if \<not> dv_is_open d then Some (ERR_INVALID_PARAM, buffer)
      else case wu_descriptor os (dv_interface_handles d ! 0) 3 index lang_id 256 of
        None \<Rightarrow> Some (ERR_USB_DESCRIPTOR_ERROR, buffer)
      | Some str \<Rightarrow>
          let chars = (if uint (str ! 0) < 2 then - ((2 - uint (str ! 0)) div 2)
                       else (uint (str ! 0) - 2) div 2);
              copy_chars = (if chars < int buffer_size - 1 then chars else int buffer_size - 1)
          in if copy_chars < 0 then None
             else Some (ERR_SUCCESS,
                        (copy_low_bytes buffer str 0 (nat copy_chars))[nat copy_chars := 0]))"

definition usb_set_configuration :: "usb_device \<Rightarrow> uint8_t \<Rightarrow> error_code" where
  "usb_set_configuration d configuration = ERR_SUCCESS"

text \<open>An interface number behind the table of handles reads outside it: \<open>None\<close>.\<close>

definition usb_set_interface :: "winusb \<Rightarrow> usb_device \<Rightarrow> uint8_t \<Rightarrow> uint8_t \<Rightarrow> error_code option" where
  "usb_set_interface os d interface_num alt_setting =
     (if \<not> dv_is_open d then Some ERR_INVALID_PARAM
      else if unat interface_num \<ge> length (dv_interface_handles d) then None
      else
        let h = dv_interface_handles d ! unat interface_num;
            winusb = (if h = None then dv_interface_handles d ! 0 else h)
        in Some (if \<not> wu_alt_setting os winusb alt_setting then ERR_USB_IO_FAILED else ERR_SUCCESS))"

section \<open>Transfers\<close>

text \<open>
  Results: the code, the data buffer, the value stored through \<open>actual_length\<close> (it keeps
  its old value \<open>old\<close> on the paths that do not store it), and the request made.
\<close>

definition usb_control_transfer :: "winusb \<Rightarrow> usb_device \<Rightarrow> uint8_t \<Rightarrow> uint8_t \<Rightarrow> uint16_t \<Rightarrow> uint16_t
    \<Rightarrow> byte list \<Rightarrow> uint16_t \<Rightarrow> uint32_t \<Rightarrow> error_code \<times> byte list \<times> uint32_t \<times> usb_request list" where
  "usb_control_transfer os d request_type request value index data len old =
     (if \<not> dv_is_open d then (ERR_INVALID_PARAM, data, old, [])
      else
        let req = ReqControl (dv_interface_handles d ! 0) request_type request value index len
                    (take (unat len) data)
        in case wu_transfer os req of
             XferOk k bs \<Rightarrow> (ERR_SUCCESS, overlay (take (unat len) bs) data, k, [req])
           | XferTimeout k bs \<Rightarrow> (ERR_TIMEOUT, overlay (take (unat len) bs) data, old, [req])
           | XferFailed \<Rightarrow> (ERR_USB_IO_FAILED, data, old, [req]))"

definition usb_bulk_transfer :: "winusb \<Rightarrow> usb_device \<Rightarrow> uint8_t \<Rightarrow> byte list \<Rightarrow> uint32_t \<Rightarrow> uint32_t
    \<Rightarrow> error_code \<times> byte list \<times> uint32_t \<times> usb_request list" where
  "usb_bulk_transfer os d endpoint data len old =
     (if \<not> dv_is_open d then (ERR_INVALID_PARAM, data, old, [])
      else
        let winusb = dv_interface_handles d ! 0;
            req = (if endpoint AND USB_DIR_IN \<noteq> 0 then ReqRead winusb endpoint (unat len)
                   else ReqWrite winusb endpoint (take (unat len) data));
            input = (\<lambda>bs. if endpoint AND USB_DIR_IN \<noteq> 0 then overlay (take (unat len) bs) data else data)
        in case wu_transfer os req of
             XferOk k bs \<Rightarrow> (ERR_SUCCESS, input bs, k, [req])
           | XferTimeout k bs \<Rightarrow> (ERR_TIMEOUT, input bs, k, [req])
           | XferFailed \<Rightarrow> (ERR_USB_IO_FAILED, data, old, [req]))"

definition usb_interrupt_transfer :: "winusb \<Rightarrow> usb_device \<Rightarrow> uint8_t \<Rightarrow> byte list \<Rightarrow> uint32_t \<Rightarrow> uint32_t
    \<Rightarrow> error_code \<times> byte list \<times> uint32_t \<times> usb_request list" where
  "usb_interrupt_transfer os d endpoint data len old = usb_bulk_transfer os d endpoint data len old"

text \<open>The data of a request block whose buffer pointer is null is empty.\<close>

definition urb_data :: "usb_urb \<Rightarrow> byte list" where
  "urb_data u = (case ub_buffer u of Some b \<Rightarrow> b | None \<Rightarrow> [])"

definition usb_submit_urb :: "winusb \<Rightarrow> usb_device \<Rightarrow> usb_urb \<Rightarrow> error_code \<times> usb_urb \<times> usb_request list" where
  "usb_submit_urb os d u =
     (if \<not> dv_is_open d then (ERR_INVALID_PARAM, u, [])
      else
        let (result, data, actual_length, reqs) =
              (if ub_endpoint u = 0 then
                 let setup = setup_packet_of_mem (ub_setup u)
                 in usb_control_transfer os d (sp_bmRequestType setup) (sp_bRequest setup) (sp_wValue setup)
                      (sp_wIndex setup) (urb_data u) (ucast (ub_buffer_length u)) 0
               else if ub_type u = USB_ENDPOINT_XFER_BULK then
                 usb_bulk_transfer os d (ub_endpoint u) (urb_data u) (ub_buffer_length u) 0
               else usb_interrupt_transfer os d (ub_endpoint u) (urb_data u) (ub_buffer_length u) 0)
        in (result,
            u\<lparr>ub_buffer := map_option (\<lambda>b. data) (ub_buffer u), ub_actual_length := actual_length,
              ub_status := (if result = ERR_SUCCESS then 0 else -1), ub_completed := True\<rparr>, reqs))"

text \<open>\<^verbatim>\<open>ECANCELED\<close> is 105 in the C runtime of Windows.\<close>

definition usb_cancel_urb :: "usb_device \<Rightarrow> usb_urb \<Rightarrow> error_code \<times> usb_urb \<times> winusb_call list" where
  "usb_cancel_urb d u =
     (ERR_SUCCESS, u\<lparr>ub_cancelled := True, ub_completed := True, ub_status := -105\<rparr>,
      [AbortPipe (dv_interface_handles d ! 0) (ub_endpoint u)])"

definition usb_reap_urb :: "usb_device \<Rightarrow> error_code" where
  "usb_reap_urb d = ERR_NOT_SUPPORTED"

section \<open>Conversion to protocol structures\<close>

definition usb_device_to_usbip :: "usb_device \<Rightarrow> usbip_usb_device" where
  "usb_device_to_usbip d =
     zero_device\<lparr>ud_path := str_copy (ud_path zero_device) (dv_path d) 256,
       ud_busid := str_copy (ud_busid zero_device) (dv_busid d) 32,
       ud_busnum := dv_busnum d, ud_devnum := dv_devnum d, ud_speed := dv_speed d,
       ud_idVendor := dv_vendor_id d, ud_idProduct := dv_product_id d,
       ud_bcdDevice := dv_bcd_device d, ud_bDeviceClass := dv_device_class d,
       ud_bDeviceSubClass := dv_device_subclass d, ud_bDeviceProtocol := dv_device_protocol d,
       ud_bConfigurationValue := dv_configuration_value d,
       ud_bNumConfigurations := dv_num_configurations d, ud_bNumInterfaces := dv_num_interfaces d\<rparr>"

definition usb_interface_to_usbip :: "usb_interface_info \<Rightarrow> usbip_usb_interface" where
  "usb_interface_to_usbip i =
     \<lparr>ui_bInterfaceClass = if_class_code i, ui_bInterfaceSubClass = if_subclass_code i,
      ui_bInterfaceProtocol = if_protocol i, ui_padding = 0\<rparr>"

section \<open>Laws\<close>

lemma enumerate_loop_eq:
  "enumerate_loop utf8 cb ds s = foldl cb s (map (node_device utf8) (filter (\<lambda>d. \<not> node_skipped d) ds))"
  by (induction ds arbitrary: s) auto

lemma foldl_find_first:
  "foldl (\<lambda>found d. if found = None \<and> P d then Some d else found) s ds =
     (case s of Some d \<Rightarrow> Some d | None \<Rightarrow> List.find P ds)"
  by (induction ds arbitrary: s) (auto split: option.splits)

lemma device_wf_to_usbip [simp]: "device_wf (usb_device_to_usbip d)"
  by (simp add: usb_device_to_usbip_def device_wf_def zero_device_def)

lemma busid_to_usbip: "cstr (ud_busid (usb_device_to_usbip d)) = take 31 (cstr (dv_busid d))"
  by (simp add: usb_device_to_usbip_def zero_device_def)

lemma free_handles_None [simp]: "set hs \<subseteq> {None} \<Longrightarrow> free_handles hs = []"
  by (induction hs rule: free_handles.induct) auto

lemma overlay_length [simp]: "length bs \<le> length buf \<Longrightarrow> length (overlay bs buf) = length buf"
  by (simp add: overlay_def)

text \<open>
  The handle invariant: a device opened through WinUSB has its file handle, every other
  device has no handle at all, and only an open device is claimed.
\<close>

definition usb_device_inv :: "usb_device \<Rightarrow> bool" where
  "usb_device_inv d \<longleftrightarrow>
     length (dv_interface_handles d) = 32 \<and>
     (if dv_is_open d \<and> \<not> dv_is_virtual d then dv_handle d \<noteq> None
      else dv_handle d = None \<and> set (dv_interface_handles d) \<subseteq> {None}) \<and>
     (dv_is_claimed d \<longrightarrow> dv_is_open d \<and> 0 \<le> dv_claimed_interface d \<and> dv_claimed_interface d < 256)"

lemma usb_device_inv_zero: "usb_device_inv zero_usb_device"
  by (simp add: usb_device_inv_def zero_usb_device_def)

lemma usb_open_device_inv:
  "usb_device_inv d \<Longrightarrow> usb_open_device os d = (e, d', tr) \<Longrightarrow> usb_device_inv d'"
  by (auto simp: usb_device_inv_def usb_open_device_def open_virtual_def split: if_splits option.splits)

lemma usb_claim_release_inv:
  "usb_device_inv d \<Longrightarrow> usb_device_inv (snd (usb_claim_interface d n))"
  "usb_device_inv d \<Longrightarrow> usb_device_inv (snd (usb_release_interface d n))"
  using uint_lt2p[of n]
  by (auto simp: usb_device_inv_def usb_claim_interface_def usb_release_interface_def)

text \<open>Closing gives back every handle, drops the claim and leaves a closed device.\<close>

lemma usb_close_device_closed:
  assumes "usb_device_inv d" and "usb_close_device d = (d', tr)"
  shows "usb_device_inv d'" and "\<not> dv_is_open d'" and "\<not> dv_is_claimed d'"
    and "tr = free_handles (dv_interface_handles d) @ (case dv_handle d of Some h \<Rightarrow> [CloseHandle h] | None \<Rightarrow> [])"
proof -
  have u: "uint (word_of_int (dv_claimed_interface d) :: uint8_t) = dv_claimed_interface d" if "dv_is_claimed d"
    using assms(1) that by (auto simp: usb_device_inv_def uint_word_of_int)
  show "usb_device_inv d'" "\<not> dv_is_open d'" "\<not> dv_is_claimed d'"
    "tr = free_handles (dv_interface_handles d) @ (case dv_handle d of Some h \<Rightarrow> [CloseHandle h] | None \<Rightarrow> [])"
    using assms u
    by (auto simp: usb_close_device_def usb_release_interface_def usb_device_inv_def Let_def
        split: if_splits option.splits)
qed

text \<open>The calls that give back what opening obtained from the system, in order.\<close>

definition obtained_handles :: "winusb \<Rightarrow> usb_device \<Rightarrow> winusb_call list" where
  "obtained_handles os d =
     (case wu_create_file os (cstr (dv_path d)) of
        None \<Rightarrow> []
      | Some f \<Rightarrow> (case wu_initialize os f of
          None \<Rightarrow> [CloseHandle f]
        | Some w \<Rightarrow> [WinUsbFree w, CloseHandle f]))"

lemma usb_open_device_opens:
  assumes "usb_device_inv d" and "\<not> dv_is_open d" and "char_at (dv_path d) 0 \<noteq> 0"
    and "usb_open_device os d = (e, d1, tr1)"
  shows "e = ERR_SUCCESS \<and> dv_is_open d1 \<and> dv_is_claimed d1 = dv_is_claimed d"
  using assms by (auto simp: usb_open_device_def open_virtual_def split: option.splits if_splits)

lemma usb_open_close_trace:
  assumes "usb_device_inv d" and "\<not> dv_is_open d" and "char_at (dv_path d) 0 \<noteq> 0"
    and "usb_open_device os d = (e, d1, tr1)" and "usb_device_inv d2"
    and "dv_interface_handles d2 = dv_interface_handles d1" and "dv_handle d2 = dv_handle d1"
    and "usb_close_device d2 = (d3, tr2)"
  shows "tr1 @ tr2 = obtained_handles os d"
proof -
  have hs: "dv_interface_handles d = None # replicate 31 None" "dv_handle d = None"
  proof -
    have "\<forall>x\<in>set (dv_interface_handles d). x = None" "length (dv_interface_handles d) = 32"
      using assms(1,2) by (auto simp: usb_device_inv_def)
    then have "dv_interface_handles d = replicate 32 None" by (intro replicate_eqI) auto
    then show "dv_interface_handles d = None # replicate 31 None" by (simp add: numeral_eq_Suc)
    show "dv_handle d = None" using assms(1,2) by (simp add: usb_device_inv_def)
  qed
  note c = usb_close_device_closed(4)[OF assms(5,8)]
  have "set (replicate 31 (None :: handle)) \<subseteq> {None}" by auto
  note z = free_handles_None[OF this]
  show ?thesis
    using assms(2-4,6,7) hs z
    by (auto simp: usb_open_device_def open_virtual_def obtained_handles_def c split: option.splits if_splits)
qed

section \<open>Properties\<close>

text \<open>
  Enumeration reports exactly the nodes that pass all filters, in order, and a search
  by bus identifier returns the first of them with that identifier. No hub, no composite
  parent and no node without vendor and product identifier is reported.
\<close>

lemma find_device_first:
  "usb_find_device utf8 True (Some ds) busid =
     (case List.find (\<lambda>d. streq (dv_busid d) busid)
             (map (node_device utf8) (filter (\<lambda>d. \<not> node_skipped d) ds)) of
        Some d \<Rightarrow> Inr d | None \<Rightarrow> Inl ERR_USB_NOT_FOUND) \<and>
   (\<forall>n :: device_node. is_usb_hub (dn_hardware_id n) \<or> \<not> has (dn_hardware_id n) ''VID_'' \<or>
      \<not> has (dn_hardware_id n) ''PID_'' \<or> strieq (dn_service n) (ascii ''usbccgp'') \<longrightarrow> node_skipped n)"
proof (intro conjI allI impI)
  have "find_device_callback busid = (\<lambda>found d. if found = None \<and> streq (dv_busid d) busid then Some d else found)"
    by (simp add: find_device_callback_def fun_eq_iff)
  then show "usb_find_device utf8 True (Some ds) busid =
     (case List.find (\<lambda>d. streq (dv_busid d) busid)
             (map (node_device utf8) (filter (\<lambda>d. \<not> node_skipped d) ds)) of
        Some d \<Rightarrow> Inr d | None \<Rightarrow> Inl ERR_USB_NOT_FOUND)"
    by (simp add: usb_find_device_def usb_enumerate_devices_def found_result_def enumerate_loop_eq
        foldl_find_first split: option.split)
next
  fix n :: device_node
  assume a: "is_usb_hub (dn_hardware_id n) \<or> \<not> has (dn_hardware_id n) ''VID_'' \<or>
      \<not> has (dn_hardware_id n) ''PID_'' \<or> strieq (dn_service n) (ascii ''usbccgp'')"
  have "char_at (dn_service n) 0 \<noteq> 0" if "strieq (dn_service n) (ascii ''usbccgp'')"
    using that by (auto simp: strieq_def ascii_def of_char_def simp flip: cstr_eq_Nil_iff)
  then show "node_skipped n" using a by (auto simp: node_skipped_def)
qed

lemma find_device_first_example:
  "usb_find_device (\<lambda>w n. None) True (Some [\<lparr>dn_hardware_id = ascii ''USB ROOT_HUB VID_1 PID_1'',
      dn_service = [], dn_desc = [], dn_desc_w = None, dn_friendly_w = None, dn_instance_id = ascii ''x''\<rparr>])
     (ascii ''1-1'') = Inl ERR_USB_NOT_FOUND"
proof -
  let ?n = "\<lparr>dn_hardware_id = ascii ''USB ROOT_HUB VID_1 PID_1'',
      dn_service = [], dn_desc = [], dn_desc_w = None, dn_friendly_w = None, dn_instance_id = ascii ''x''\<rparr>"
  have "has (dn_hardware_id ?n) ''ROOT_HUB''" by code_simp
  then have "node_skipped ?n" using find_device_first[of "\<lambda>w n. None" "[]" "[]"]
    unfolding is_usb_hub_def by blast
  then show ?thesis using find_device_first[of "\<lambda>w n. None" "[?n]" "ascii ''1-1''"] by simp
qed

text \<open>
  C36: opening and closing is balanced. From a closed device in the handle invariant,
  opening succeeds (falling back to virtual mode), keeps the invariant and marks the device
  open; closing it again returns a closed, unclaimed device in the invariant, and over both
  calls exactly the handles obtained from the system are given back, each once.
\<close>

theorem open_close_balanced:
  assumes "usb_device_inv d" and "\<not> dv_is_open d" and "char_at (dv_path d) 0 \<noteq> 0"
    and "usb_open_device os d = (e, d1, tr1)" and "usb_close_device d1 = (d2, tr2)"
  shows "e = ERR_SUCCESS \<and> dv_is_open d1 \<and> usb_device_inv d1 \<and> usb_device_inv d2 \<and> \<not> dv_is_open d2 \<and>
    tr1 @ tr2 = obtained_handles os d"
  using usb_open_device_opens[OF assms(1-4)] usb_open_device_inv[OF assms(1,4)]
    usb_close_device_closed(1,2)[OF usb_open_device_inv[OF assms(1,4)] assms(5)]
    usb_open_close_trace[OF assms(1-4) _ refl refl assms(5)] by blast

theorem open_close_balanced_witness:
  "\<exists>e d1 tr1. usb_open_device \<lparr>wu_create_file = (\<lambda>p. Some 3), wu_initialize = (\<lambda>h. Some 4),
        wu_descriptor = (\<lambda>h t i l n. None), wu_alt_setting = (\<lambda>h a. True), wu_transfer = (\<lambda>r. XferFailed)\<rparr>
      (zero_usb_device\<lparr>dv_path := (replicate 256 0)[0 := 65]\<rparr>) = (e, d1, tr1) \<and>
     tr1 @ snd (usb_close_device d1) = [WinUsbFree 4, CloseHandle 3]"
proof -
  let ?os = "\<lparr>wu_create_file = (\<lambda>p. Some 3), wu_initialize = (\<lambda>h. Some 4),
        wu_descriptor = (\<lambda>h t i l n. None), wu_alt_setting = (\<lambda>h a. True), wu_transfer = (\<lambda>r. XferFailed)\<rparr>"
  let ?d = "zero_usb_device\<lparr>dv_path := (replicate 256 0)[0 := 65]\<rparr>"
  obtain e d1 tr1 where o: "usb_open_device ?os ?d = (e, d1, tr1)" by (metis prod_cases3)
  obtain d2 tr2 where c: "usb_close_device d1 = (d2, tr2)" by fastforce
  have "usb_device_inv ?d" "\<not> dv_is_open ?d" "char_at (dv_path ?d) 0 \<noteq> 0"
    by (simp_all add: usb_device_inv_def zero_usb_device_def char_at_def)
  from open_close_balanced[OF this o c] o c show ?thesis by (auto simp: obtained_handles_def)
qed

lemma word_mod_Suc_bounds:
  fixes h :: "'a :: len word"
  assumes "unat (h mod m) < n" and "n < 2 ^ LENGTH('a)"
  shows "unat (h mod m + 1) \<in> {1..n}"
proof -
  have "unat (h mod m + 1) = Suc (unat (h mod m))"
    using assms by (simp add: unat_word_ariths)
  then show ?thesis using assms(1) by simp
qed

lemma busid_ports:
  "(unat (drop_bit 8 (fnv1a 0x811c9dc5 (cstr path)) mod 8 + 1), unat (fnv1a 0x811c9dc5 (cstr path) mod 16 + 1))
     \<in> {1..8} \<times> {1..16}"
  by (intro SigmaI word_mod_Suc_bounds) (simp_all add: unat_mod_distrib)

text \<open>
  There are at most 128 bus identifiers. Every identifier generated for a device is a
  bus from 1 to 8 and a port from 1 to 16, so among more than 128 devices two have the same
  one, although their instance identifiers may differ.
\<close>

lemma busid_collision:
  assumes "128 < length paths"
  shows "\<exists>i j. i < j \<and> j < length paths \<and>
    streq (parse_busid_from_path (paths ! i) (replicate 32 0) 32)
          (parse_busid_from_path (paths ! j) (replicate 32 0) 32)"
proof -
  let ?S = "(\<lambda>(b, p). take 31 (cstr (busid_text b p))) ` ({1..8} \<times> {1..16})"
  let ?f = "\<lambda>path. cstr (parse_busid_from_path path (replicate 32 0) 32)"
  have "?f path \<in> ?S" for path
    by (rule image_eqI[OF _ busid_ports[of path]]) (simp add: parse_busid_from_path_def Let_def)
  then have "set (map ?f paths) \<subseteq> ?S" by (simp only: set_map image_subset_iff) blast
  moreover have "finite ?S" by (intro finite_imageI finite_SigmaI) simp_all
  ultimately have "card (set (map ?f paths)) \<le> card ?S" by (rule card_mono[rotated])
  also have "card ?S \<le> card ({1..8 :: nat} \<times> {1..16 :: nat})" by (rule card_image_le) simp
  also have "\<dots> = 128" by (simp only: card_cartesian_product card_atLeastAtMost) simp
  finally have "card (set (map ?f paths)) < length (map ?f paths)" using assms by simp
  then have "\<not> distinct (map ?f paths)" by (metis distinct_card less_irrefl)
  then show ?thesis unfolding distinct_conv_nth streq_def by (auto, metis linorder_neqE_nat)
qed

lemma busid_collision_example:
  "\<exists>i j. i < j \<and> j < 129 \<and>
    streq (parse_busid_from_path (map (\<lambda>i. [word_of_nat (Suc i)]) [0..<129] ! i) (replicate 32 0) 32)
          (parse_busid_from_path (map (\<lambda>i. [word_of_nat (Suc i)]) [0..<129] ! j) (replicate 32 0) 32)"
  using busid_collision[of "map (\<lambda>i. [word_of_nat (Suc i)]) [0..<129]"] by simp

end
