(* ===== verification/Device_List.thy ===== *)
theory Device_List
  imports Usb_Host
begin

text \<open>
  The list of shared devices, \<^verbatim>\<open>server/device_list.c\<close>. The singly linked list is the list of
  its nodes from the head, each with its address, so that a pointer to an entry is an address
  and the address of a freed entry no longer occurs. The mutex is a recursive Windows mutex;
  \<open>dl_locks\<close> is the number of times the running thread holds it. Operations return the
  handles that closing an entry gives back. References that no caller passes as \<open>NULL\<close> are
  plain arguments.
\<close>

section \<open>Entries and the list\<close>

datatype device_state =
  DEVICE_STATE_AVAILABLE | DEVICE_STATE_EXPORTED | DEVICE_STATE_BUSY | DEVICE_STATE_ERROR

definition device_state_string :: "device_state \<Rightarrow> string" where
  "device_state_string state =
     (case state of
        DEVICE_STATE_AVAILABLE \<Rightarrow> ''Available''
      | DEVICE_STATE_EXPORTED \<Rightarrow> ''Exported''
      | DEVICE_STATE_BUSY \<Rightarrow> ''Busy''
      | DEVICE_STATE_ERROR \<Rightarrow> ''Error'')"

record device_entry =
  de_device :: usb_device
  de_state :: device_state
  de_client_id :: uint32_t
  de_client_ip :: cbuf
  de_export_time :: uint64_t
  de_is_shared :: bool

record device_list =
  dl_head :: "(nat \<times> device_entry) list"
  dl_count :: int
  dl_locks :: nat
  dl_initialized :: bool

abbreviation (input) MAX_DEVICES :: nat where "MAX_DEVICES \<equiv> 32"

definition new_entry :: "usb_device \<Rightarrow> device_entry" where
  "new_entry device =
     \<lparr>de_device = device, de_state = DEVICE_STATE_AVAILABLE, de_client_id = 0,
      de_client_ip = replicate 64 0, de_export_time = 0, de_is_shared = True\<rparr>"

text \<open>\<open>calloc\<close> is the address of the new node, \<open>None\<close> when memory is exhausted.\<close>

definition create_entry :: "nat option \<Rightarrow> usb_device \<Rightarrow> (nat \<times> device_entry) option" where
  "create_entry calloc device = map_option (\<lambda>p. (p, new_entry device)) calloc"

definition free_entry :: "device_entry \<Rightarrow> winusb_call list" where
  "free_entry entry = (if dv_is_open (de_device entry) then snd (usb_close_device (de_device entry)) else [])"

definition device_list_init :: "bool \<Rightarrow> error_code \<times> device_list" where
  "device_list_init mutex_ok =
     (let l = \<lparr>dl_head = [], dl_count = 0, dl_locks = 0, dl_initialized = False\<rparr>
      in if \<not> mutex_ok then (ERR_MUTEX_INIT, l) else (ERR_SUCCESS, l\<lparr>dl_initialized := True\<rparr>))"

definition device_list_lock :: "device_list \<Rightarrow> device_list" where
  "device_list_lock l = (if dl_initialized l then l\<lparr>dl_locks := dl_locks l + 1\<rparr> else l)"

definition device_list_unlock :: "device_list \<Rightarrow> device_list" where
  "device_list_unlock l = (if dl_initialized l then l\<lparr>dl_locks := dl_locks l - 1\<rparr> else l)"

section \<open>Lookup\<close>

text \<open>The search loops from a node on, and the functions that return an entry pointer.\<close>

fun find_entry :: "(device_entry \<Rightarrow> bool) \<Rightarrow> (nat \<times> device_entry) list \<Rightarrow> nat option" where
  "find_entry P [] = None"
| "find_entry P ((p, e) # ns) = (if P e then Some p else find_entry P ns)"

definition device_list_find :: "device_list \<Rightarrow> cbuf \<Rightarrow> nat option" where
  "device_list_find l busid = find_entry (\<lambda>e. streq (dv_busid (de_device e)) busid) (dl_head l)"

definition device_list_find_by_vidpid :: "device_list \<Rightarrow> uint16_t \<Rightarrow> uint16_t \<Rightarrow> nat option" where
  "device_list_find_by_vidpid l vid pid =
     find_entry (\<lambda>e. dv_vendor_id (de_device e) = vid \<and> dv_product_id (de_device e) = pid) (dl_head l)"

definition device_list_find_by_path :: "device_list \<Rightarrow> cbuf \<Rightarrow> nat option" where
  "device_list_find_by_path l path = find_entry (\<lambda>e. streq (dv_path (de_device e)) path) (dl_head l)"

text \<open>Reading and writing through an entry pointer.\<close>

definition entry_at :: "device_list \<Rightarrow> nat \<Rightarrow> device_entry option" where
  "entry_at l p = map_of (dl_head l) p"

definition set_entry :: "device_list \<Rightarrow> nat \<Rightarrow> (device_entry \<Rightarrow> device_entry) \<Rightarrow> device_list" where
  "set_entry l p f = l\<lparr>dl_head := map (\<lambda>(q, e). (q, if q = p then f e else e)) (dl_head l)\<rparr>"

definition found_entry :: "device_list \<Rightarrow> cbuf \<Rightarrow> (nat \<times> device_entry) option" where
  "found_entry l busid =
     (case device_list_find l busid of
        None \<Rightarrow> None
      | Some p \<Rightarrow> map_option (\<lambda>e. (p, e)) (entry_at l p))"

definition device_list_count :: "device_list \<Rightarrow> int" where
  "device_list_count l = dl_count l"

fun available_loop :: "(nat \<times> device_entry) list \<Rightarrow> int \<Rightarrow> int" where
  "available_loop [] count = count"
| "available_loop ((p, e) # ns) count =
     available_loop ns (if de_state e = DEVICE_STATE_AVAILABLE \<and> de_is_shared e then count + 1 else count)"

definition device_list_available_count :: "device_list \<Rightarrow> int" where
  "device_list_available_count l = available_loop (dl_head l) 0"

section \<open>Adding, removing, clearing\<close>

definition device_list_add :: "nat option \<Rightarrow> usb_device \<Rightarrow> device_list \<Rightarrow> error_code \<times> device_list" where
  "device_list_add calloc device l =
     (case device_list_find l (dv_busid device) of
        Some p \<Rightarrow> (ERR_SUCCESS, set_entry l p (\<lambda>e. e\<lparr>de_device := device\<rparr>))
      | None \<Rightarrow>
          (case create_entry calloc device of
             None \<Rightarrow> (ERR_OUT_OF_MEMORY, l)
           | Some n \<Rightarrow> (ERR_SUCCESS, l\<lparr>dl_head := n # dl_head l, dl_count := dl_count l + 1\<rparr>)))"

text \<open>The removal loop returns the nodes that stay and the entry that was unlinked.\<close>

fun remove_loop :: "cbuf \<Rightarrow> (nat \<times> device_entry) list \<Rightarrow> (nat \<times> device_entry) list \<times> device_entry option" where
  "remove_loop busid [] = ([], None)"
| "remove_loop busid ((p, e) # ns) =
     (if streq (dv_busid (de_device e)) busid then (ns, Some e)
      else case remove_loop busid ns of (ns', r) \<Rightarrow> ((p, e) # ns', r))"

definition device_list_remove :: "cbuf \<Rightarrow> device_list \<Rightarrow> error_code \<times> device_list \<times> winusb_call list" where
  "device_list_remove busid l =
     (let l = device_list_lock l
      in case remove_loop busid (dl_head l) of
           (ns, Some e) \<Rightarrow>
             (ERR_SUCCESS, device_list_unlock (l\<lparr>dl_head := ns, dl_count := dl_count l - 1\<rparr>), free_entry e)
         | (ns, None) \<Rightarrow> (ERR_NOT_FOUND, device_list_unlock l, []))"

text \<open>\<open>None\<close>: the entry pointer is not (any more) an entry of the list.\<close>

definition device_list_remove_entry ::
    "nat \<Rightarrow> device_list \<Rightarrow> (error_code \<times> device_list \<times> winusb_call list) option" where
  "device_list_remove_entry target l =
     map_option (\<lambda>e. device_list_remove (dv_busid (de_device e)) l) (entry_at l target)"

fun clear_loop :: "(nat \<times> device_entry) list \<Rightarrow> winusb_call list" where
  "clear_loop [] = []"
| "clear_loop ((p, e) # ns) = free_entry e @ clear_loop ns"

definition device_list_clear :: "device_list \<Rightarrow> device_list \<times> winusb_call list" where
  "device_list_clear l = (l\<lparr>dl_head := [], dl_count := 0\<rparr>, clear_loop (dl_head l))"

definition device_list_cleanup :: "device_list \<Rightarrow> device_list \<times> winusb_call list" where
  "device_list_cleanup l =
     (if \<not> dl_initialized l then (l, [])
      else case device_list_clear (device_list_lock l) of
             (l, tr) \<Rightarrow> (device_list_unlock (l\<lparr>dl_initialized := False\<rparr>), tr))"

section \<open>State changes\<close>

definition device_list_export :: "uint64_t \<Rightarrow> cbuf \<Rightarrow> uint32_t \<Rightarrow> cbuf option \<Rightarrow> device_list
    \<Rightarrow> error_code \<times> device_list" where
  "device_list_export now busid client_id client_ip l =
     (let l = device_list_lock l
      in case found_entry l busid of
           None \<Rightarrow> (ERR_NOT_FOUND, device_list_unlock l)
         | Some (p, e) \<Rightarrow>
             if de_state e \<noteq> DEVICE_STATE_AVAILABLE then (ERR_DEVICE_BUSY, device_list_unlock l)
             else (ERR_SUCCESS, device_list_unlock (set_entry l p (\<lambda>e.
               e\<lparr>de_state := DEVICE_STATE_EXPORTED, de_client_id := client_id,
                 de_client_ip := (case client_ip of None \<Rightarrow> de_client_ip e
                                  | Some ip \<Rightarrow> str_copy (de_client_ip e) ip 64),
                 de_export_time := now\<rparr>))))"

definition device_list_unexport :: "cbuf \<Rightarrow> device_list \<Rightarrow> error_code \<times> device_list" where
  "device_list_unexport busid l =
     (let l = device_list_lock l
      in case found_entry l busid of
           None \<Rightarrow> (ERR_NOT_FOUND, device_list_unlock l)
         | Some (p, e) \<Rightarrow>
             (ERR_SUCCESS, device_list_unlock (set_entry l p (\<lambda>e.
               e\<lparr>de_state := DEVICE_STATE_AVAILABLE, de_client_id := 0,
                 de_client_ip := (de_client_ip e)[0 := 0], de_export_time := 0\<rparr>))))"

definition device_list_set_busy :: "bool \<Rightarrow> cbuf \<Rightarrow> device_list \<Rightarrow> error_code \<times> device_list" where
  "device_list_set_busy busy busid l =
     (let l = device_list_lock l
      in case found_entry l busid of
           None \<Rightarrow> (ERR_NOT_FOUND, device_list_unlock l)
         | Some (p, e) \<Rightarrow>
             (ERR_SUCCESS, device_list_unlock (set_entry l p (\<lambda>e.
               if busy \<and> de_state e = DEVICE_STATE_AVAILABLE then e\<lparr>de_state := DEVICE_STATE_BUSY\<rparr>
               else if \<not> busy \<and> de_state e = DEVICE_STATE_BUSY then e\<lparr>de_state := DEVICE_STATE_AVAILABLE\<rparr>
               else e))))"

definition device_list_set_shared :: "bool \<Rightarrow> cbuf \<Rightarrow> device_list \<Rightarrow> error_code \<times> device_list" where
  "device_list_set_shared shared busid l =
     (let l = device_list_lock l
      in case found_entry l busid of
           None \<Rightarrow> (ERR_NOT_FOUND, device_list_unlock l)
         | Some (p, e) \<Rightarrow>
             (ERR_SUCCESS, device_list_unlock (set_entry l p (\<lambda>e. e\<lparr>de_is_shared := shared\<rparr>))))"

text \<open>The three queries lock, look the entry up and unlock; the list is as before.\<close>

definition device_list_is_available :: "device_list \<Rightarrow> cbuf \<Rightarrow> bool" where
  "device_list_is_available l busid =
     (case found_entry l busid of
        None \<Rightarrow> False
      | Some (p, e) \<Rightarrow> de_state e = DEVICE_STATE_AVAILABLE \<and> de_is_shared e)"

definition device_list_is_exported :: "device_list \<Rightarrow> cbuf \<Rightarrow> bool" where
  "device_list_is_exported l busid =
     (case found_entry l busid of None \<Rightarrow> False | Some (p, e) \<Rightarrow> de_state e = DEVICE_STATE_EXPORTED)"

definition device_list_get_state :: "device_list \<Rightarrow> cbuf \<Rightarrow> device_state" where
  "device_list_get_state l busid =
     (case found_entry l busid of None \<Rightarrow> DEVICE_STATE_ERROR | Some (p, e) \<Rightarrow> de_state e)"

definition share_entries :: "bool \<Rightarrow> device_list \<Rightarrow> device_list" where
  "share_entries b l = l\<lparr>dl_head := map (\<lambda>(p, e). (p, e\<lparr>de_is_shared := b\<rparr>)) (dl_head l)\<rparr>"

definition device_list_share_all :: "device_list \<Rightarrow> device_list" where
  "device_list_share_all l = device_list_unlock (share_entries True (device_list_lock l))"

definition device_list_unshare_all :: "device_list \<Rightarrow> device_list" where
  "device_list_unshare_all l = device_list_unlock (share_entries False (device_list_lock l))"

section \<open>Iteration\<close>

text \<open>
  The callback gets an entry and its own data, and returns whether to go on. The callbacks
  of the program read the entry only.
\<close>

fun foreach_loop :: "(device_entry \<Rightarrow> bool) \<Rightarrow> (device_entry \<Rightarrow> 's \<Rightarrow> bool \<times> 's)
    \<Rightarrow> (nat \<times> device_entry) list \<Rightarrow> 's \<Rightarrow> 's" where
  "foreach_loop P callback [] s = s"
| "foreach_loop P callback ((p, e) # ns) s =
     (if P e then case callback e s of (go, s') \<Rightarrow> if go then foreach_loop P callback ns s' else s'
      else foreach_loop P callback ns s)"

definition device_list_foreach :: "device_list \<Rightarrow> (device_entry \<Rightarrow> 's \<Rightarrow> bool \<times> 's) \<Rightarrow> 's \<Rightarrow> 's" where
  "device_list_foreach l callback s = foreach_loop (\<lambda>e. True) callback (dl_head l) s"

definition device_list_foreach_available :: "device_list \<Rightarrow> (device_entry \<Rightarrow> 's \<Rightarrow> bool \<times> 's) \<Rightarrow> 's \<Rightarrow> 's" where
  "device_list_foreach_available l callback s =
     foreach_loop (\<lambda>e. de_state e = DEVICE_STATE_AVAILABLE) callback (dl_head l) s"

definition device_list_foreach_shared :: "device_list \<Rightarrow> (device_entry \<Rightarrow> 's \<Rightarrow> bool \<times> 's) \<Rightarrow> 's \<Rightarrow> 's" where
  "device_list_foreach_shared l callback s = foreach_loop de_is_shared callback (dl_head l) s"

section \<open>Refresh\<close>

record export_info =
  ex_busid :: cbuf
  ex_client_id :: uint32_t
  ex_client_ip :: cbuf

text \<open>The saving loop stops after \<open>MAX_DEVICES\<close> exported entries; \<open>n\<close> counts those saved.\<close>

fun save_exports :: "nat \<Rightarrow> (nat \<times> device_entry) list \<Rightarrow> export_info list" where
  "save_exports n [] = []"
| "save_exports n ((p, e) # ns) =
     (if \<not> n < MAX_DEVICES then []
      else if de_state e = DEVICE_STATE_EXPORTED then
        \<lparr>ex_busid = str_copy (replicate 32 0) (dv_busid (de_device e)) 32,
         ex_client_id = de_client_id e,
         ex_client_ip = str_copy (replicate 64 0) (de_client_ip e) 64\<rparr> # save_exports (Suc n) ns
      else save_exports n ns)"

text \<open>
  The enumeration callback; the answers of \<open>calloc\<close> are consumed in order, and memory is
  exhausted when there are no more.
\<close>

definition next_alloc :: "nat option list \<Rightarrow> nat option" where
  "next_alloc as = (case as of [] \<Rightarrow> None | a # _ \<Rightarrow> a)"

definition enum_callback :: "nat option list \<times> device_list \<Rightarrow> usb_device \<Rightarrow> nat option list \<times> device_list" where
  "enum_callback s d =
     (case s of (as, l) \<Rightarrow>
        (if device_list_find l (dv_busid d) = None then tl as else as,
         snd (device_list_add (next_alloc as) d l)))"

fun restore_exports :: "(nat \<Rightarrow> uint64_t) \<Rightarrow> nat \<Rightarrow> export_info list \<Rightarrow> device_list \<Rightarrow> device_list" where
  "restore_exports now i [] l = l"
| "restore_exports now i (x # xs) l =
     restore_exports now (Suc i) xs
       (case device_list_find l (ex_busid x) of
          None \<Rightarrow> l
        | Some p \<Rightarrow> set_entry l p (\<lambda>e.
            e\<lparr>de_state := DEVICE_STATE_EXPORTED, de_client_id := ex_client_id x,
              de_client_ip := str_copy (de_client_ip e) (ex_client_ip x) 64,
              de_export_time := now i\<rparr>))"

definition device_list_refresh :: "(16 word list \<Rightarrow> nat \<Rightarrow> cbuf option) \<Rightarrow> bool \<Rightarrow> device_node list option
    \<Rightarrow> nat option list \<Rightarrow> (nat \<Rightarrow> uint64_t) \<Rightarrow> device_list \<Rightarrow> error_code \<times> device_list \<times> winusb_call list" where
  "device_list_refresh utf8 host_ready nodes allocs now l =
     (if \<not> dl_initialized l then (ERR_INVALID_PARAM, l, [])
      else
        let l = device_list_lock l;
            exports = save_exports 0 (dl_head l);
            (l, tr) = device_list_clear l;
            (err, as, l) = usb_enumerate_devices utf8 host_ready nodes enum_callback (allocs, l);
            l = restore_exports now 0 exports l
        in (ERR_SUCCESS, device_list_unlock l, tr))"

section \<open>The abstract view\<close>

text \<open>
  A list in its invariant is a finite map from bus identifiers to entries: \<open>dl_lookup\<close>. The
  invariant says that nodes have distinct addresses and distinct identifiers, that the count
  is right and that the strings fit their buffers.
\<close>

definition busid_of :: "device_entry \<Rightarrow> byte list" where
  "busid_of e = cstr (dv_busid (de_device e))"

definition dl_lookup :: "device_list \<Rightarrow> cbuf \<Rightarrow> device_entry option" where
  "dl_lookup l busid = map_of (map (\<lambda>(p, e). (busid_of e, e)) (dl_head l)) (cstr busid)"

definition entry_ok :: "device_entry \<Rightarrow> bool" where
  "entry_ok e \<longleftrightarrow> strlen (dv_busid (de_device e)) < 32 \<and> length (de_client_ip e) = 64"

definition dl_inv :: "device_list \<Rightarrow> bool" where
  "dl_inv l \<longleftrightarrow>
     distinct (map fst (dl_head l)) \<and> distinct (map (\<lambda>n. busid_of (snd n)) (dl_head l)) \<and>
     dl_count l = int (length (dl_head l)) \<and> (\<forall>n\<in>set (dl_head l). entry_ok (snd n))"

lemma unlock_lock [simp]: "device_list_unlock (device_list_lock l) = l"
  by (simp add: device_list_lock_def device_list_unlock_def)

lemma head_lock [simp]:
  "dl_head (device_list_lock l) = dl_head l" "dl_head (device_list_unlock l) = dl_head l"
  "dl_count (device_list_lock l) = dl_count l" "dl_count (device_list_unlock l) = dl_count l"
  "dl_initialized (device_list_lock l) = dl_initialized l"
  by (simp_all add: device_list_lock_def device_list_unlock_def)

lemma lock_reads [simp]:
  "device_list_find (device_list_lock l) b = device_list_find l b"
  "entry_at (device_list_lock l) p = entry_at l p"
  "found_entry (device_list_lock l) b = found_entry l b"
  by (simp_all add: device_list_find_def entry_at_def found_entry_def cong: option.case_cong)

lemma unlock_set_entry [simp]:
  "device_list_unlock (set_entry (device_list_lock l) p f) = set_entry l p f"
  by (simp add: device_list_lock_def device_list_unlock_def set_entry_def)

lemma set_entry_frame [simp]:
  "dl_count (set_entry l p f) = dl_count l" "dl_locks (set_entry l p f) = dl_locks l"
  "dl_initialized (set_entry l p f) = dl_initialized l"
  by (simp_all add: set_entry_def)

text \<open>The first node with the identifier splits the list, and the lookup returns its entry.\<close>

lemma find_entry_split:
  assumes "find_entry P ns = Some p"
  obtains xs e ys where "ns = xs @ (p, e) # ys" and "P e" and "\<forall>n\<in>set xs. \<not> P (snd n)"
  using assms
proof (induction P ns arbitrary: thesis rule: find_entry.induct)
  case (2 P q e ns)
  show ?case
  proof (cases "P e")
    case True
    then show ?thesis using 2(2)[of "[]" e ns] 2(3) by simp
  next
    case False
    then have "find_entry P ns = Some p" using 2(3) by simp
    then obtain xs e' ys where "ns = xs @ (p, e') # ys" "P e'" "\<forall>n\<in>set xs. \<not> P (snd n)"
      using 2(1)[OF False] by blast
    then show ?thesis using 2(2)[of "(q, e) # xs" e' ys] False by simp
  qed
qed simp

lemma find_entry_None: "find_entry P ns = None \<longleftrightarrow> (\<forall>n\<in>set ns. \<not> P (snd n))"
  by (induction P ns rule: find_entry.induct) auto

lemma map_of_split:
  "map_of (map g xs @ (k, v) # ys) k = Some v" if "k \<notin> fst ` set (map g xs)"
  using that by (induction xs) (auto split: if_splits)

lemma found_entryE:
  assumes "distinct (map fst (dl_head l))" and "found_entry l b = Some (p, e)"
  obtains xs ys where "dl_head l = xs @ (p, e) # ys" and "busid_of e = cstr b"
    and "\<forall>n\<in>set xs. busid_of (snd n) \<noteq> cstr b"
proof -
  from assms(2) have f: "device_list_find l b = Some p" and m: "map_of (dl_head l) p = Some e"
    by (auto simp: found_entry_def entry_at_def split: option.splits)
  from f obtain xs e' ys where s: "dl_head l = xs @ (p, e') # ys" "busid_of e' = cstr b"
      "\<forall>n\<in>set xs. busid_of (snd n) \<noteq> cstr b"
    unfolding device_list_find_def by (elim find_entry_split) (auto simp: streq_def busid_of_def)
  have "p \<notin> fst ` set xs" using assms(1) s(1) by auto
  then have "e' = e" using m s(1) map_of_split[of p id xs e' ys] by simp
  with s show thesis by (blast intro: that)
qed

lemma found_entry_lookup:
  assumes "distinct (map fst (dl_head l))"
  shows "dl_lookup l b = map_option snd (found_entry l b)"
proof (cases "device_list_find l b")
  case None
  then have "\<forall>n\<in>set (dl_head l). busid_of (snd n) \<noteq> cstr b"
    by (simp add: device_list_find_def find_entry_None streq_def busid_of_def)
  then have "dl_lookup l b = None" by (auto simp: dl_lookup_def map_of_eq_None_iff)
  with None show ?thesis by (simp add: found_entry_def)
next
  case (Some p)
  then have "p \<in> fst ` set (dl_head l)" 
    unfolding device_list_find_def by (elim find_entry_split) simp
  then obtain e where "map_of (dl_head l) p = Some e" by (metis map_of_eq_None_iff not_None_eq)
  with Some have fe: "found_entry l b = Some (p, e)" by (simp add: found_entry_def entry_at_def)
  from found_entryE[OF assms fe] obtain xs ys where s: "dl_head l = xs @ (p, e) # ys"
    "busid_of e = cstr b" "\<forall>n\<in>set xs. busid_of (snd n) \<noteq> cstr b" .
  have "cstr b \<notin> fst ` set (map (\<lambda>(p, e). (busid_of e, e)) xs)" using s(3) by auto
  from map_of_split[OF this] s fe show ?thesis by (simp add: dl_lookup_def)
qed

lemma set_entry_at:
  assumes "distinct (map fst (dl_head l))" and "dl_head l = xs @ (p, e) # ys"
  shows "dl_head (set_entry l p f) = xs @ (p, f e) # ys"
proof -
  have "p \<notin> fst ` set xs" "p \<notin> fst ` set ys" using assms by auto
  then have "map (\<lambda>(q, e). (q, if q = p then f e else e)) xs = xs"
    "map (\<lambda>(q, e). (q, if q = p then f e else e)) ys = ys"
    by (force intro!: map_idI)+
  with assms(2) show ?thesis by (simp add: set_entry_def)
qed

text \<open>Changing the entry found under an identifier, keeping the identifier.\<close>

lemma set_found_entry:
  assumes inv: "dl_inv l" and fe: "found_entry l b = Some (p, e)"
    and "busid_of (f e) = busid_of e" and "entry_ok (f e)"
  shows "dl_inv (set_entry l p f)"
    and "dl_lookup (set_entry l p f) b' = (if cstr b' = cstr b then Some (f e) else dl_lookup l b')"
proof -
  have d: "distinct (map fst (dl_head l))" using inv by (simp add: dl_inv_def)
  from found_entryE[OF d fe] obtain xs ys where s: "dl_head l = xs @ (p, e) # ys"
    "busid_of e = cstr b" "\<forall>n\<in>set xs. busid_of (snd n) \<noteq> cstr b" .
  note h = set_entry_at[OF d s(1), of f]
  show "dl_inv (set_entry l p f)" using inv assms(3,4) s(1) h by (auto simp: dl_inv_def)
  have "cstr b \<notin> fst ` set (map (\<lambda>(p, e). (busid_of e, e)) xs)" using s(3) by auto
  note m = map_of_split[OF this]
  show "dl_lookup (set_entry l p f) b' = (if cstr b' = cstr b then Some (f e) else dl_lookup l b')"
    using s h assms(3) m by (auto simp: dl_lookup_def map_add_def split: option.splits)
qed

lemma found_entry_None: "found_entry l b = None \<longleftrightarrow> device_list_find l b = None"
proof -
  have "entry_at l p \<noteq> None" if "device_list_find l b = Some p" for p
    using that unfolding device_list_find_def entry_at_def
    by (elim find_entry_split) (auto simp: map_of_eq_None_iff)
  then show ?thesis by (auto simp: found_entry_def split: option.splits)
qed

lemma found_entry_cong: "cstr b = cstr b' \<Longrightarrow> found_entry l b = found_entry l b'"
  by (simp add: found_entry_def device_list_find_def streq_def cong: option.case_cong)

lemma found_entry_intro:
  assumes "distinct (map fst (dl_head l))" and "dl_head l = xs @ (p, e) # ys" and "busid_of e = cstr b"
    and "cstr b \<notin> (\<lambda>n. busid_of (snd n)) ` set xs"
  shows "found_entry l b = Some (p, e)"
proof -
  have "find_entry (\<lambda>e. busid_of e = cstr b) (xs @ (p, e) # ys) = Some p"
    using assms(3,4) by (induction xs) auto
  moreover have "map_of (dl_head l) p = Some e" using assms(1,2) map_of_split[of p id xs e ys] by simp
  ultimately show ?thesis
    by (simp add: found_entry_def device_list_find_def entry_at_def streq_def busid_of_def assms(2))
qed

text \<open>Pointers after such a change: the same node is found, with the new contents.\<close>

lemma found_entry_set:
  assumes inv: "dl_inv l" and fe: "found_entry l b = Some (p, e)"
    and "busid_of (f e) = busid_of e" and "entry_ok (f e)"
  shows "found_entry (set_entry l p f) b' = (if cstr b' = cstr b then Some (p, f e) else found_entry l b')"
proof (cases "found_entry l b'")
  case None
  then have "cstr b' \<noteq> cstr b" using fe found_entry_cong by (metis option.distinct(1))
  moreover have "dl_lookup (set_entry l p f) b' = dl_lookup l b'"
    using set_found_entry(2)[where f = f, OF assms] calculation by simp
  then have "found_entry (set_entry l p f) b' = None"
    using None inv set_found_entry(1)[where f = f, OF assms] by (simp add: dl_inv_def found_entry_lookup)
  ultimately show ?thesis using None by simp
next
  case (Some r)
  obtain q e' where r: "r = (q, e')" by fastforce
  have d: "distinct (map fst (dl_head l))" and db: "distinct (map (\<lambda>n. busid_of (snd n)) (dl_head l))"
    using inv by (simp_all add: dl_inv_def)
  from found_entryE[OF d fe] obtain xs ys where s: "dl_head l = xs @ (p, e) # ys" "busid_of e = cstr b" by metis
  from found_entryE[OF d Some[unfolded r]] obtain us vs where
    u: "dl_head l = us @ (q, e') # vs" "busid_of e' = cstr b'" by metis
  note h = set_entry_at[OF d s(1), of f]
  have d': "distinct (map fst (dl_head (set_entry l p f)))" using d s(1) h by simp
  show ?thesis
  proof (cases "cstr b' = cstr b")
    case True
    have "cstr b \<notin> (\<lambda>n. busid_of (snd n)) ` set xs" using db s by auto
    from found_entry_intro[OF d' h _ this] show ?thesis
      using True assms(3) s(2) found_entry_cong[OF True] by simp
  next
    case False
    have "q \<noteq> p" using False s u d by (metis map_of_eq_Some_iff in_set_conv_decomp option.inject)
    then have "(q, e') \<in> set (dl_head (set_entry l p f))" using h s(1) u(1)
      by (metis Un_iff in_set_conv_decomp prod.inject set_ConsD set_append list.set_intros(2))
    then obtain us' vs' where u': "dl_head (set_entry l p f) = us' @ (q, e') # vs'" by (meson split_list)
    have "distinct (map (\<lambda>n. busid_of (snd n)) (dl_head (set_entry l p f)))"
      using set_found_entry(1)[where f = f, OF assms] by (simp add: dl_inv_def)
    then have "cstr b' \<notin> (\<lambda>n. busid_of (snd n)) ` set us'" using u' u(2) by auto
    from found_entry_intro[OF d' u' u(2) this] show ?thesis using False Some r by simp
  qed
qed

section \<open>Operations on one entry\<close>

text \<open>
  The contract of the four operations that look an entry up and change it: \<open>check\<close> decides
  from the entry whether the change happens. What follows from it is proved once: the
  invariant, the map after the operation, the mutex, and which calls fail.
\<close>

locale entry_operation =
  fixes operation :: "cbuf \<Rightarrow> device_list \<Rightarrow> error_code \<times> device_list"
    and check :: "device_entry \<Rightarrow> error_code" and change :: "device_entry \<Rightarrow> device_entry"
  assumes spec: "operation b l =
      (case found_entry l b of
         None \<Rightarrow> (ERR_NOT_FOUND, l)
       | Some (p, e) \<Rightarrow> if check e = ERR_SUCCESS then (ERR_SUCCESS, set_entry l p change) else (check e, l))"
    and same_device: "de_device (change e) = de_device e"
    and same_length: "length (de_client_ip (change e)) = length (de_client_ip e)"
begin

lemma change_ok: "entry_ok (change e) = entry_ok e" "busid_of (change e) = busid_of e"
  by (simp_all add: entry_ok_def busid_of_def same_device same_length)

lemma found_ok: "dl_inv l \<Longrightarrow> found_entry l b = Some (p, e) \<Longrightarrow> entry_ok e"
  by (erule found_entryE[rotated]) (auto simp: dl_inv_def)

lemma keeps_inv: "dl_inv l \<Longrightarrow> dl_inv (snd (operation b l))"
  using set_found_entry(1)[of l b _ _ change] found_ok[of l b]
  by (auto simp: spec change_ok split: option.splits)

lemma keeps_mutex:
  "dl_locks (snd (operation b l)) = dl_locks l \<and> dl_initialized (snd (operation b l)) = dl_initialized l"
  by (auto simp: spec split: option.splits)

lemma result:
  assumes "dl_inv l"
  shows "fst (operation b l) = (case dl_lookup l b of None \<Rightarrow> ERR_NOT_FOUND | Some e \<Rightarrow> check e)"
  using assms by (auto simp: spec found_entry_lookup dl_inv_def split: option.splits)

lemma lookup:
  assumes "dl_inv l"
  shows "dl_lookup (snd (operation b l)) b' =
    (if cstr b' = cstr b then map_option (\<lambda>e. if check e = ERR_SUCCESS then change e else e) (dl_lookup l b)
     else dl_lookup l b')"
proof (cases "found_entry l b")
  case None
  then have "dl_lookup l b = None" using assms by (simp add: found_entry_lookup dl_inv_def)
  moreover have "dl_lookup l b' = dl_lookup l b" if "cstr b' = cstr b" using that by (simp add: dl_lookup_def)
  ultimately show ?thesis using None by (simp add: spec)
next
  case (Some r)
  obtain p e where r: "r = (p, e)" by fastforce
  have e: "dl_lookup l b = Some e" using assms Some r by (simp add: found_entry_lookup dl_inv_def)
  have "dl_lookup l b' = Some e" if "cstr b' = cstr b" using that e by (simp add: dl_lookup_def)
  then show ?thesis
    using Some r e found_ok[OF assms] set_found_entry(2)[OF assms, of b p e change b']
    by (simp add: spec change_ok)
qed

text \<open>The same for pointers.\<close>

lemma found:
  assumes "dl_inv l"
  shows "found_entry (snd (operation b l)) b' =
    (if cstr b' = cstr b
     then map_option (\<lambda>(p, e). (p, if check e = ERR_SUCCESS then change e else e)) (found_entry l b)
     else found_entry l b')"
proof (cases "found_entry l b")
  case None
  then show ?thesis using found_entry_cong[of b' b l] by (simp add: spec)
next
  case (Some r)
  obtain p e where r: "r = (p, e)" by fastforce
  show ?thesis using Some r found_ok[OF assms] found_entry_set[OF assms, of b p e change b']
      found_entry_cong[of b' b l]
    by (auto simp: spec change_ok)
qed

end

definition export_check :: "device_entry \<Rightarrow> error_code" where
  "export_check e = (if de_state e = DEVICE_STATE_AVAILABLE then ERR_SUCCESS else ERR_DEVICE_BUSY)"

definition export_change :: "uint64_t \<Rightarrow> uint32_t \<Rightarrow> cbuf option \<Rightarrow> device_entry \<Rightarrow> device_entry" where
  "export_change now client_id client_ip e =
     e\<lparr>de_state := DEVICE_STATE_EXPORTED, de_client_id := client_id,
       de_client_ip := (case client_ip of None \<Rightarrow> de_client_ip e | Some ip \<Rightarrow> str_copy (de_client_ip e) ip 64),
       de_export_time := now\<rparr>"

definition unexport_change :: "device_entry \<Rightarrow> device_entry" where
  "unexport_change e =
     e\<lparr>de_state := DEVICE_STATE_AVAILABLE, de_client_id := 0,
       de_client_ip := (de_client_ip e)[0 := 0], de_export_time := 0\<rparr>"

definition busy_change :: "bool \<Rightarrow> device_entry \<Rightarrow> device_entry" where
  "busy_change busy e =
     (if busy \<and> de_state e = DEVICE_STATE_AVAILABLE then e\<lparr>de_state := DEVICE_STATE_BUSY\<rparr>
      else if \<not> busy \<and> de_state e = DEVICE_STATE_BUSY then e\<lparr>de_state := DEVICE_STATE_AVAILABLE\<rparr>
      else e)"

interpretation export: entry_operation
  "\<lambda>b. device_list_export now b client_id client_ip" export_check "export_change now client_id client_ip"
  by unfold_locales
    (auto simp: device_list_export_def Let_def export_check_def export_change_def[abs_def] split: option.split)

interpretation unexport: entry_operation device_list_unexport "\<lambda>e. ERR_SUCCESS" unexport_change
  by unfold_locales
    (auto simp: device_list_unexport_def Let_def unexport_change_def[abs_def] split: option.split)

interpretation set_busy: entry_operation "device_list_set_busy busy" "\<lambda>e. ERR_SUCCESS" "busy_change busy"
  by unfold_locales
    (auto simp: device_list_set_busy_def Let_def busy_change_def[abs_def] split: option.split)

interpretation set_shared: entry_operation "device_list_set_shared shared" "\<lambda>e. ERR_SUCCESS"
  "\<lambda>e. e\<lparr>de_is_shared := shared\<rparr>"
  by unfold_locales (auto simp: device_list_set_shared_def Let_def split: option.split)

section \<open>Adding and removing as map operations\<close>

definition fresh_in :: "device_list \<Rightarrow> nat option \<Rightarrow> bool" where
  "fresh_in l a \<longleftrightarrow> (\<forall>p. a = Some p \<longrightarrow> p \<notin> fst ` set (dl_head l))"

lemma dl_lookup_cong: "cstr b = cstr b' \<Longrightarrow> dl_lookup l b = dl_lookup l b'"
  by (simp add: dl_lookup_def)

lemma dl_lookup_None_iff: "dl_lookup l b = None \<longleftrightarrow> device_list_find l b = None"
  by (force simp: dl_lookup_def map_of_eq_None_iff device_list_find_def find_entry_None streq_def busid_of_def)

lemma dl_lookup_busid: "dl_lookup l b = Some e \<Longrightarrow> busid_of e = cstr b \<and> e \<in> snd ` set (dl_head l)"
  by (force simp: dl_lookup_def dest!: map_of_SomeD)

lemma found_entry_find:
  assumes "dl_inv l" and "device_list_find l b = Some p"
  obtains e where "found_entry l b = Some (p, e)" and "dl_lookup l b = Some e" and "busid_of e = cstr b"
    and "entry_ok e"
proof -
  have d: "distinct (map fst (dl_head l))" using assms(1) by (simp add: dl_inv_def)
  have "dl_lookup l b \<noteq> None" using assms(2) by (simp add: dl_lookup_None_iff)
  then obtain e where e: "dl_lookup l b = Some e" by auto
  with found_entry_lookup[OF d] obtain q where q: "found_entry l b = Some (q, e)" by auto
  then have "q = p" using assms(2) by (auto simp: found_entry_def split: option.splits)
  moreover have "busid_of e = cstr b" "entry_ok e"
    using dl_lookup_busid[OF e] assms(1) by (auto simp: dl_inv_def)
  ultimately show thesis using e q that by blast
qed

lemma device_list_add_spec:
  assumes inv: "dl_inv l" and fits: "strlen (dv_busid d) < 32" and fr: "fresh_in l calloc"
  shows "dl_inv (snd (device_list_add calloc d l))"
    and "dl_lookup (snd (device_list_add calloc d l)) b =
      (if cstr b = cstr (dv_busid d) then
         (case dl_lookup l b of
            Some e \<Rightarrow> Some (e\<lparr>de_device := d\<rparr>)
          | None \<Rightarrow> map_option (\<lambda>p. new_entry d) calloc)
       else dl_lookup l b)"
proof -
  let ?l = "snd (device_list_add calloc d l)"
  let ?lookup = "if cstr b = cstr (dv_busid d) then
         (case dl_lookup l b of
            Some e \<Rightarrow> Some (e\<lparr>de_device := d\<rparr>)
          | None \<Rightarrow> map_option (\<lambda>p. new_entry d) calloc)
       else dl_lookup l b"
  have "dl_inv ?l \<and> dl_lookup ?l b = ?lookup"
  proof (cases "device_list_find l (dv_busid d)")
    case None
    then have n: "dl_lookup l (dv_busid d) = None" by (simp add: dl_lookup_None_iff)
    then have "cstr (dv_busid d) \<notin> (\<lambda>n. busid_of (snd n)) ` set (dl_head l)"
      by (auto simp: dl_lookup_def map_of_eq_None_iff image_iff split_beta)
    then show ?thesis using None n inv fits fr dl_lookup_cong[of b "dv_busid d" l]
      by (cases calloc)
        (auto simp: device_list_add_def create_entry_def dl_inv_def fresh_in_def new_entry_def
          entry_ok_def busid_of_def dl_lookup_def)
  next
    case (Some p)
    obtain e where e: "found_entry l (dv_busid d) = Some (p, e)" "dl_lookup l (dv_busid d) = Some e"
      "busid_of e = cstr (dv_busid d)" "entry_ok e" by (rule found_entry_find[OF inv Some])
    have "busid_of (e\<lparr>de_device := d\<rparr>) = busid_of e" using e(3) by (simp add: busid_of_def)
    moreover have "entry_ok (e\<lparr>de_device := d\<rparr>)" using e(4) fits by (simp add: entry_ok_def)
    ultimately show ?thesis using Some e(2) dl_lookup_cong[of b "dv_busid d" l]
        set_found_entry[OF inv e(1), of "\<lambda>e. e\<lparr>de_device := d\<rparr>"]
      by (simp add: device_list_add_def)
  qed
  then show "dl_inv ?l" "dl_lookup ?l b = ?lookup" by simp_all
qed

lemma device_list_add_head:
  "fst ` set (dl_head (snd (device_list_add calloc d l))) \<subseteq> fst ` set (dl_head l) \<union> set_option calloc"
  by (force simp: device_list_add_def create_entry_def set_entry_def split: option.splits)

lemma filter_key_absent: "k \<notin> (\<lambda>n. g (snd n)) ` set ns \<Longrightarrow> filter (\<lambda>n. g (snd n) \<noteq> k) ns = ns"
  by (induction ns) auto

text \<open>With distinct identifiers, unlinking the first match is filtering.\<close>

lemma remove_loop_filter:
  assumes "distinct (map (\<lambda>n. busid_of (snd n)) ns)"
  shows "remove_loop b ns =
    (filter (\<lambda>n. busid_of (snd n) \<noteq> cstr b) ns, map_of (map (\<lambda>(p, e). (busid_of e, e)) ns) (cstr b))"
  using assms
proof (induction b ns rule: remove_loop.induct)
  case (2 b p e ns)
  have "filter (\<lambda>n. busid_of (snd n) \<noteq> cstr b) ns = ns" if "busid_of e = cstr b"
    using 2(2) that by (simp add: filter_key_absent)
  then show ?case using 2 by (auto simp: streq_def busid_of_def)
qed simp

lemma map_of_filter_key:
  "map_of (map (\<lambda>(p, e). (g e, e)) (filter (\<lambda>n. g (snd n) \<noteq> k) ns)) k' =
     (if k' = k then None else map_of (map (\<lambda>(p, e). (g e, e)) ns) k')"
  by (induction ns) auto

lemma device_list_remove_eq:
  assumes "dl_inv l"
  shows "device_list_remove b l =
    (case dl_lookup l b of
       None \<Rightarrow> (ERR_NOT_FOUND, l, [])
     | Some e \<Rightarrow> (ERR_SUCCESS, l\<lparr>dl_head := filter (\<lambda>n. busid_of (snd n) \<noteq> cstr b) (dl_head l),
                               dl_count := dl_count l - 1\<rparr>, free_entry e))"
  using assms
  by (auto simp: device_list_remove_def Let_def remove_loop_filter dl_inv_def dl_lookup_def
      device_list_lock_def device_list_unlock_def split: option.split)

lemma device_list_remove_spec:
  assumes inv: "dl_inv l" and "device_list_remove b l = (err, l', tr)"
  shows "dl_inv l'" and "dl_lookup l' b' = (if cstr b' = cstr b then None else dl_lookup l b')"
    and "dl_locks l' = dl_locks l"
proof -
  let ?f = "filter (\<lambda>n. busid_of (snd n) \<noteq> cstr b)"
  have m: "map_of (map (\<lambda>(p, e). (busid_of e, e)) (?f (dl_head l))) (cstr b') =
      (if cstr b' = cstr b then None else dl_lookup l b')"
    by (simp add: map_of_filter_key dl_lookup_def)
  have "dl_inv l' \<and> dl_lookup l' b' = (if cstr b' = cstr b then None else dl_lookup l b') \<and> dl_locks l' = dl_locks l"
  proof (cases "dl_lookup l b")
    case None
    then have "dl_lookup l b' = None" if "cstr b' = cstr b" using that dl_lookup_cong by metis
    then show ?thesis using None inv assms(2) by (simp add: device_list_remove_eq)
  next
    case (Some e)
    then obtain p where p: "(p, e) \<in> set (dl_head l)" "busid_of e = cstr b"
      using dl_lookup_busid by fastforce
    then obtain xs ys where s: "dl_head l = xs @ (p, e) # ys" by (meson split_list)
    then have "?f (dl_head l) = xs @ ys"
      using inv p(2) by (simp add: dl_inv_def filter_key_absent)
    then have "dl_inv l'" using Some inv assms(2) s by (auto simp: device_list_remove_eq dl_inv_def)
    then show ?thesis using Some inv assms(2) m by (auto simp: device_list_remove_eq dl_lookup_def[of l'] dl_lookup_def[of "l\<lparr>dl_head := h, dl_count := c\<rparr>" for h c])
  qed
  then show "dl_inv l'" "dl_lookup l' b' = (if cstr b' = cstr b then None else dl_lookup l b')"
    "dl_locks l' = dl_locks l" by simp_all
qed

lemma share_entries_spec:
  "dl_inv l \<Longrightarrow> dl_inv (share_entries b l)"
  "dl_lookup (share_entries b l) k = map_option (\<lambda>e. e\<lparr>de_is_shared := b\<rparr>) (dl_lookup l k)"
proof -
  let ?g = "\<lambda>e. e\<lparr>de_is_shared := b\<rparr>"
  have "map_of (map (\<lambda>(p, e). (busid_of e, e)) (map (\<lambda>(p, e). (p, ?g e)) ns)) j =
      map_option ?g (map_of (map (\<lambda>(p, e). (busid_of e, e)) ns) j)" for ns j
    by (induction ns) (auto simp: busid_of_def)
  then show "dl_lookup (share_entries b l) k = map_option ?g (dl_lookup l k)"
    by (simp add: dl_lookup_def share_entries_def)
  show "dl_inv l \<Longrightarrow> dl_inv (share_entries b l)"
    by (auto simp: dl_inv_def share_entries_def entry_ok_def busid_of_def split_beta comp_def)
qed

lemma share_all_eq:
  "device_list_share_all l = share_entries True l" "device_list_unshare_all l = share_entries False l"
  by (simp_all add: device_list_share_all_def device_list_unshare_all_def share_entries_def
      device_list_lock_def device_list_unlock_def)

section \<open>Runs of the list\<close>

text \<open>
  The operations other threads and sessions may perform between two moments, as steps. An
  added device has a terminated identifier and a node whose address is not in use.
\<close>

datatype dl_op = OpExport | OpUnexport cbuf | OpBusy | OpShared | OpAll | OpAdd | OpRemove cbuf

inductive dl_step :: "device_list \<Rightarrow> dl_op \<Rightarrow> device_list \<Rightarrow> bool" where
  step_export: "device_list_export now b c ip l = (err, l') \<Longrightarrow> dl_step l OpExport l'"
| step_unexport: "device_list_unexport b l = (err, l') \<Longrightarrow> dl_step l (OpUnexport b) l'"
| step_busy: "device_list_set_busy busy b l = (err, l') \<Longrightarrow> dl_step l OpBusy l'"
| step_shared: "device_list_set_shared sh b l = (err, l') \<Longrightarrow> dl_step l OpShared l'"
| step_share_all: "dl_step l OpAll (device_list_share_all l)"
| step_unshare_all: "dl_step l OpAll (device_list_unshare_all l)"
| step_add: "strlen (dv_busid d) < 32 \<Longrightarrow> fresh_in l calloc \<Longrightarrow> device_list_add calloc d l = (err, l')
    \<Longrightarrow> dl_step l OpAdd l'"
| step_remove: "device_list_remove b l = (err, l', tr) \<Longrightarrow> dl_step l (OpRemove b) l'"

inductive dl_run :: "device_list \<Rightarrow> dl_op list \<Rightarrow> device_list \<Rightarrow> bool" where
  run_nil: "dl_run l [] l"
| run_cons: "dl_step l op l' \<Longrightarrow> dl_run l' ops l'' \<Longrightarrow> dl_run l (op # ops) l''"

fun releases :: "dl_op \<Rightarrow> cbuf \<Rightarrow> bool" where
  "releases (OpUnexport b') b = streq b' b"
| "releases (OpRemove b') b = streq b' b"
| "releases op b = False"

lemma dl_step_inv: "dl_step l op l' \<Longrightarrow> dl_inv l \<Longrightarrow> dl_inv l'"
  by (induction rule: dl_step.induct)
    (metis snd_conv export.keeps_inv unexport.keeps_inv set_busy.keeps_inv set_shared.keeps_inv
      share_all_eq share_entries_spec(1) device_list_add_spec(1) device_list_remove_spec(1))+

definition exported_to :: "uint32_t \<Rightarrow> device_entry option \<Rightarrow> bool" where
  "exported_to c r \<longleftrightarrow> (\<exists>e. r = Some e \<and> de_state e = DEVICE_STATE_EXPORTED \<and> de_client_id e = c)"

lemma dl_step_exported:
  assumes "dl_step l op l'" and inv: "dl_inv l" and ex: "exported_to c (dl_lookup l b)" and "\<not> releases op b"
  shows "exported_to c (dl_lookup l' b)"
proof -
  obtain e where e: "dl_lookup l b = Some e" "de_state e = DEVICE_STATE_EXPORTED" "de_client_id e = c"
    using ex by (auto simp: exported_to_def)
  have same: "cstr b = cstr b' \<Longrightarrow> dl_lookup l b' = Some e" for b' using e(1) dl_lookup_cong by metis
  show ?thesis
    using assms(1)
  proof cases
    case (step_export now b' c' ip err)
    then have "l' = snd (device_list_export now b' c' ip l)" by simp
    then show ?thesis using inv e same[of b']
      by (auto simp: export.lookup export_check_def exported_to_def)
  next
    case (step_unexport b' err)
    then have "l' = snd (device_list_unexport b' l)" "cstr b' \<noteq> cstr b" using assms(4) by (auto simp: streq_def)
    then show ?thesis using inv ex by (simp add: unexport.lookup)
  next
    case (step_busy busy b' err)
    then have "l' = snd (device_list_set_busy busy b' l)" by simp
    then show ?thesis using inv e same[of b']
      by (auto simp: set_busy.lookup busy_change_def exported_to_def)
  next
    case (step_shared sh b' err)
    then have "l' = snd (device_list_set_shared sh b' l)" by simp
    then show ?thesis using inv e same[of b']
      by (auto simp: set_shared.lookup exported_to_def)
  next
    case (step_add d calloc err)
    then have "l' = snd (device_list_add calloc d l)" by simp
    then show ?thesis using inv ex step_add(2,3) by (auto simp: device_list_add_spec(2) exported_to_def)
  next
    case (step_remove b' err tr)
    then have "cstr b' \<noteq> cstr b" using assms(4) by (simp add: streq_def)
    then show ?thesis using ex device_list_remove_spec(2)[OF inv step_remove(2)] by simp
  qed (use ex in \<open>auto simp: share_all_eq share_entries_spec exported_to_def\<close>)
qed

lemma dl_run_exported:
  "dl_run l ops l' \<Longrightarrow> dl_inv l \<Longrightarrow> exported_to c (dl_lookup l b) \<Longrightarrow> \<forall>op\<in>set ops. \<not> releases op b
   \<Longrightarrow> dl_inv l' \<and> exported_to c (dl_lookup l' b)"
  by (induction rule: dl_run.induct) (auto intro: dl_step_inv dl_step_exported)

lemma export_busy:
  assumes "dl_inv l" and "exported_to c (dl_lookup l b)"
  shows "device_list_export now b c' ip l = (ERR_DEVICE_BUSY, l)"
  using assms found_entry_lookup[of l b]
  by (auto simp: exported_to_def export.spec export_check_def dl_inv_def split: option.splits)

section \<open>Refreshing\<close>

definition saved_export :: "device_entry \<Rightarrow> export_info" where
  "saved_export e =
     \<lparr>ex_busid = str_copy (replicate 32 0) (dv_busid (de_device e)) 32,
      ex_client_id = de_client_id e, ex_client_ip = str_copy (replicate 64 0) (de_client_ip e) 64\<rparr>"

definition is_exported :: "device_entry \<Rightarrow> bool" where
  "is_exported e \<longleftrightarrow> de_state e = DEVICE_STATE_EXPORTED"

lemma save_exports_eq:
  "save_exports n ns = take (MAX_DEVICES - n) (map saved_export (filter is_exported (map snd ns)))"
proof (induction n ns rule: save_exports.induct)
  case (2 n p e ns)
  show ?case
  proof (cases "n < MAX_DEVICES")
    case True
    then have "MAX_DEVICES - n = Suc (MAX_DEVICES - Suc n)" by simp
    with True 2 show ?thesis by (auto simp: is_exported_def saved_export_def)
  qed simp
qed simp

lemma find_append_if:
  "List.find P (xs @ ys) = (case List.find P xs of Some x \<Rightarrow> Some x | None \<Rightarrow> List.find P ys)"
  by (induction xs) auto

text \<open>Memory suffices: at least \<open>n\<close> allocations succeed, at addresses not in use.\<close>

definition enough_memory :: "nat option list \<Rightarrow> nat \<Rightarrow> device_list \<Rightarrow> bool" where
  "enough_memory as n l \<longleftrightarrow>
     n \<le> length as \<and> distinct as \<and> (\<forall>a\<in>set as. a \<noteq> None \<and> fresh_in l a)"

text \<open>The last of several devices with one identifier determines the entry.\<close>

definition last_device :: "usb_device list \<Rightarrow> cbuf \<Rightarrow> usb_device option" where
  "last_device ds b = List.find (\<lambda>d. streq (dv_busid d) b) (rev ds)"

lemma enum_callback_step:
  assumes "dl_inv l" and "enough_memory as (Suc n) l" and "strlen (dv_busid d) < 32"
    and "enum_callback (as, l) d = (as', l')"
  shows "dl_inv l'" and "enough_memory as' n l'" and "dl_locks l' = dl_locks l" and "dl_initialized l' = dl_initialized l"
    and "dl_lookup l' b = (if streq (dv_busid d) b then
        Some (case dl_lookup l b of Some e \<Rightarrow> e\<lparr>de_device := d\<rparr> | None \<Rightarrow> new_entry d) else dl_lookup l b)"
proof -
  obtain p as1 where as: "as = Some p # as1" using assms(2) by (cases as) (auto simp: enough_memory_def)
  have fr: "fresh_in l (Some p)" using assms(2) as by (simp add: enough_memory_def)
  have l': "l' = snd (device_list_add (Some p) d l)"
    and as': "as' = (if device_list_find l (dv_busid d) = None then as1 else as)"
    using assms(4) as by (auto simp: enum_callback_def next_alloc_def)
  show "dl_inv l'" using device_list_add_spec(1)[OF assms(1,3) fr] l' by simp
  show "dl_locks l' = dl_locks l" "dl_initialized l' = dl_initialized l"
    unfolding l' by (auto simp: device_list_add_def split: option.splits)
  show "dl_lookup l' b = (if streq (dv_busid d) b then
        Some (case dl_lookup l b of Some e \<Rightarrow> e\<lparr>de_device := d\<rparr> | None \<Rightarrow> new_entry d) else dl_lookup l b)"
    unfolding l' device_list_add_spec(2)[OF assms(1,3) fr] by (auto simp: streq_def split: option.split)
  have f: "fresh_in l' a" if "a \<in> set as'" for a
  proof (cases "device_list_find l (dv_busid d)")
    case None
    then have "fresh_in l a" "a \<noteq> Some p" using that as' as assms(2) by (auto simp: enough_memory_def)
    then show ?thesis using device_list_add_head[of "Some p" d l] unfolding l' fresh_in_def by blast
  next
    case (Some q)
    then have "fst ` set (dl_head l') = fst ` set (dl_head l)"
      unfolding l' by (force simp: device_list_add_def set_entry_def)
    then show ?thesis using that as' Some assms(2) by (simp add: fresh_in_def enough_memory_def)
  qed
  then show "enough_memory as' n l'" using assms(2) as as' by (auto simp: enough_memory_def)
qed

lemma enum_callbacks:
  assumes "dl_inv l" and "enough_memory as (length ds) l" and "\<forall>d\<in>set ds. strlen (dv_busid d) < 32"
    and "foldl enum_callback (as, l) ds = (as', l')"
  shows "dl_inv l' \<and> dl_locks l' = dl_locks l \<and> dl_initialized l' = dl_initialized l \<and>
    dl_lookup l' b = (case last_device ds b of
      None \<Rightarrow> dl_lookup l b
    | Some d \<Rightarrow> Some (case dl_lookup l b of Some e \<Rightarrow> e\<lparr>de_device := d\<rparr> | None \<Rightarrow> new_entry d))"
  using assms
proof (induction ds arbitrary: as l)
  case (Cons d ds)
  obtain as1 l1 where c: "enum_callback (as, l) d = (as1, l1)" by fastforce
  note st = enum_callback_step[OF Cons.prems(1) _ _ c, of "length ds"]
  have "strlen (dv_busid d) < 32" "enough_memory as (Suc (length ds)) l" using Cons.prems(2,3) by simp_all
  note st = st[OF this(2,1)]
  have "foldl enum_callback (as1, l1) ds = (as', l')" using Cons.prems(4) c by simp
  note ih = Cons.IH[OF st(1,2) _ this]
  show ?case using ih st(3,4,5) Cons.prems(3)
    by (auto simp: last_device_def find_append_if new_entry_def split: option.splits)
qed (simp add: last_device_def)

text \<open>What a session sees of an entry: the device, its state, its client and the flag.\<close>

definition entry_view :: "device_entry \<Rightarrow> usb_device \<times> device_state \<times> uint32_t \<times> byte list \<times> bool" where
  "entry_view e = (de_device e, de_state e, de_client_id e, cstr (de_client_ip e), de_is_shared e)"

definition restored_view :: "export_info option \<Rightarrow> device_entry
    \<Rightarrow> usb_device \<times> device_state \<times> uint32_t \<times> byte list \<times> bool" where
  "restored_view x e =
     (case x of
        None \<Rightarrow> entry_view e
      | Some x \<Rightarrow> (de_device e, DEVICE_STATE_EXPORTED, ex_client_id x, take 63 (cstr (ex_client_ip x)), de_is_shared e))"

lemma restore_exports_spec:
  assumes "dl_inv l" and "distinct (map (\<lambda>x. cstr (ex_busid x)) xs)"
  shows "dl_inv (restore_exports now i xs l) \<and> dl_locks (restore_exports now i xs l) = dl_locks l \<and>
    dl_initialized (restore_exports now i xs l) = dl_initialized l \<and>
    map_option entry_view (dl_lookup (restore_exports now i xs l) b) =
      map_option (restored_view (List.find (\<lambda>x. streq (ex_busid x) b) xs)) (dl_lookup l b)"
  using assms
proof (induction xs arbitrary: i l)
  case Nil
  then show ?case by (simp add: restored_view_def cong: option.map_cong)
next
  case (Cons x xs)
  let ?g = "\<lambda>e. e\<lparr>de_state := DEVICE_STATE_EXPORTED, de_client_id := ex_client_id x,
              de_client_ip := str_copy (de_client_ip e) (ex_client_ip x) 64, de_export_time := now i\<rparr>"
  have d: "distinct (map (\<lambda>x. cstr (ex_busid x)) xs)" using Cons.prems(2) by simp
  have nf: "List.find (\<lambda>y. streq (ex_busid y) b) xs = None" if "streq (ex_busid x) b"
    using Cons.prems(2) that by (force simp: find_None_iff streq_def)
  show ?case
  proof (cases "device_list_find l (ex_busid x)")
    case None
    then have "dl_lookup l (ex_busid x) = None" by (simp add: dl_lookup_None_iff)
    then have "dl_lookup l b = None" if "streq (ex_busid x) b"
      using that dl_lookup_cong[of b "ex_busid x" l] by (simp add: streq_def)
    then show ?thesis using Cons.IH[OF Cons.prems(1) d, of "Suc i"] None by auto
  next
    case (Some p)
    obtain e where e: "found_entry l (ex_busid x) = Some (p, e)" "dl_lookup l (ex_busid x) = Some e"
      "busid_of e = cstr (ex_busid x)" "entry_ok e" by (rule found_entry_find[OF Cons.prems(1) Some])
    have "busid_of (?g e) = busid_of e" "entry_ok (?g e)" using e(4) by (simp_all add: busid_of_def entry_ok_def)
    note s = set_found_entry[where f = ?g, OF Cons.prems(1) e(1) this]
    have eb: "dl_lookup l b = Some e" if "streq (ex_busid x) b"
      using that e(2) dl_lookup_cong[of b "ex_busid x" l] by (simp add: streq_def)
    have v: "entry_view (?g e) = restored_view (Some x) e"
      using e(4) by (simp add: entry_view_def restored_view_def entry_ok_def)
    have n: "restored_view None e' = entry_view e'" for e' by (simp add: restored_view_def)
    show ?thesis using Cons.IH[OF s(1) d, of "Suc i"] Some s(2)[of b] eb nf v n
      by (auto simp: streq_def)
  qed
qed

text \<open>The saved records of a list in its invariant, by identifier.\<close>

lemma saved_busid: "entry_ok e \<Longrightarrow> cstr (ex_busid (saved_export e)) = busid_of e"
  by (simp add: saved_export_def busid_of_def entry_ok_def strlen_def)

lemma saved_distinct:
  assumes "dl_inv l"
  shows "distinct (map (\<lambda>x. cstr (ex_busid x)) (map saved_export (filter is_exported (map snd (dl_head l)))))"
proof -
  have "map (\<lambda>x. cstr (ex_busid x)) (map saved_export (filter is_exported (map snd (dl_head l)))) =
      map busid_of (filter is_exported (map snd (dl_head l)))"
    using assms by (auto simp: dl_inv_def saved_busid)
  moreover have "distinct (map busid_of (map snd (dl_head l)))" using assms by (simp add: dl_inv_def comp_def)
  ultimately show ?thesis by (metis distinct_map_filter)
qed

lemma saved_find:
  assumes "dl_inv l"
  shows "List.find (\<lambda>x. streq (ex_busid x) b) (map saved_export (filter is_exported (map snd (dl_head l)))) =
    (case dl_lookup l b of Some e \<Rightarrow> if is_exported e then Some (saved_export e) else None | None \<Rightarrow> None)"
proof -
  have "List.find (\<lambda>x. streq (ex_busid x) b) (map saved_export (filter is_exported (map snd ns))) =
    (case map_of (map (\<lambda>(p, e). (busid_of e, e)) ns) (cstr b) of
       Some e \<Rightarrow> if is_exported e then Some (saved_export e) else None | None \<Rightarrow> None)"
    if "distinct (map (\<lambda>n. busid_of (snd n)) ns)" and "\<forall>n\<in>set ns. entry_ok (snd n)" for ns
    using that
  proof (induction ns)
    case (Cons n ns)
    have "map_of (map (\<lambda>(p, e). (busid_of e, e)) ns) (cstr b) = None" if "busid_of (snd n) = cstr b"
      using Cons.prems(1) that by (force simp: map_of_eq_None_iff)
    then show ?case using Cons by (cases n) (auto simp: streq_def saved_busid split: option.splits)
  qed simp
  from this[of "dl_head l"] show ?thesis using assms by (simp add: dl_inv_def dl_lookup_def)
qed

section \<open>Properties\<close>


definition sample_list :: device_list where
  "sample_list =
     \<lparr>dl_head = [(7, new_entry (zero_usb_device\<lparr>dv_busid := ascii ''1-2'' @ [0]\<rparr>)),
                 (9, new_entry (zero_usb_device\<lparr>dv_busid := ascii ''1-1'' @ [0]\<rparr>))],
      dl_count = 2, dl_locks = 0, dl_initialized = True\<rparr>"

lemma sample_list_inv: "dl_inv sample_list"
  by code_simp


lemma device_list_refresh_spec:
  assumes "dl_inv l" and "dl_initialized l" and "length (filter is_exported (map snd (dl_head l))) \<le> 32"
    and "ds = map (node_device utf8) (filter (\<lambda>d. \<not> node_skipped d) nodes)"
    and "length ds \<le> length allocs" and "distinct allocs" and "None \<notin> set allocs"
    and "device_list_refresh utf8 True (Some nodes) allocs now l = (err, l', tr)"
  shows "err = ERR_SUCCESS \<and> dl_inv l' \<and> dl_locks l' = dl_locks l \<and>
    map_option entry_view (dl_lookup l' b) =
      map_option (\<lambda>d. case dl_lookup l b of
          Some e \<Rightarrow> if is_exported e then (d, DEVICE_STATE_EXPORTED, de_client_id e, take 63 (cstr (de_client_ip e)), True)
                    else (d, DEVICE_STATE_AVAILABLE, 0, [], True)
        | None \<Rightarrow> (d, DEVICE_STATE_AVAILABLE, 0, [], True))
      (last_device ds b)"
proof -
  let ?xs = "map saved_export (filter is_exported (map snd (dl_head l)))"
  let ?l0 = "device_list_lock l\<lparr>dl_head := [], dl_count := 0\<rparr>"
  have xs: "save_exports 0 (dl_head l) = ?xs" using assms(3) by (simp add: save_exports_eq)
  obtain as1 l1 where f: "foldl enum_callback (allocs, ?l0) ds = (as1, l1)" by fastforce
  have r: "err = ERR_SUCCESS" "l' = device_list_unlock (restore_exports now 0 ?xs l1)"
    using assms(2,4,8) f
    by (auto simp: device_list_refresh_def device_list_clear_def xs Let_def usb_enumerate_devices_def enumerate_loop_eq)
  have fits: "\<forall>d\<in>set ds. strlen (dv_busid d) < 32"
    by (auto simp: assms(4) node_device_def parse_busid_from_path_def zero_usb_device_def Let_def strlen_def)
  have "\<forall>a\<in>set allocs. a \<noteq> None" using assms(7) by metis
  then have "enough_memory allocs (length ds) ?l0" using assms(5,6) by (simp add: enough_memory_def fresh_in_def)
  note st = enum_callbacks[OF _ this fits f]
  have st: "dl_inv l1" "dl_locks l1 = Suc (dl_locks l)" "dl_initialized l1"
    "dl_lookup l1 b = map_option new_entry (last_device ds b)"
    using st[of b] assms(2)
    by (auto simp: dl_inv_def dl_lookup_def device_list_lock_def split: option.splits)
  have ok: "entry_ok e" if "e \<in> snd ` set (dl_head l)" for e using that assms(1) by (auto simp: dl_inv_def)
  have dist: "distinct (map (\<lambda>x. cstr (ex_busid x)) ?xs)" by (rule saved_distinct[OF assms(1)])
  note rs = restore_exports_spec[OF st(1) dist, of now 0 b]
  have ul: "dl_lookup l' b = dl_lookup (restore_exports now 0 ?xs l1) b" "dl_inv l' = dl_inv (restore_exports now 0 ?xs l1)"
    by (simp_all add: r(2) dl_lookup_def dl_inv_def)
  have lk: "dl_locks l' = dl_locks l" using rs st(2,3) by (simp add: r(2) device_list_unlock_def)
  have v: "restored_view (List.find (\<lambda>x. streq (ex_busid x) b) ?xs) (new_entry d) =
      (case dl_lookup l b of
          Some e \<Rightarrow> if is_exported e then (d, DEVICE_STATE_EXPORTED, de_client_id e, take 63 (cstr (de_client_ip e)), True)
                    else (d, DEVICE_STATE_AVAILABLE, 0, [], True)
        | None \<Rightarrow> (d, DEVICE_STATE_AVAILABLE, 0, [], True))" for d
    unfolding saved_find[OF assms(1)]
    by (auto simp: restored_view_def entry_view_def new_entry_def saved_export_def split: option.split)
  show ?thesis using r(1) rs ul lk unfolding st(4) option.map_comp comp_def v by simp
qed

text \<open>
  C27: a refresh keeps exports. With memory for the devices found and at most 32 exported
  entries, the new list holds exactly the devices enumerated (the last one, where identifiers
  collide); one that was exported is exported to the same client and address again, any other
  is available, and every entry is shared, whatever its flag was before.
\<close>

theorem refresh_keeps_exports:
  assumes "dl_inv l" and "dl_initialized l" and "length (filter is_exported (map snd (dl_head l))) \<le> 32"
    and "ds = map (node_device utf8) (filter (\<lambda>d. \<not> node_skipped d) nodes)"
    and "length ds \<le> length allocs" and "distinct allocs" and "None \<notin> set allocs"
    and "device_list_refresh utf8 True (Some nodes) allocs now l = (err, l', tr)"
  shows "err = ERR_SUCCESS \<and> dl_inv l' \<and> dl_locks l' = dl_locks l \<and>
    map_option entry_view (dl_lookup l' b) =
      map_option (\<lambda>d. case dl_lookup l b of
          Some e \<Rightarrow> if is_exported e then (d, DEVICE_STATE_EXPORTED, de_client_id e, take 63 (cstr (de_client_ip e)), True)
                    else (d, DEVICE_STATE_AVAILABLE, 0, [], True)
        | None \<Rightarrow> (d, DEVICE_STATE_AVAILABLE, 0, [], True))
      (last_device ds b)"
  using assms by (rule device_list_refresh_spec)

theorem refresh_keeps_exports_witness:
  "\<exists>l'. snd (device_list_refresh (\<lambda>w n. None) True (Some []) [] (\<lambda>i. 0)
        (snd (device_list_export 5 (ascii ''1-1'') 3 None sample_list))) = (l', []) \<and> dl_lookup l' (ascii ''1-1'') = None"
proof -
  let ?l = "snd (device_list_export 5 (ascii ''1-1'') 3 None sample_list)"
  obtain err l' tr where r: "device_list_refresh (\<lambda>w n. None) True (Some []) [] (\<lambda>i. 0) ?l = (err, l', tr)"
    by (metis prod_cases3)
  have "dl_inv ?l" by (rule export.keeps_inv[OF sample_list_inv])
  moreover have "dl_initialized ?l" "length (filter is_exported (map snd (dl_head ?l))) \<le> 32" by code_simp+
  ultimately have "map_option entry_view (dl_lookup l' (ascii ''1-1'')) = map_option undefined (last_device [] (ascii ''1-1''))"
    using refresh_keeps_exports[OF _ _ _ _ _ _ _ r, of "[]" "ascii ''1-1''"] by (simp add: last_device_def)
  moreover have "snd (snd (device_list_refresh (\<lambda>w n. None) True (Some []) [] (\<lambda>i. 0) ?l)) = []" by code_simp
  ultimately show ?thesis using r by (simp add: last_device_def)
qed

text \<open>
  Cleaning a list up leaves its mutex held. The flag that \<open>device_list_unlock\<close> tests is
  cleared before the call, so the unlock does nothing: from an initialised list, whatever it
  holds, the thread owns the mutex once more than before when the mutex is destroyed.
\<close>

lemma cleanup_keeps_mutex:
  assumes "dl_initialized l"
  shows "dl_locks (fst (device_list_cleanup l)) = dl_locks l + 1 \<and> dl_head (fst (device_list_cleanup l)) = []"
  using assms
  by (simp add: device_list_cleanup_def device_list_clear_def device_list_lock_def device_list_unlock_def)

lemma cleanup_keeps_mutex_example:
  "dl_locks (fst (device_list_cleanup sample_list)) = 1"
proof -
  have "dl_initialized sample_list" "dl_locks sample_list = 0" by (simp_all add: sample_list_def)
  with cleanup_keeps_mutex[of sample_list] show ?thesis by simp
qed

end
