(* ===== verification/Urb_Queue.thy ===== *)
theory Urb_Queue
  imports Usb_Host
begin

text \<open>
  The linked queues of request blocks, \<^verbatim>\<open>urb_entry_t\<close> and \<^verbatim>\<open>urb_queue_t\<close> of
  \<^verbatim>\<open>server/urb_handler.h\<close> and the queue functions of \<^verbatim>\<open>server/urb_handler.c\<close>, at the level of
  pointers: a heap maps addresses to allocated entries, a null pointer is \<open>None\<close>, and an
  operation that follows a dangling or null pointer has the value \<open>None\<close>. Each function
  holds the queue's mutex from its first to its last access, so it is one step.

  The locale \<open>entry_queue\<close> is the contract the handler uses: the queue represents a list of
  addresses, and the operations act on that list.
\<close>

section \<open>Entries, heaps, queues\<close>

record urb_entry =
  ue_urb :: usb_urb
  ue_seqnum :: uint32_t
  ue_devid :: uint32_t
  ue_submit_time :: uint64_t
  ue_in_progress :: bool
  ue_completed :: bool
  ue_next :: "nat option"

type_synonym urb_heap = "nat \<Rightarrow> urb_entry option"

record urb_queue =
  q_head :: "nat option"
  q_tail :: "nat option"
  q_count :: int

definition empty_queue :: urb_queue where
  "empty_queue = \<lparr>q_head = None, q_tail = None, q_count = 0\<rparr>"

text \<open>\<open>mutex_ok\<close> and \<open>event_ok\<close> tell whether the two system objects can be created.\<close>

definition queue_init :: "bool \<Rightarrow> bool \<Rightarrow> error_code \<times> urb_queue" where
  "queue_init mutex_ok event_ok =
     (if \<not> mutex_ok then ERR_MUTEX_INIT else if \<not> event_ok then ERR_THREAD_CREATE else ERR_SUCCESS,
      empty_queue)"

definition queue_push :: "urb_heap \<Rightarrow> urb_queue \<Rightarrow> nat \<Rightarrow> (urb_heap \<times> urb_queue) option" where
  "queue_push h q entry = do {
     e \<leftarrow> h entry;
     let h1 = h(entry \<mapsto> e\<lparr>ue_next := None\<rparr>);
     (case q_tail q of
        Some t \<Rightarrow> do {
          te \<leftarrow> h1 t;
          Some (h1(t \<mapsto> te\<lparr>ue_next := Some entry\<rparr>),
                q\<lparr>q_tail := Some entry, q_count := q_count q + 1\<rparr>)
        }
      | None \<Rightarrow>
          Some (h1, q\<lparr>q_head := Some entry, q_tail := Some entry, q_count := q_count q + 1\<rparr>))
   }"

definition queue_pop :: "urb_heap \<Rightarrow> urb_queue \<Rightarrow> (nat option \<times> urb_heap \<times> urb_queue) option" where
  "queue_pop h q =
     (case q_head q of
        None \<Rightarrow> Some (None, h, q)
      | Some entry \<Rightarrow> do {
          e \<leftarrow> h entry;
          Some (Some entry, h(entry \<mapsto> e\<lparr>ue_next := None\<rparr>),
                q\<lparr>q_head := ue_next e, q_tail := (if ue_next e = None then None else q_tail q),
                  q_count := q_count q - 1\<rparr>)
        })"

text \<open>The search loop with its trailing pointer; it would not end on a cyclic list.\<close>

partial_function (option) find_loop ::
    "urb_heap \<Rightarrow> uint32_t \<Rightarrow> nat option \<Rightarrow> nat option \<Rightarrow> (nat option \<times> nat option) option" where
  "find_loop h seqnum prev entry =
     (if entry = None then Some (prev, None)
      else do {
        e \<leftarrow> h (the entry);
        (if ue_seqnum e = seqnum then Some (prev, entry)
         else find_loop h seqnum entry (ue_next e))
      })"

declare find_loop.simps [code]

definition queue_find_remove ::
    "urb_heap \<Rightarrow> urb_queue \<Rightarrow> uint32_t \<Rightarrow> (nat option \<times> urb_heap \<times> urb_queue) option" where
  "queue_find_remove h q seqnum = do {
     (prev, found) \<leftarrow> find_loop h seqnum None (q_head q);
     (case found of
        None \<Rightarrow> Some (None, h, q)
      | Some p \<Rightarrow> do {
          e \<leftarrow> h p;
          (h1, hd1) \<leftarrow>
            (case prev of
               None \<Rightarrow> Some (h, ue_next e)
             | Some r \<Rightarrow> do { re \<leftarrow> h r; Some (h(r \<mapsto> re\<lparr>ue_next := ue_next e\<rparr>), q_head q) });
          e1 \<leftarrow> h1 p;
          Some (Some p, h1(p \<mapsto> e1\<lparr>ue_next := None\<rparr>),
                q\<lparr>q_head := hd1, q_tail := (if q_tail q = Some p then prev else q_tail q),
                  q_count := q_count q - 1\<rparr>)
        })
   }"

text \<open>\<^verbatim>\<open>urb_handler_find_pending\<close>: the same walk, without removal.\<close>

definition queue_find :: "urb_heap \<Rightarrow> urb_queue \<Rightarrow> uint32_t \<Rightarrow> nat option option" where
  "queue_find h q seqnum = map_option snd (find_loop h seqnum None (q_head q))"

definition free_urb_entry :: "urb_heap \<Rightarrow> nat option \<Rightarrow> urb_heap option" where
  "free_urb_entry h entry =
     (case entry of None \<Rightarrow> Some h
      | Some p \<Rightarrow> (case h p of None \<Rightarrow> None | Some e \<Rightarrow> Some (h(p := None))))"

partial_function (option) cleanup_loop :: "urb_heap \<Rightarrow> nat option \<Rightarrow> urb_heap option" where
  "cleanup_loop h entry =
     (if entry = None then Some h
      else do {
        e \<leftarrow> h (the entry);
        h1 \<leftarrow> free_urb_entry h entry;
        cleanup_loop h1 (ue_next e)
      })"

declare cleanup_loop.simps [code]

definition queue_cleanup :: "urb_heap \<Rightarrow> urb_queue \<Rightarrow> (urb_heap \<times> urb_queue) option" where
  "queue_cleanup h q = do {
     h1 \<leftarrow> cleanup_loop h (q_head q);
     Some (h1, empty_queue)
   }"

section \<open>The list a queue represents\<close>

fun path :: "urb_heap \<Rightarrow> nat option \<Rightarrow> nat list \<Rightarrow> nat option \<Rightarrow> bool" where
  "path h p [] q \<longleftrightarrow> p = q"
| "path h p (x # xs) q \<longleftrightarrow> p = Some x \<and> (\<exists>e. h x = Some e \<and> path h (ue_next e) xs q)"

abbreviation chain :: "urb_heap \<Rightarrow> nat option \<Rightarrow> nat list \<Rightarrow> bool" where
  "chain h p xs \<equiv> path h p xs None"

definition queue_rep :: "urb_heap \<Rightarrow> urb_queue \<Rightarrow> nat list \<Rightarrow> bool" where
  "queue_rep h q xs \<longleftrightarrow>
     chain h (q_head q) xs \<and> distinct xs \<and> q_tail q = (if xs = [] then None else Some (last xs)) \<and>
     q_count q = int (length xs)"

text \<open>The payload of an entry is everything but its link.\<close>

definition same_payload :: "urb_heap \<Rightarrow> urb_heap \<Rightarrow> bool" where
  "same_payload h h' \<longleftrightarrow>
     (\<forall>a. map_option (\<lambda>e. e\<lparr>ue_next := None\<rparr>) (h' a) = map_option (\<lambda>e. e\<lparr>ue_next := None\<rparr>) (h a))"

definition seqnum_at :: "urb_heap \<Rightarrow> nat \<Rightarrow> uint32_t option" where
  "seqnum_at h p = map_option ue_seqnum (h p)"

lemma same_payload_refl [simp]: "same_payload h h"
  by (simp add: same_payload_def)

lemma same_payload_trans: "same_payload h h1 \<Longrightarrow> same_payload h1 h2 \<Longrightarrow> same_payload h h2"
  by (simp add: same_payload_def)

lemma same_payload_next: "h p = Some e \<Longrightarrow> same_payload h (h(p \<mapsto> e\<lparr>ue_next := n\<rparr>))"
  by (simp add: same_payload_def)

lemma same_payload_dom: "same_payload h h' \<Longrightarrow> (h' a = None) = (h a = None)"
  unfolding same_payload_def by (metis option.map_disc_iff)

lemma same_payload_seqnum: "same_payload h h' \<Longrightarrow> seqnum_at h' p = seqnum_at h p"
proof -
  assume s: "same_payload h h'"
  have "seqnum_at g p = map_option ue_seqnum (map_option (\<lambda>e. e\<lparr>ue_next := None\<rparr>) (g p))" for g
    by (cases "g p") (simp_all add: seqnum_at_def)
  then show ?thesis using s unfolding same_payload_def by metis
qed

lemma path_cong: "(\<And>a. a \<in> set xs \<Longrightarrow> h' a = h a) \<Longrightarrow> path h' p xs q = path h p xs q"
  by (induction xs arbitrary: p) auto

lemma path_update [simp]: "a \<notin> set xs \<Longrightarrow> path (h(a := v)) p xs q = path h p xs q"
  by (rule path_cong) auto

lemma path_alloc: "path h p xs q \<Longrightarrow> a \<in> set xs \<Longrightarrow> \<exists>e. h a = Some e"
  by (induction xs arbitrary: p) auto

lemma path_append [simp]: "path h p (xs @ ys) q \<longleftrightarrow> (\<exists>r. path h p xs r \<and> path h r ys q)"
  by (induction xs arbitrary: p) auto

lemma path_None: "path h None xs q \<longleftrightarrow> xs = [] \<and> q = None"
  by (cases xs) auto

text \<open>The search finds the first entry with the number and its predecessor.\<close>

definition first_seq :: "urb_heap \<Rightarrow> nat list \<Rightarrow> uint32_t \<Rightarrow> nat option" where
  "first_seq h xs seqnum = List.find (\<lambda>a. seqnum_at h a = Some seqnum) xs"

lemma find_loop_spec:
  "chain h p xs \<Longrightarrow>
   \<exists>prev' ys zs. find_loop h s prev p = Some (prev', first_seq h xs s) \<and>
     (case first_seq h xs s of
        None \<Rightarrow> True
      | Some x \<Rightarrow> xs = ys @ x # zs \<and> prev' = (if ys = [] then prev else Some (last ys)))"
proof (induction xs arbitrary: p prev)
  case Nil
  then show ?case by (subst find_loop.simps) (simp add: first_seq_def)
next
  case (Cons x xs)
  then obtain e where e: "p = Some x" "h x = Some e" "chain h (ue_next e) xs" by auto
  have step: "find_loop h s prev p =
      (if ue_seqnum e = s then Some (prev, Some x) else find_loop h s (Some x) (ue_next e))"
    using e by (subst find_loop.simps) simp
  show ?case
  proof (cases "ue_seqnum e = s")
    case True
    then show ?thesis using step e
      by (auto simp: first_seq_def seqnum_at_def intro!: exI[of _ "[]"])
  next
    case False
    then have f: "first_seq h (x # xs) s = first_seq h xs s"
      using e by (simp add: first_seq_def seqnum_at_def)
    obtain prev' ys zs where ih: "find_loop h s (Some x) (ue_next e) = Some (prev', first_seq h xs s)"
      "case first_seq h xs s of None \<Rightarrow> True
        | Some y \<Rightarrow> xs = ys @ y # zs \<and> prev' = (if ys = [] then Some x else Some (last ys))"
      using Cons.IH[OF e(3), of "Some x"] by blast
    have "case first_seq h xs s of None \<Rightarrow> True
        | Some y \<Rightarrow> x # xs = (x # ys) @ y # zs \<and> prev' = (if x # ys = [] then prev else Some (last (x # ys)))"
      using ih(2) by (auto split: option.splits)
    then show ?thesis using step False ih(1) f
      by (intro exI[of _ prev'] exI[of _ "x # ys"] exI[of _ zs]) simp
  qed
qed

lemma first_seq_Some: "first_seq h xs s = Some x \<Longrightarrow> x \<in> set xs \<and> seqnum_at h x = Some s"
  by (auto simp: first_seq_def find_Some_iff)

lemma first_seq_None: "first_seq h xs s = None \<longleftrightarrow> (\<forall>x\<in>set xs. seqnum_at h x \<noteq> Some s)"
  by (auto simp: first_seq_def find_None_iff)

section \<open>The contract of a queue\<close>

text \<open>
  \<open>rep h q xs\<close>: in heap \<open>h\<close> the queue \<open>q\<close> holds the entries at \<open>xs\<close>, front first. Operations
  never fail on such a queue, change links of its own entries only, and keep the payloads.
\<close>

locale entry_queue =
  fixes rep :: "urb_heap \<Rightarrow> 'q \<Rightarrow> nat list \<Rightarrow> bool"
    and push :: "urb_heap \<Rightarrow> 'q \<Rightarrow> nat \<Rightarrow> (urb_heap \<times> 'q) option"
    and pop :: "urb_heap \<Rightarrow> 'q \<Rightarrow> (nat option \<times> urb_heap \<times> 'q) option"
    and remove :: "urb_heap \<Rightarrow> 'q \<Rightarrow> uint32_t \<Rightarrow> (nat option \<times> urb_heap \<times> 'q) option"
  assumes rep_distinct: "rep h q xs \<Longrightarrow> distinct xs"
    and rep_alloc: "rep h q xs \<Longrightarrow> a \<in> set xs \<Longrightarrow> h a \<noteq> None"
    and rep_frame: "rep h q xs \<Longrightarrow> (\<And>a. a \<in> set xs \<Longrightarrow> h' a = h a) \<Longrightarrow> rep h' q xs"
    and rep_payload: "rep h q xs \<Longrightarrow> h a = Some e \<Longrightarrow> ue_next e' = ue_next e \<Longrightarrow> rep (h(a \<mapsto> e')) q xs"
    and push_rep: "rep h q xs \<Longrightarrow> h a \<noteq> None \<Longrightarrow> a \<notin> set xs \<Longrightarrow>
      \<exists>h' q'. push h q a = Some (h', q') \<and> rep h' q' (xs @ [a]) \<and> same_payload h h' \<and>
        (\<forall>b. b \<noteq> a \<and> b \<notin> set xs \<longrightarrow> h' b = h b)"
    and pop_empty: "rep h q [] \<Longrightarrow> pop h q = Some (None, h, q)"
    and pop_rep: "rep h q (x # xs) \<Longrightarrow>
      \<exists>h' q'. pop h q = Some (Some x, h', q') \<and> rep h' q' xs \<and> same_payload h h' \<and>
        (\<forall>b. b \<noteq> x \<longrightarrow> h' b = h b)"
    and remove_none: "rep h q xs \<Longrightarrow> first_seq h xs s = None \<Longrightarrow> remove h q s = Some (None, h, q)"
    and remove_rep: "rep h q xs \<Longrightarrow> first_seq h xs s = Some x \<Longrightarrow>
      \<exists>h' q'. remove h q s = Some (Some x, h', q') \<and> rep h' q' (remove1 x xs) \<and>
        same_payload h h' \<and> (\<forall>b. b \<notin> set xs \<longrightarrow> h' b = h b)"
begin

text \<open>
  Moving an entry between two queues: taken off one, its payload changed, appended to the
  other. This is the step of the worker, of unlink and of cancellation.
\<close>

lemma finish_move:
  assumes "rep h1 q1 xs'" and "rep h1 q2 ys" and "h1 x = Some e"
    and "x \<notin> set xs'" and "x \<notin> set ys" and "set xs' \<inter> set ys = {}" and "ue_next e' = ue_next e"
  shows "\<exists>h2 q2'. push (h1(x \<mapsto> e')) q2 x = Some (h2, q2') \<and> rep h2 q1 xs' \<and> rep h2 q2' (ys @ [x]) \<and>
    same_payload (h1(x \<mapsto> e')) h2 \<and> (\<forall>b. b \<noteq> x \<and> b \<notin> set ys \<longrightarrow> h2 b = h1 b)"
proof -
  let ?h = "h1(x \<mapsto> e')"
  have r: "rep ?h q1 xs'" "rep ?h q2 ys"
    using rep_payload[OF assms(1) assms(3,7)] rep_payload[OF assms(2) assms(3,7)] by simp_all
  have "?h x \<noteq> None" by simp
  from push_rep[OF r(2) this assms(5)]
  obtain h2 q2' where p: "push ?h q2 x = Some (h2, q2')" "rep h2 q2' (ys @ [x])" "same_payload ?h h2"
    "\<forall>b. b \<noteq> x \<and> b \<notin> set ys \<longrightarrow> h2 b = ?h b"
    by (elim exE conjE) (rule that)
  have eq: "h2 a = ?h a" if "a \<in> set xs'" for a using p(4) that assms(4,6) by auto
  have "rep h2 q1 xs'" by (rule rep_frame[OF r(1) eq])
  moreover have "\<forall>b. b \<noteq> x \<and> b \<notin> set ys \<longrightarrow> h2 b = h1 b" using p(4) by simp
  ultimately show ?thesis using p(1-3) by (intro exI[of _ h2] exI[of _ q2'] conjI)
qed

end

lemma chain_push:
  assumes "chain h p xs" and "distinct xs" and "a \<notin> set xs" and "h a = Some e" and "xs \<noteq> []"
    and "h (last xs) = Some l"
  shows "chain (h(a \<mapsto> e\<lparr>ue_next := None\<rparr>, last xs \<mapsto> l\<lparr>ue_next := Some a\<rparr>)) p (xs @ [a])"
proof -
  obtain ys y where xs: "xs = ys @ [y]" using assms(5) by (cases xs rule: rev_cases) auto
  then show ?thesis using assms by auto
qed

lemma queue_push_rep:
  assumes "queue_rep h q xs" and "h a = Some e" and "a \<notin> set xs"
  shows "\<exists>h' q'. queue_push h q a = Some (h', q') \<and> queue_rep h' q' (xs @ [a]) \<and> same_payload h h' \<and>
    (\<forall>b. b \<noteq> a \<and> b \<notin> set xs \<longrightarrow> h' b = h b)"
proof (cases "xs = []")
  case True
  then show ?thesis using assms
    by (auto simp: queue_rep_def queue_push_def same_payload_next)
next
  case False
  then have l: "last xs \<in> set xs" "last xs \<noteq> a" using assms(3) by auto
  obtain le where le: "h (last xs) = Some le"
    using assms(1) l(1) path_alloc by (fastforce simp: queue_rep_def)
  have "same_payload h (h(a \<mapsto> e\<lparr>ue_next := None\<rparr>, last xs \<mapsto> le\<lparr>ue_next := Some a\<rparr>))"
    using assms(2) le l by (auto simp: same_payload_def)
  then show ?thesis
    using assms le l False chain_push[of h "q_head q" xs a e le]
    by (auto simp: queue_rep_def queue_push_def)
qed

lemma queue_pop_rep:
  assumes "queue_rep h q (x # xs)"
  shows "\<exists>h' q'. queue_pop h q = Some (Some x, h', q') \<and> queue_rep h' q' xs \<and> same_payload h h' \<and>
    (\<forall>b. b \<noteq> x \<longrightarrow> h' b = h b)"
proof -
  obtain e where e: "q_head q = Some x" "h x = Some e" "chain h (ue_next e) xs" "x \<notin> set xs" "distinct xs"
    using assms by (auto simp: queue_rep_def)
  have "ue_next e = None \<longleftrightarrow> xs = []" using e(3) by (cases xs) auto
  then show ?thesis
    using assms e by (auto simp: queue_rep_def queue_pop_def same_payload_next)
qed

lemma queue_find_remove_none:
  assumes "queue_rep h q xs" and "first_seq h xs s = None"
  shows "queue_find_remove h q s = Some (None, h, q)"
  using find_loop_spec[of h "q_head q" xs s None] assms
  by (auto simp: queue_rep_def queue_find_remove_def)

lemma queue_find_remove_rep:
  assumes rep: "queue_rep h q xs" and found: "first_seq h xs s = Some x"
  shows "\<exists>h' q'. queue_find_remove h q s = Some (Some x, h', q') \<and> queue_rep h' q' (remove1 x xs) \<and>
    same_payload h h' \<and> (\<forall>b. b \<notin> set xs \<longrightarrow> h' b = h b)"
proof -
  obtain prev ys zs where loop: "find_loop h s None (q_head q) = Some (prev, Some x)"
    and xs: "xs = ys @ x # zs" and prev: "prev = (if ys = [] then None else Some (last ys))"
    using find_loop_spec[of h "q_head q" xs s None] rep found by (auto simp: queue_rep_def)
  have dist: "distinct (ys @ x # zs)" using rep xs by (simp add: queue_rep_def)
  obtain e where e: "path h (q_head q) ys (Some x)" "h x = Some e" "chain h (ue_next e) zs"
    using rep xs by (auto simp: queue_rep_def)
  have tail: "(q_tail q = Some x) \<longleftrightarrow> zs = []" and len: "q_count q = int (length xs)"
    using rep xs dist by (auto simp: queue_rep_def last_append split: if_splits)
  have rem: "remove1 x xs = ys @ zs" using xs dist by (simp add: remove1_append)
  show ?thesis
  proof (cases "ys = []")
    case True
    then show ?thesis
      using loop prev e dist tail rem rep xs
      by (auto simp: queue_find_remove_def queue_rep_def same_payload_next)
  next
    case False
    obtain vs v where ys: "ys = vs @ [v]" using False by (cases ys rule: rev_cases) auto
    obtain ve where ve: "h v = Some ve" "path h (q_head q) vs (Some v)" using e(1) ys by auto
    let ?h = "h(v \<mapsto> ve\<lparr>ue_next := ue_next e\<rparr>, x \<mapsto> e\<lparr>ue_next := None\<rparr>)"
    have "queue_find_remove h q s = Some (Some x, ?h,
        q\<lparr>q_tail := (if q_tail q = Some x then prev else q_tail q), q_count := q_count q - 1\<rparr>)"
      using loop prev ys e ve dist by (simp add: queue_find_remove_def)
    moreover have "chain ?h (q_head q) (ys @ zs)"
      using ys ve e dist by auto
    moreover have "same_payload h ?h" using ve e ys dist by (auto simp: same_payload_def)
    ultimately show ?thesis
      using rem tail dist rep xs ys prev len by (auto simp: queue_rep_def last_append)
  qed
qed

interpretation uq: entry_queue queue_rep queue_push queue_pop queue_find_remove
proof unfold_locales
  fix h q xs a
  show "queue_rep h q xs \<Longrightarrow> distinct xs" by (simp add: queue_rep_def)
  show "queue_rep h q xs \<Longrightarrow> a \<in> set xs \<Longrightarrow> h a \<noteq> None"
    using path_alloc[of h "q_head q" xs None a] by (auto simp: queue_rep_def)
next
  fix h :: urb_heap and q xs and h' :: urb_heap
  show "queue_rep h q xs \<Longrightarrow> (\<And>a. a \<in> set xs \<Longrightarrow> h' a = h a) \<Longrightarrow> queue_rep h' q xs"
    using path_cong[of xs h' h "q_head q" None] by (simp add: queue_rep_def)
next
  fix h q xs a and e e' :: urb_entry
  assume q: "queue_rep h q xs" and e: "h a = Some e" "ue_next e' = ue_next e"
  have "path h p ys r \<Longrightarrow> path (h(a \<mapsto> e')) p ys r" for p ys r
    using e by (induction ys arbitrary: p) auto
  then show "queue_rep (h(a \<mapsto> e')) q xs" using q by (simp add: queue_rep_def)
next
  fix h q xs a
  show "queue_rep h q xs \<Longrightarrow> h a \<noteq> None \<Longrightarrow> a \<notin> set xs \<Longrightarrow>
      \<exists>h' q'. queue_push h q a = Some (h', q') \<and> queue_rep h' q' (xs @ [a]) \<and> same_payload h h' \<and>
        (\<forall>b. b \<noteq> a \<and> b \<notin> set xs \<longrightarrow> h' b = h b)"
    using queue_push_rep by blast
next
  fix h q
  show "queue_rep h q [] \<Longrightarrow> queue_pop h q = Some (None, h, q)"
    by (simp add: queue_rep_def queue_pop_def)
qed (blast intro: queue_pop_rep queue_find_remove_none queue_find_remove_rep)+

text \<open>Cleaning up frees exactly the entries of the queue.\<close>

lemma cleanup_loop_spec:
  "chain h p xs \<Longrightarrow> distinct xs \<Longrightarrow> cleanup_loop h p = Some (\<lambda>a. if a \<in> set xs then None else h a)"
proof (induction xs arbitrary: h p)
  case Nil
  then show ?case by (subst cleanup_loop.simps) simp
next
  case (Cons x xs)
  then obtain e where e: "p = Some x" "h x = Some e" "chain h (ue_next e) xs" by auto
  have "cleanup_loop h p = cleanup_loop (h(x := None)) (ue_next e)"
    using e by (subst cleanup_loop.simps) (simp add: free_urb_entry_def)
  also have "\<dots> = Some (\<lambda>a. if a \<in> set xs then None else (h(x := None)) a)"
    using e Cons.prems(2) by (intro Cons.IH) (simp_all del: fun_upd_apply)
  finally show ?case by (auto simp: fun_eq_iff)
qed

lemma queue_cleanup_spec:
  assumes "queue_rep h q xs"
  shows "queue_cleanup h q = Some (\<lambda>a. if a \<in> set xs then None else h a, empty_queue)"
  using assms cleanup_loop_spec[of h "q_head q" xs] by (simp add: queue_rep_def queue_cleanup_def)

lemma queue_rep_empty [simp]: "queue_rep h empty_queue xs \<longleftrightarrow> xs = []"
  by (cases xs) (auto simp: queue_rep_def empty_queue_def)

lemma queue_find_spec: "queue_rep h q xs \<Longrightarrow> queue_find h q s = Some (first_seq h xs s)"
  using find_loop_spec[of h "q_head q" xs s None] by (auto simp: queue_find_def queue_rep_def)

section \<open>Properties\<close>

text \<open>
  C12: the linked queue is a first-in first-out list. For a queue that represents \<open>xs\<close>,
  with \<open>a\<close> an allocated entry outside it: a push represents \<open>xs @ [a]\<close>; a pop returns the first
  entry and represents the rest, or returns null on the empty queue and changes nothing;
  find-and-remove takes out the first entry with the sequence number, or returns null and
  changes nothing. No operation follows a bad pointer, and the stored count is the length.
\<close>

theorem queue_refines_fifo:
  assumes "queue_rep h q xs" and "h a = Some e" and "a \<notin> set xs"
  shows "(\<exists>h' q'. queue_push h q a = Some (h', q') \<and> queue_rep h' q' (xs @ [a]) \<and> same_payload h h') \<and>
    (case xs of
       [] \<Rightarrow> queue_pop h q = Some (None, h, q)
     | x # ys \<Rightarrow> (\<exists>h' q'. queue_pop h q = Some (Some x, h', q') \<and> queue_rep h' q' ys \<and> same_payload h h')) \<and>
    (case first_seq h xs s of
       None \<Rightarrow> queue_find_remove h q s = Some (None, h, q)
     | Some x \<Rightarrow> (\<exists>h' q'. queue_find_remove h q s = Some (Some x, h', q') \<and>
         queue_rep h' q' (remove1 x xs) \<and> same_payload h h')) \<and>
    q_count q = int (length xs)"
proof (intro conjI)
  show "\<exists>h' q'. queue_push h q a = Some (h', q') \<and> queue_rep h' q' (xs @ [a]) \<and> same_payload h h'"
    using queue_push_rep[OF assms] by blast
  show "case xs of [] \<Rightarrow> queue_pop h q = Some (None, h, q)
     | x # ys \<Rightarrow> (\<exists>h' q'. queue_pop h q = Some (Some x, h', q') \<and> queue_rep h' q' ys \<and> same_payload h h')"
    using assms(1) uq.pop_empty queue_pop_rep by (cases xs) (simp, fastforce)
  show "case first_seq h xs s of None \<Rightarrow> queue_find_remove h q s = Some (None, h, q)
     | Some x \<Rightarrow> (\<exists>h' q'. queue_find_remove h q s = Some (Some x, h', q') \<and>
         queue_rep h' q' (remove1 x xs) \<and> same_payload h h')"
    using assms(1) queue_find_remove_none queue_find_remove_rep
    by (cases "first_seq h xs s") (simp, fastforce)
  show "q_count q = int (length xs)" using assms(1) by (simp add: queue_rep_def)
qed

definition sample_urb :: usb_urb where
  "sample_urb =
     \<lparr>ub_seqnum = 0, ub_devid = 0, ub_endpoint = 0, ub_direction = 0, ub_type = 0,
      ub_transfer_flags = 0, ub_setup = replicate 8 0, ub_buffer = None, ub_buffer_length = 0,
      ub_actual_length = 0, ub_status = 0, ub_start_frame = 0, ub_number_of_packets = 0,
      ub_interval = 0, ub_completed = False, ub_cancelled = False\<rparr>"

definition sample_entry :: "uint32_t \<Rightarrow> nat option \<Rightarrow> urb_entry" where
  "sample_entry s n =
     \<lparr>ue_urb = sample_urb, ue_seqnum = s, ue_devid = 0, ue_submit_time = 0,
      ue_in_progress = False, ue_completed = False, ue_next = n\<rparr>"

definition sample_heap :: urb_heap where
  "sample_heap = [10 \<mapsto> sample_entry 1 (Some 11), 11 \<mapsto> sample_entry 2 None, 12 \<mapsto> sample_entry 3 None]"

theorem queue_refines_fifo_witness:
  "\<exists>h' q'. queue_find_remove sample_heap \<lparr>q_head = Some 10, q_tail = Some 11, q_count = 2\<rparr> 2 =
     Some (Some 11, h', q') \<and> queue_rep h' q' [10]"
proof -
  let ?q = "\<lparr>q_head = Some 10, q_tail = Some 11, q_count = 2\<rparr>"
  have rep: "queue_rep sample_heap ?q [10, 11]"
    by (simp add: queue_rep_def sample_entry_def sample_heap_def)
  have a: "sample_heap 12 = Some (sample_entry 3 None)" "(12 :: nat) \<notin> set [10, 11]"
    by (simp_all add: sample_heap_def)
  have "first_seq sample_heap [10, 11] 2 = Some 11"
    by (simp add: first_seq_def seqnum_at_def sample_entry_def sample_heap_def)
  with queue_refines_fifo[OF rep a, of 2] show ?thesis by auto
qed

end
