(* ===== verification/Urb_Handler.thy ===== *)
theory Urb_Handler
  imports Urb_Queue "HOL-Library.Multiset"
begin

text \<open>
  The request-block handler of an attached device, \<^verbatim>\<open>urb_handler_t\<close> and the functions of
  \<^verbatim>\<open>server/urb_handler.c\<close>: submission, unlinking, cancellation, the worker thread and the
  completed queue. Operations map a heap and a handler to the new ones; \<open>None\<close> is the access
  of a bad pointer. The step relation \<open>urb_step\<close> interleaves the session thread and the
  worker thread, each step being one critical section or one exclusive access of an entry.
\<close>

section \<open>The handler\<close>

record urb_handler =
  hd_device :: nat
  hd_pending :: urb_queue
  hd_completed :: urb_queue
  hd_next_seqnum :: uint32_t
  hd_running :: bool
  hd_initialized :: bool

definition zero_handler :: urb_handler where
  "zero_handler =
     \<lparr>hd_device = 0, hd_pending = empty_queue, hd_completed = empty_queue, hd_next_seqnum = 0,
      hd_running = False, hd_initialized = False\<rparr>"

text \<open>
  \<open>objs\<close> tells whether the mutex and event of the two queues can be created. A failing first
  or second initialisation leaves the handler marked as not initialised.
\<close>

definition urb_handler_init ::
    "bool \<times> bool \<Rightarrow> bool \<times> bool \<Rightarrow> nat option \<Rightarrow> urb_handler \<Rightarrow> error_code \<times> urb_handler" where
  "urb_handler_init objs1 objs2 device old =
     (case device of
        None \<Rightarrow> (ERR_INVALID_PARAM, old)
      | Some d \<Rightarrow>
          let hd0 = zero_handler\<lparr>hd_device := d, hd_next_seqnum := 1\<rparr>;
              (e1, q1) = queue_init (fst objs1) (snd objs1);
              (e2, q2) = queue_init (fst objs2) (snd objs2)
          in if e1 \<noteq> ERR_SUCCESS then (e1, hd0\<lparr>hd_pending := q1\<rparr>)
             else if e2 \<noteq> ERR_SUCCESS then (e2, hd0\<lparr>hd_pending := empty_queue, hd_completed := q2\<rparr>)
             else (ERR_SUCCESS, hd0\<lparr>hd_pending := q1, hd_completed := q2, hd_initialized := True\<rparr>))"

section \<open>Submission\<close>

definition zero_urb :: usb_urb where
  "zero_urb =
     \<lparr>ub_seqnum = 0, ub_devid = 0, ub_endpoint = 0, ub_direction = 0, ub_type = 0,
      ub_transfer_flags = 0, ub_setup = replicate 8 0, ub_buffer = None, ub_buffer_length = 0,
      ub_actual_length = 0, ub_status = 0, ub_start_frame = 0, ub_number_of_packets = 0,
      ub_interval = 0, ub_completed = False, ub_cancelled = False\<rparr>"

text \<open>
  The request block of a submit command, before its buffer is allocated: the transfer type
  is chosen from the endpoint number, then the direction bit is added to the address.
\<close>

definition header_urb :: "usbip_header \<Rightarrow> usb_urb" where
  "header_urb header =
     (let c = uh_common header; s = u_cmd_submit (uh_u header);
          ep = ucast (hc_ep c) :: uint8_t; dir = ucast (hc_direction c) :: uint8_t
      in zero_urb\<lparr>ub_seqnum := hc_seqnum c, ub_devid := hc_devid c,
           ub_endpoint := (if dir = ucast USBIP_DIR_IN then ep OR USB_DIR_IN else ep),
           ub_direction := dir,
           ub_transfer_flags := cs_transfer_flags s,
           ub_buffer_length := cs_transfer_buffer_length s,
           ub_interval := cs_interval s, ub_start_frame := cs_start_frame s,
           ub_number_of_packets := cs_number_of_packets s,
           ub_setup := cs_setup s,
           ub_type := (if ep = 0 then USB_ENDPOINT_XFER_CONTROL else USB_ENDPOINT_XFER_BULK)\<rparr>)"

text \<open>
  \<open>malloc\<close> gives the contents of fresh memory of the requested size, or \<open>None\<close>. Outgoing data
  is copied up to the smaller of the two lengths.
\<close>

definition alloc_buffer :: "(nat \<Rightarrow> byte list option) \<Rightarrow> byte list option \<Rightarrow> usb_urb \<Rightarrow> usb_urb option" where
  "alloc_buffer malloc data u =
     (if ub_buffer_length u > 0 then
        (case malloc (unat (ub_buffer_length u)) of
           None \<Rightarrow> None
         | Some m \<Rightarrow>
             Some (u\<lparr>ub_buffer := Some
               (case data of
                  Some d \<Rightarrow>
                    (if ub_direction u = ucast USBIP_DIR_OUT \<and> length d > 0
                     then overlay (take (unat (ub_buffer_length u)) d) m else m)
                | None \<Rightarrow> m)\<rparr>))
      else Some u)"

text \<open>\<open>calloc\<close> is the address of the new entry or \<open>None\<close>; \<open>now\<close> the time stamp.\<close>

definition urb_handler_submit :: "nat option \<Rightarrow> (nat \<Rightarrow> byte list option) \<Rightarrow> uint64_t
    \<Rightarrow> usbip_header \<Rightarrow> byte list option \<Rightarrow> urb_heap \<Rightarrow> urb_handler
    \<Rightarrow> (error_code \<times> urb_heap \<times> urb_handler) option" where
  "urb_handler_submit calloc malloc now header data h hr =
     (if \<not> hd_initialized hr then Some (ERR_INVALID_PARAM, h, hr)
      else case calloc of
        None \<Rightarrow> Some (ERR_OUT_OF_MEMORY, h, hr)
      | Some a \<Rightarrow>
          (case alloc_buffer malloc data (header_urb header) of
             None \<Rightarrow> Some (ERR_OUT_OF_MEMORY, h, hr)
           | Some u \<Rightarrow> do {
               let entry = \<lparr>ue_urb = u, ue_seqnum = hc_seqnum (uh_common header),
                 ue_devid = hc_devid (uh_common header), ue_submit_time = now,
                 ue_in_progress = False, ue_completed = False, ue_next = None\<rparr>;
               (h1, q) \<leftarrow> queue_push (h(a \<mapsto> entry)) (hd_pending hr) a;
               Some (ERR_SUCCESS, h1, hr\<lparr>hd_pending := q\<rparr>)
             }))"

section \<open>Cancellation\<close>

text \<open>The marks of a cancelled entry; \<^verbatim>\<open>ECANCELED\<close> is 105.\<close>

definition cancel_entry :: "urb_entry \<Rightarrow> urb_entry" where
  "cancel_entry e =
     e\<lparr>ue_urb := (ue_urb e)\<lparr>ub_status := -105, ub_cancelled := True\<rparr>, ue_completed := True\<rparr>"

definition urb_handler_unlink :: "uint32_t \<Rightarrow> urb_heap \<Rightarrow> urb_handler
    \<Rightarrow> (error_code \<times> urb_heap \<times> urb_handler) option" where
  "urb_handler_unlink seqnum_to_unlink h hr =
     (if \<not> hd_initialized hr then Some (ERR_INVALID_PARAM, h, hr)
      else do {
        (entry, h1, q1) \<leftarrow> queue_find_remove h (hd_pending hr) seqnum_to_unlink;
        (case entry of
           Some p \<Rightarrow> do {
             e \<leftarrow> h1 p;
             (h2, q2) \<leftarrow> queue_push (h1(p \<mapsto> cancel_entry e)) (hd_completed hr) p;
             Some (ERR_SUCCESS, h2, hr\<lparr>hd_pending := q1, hd_completed := q2\<rparr>)
           }
         | None \<Rightarrow> Some (ERR_NOT_FOUND, h1, hr\<lparr>hd_pending := q1\<rparr>))
      })"

partial_function (option) urb_handler_cancel_all ::
    "urb_heap \<Rightarrow> urb_handler \<Rightarrow> (urb_heap \<times> urb_handler) option" where
  "urb_handler_cancel_all h hr = do {
     r1 \<leftarrow> queue_pop h (hd_pending hr);
     (if fst r1 = None then Some (fst (snd r1), hr\<lparr>hd_pending := snd (snd r1)\<rparr>)
      else do {
        e \<leftarrow> fst (snd r1) (the (fst r1));
        r2 \<leftarrow> queue_push ((fst (snd r1))(the (fst r1) \<mapsto> cancel_entry e)) (hd_completed hr) (the (fst r1));
        urb_handler_cancel_all (fst r2)
          (hr\<lparr>hd_pending := snd (snd r1), hd_completed := snd r2\<rparr>)
      })
   }"

declare urb_handler_cancel_all.simps [code]

section \<open>Completed entries\<close>

definition urb_handler_get_completed ::
    "urb_heap \<Rightarrow> urb_handler \<Rightarrow> (nat option \<times> urb_heap \<times> urb_handler) option" where
  "urb_handler_get_completed h hr =
     (if \<not> hd_initialized hr then Some (None, h, hr)
      else do {
        (entry, h1, q) \<leftarrow> queue_pop h (hd_completed hr);
        Some (entry, h1, hr\<lparr>hd_completed := q\<rparr>)
      })"

definition urb_handler_free_entry :: "urb_heap \<Rightarrow> nat option \<Rightarrow> urb_heap option" where
  "urb_handler_free_entry h entry = free_urb_entry h entry"

definition urb_handler_create_return :: "urb_entry \<Rightarrow> usbip_header" where
  "urb_handler_create_return e =
     (let u = ue_urb e
      in zero_header\<lparr>uh_common :=
           \<lparr>hc_command = USBIP_RET_SUBMIT, hc_seqnum = ue_seqnum e, hc_devid = ue_devid e,
            hc_direction = ucast (ub_direction u), hc_ep = ucast (ub_endpoint u AND 0x0F)\<rparr>,
         uh_u :=
           store8s (store32 (store32 (store32 (store32 (store32 (uh_u zero_header)
             0 (word_of_int (ub_status u))) 4 (ub_actual_length u)) 8 (ub_start_frame u))
             12 (ub_number_of_packets u)) 16 0) 20 (take 8 (ub_setup u))\<rparr>)"

section \<open>The worker thread\<close>

text \<open>
  One turn of the loop in three parts: take an entry and mark it, run the transfer and mark
  the result (\<open>-EIO\<close> is \<open>-5\<close>), append it to the completed queue.
\<close>

definition worker_take :: "urb_heap \<Rightarrow> urb_handler \<Rightarrow> (nat option \<times> urb_heap \<times> urb_handler) option" where
  "worker_take h hr = do {
     (entry, h1, q) \<leftarrow> queue_pop h (hd_pending hr);
     (case entry of
        None \<Rightarrow> Some (None, h1, hr\<lparr>hd_pending := q\<rparr>)
      | Some p \<Rightarrow> do {
          e \<leftarrow> h1 p;
          Some (Some p, h1(p \<mapsto> e\<lparr>ue_in_progress := True\<rparr>), hr\<lparr>hd_pending := q\<rparr>)
        })
   }"

definition run_entry :: "winusb \<Rightarrow> usb_device \<Rightarrow> urb_entry \<Rightarrow> urb_entry" where
  "run_entry os dev e =
     (case usb_submit_urb os dev (ue_urb e) of
        (result, u, reqs) \<Rightarrow>
          e\<lparr>ue_urb := (if result \<noteq> ERR_SUCCESS then u\<lparr>ub_status := -5\<rparr> else u),
            ue_completed := True, ue_in_progress := False\<rparr>)"

definition worker_execute :: "winusb \<Rightarrow> usb_device \<Rightarrow> nat \<Rightarrow> urb_heap \<Rightarrow> urb_heap option" where
  "worker_execute os dev p h = do {
     e \<leftarrow> h p;
     Some (h(p \<mapsto> run_entry os dev e))
   }"

definition worker_finish :: "nat \<Rightarrow> urb_heap \<Rightarrow> urb_handler \<Rightarrow> (urb_heap \<times> urb_handler) option" where
  "worker_finish p h hr = do {
     (h1, q) \<leftarrow> queue_push h (hd_completed hr) p;
     Some (h1, hr\<lparr>hd_completed := q\<rparr>)
   }"

definition worker_turn :: "winusb \<Rightarrow> usb_device \<Rightarrow> urb_heap \<Rightarrow> urb_handler
    \<Rightarrow> (bool \<times> urb_heap \<times> urb_handler) option" where
  "worker_turn os dev h hr = do {
     (entry, h1, hd1) \<leftarrow> worker_take h hr;
     (case entry of
        None \<Rightarrow> Some (False, h1, hd1)
      | Some p \<Rightarrow> do {
          h2 \<leftarrow> worker_execute os dev p h1;
          (h3, hd3) \<leftarrow> worker_finish p h2 hd1;
          Some (True, h3, hd3)
        })
   }"

section \<open>Control and status\<close>

definition urb_handler_start :: "bool \<Rightarrow> urb_handler \<Rightarrow> error_code \<times> urb_handler" where
  "urb_handler_start thread_ok hr =
     (if \<not> hd_initialized hr then (ERR_INVALID_PARAM, hr)
      else if hd_running hr then (ERR_SUCCESS, hr)
      else if \<not> thread_ok then (ERR_THREAD_CREATE, hr\<lparr>hd_running := False\<rparr>)
      else (ERR_SUCCESS, hr\<lparr>hd_running := True\<rparr>))"

text \<open>
  Stopping: the flag is cleared and the worker joined. \<open>joined\<close> is what the worker did to the
  heap and handler before it saw the flag. Then what is left is cancelled.
\<close>

definition urb_handler_stop ::
    "(urb_heap \<Rightarrow> urb_handler \<Rightarrow> (urb_heap \<times> urb_handler) option) \<Rightarrow> urb_heap \<Rightarrow> urb_handler
      \<Rightarrow> (urb_heap \<times> urb_handler) option" where
  "urb_handler_stop joined h hr =
     (if \<not> hd_running hr then Some (h, hr)
      else do {
        (h1, hd1) \<leftarrow> joined h (hr\<lparr>hd_running := False\<rparr>);
        urb_handler_cancel_all h1 hd1
      })"

definition urb_handler_cleanup ::
    "(urb_heap \<Rightarrow> urb_handler \<Rightarrow> (urb_heap \<times> urb_handler) option) \<Rightarrow> urb_heap \<Rightarrow> urb_handler
      \<Rightarrow> (urb_heap \<times> urb_handler) option" where
  "urb_handler_cleanup joined h hr =
     (if \<not> hd_initialized hr then Some (h, hr)
      else do {
        (h1, hd1) \<leftarrow> urb_handler_stop joined h hr;
        (h2, q1) \<leftarrow> queue_cleanup h1 (hd_pending hd1);
        (h3, q2) \<leftarrow> queue_cleanup h2 (hd_completed hd1);
        Some (h3, hd1\<lparr>hd_pending := q1, hd_completed := q2, hd_initialized := False\<rparr>)
      })"

definition urb_handler_pending_count :: "urb_handler \<Rightarrow> int" where
  "urb_handler_pending_count hr = q_count (hd_pending hr)"

definition urb_handler_completed_count :: "urb_handler \<Rightarrow> int" where
  "urb_handler_completed_count hr = q_count (hd_completed hr)"

definition urb_handler_is_running :: "urb_handler \<Rightarrow> bool" where
  "urb_handler_is_running hr = hd_running hr"

text \<open>\<^verbatim>\<open>InterlockedIncrement\<close> returns the incremented value and wraps.\<close>

definition urb_handler_next_seqnum :: "urb_handler \<Rightarrow> uint32_t \<times> urb_handler" where
  "urb_handler_next_seqnum hr =
     (let n = hd_next_seqnum hr + 1 in (n, hr\<lparr>hd_next_seqnum := n\<rparr>))"

definition urb_handler_find_pending :: "uint32_t \<Rightarrow> urb_heap \<Rightarrow> urb_handler \<Rightarrow> nat option option" where
  "urb_handler_find_pending seqnum h hr = queue_find h (hd_pending hr) seqnum"

section \<open>What the operations do to the two queues\<close>

definition handler_rep :: "urb_heap \<Rightarrow> urb_handler \<Rightarrow> nat list \<Rightarrow> nat list \<Rightarrow> bool" where
  "handler_rep h hr xs ys \<longleftrightarrow>
     queue_rep h (hd_pending hr) xs \<and> queue_rep h (hd_completed hr) ys \<and> set xs \<inter> set ys = {}"

lemma same_payload_seqnum_at: "same_payload h h' \<Longrightarrow> seqnum_at h' = seqnum_at h"
  by (rule ext) (rule same_payload_seqnum)

lemma seqnum_at_upd: "h p = Some e \<Longrightarrow> ue_seqnum e' = ue_seqnum e \<Longrightarrow> seqnum_at (h(p \<mapsto> e')) = seqnum_at h"
  by (rule ext) (simp add: seqnum_at_def)

lemma same_payload_entry:
  assumes "same_payload h h'" and "h p = Some e"
  shows "\<exists>n. h' p = Some (e\<lparr>ue_next := n\<rparr>)"
proof -
  have "map_option (\<lambda>e. e\<lparr>ue_next := None\<rparr>) (h' p) = Some (e\<lparr>ue_next := None\<rparr>)"
    using assms unfolding same_payload_def by (metis option.simps(9))
  then obtain e' where e': "h' p = Some e'" "e'\<lparr>ue_next := None\<rparr> = e\<lparr>ue_next := None\<rparr>"
    by (auto simp: map_option_eq_Some)
  then have "e' = (e\<lparr>ue_next := None\<rparr>)\<lparr>ue_next := ue_next e'\<rparr>" by (metis urb_entry.surjective urb_entry.update_convs(7))
  then show ?thesis using e'(1) by (metis urb_entry.fold_congs(7) urb_entry.update_convs(7) urb_entry.surjective)
qed

lemma cancel_entry_simps [simp]:
  "ue_seqnum (cancel_entry e) = ue_seqnum e" "ue_next (cancel_entry e) = ue_next e"
  by (simp_all add: cancel_entry_def)

lemma run_entry_simps [simp]:
  "ue_seqnum (run_entry os dev e) = ue_seqnum e" "ue_next (run_entry os dev e) = ue_next e"
  "ue_devid (run_entry os dev e) = ue_devid e"
  by (simp_all add: run_entry_def split: prod.splits)

lemma handler_rep_fresh: "handler_rep h hr xs ys \<Longrightarrow> h a = None \<Longrightarrow> a \<notin> set xs \<and> a \<notin> set ys"
  unfolding handler_rep_def using uq.rep_alloc by blast

lemma urb_handler_submit_rep:
  assumes rep: "handler_rep h hr xs ys" and "hd_initialized hr" and fresh: "h a = None"
    and u: "alloc_buffer malloc data (header_urb header) = Some u"
  shows "\<exists>h' hr'. urb_handler_submit (Some a) malloc now header data h hr = Some (ERR_SUCCESS, h', hr') \<and>
    handler_rep h' hr' (xs @ [a]) ys \<and> hr' = hr\<lparr>hd_pending := hd_pending hr'\<rparr> \<and>
    seqnum_at h' = (seqnum_at h)(a \<mapsto> hc_seqnum (uh_common header)) \<and>
    (\<forall>b. b \<notin> set xs \<and> b \<noteq> a \<longrightarrow> h' b = h b)"
proof -
  let ?e = "\<lparr>ue_urb = u, ue_seqnum = hc_seqnum (uh_common header),
     ue_devid = hc_devid (uh_common header), ue_submit_time = now,
     ue_in_progress = False, ue_completed = False, ue_next = None\<rparr>"
  define h1 where "h1 = h(a \<mapsto> ?e)"
  have h1: "h1 a \<noteq> None" "\<And>b. b \<noteq> a \<Longrightarrow> h1 b = h b"
    "seqnum_at h1 = (seqnum_at h)(a \<mapsto> hc_seqnum (uh_common header))"
    by (simp_all add: h1_def fun_eq_iff seqnum_at_def)
  note nin = handler_rep_fresh[OF rep fresh]
  have r: "queue_rep h1 (hd_pending hr) xs" "queue_rep h1 (hd_completed hr) ys"
    using rep nin h1(2) unfolding handler_rep_def by (metis uq.rep_frame)+
  obtain h' q where p: "queue_push h1 (hd_pending hr) a = Some (h', q)"
    "queue_rep h' q (xs @ [a])" "same_payload h1 h'" "\<forall>b. b \<noteq> a \<and> b \<notin> set xs \<longrightarrow> h' b = h1 b"
    using uq.push_rep[OF r(1) h1(1)] nin by auto
  have "queue_rep h' (hd_completed hr) ys"
    using r(2) p(4) rep nin by (intro uq.rep_frame[OF r(2)]) (auto simp: handler_rep_def)
  moreover have "seqnum_at h' = (seqnum_at h)(a \<mapsto> hc_seqnum (uh_common header))"
    using same_payload_seqnum_at[OF p(3)] h1(3) by simp
  moreover have "urb_handler_submit (Some a) malloc now header data h hr =
      Some (ERR_SUCCESS, h', hr\<lparr>hd_pending := q\<rparr>)"
    using assms(2) u p(1) by (simp add: urb_handler_submit_def h1_def)
  ultimately show ?thesis
    using p h1(2) nin rep by (intro exI[of _ h'] exI[of _ "hr\<lparr>hd_pending := q\<rparr>"]) (auto simp: handler_rep_def)
qed

lemma urb_handler_unlink_rep:
  assumes rep: "handler_rep h hr xs ys" and "hd_initialized hr"
  shows "case first_seq h xs s of
      None \<Rightarrow> urb_handler_unlink s h hr = Some (ERR_NOT_FOUND, h, hr)
    | Some p \<Rightarrow> \<exists>h' hr' n. urb_handler_unlink s h hr = Some (ERR_SUCCESS, h', hr') \<and>
        handler_rep h' hr' (remove1 p xs) (ys @ [p]) \<and>
        hr' = hr\<lparr>hd_pending := hd_pending hr', hd_completed := hd_completed hr'\<rparr> \<and>
        seqnum_at h' = seqnum_at h \<and> (\<forall>b. b \<notin> set xs \<and> b \<notin> set ys \<longrightarrow> h' b = h b) \<and>
        h' p = Some ((cancel_entry (the (h p)))\<lparr>ue_next := n\<rparr>)"
proof (cases "first_seq h xs s")
  case None
  then show ?thesis
    using assms queue_find_remove_none[of h "hd_pending hr" xs s]
    by (simp add: urb_handler_unlink_def handler_rep_def)
next
  case (Some p)
  have q: "queue_rep h (hd_pending hr) xs" "queue_rep h (hd_completed hr) ys" "set xs \<inter> set ys = {}"
    using rep by (simp_all add: handler_rep_def)
  have p: "p \<in> set xs" "p \<notin> set ys" using first_seq_Some[OF Some] q(3) by auto
  obtain h1 q1 where r1: "queue_find_remove h (hd_pending hr) s = Some (Some p, h1, q1)"
    "queue_rep h1 q1 (remove1 p xs)" "same_payload h h1" "\<forall>b. b \<notin> set xs \<longrightarrow> h1 b = h b"
    using queue_find_remove_rep[OF q(1) Some] by blast
  obtain e0 where e0: "h p = Some e0" using uq.rep_alloc[OF q(1) p(1)] by auto
  obtain n0 where e: "h1 p = Some (e0\<lparr>ue_next := n0\<rparr>)" using same_payload_entry[OF r1(3) e0] by blast
  let ?e = "e0\<lparr>ue_next := n0\<rparr>"
  have y1: "queue_rep h1 (hd_completed hr) ys"
    using q(2,3) r1(4) by (intro uq.rep_frame[OF q(2)]) auto
  have d: "p \<notin> set (remove1 p xs)" "set (remove1 p xs) \<inter> set ys = {}"
    using uq.rep_distinct[OF q(1)] q(3) by (auto dest: notin_set_remove1)
  obtain h2 q2 where r2: "queue_push (h1(p \<mapsto> cancel_entry ?e)) (hd_completed hr) p = Some (h2, q2)"
    "queue_rep h2 q1 (remove1 p xs)" "queue_rep h2 q2 (ys @ [p])"
    "same_payload (h1(p \<mapsto> cancel_entry ?e)) h2" "\<forall>b. b \<noteq> p \<and> b \<notin> set ys \<longrightarrow> h2 b = h1 b"
    using uq.finish_move[OF r1(2) y1 e d(1) p(2) d(2), of "cancel_entry ?e"] by auto
  have "seqnum_at h2 = seqnum_at h"
    using same_payload_seqnum_at[OF r2(4)] seqnum_at_upd[of h1 p ?e "cancel_entry ?e"] e
      same_payload_seqnum_at[OF r1(3)] by simp
  moreover have "\<exists>n. h2 p = Some ((cancel_entry e0)\<lparr>ue_next := n\<rparr>)"
    using same_payload_entry[OF r2(4), of p "cancel_entry ?e"] by (auto simp: cancel_entry_def)
  ultimately show ?thesis
    using r1 r2 e e0 assms p d Some by (auto simp: urb_handler_unlink_def handler_rep_def)
qed

lemma worker_take_rep:
  assumes rep: "handler_rep h hr xs ys"
  shows "case xs of
      [] \<Rightarrow> worker_take h hr = Some (None, h, hr)
    | p # xs' \<Rightarrow> \<exists>h' hr'. worker_take h hr = Some (Some p, h', hr') \<and> handler_rep h' hr' xs' ys \<and>
        hr' = hr\<lparr>hd_pending := hd_pending hr'\<rparr> \<and> seqnum_at h' = seqnum_at h \<and> (\<forall>b. b \<noteq> p \<longrightarrow> h' b = h b) \<and>
        h' p \<noteq> None"
proof (cases xs)
  case Nil
  then show ?thesis using rep uq.pop_empty[of h "hd_pending hr"]
    by (simp add: worker_take_def handler_rep_def)
next
  case (Cons p xs')
  have q: "queue_rep h (hd_pending hr) (p # xs')" "queue_rep h (hd_completed hr) ys"
    using rep Cons by (simp_all add: handler_rep_def)
  obtain h1 q1 where r: "queue_pop h (hd_pending hr) = Some (Some p, h1, q1)" "queue_rep h1 q1 xs'"
    "same_payload h h1" "\<forall>b. b \<noteq> p \<longrightarrow> h1 b = h b"
    using queue_pop_rep[OF q(1)] by blast
  obtain e where e: "h1 p = Some e"
    using uq.rep_alloc[OF q(1), of p] same_payload_dom[OF r(3), of p] by auto
  have nin: "p \<notin> set ys" using rep Cons by (auto simp: handler_rep_def)
  have y: "queue_rep h1 (hd_completed hr) ys"
    using q(2) r(4) nin by (metis uq.rep_frame)
  let ?e = "e\<lparr>ue_in_progress := True\<rparr>"
  have "queue_rep (h1(p \<mapsto> ?e)) q1 xs'" "queue_rep (h1(p \<mapsto> ?e)) (hd_completed hr) ys"
    using uq.rep_payload[OF r(2) e, of ?e] uq.rep_payload[OF y e, of ?e] by simp_all
  moreover have "seqnum_at (h1(p \<mapsto> ?e)) = seqnum_at h"
    using seqnum_at_upd[of h1 p e ?e] e same_payload_seqnum_at[OF r(3)] by simp
  moreover have "worker_take h hr = Some (Some p, h1(p \<mapsto> ?e), hr\<lparr>hd_pending := q1\<rparr>)"
    using r(1) e by (simp add: worker_take_def)
  ultimately show ?thesis
    using rep Cons r(4) by (auto simp: handler_rep_def)
qed

lemma worker_execute_rep:
  assumes rep: "handler_rep h hr xs ys" and p: "h p = Some e"
  shows "\<exists>h'. worker_execute os dev p h = Some h' \<and> handler_rep h' hr xs ys \<and> seqnum_at h' = seqnum_at h \<and>
    h' p = Some (run_entry os dev e) \<and> (\<forall>b. b \<noteq> p \<longrightarrow> h' b = h b)"
  using assms uq.rep_payload[of h _ _ p e "run_entry os dev e"] seqnum_at_upd[of h p e "run_entry os dev e"]
  by (simp add: worker_execute_def handler_rep_def)

lemma worker_finish_rep:
  assumes rep: "handler_rep h hr xs ys" and p: "h p \<noteq> None" "p \<notin> set xs" "p \<notin> set ys"
  shows "\<exists>h' hr'. worker_finish p h hr = Some (h', hr') \<and> handler_rep h' hr' xs (ys @ [p]) \<and>
    hr' = hr\<lparr>hd_completed := hd_completed hr'\<rparr> \<and> seqnum_at h' = seqnum_at h"
proof -
  have q: "queue_rep h (hd_pending hr) xs" "queue_rep h (hd_completed hr) ys" "set xs \<inter> set ys = {}"
    using rep by (simp_all add: handler_rep_def)
  obtain h' q' where r: "queue_push h (hd_completed hr) p = Some (h', q')" "queue_rep h' q' (ys @ [p])"
    "same_payload h h'" "\<forall>b. b \<noteq> p \<and> b \<notin> set ys \<longrightarrow> h' b = h b"
    using uq.push_rep[OF q(2) p(1,3)] by blast
  have "\<And>b. b \<in> set xs \<Longrightarrow> h' b = h b" using r(4) q(3) p(2) by (metis disjoint_iff)
  then have "queue_rep h' (hd_pending hr) xs" by (rule uq.rep_frame[OF q(1)])
  then show ?thesis
    using r q(3) p(2) same_payload_seqnum_at[OF r(3)] by (auto simp: worker_finish_def handler_rep_def)
qed

lemma cancel_all_rep:
  "handler_rep h hr xs ys \<Longrightarrow>
   \<exists>h' hr'. urb_handler_cancel_all h hr = Some (h', hr') \<and> handler_rep h' hr' [] (ys @ xs) \<and>
     hr' = hr\<lparr>hd_pending := hd_pending hr', hd_completed := hd_completed hr'\<rparr> \<and> seqnum_at h' = seqnum_at h"
proof (induction xs arbitrary: h hr ys)
  case Nil
  then show ?case using uq.pop_empty[of h "hd_pending hr"]
    by (subst urb_handler_cancel_all.simps) (simp add: handler_rep_def)
next
  case (Cons p xs)
  have q: "queue_rep h (hd_pending hr) (p # xs)" "queue_rep h (hd_completed hr) ys"
    "p \<notin> set ys" "set xs \<inter> set ys = {}" using Cons.prems by (auto simp: handler_rep_def)
  obtain h1 q1 where r: "queue_pop h (hd_pending hr) = Some (Some p, h1, q1)" "queue_rep h1 q1 xs"
    "same_payload h h1" "\<forall>b. b \<noteq> p \<longrightarrow> h1 b = h b"
    using queue_pop_rep[OF q(1)] by blast
  obtain e where e: "h1 p = Some e"
    using uq.rep_alloc[OF q(1), of p] same_payload_dom[OF r(3), of p] by auto
  have y: "queue_rep h1 (hd_completed hr) ys" using q(2,3) r(4) by (metis uq.rep_frame)
  have px: "p \<notin> set xs" using uq.rep_distinct[OF q(1)] by simp
  obtain h2 q2 where m: "queue_push (h1(p \<mapsto> cancel_entry e)) (hd_completed hr) p = Some (h2, q2)"
    "queue_rep h2 q1 xs" "queue_rep h2 q2 (ys @ [p])" "same_payload (h1(p \<mapsto> cancel_entry e)) h2"
    using uq.finish_move[OF r(2) y e px q(3,4), of "cancel_entry e"] by auto
  have seq: "seqnum_at h2 = seqnum_at h"
    using same_payload_seqnum_at[OF m(4)] seqnum_at_upd[of h1 p e "cancel_entry e"] e
      same_payload_seqnum_at[OF r(3)] by simp
  let ?hr = "hr\<lparr>hd_pending := q1, hd_completed := q2\<rparr>"
  have step: "urb_handler_cancel_all h hr = urb_handler_cancel_all h2 ?hr"
    using r(1) e m(1) by (subst urb_handler_cancel_all.simps) simp
  have "handler_rep h2 ?hr xs (ys @ [p])" using m px q(4) by (auto simp: handler_rep_def)
  from Cons.IH[OF this] show ?case unfolding step using seq by auto
qed

lemma get_completed_rep:
  assumes rep: "handler_rep h hr xs ys" and "hd_initialized hr"
  shows "case ys of
      [] \<Rightarrow> urb_handler_get_completed h hr = Some (None, h, hr)
    | p # ys' \<Rightarrow> \<exists>h' hr'. urb_handler_get_completed h hr = Some (Some p, h', hr') \<and>
        handler_rep h' hr' xs ys' \<and> hr' = hr\<lparr>hd_completed := hd_completed hr'\<rparr> \<and>
        same_payload h h' \<and> (\<forall>b. b \<noteq> p \<longrightarrow> h' b = h b) \<and> p \<notin> set ys'"
proof (cases ys)
  case Nil
  then show ?thesis using assms uq.pop_empty[of h "hd_completed hr"]
    by (simp add: urb_handler_get_completed_def handler_rep_def)
next
  case (Cons p ys')
  have q: "queue_rep h (hd_pending hr) xs" "queue_rep h (hd_completed hr) (p # ys')" "p \<notin> set xs"
    using rep Cons by (auto simp: handler_rep_def)
  obtain h1 q1 where r: "queue_pop h (hd_completed hr) = Some (Some p, h1, q1)" "queue_rep h1 q1 ys'"
    "same_payload h h1" "\<forall>b. b \<noteq> p \<longrightarrow> h1 b = h b"
    using queue_pop_rep[OF q(2)] by blast
  have "queue_rep h1 (hd_pending hr) xs" using q(1,3) r(4) by (metis uq.rep_frame)
  then show ?thesis
    using r assms Cons uq.rep_distinct[OF q(2)] by (auto simp: urb_handler_get_completed_def handler_rep_def)
qed

section \<open>Session and worker in parallel\<close>

text \<open>
  Where the worker thread is in its loop: not running, at the loop test, holding an entry it
  took, holding an entry it has executed.
\<close>

datatype worker_state = WStopped | WIdle | WHolds nat | WDone nat

datatype urb_event =
    EvSubmit | EvUnlink | EvDeliver | EvTake | EvExecute | EvFinish | EvStart | EvStop | EvExit | EvCancel

text \<open>
  The system state with two histories: the sequence numbers accepted by submissions and the
  ones of the completed entries the session has taken out, sent and freed.
\<close>

record urb_sys =
  sy_heap :: urb_heap
  sy_handler :: urb_handler
  sy_worker :: worker_state
  sy_accepted :: "uint32_t list"
  sy_delivered :: "uint32_t list"

fun held :: "worker_state \<Rightarrow> nat list" where
  "held (WHolds p) = [p]"
| "held (WDone p) = [p]"
| "held _ = []"

text \<open>
  The steps. \<open>EvStop\<close> is the first half of \<^verbatim>\<open>urb_handler_stop\<close> (the flag), \<open>EvExit\<close> the worker
  leaving its loop, \<open>EvCancel\<close> the second half (after the join). Memory for a new entry is
  not in use; devices and the answers of WinUSB are arbitrary.
\<close>

inductive urb_step :: "urb_sys \<Rightarrow> urb_event \<Rightarrow> urb_sys \<Rightarrow> bool" where
  submit: "urb_handler_submit calloc malloc now header data (sy_heap s) (sy_handler s) = Some (e, h, hr)
    \<Longrightarrow> (\<And>a. calloc = Some a \<Longrightarrow> sy_heap s a = None)
    \<Longrightarrow> urb_step s EvSubmit (s\<lparr>sy_heap := h, sy_handler := hr,
          sy_accepted := sy_accepted s @ (if e = ERR_SUCCESS then [hc_seqnum (uh_common header)] else [])\<rparr>)"
| unlink: "urb_handler_unlink n (sy_heap s) (sy_handler s) = Some (e, h, hr)
    \<Longrightarrow> urb_step s EvUnlink (s\<lparr>sy_heap := h, sy_handler := hr\<rparr>)"
| deliver: "urb_handler_get_completed (sy_heap s) (sy_handler s) = Some (Some p, h, hr)
    \<Longrightarrow> h p = Some ent \<Longrightarrow> urb_handler_free_entry h (Some p) = Some h'
    \<Longrightarrow> urb_step s EvDeliver (s\<lparr>sy_heap := h', sy_handler := hr,
          sy_delivered := sy_delivered s @ [ue_seqnum ent]\<rparr>)"
| take: "sy_worker s = WIdle \<Longrightarrow> hd_running (sy_handler s)
    \<Longrightarrow> worker_take (sy_heap s) (sy_handler s) = Some (Some p, h, hr)
    \<Longrightarrow> urb_step s EvTake (s\<lparr>sy_heap := h, sy_handler := hr, sy_worker := WHolds p\<rparr>)"
| exec: "sy_worker s = WHolds p \<Longrightarrow> worker_execute os dev p (sy_heap s) = Some h
    \<Longrightarrow> urb_step s EvExecute (s\<lparr>sy_heap := h, sy_worker := WDone p\<rparr>)"
| finish: "sy_worker s = WDone p \<Longrightarrow> worker_finish p (sy_heap s) (sy_handler s) = Some (h, hr)
    \<Longrightarrow> urb_step s EvFinish (s\<lparr>sy_heap := h, sy_handler := hr, sy_worker := WIdle\<rparr>)"
| start: "sy_worker s = WStopped \<Longrightarrow> \<not> hd_running (sy_handler s)
    \<Longrightarrow> urb_handler_start True (sy_handler s) = (ERR_SUCCESS, hr)
    \<Longrightarrow> urb_step s EvStart (s\<lparr>sy_handler := hr, sy_worker := WIdle\<rparr>)"
| stop: "hd_running (sy_handler s)
    \<Longrightarrow> urb_step s EvStop (s\<lparr>sy_handler := (sy_handler s)\<lparr>hd_running := False\<rparr>\<rparr>)"
| exit: "sy_worker s = WIdle \<Longrightarrow> \<not> hd_running (sy_handler s)
    \<Longrightarrow> urb_step s EvExit (s\<lparr>sy_worker := WStopped\<rparr>)"
| cancel: "sy_worker s = WStopped \<Longrightarrow> \<not> hd_running (sy_handler s)
    \<Longrightarrow> urb_handler_cancel_all (sy_heap s) (sy_handler s) = Some (h, hr)
    \<Longrightarrow> urb_step s EvCancel (s\<lparr>sy_heap := h, sy_handler := hr\<rparr>)"

inductive_cases urb_step_cases: "urb_step s ev s'"

inductive urb_run :: "urb_sys \<Rightarrow> urb_event list \<Rightarrow> urb_sys \<Rightarrow> bool" where
  run_nil: "urb_run s [] s"
| run_snoc: "urb_run s evs s' \<Longrightarrow> urb_step s' ev s'' \<Longrightarrow> urb_run s (evs @ [ev]) s''"

definition urb_sys_init :: "urb_handler \<Rightarrow> urb_sys" where
  "urb_sys_init hr =
     \<lparr>sy_heap = Map.empty, sy_handler = hr, sy_worker = WStopped, sy_accepted = [], sy_delivered = []\<rparr>"

text \<open>
  The invariant, for the lists \<open>xs\<close> of pending and \<open>ys\<close> of completed entries: the queues are
  well formed, no entry is in two places, and the entry the worker holds is allocated.
\<close>

definition sys_ok :: "urb_sys \<Rightarrow> nat list \<Rightarrow> nat list \<Rightarrow> bool" where
  "sys_ok s xs ys \<longleftrightarrow>
     handler_rep (sy_heap s) (sy_handler s) xs ys \<and> hd_initialized (sy_handler s) \<and>
     distinct (ys @ held (sy_worker s) @ xs) \<and> (\<forall>p\<in>set (held (sy_worker s)). sy_heap s p \<noteq> None)"

text \<open>All numbers in the system, in the order delivered, completed, in progress, pending.\<close>

definition contents :: "urb_sys \<Rightarrow> nat list \<Rightarrow> nat list \<Rightarrow> uint32_t option list" where
  "contents s xs ys =
     map Some (sy_delivered s) @ map (seqnum_at (sy_heap s)) (ys @ held (sy_worker s) @ xs)"

text \<open>How a step changes them: by the accepted numbers, in order unless it unlinks.\<close>

definition step_effect :: "urb_sys \<Rightarrow> nat list \<Rightarrow> nat list \<Rightarrow> urb_event \<Rightarrow> urb_sys \<Rightarrow> bool" where
  "step_effect s xs ys ev s' \<longleftrightarrow>
     (\<exists>xs' ys' new. sys_ok s' xs' ys' \<and> sy_accepted s' = sy_accepted s @ new \<and>
        mset (contents s' xs' ys') = mset (contents s xs ys @ map Some new) \<and>
        (ev \<noteq> EvUnlink \<longrightarrow> contents s' xs' ys' = contents s xs ys @ map Some new))"

lemma step_effectI:
  assumes "sys_ok s' xs' ys'" and "sy_accepted s' = sy_accepted s @ new"
    and "contents s' xs' ys' = contents s xs ys @ map Some new"
  shows "step_effect s xs ys ev s'"
  unfolding step_effect_def using assms by (intro exI[of _ xs'] exI[of _ ys'] exI[of _ new]) simp

lemma distinct_rep:
  "handler_rep h hr xs ys \<Longrightarrow> distinct xs \<and> distinct ys \<and> set xs \<inter> set ys = {}"
  by (auto simp: handler_rep_def dest: uq.rep_distinct)

lemma initialized_upd:
  "hr' = hr\<lparr>hd_pending := a, hd_completed := b\<rparr> \<Longrightarrow> hd_initialized hr' = hd_initialized hr"
  "hr' = hr\<lparr>hd_pending := a\<rparr> \<Longrightarrow> hd_initialized hr' = hd_initialized hr"
  "hr' = hr\<lparr>hd_completed := b\<rparr> \<Longrightarrow> hd_initialized hr' = hd_initialized hr"
  by simp_all

lemma submit_effect:
  assumes ok: "sys_ok s xs ys"
    and r: "urb_handler_submit calloc malloc now header data (sy_heap s) (sy_handler s) = Some (e, h, hr)"
    and fresh: "\<And>a. calloc = Some a \<Longrightarrow> sy_heap s a = None"
  shows "step_effect s xs ys EvSubmit (s\<lparr>sy_heap := h, sy_handler := hr,
          sy_accepted := sy_accepted s @ (if e = ERR_SUCCESS then [hc_seqnum (uh_common header)] else [])\<rparr>)"
proof -
  have rep: "handler_rep (sy_heap s) (sy_handler s) xs ys" and init: "hd_initialized (sy_handler s)"
    using ok by (simp_all add: sys_ok_def)
  show ?thesis
  proof (cases "\<exists>a u. calloc = Some a \<and> alloc_buffer malloc data (header_urb header) = Some u")
    case False
    then have "e = ERR_OUT_OF_MEMORY \<and> h = sy_heap s \<and> hr = sy_handler s"
      using r init by (auto simp: urb_handler_submit_def split: option.splits)
    then show ?thesis
      using ok by (intro step_effectI[of _ xs ys _ "[]"]) (simp_all add: contents_def sys_ok_def)
  next
    case True
    then obtain a u where a: "calloc = Some a" "alloc_buffer malloc data (header_urb header) = Some u" by blast
    have new: "sy_heap s a = None" by (rule fresh[OF a(1)])
    have nin: "a \<notin> set xs" "a \<notin> set ys" "a \<notin> set (held (sy_worker s))"
      using handler_rep_fresh[OF rep new] ok new by (auto simp: sys_ok_def)
    have f: "e = ERR_SUCCESS" "handler_rep h hr (xs @ [a]) ys" "hd_initialized hr"
      "seqnum_at h = (seqnum_at (sy_heap s))(a \<mapsto> hc_seqnum (uh_common header))"
      "\<And>b. b \<notin> set xs \<and> b \<noteq> a \<Longrightarrow> h b = sy_heap s b"
      using urb_handler_submit_rep[OF rep init new a(2), of now] r a(1) init
      by (auto dest: initialized_upd)
    have "map (seqnum_at h) zs = map (seqnum_at (sy_heap s)) zs" if "a \<notin> set zs" for zs
      using that by (auto simp: f(4))
    note eq = this[of xs] this[of ys] this[of "held (sy_worker s)"]
    have "h p \<noteq> None" if "p \<in> set (held (sy_worker s))" for p
    proof -
      have "p \<notin> set xs \<and> p \<noteq> a" "sy_heap s p \<noteq> None" using that ok nin by (auto simp: sys_ok_def)
      then show ?thesis using f(5) by simp
    qed
    then show ?thesis
      using ok f(1-3) nin eq
      by (intro step_effectI[of _ "xs @ [a]" ys _ "[hc_seqnum (uh_common header)]"])
        (auto simp: contents_def sys_ok_def f(4))
  qed
qed

text \<open>Steps of the other kinds, each from the lemma of its operation.\<close>

lemma remove1_mset:
  "x \<in> set xs \<Longrightarrow> add_mset (f x) (image_mset f (mset xs - {#x#})) = image_mset f (mset xs)"
  by (metis image_mset_add_mset insert_DiffM set_mset_mset)

lemma unlink_effect:
  assumes ok: "sys_ok s xs ys"
    and r: "urb_handler_unlink n (sy_heap s) (sy_handler s) = Some (e, h, hr)"
  shows "step_effect s xs ys EvUnlink (s\<lparr>sy_heap := h, sy_handler := hr\<rparr>)"
proof -
  have rep: "handler_rep (sy_heap s) (sy_handler s) xs ys" and init: "hd_initialized (sy_handler s)"
    using ok by (simp_all add: sys_ok_def)
  note u = urb_handler_unlink_rep[OF rep init, of n]
  show ?thesis
  proof (cases "first_seq (sy_heap s) xs n")
    case None
    then have "h = sy_heap s \<and> hr = sy_handler s" using u r by simp
    then show ?thesis
      using ok by (intro step_effectI[of _ xs ys _ "[]"]) (simp_all add: contents_def sys_ok_def)
  next
    case (Some p)
    have px: "p \<in> set xs" using first_seq_Some[OF Some] by simp
    from u obtain h0 hr0 where u0: "urb_handler_unlink n (sy_heap s) (sy_handler s) = Some (ERR_SUCCESS, h0, hr0)"
      "handler_rep h0 hr0 (remove1 p xs) (ys @ [p])"
      "hr0 = (sy_handler s)\<lparr>hd_pending := hd_pending hr0, hd_completed := hd_completed hr0\<rparr>"
      "seqnum_at h0 = seqnum_at (sy_heap s)" "\<forall>b. b \<notin> set xs \<and> b \<notin> set ys \<longrightarrow> h0 b = sy_heap s b"
      unfolding Some option.case by (elim exE conjE) (rule that)
    have eq: "h = h0" "hr = hr0" using r u0(1) by simp_all
    have f: "handler_rep h hr (remove1 p xs) (ys @ [p])" "hd_initialized hr"
      "seqnum_at h = seqnum_at (sy_heap s)" "\<And>b. b \<notin> set xs \<and> b \<notin> set ys \<Longrightarrow> h b = sy_heap s b"
      using u0(2,4,5) init initialized_upd(1)[OF u0(3)] unfolding eq by simp_all
    have d: "distinct (ys @ held (sy_worker s) @ xs)" using ok by (simp add: sys_ok_def)
    let ?s = "s\<lparr>sy_heap := h, sy_handler := hr\<rparr>"
    have "h q \<noteq> None" if "q \<in> set (held (sy_worker s))" for q
    proof -
      have "q \<notin> set xs \<and> q \<notin> set ys" "sy_heap s q \<noteq> None" using that ok d by (auto simp: sys_ok_def)
      then show ?thesis using f(4) by simp
    qed
    then have "sys_ok ?s (remove1 p xs) (ys @ [p])"
      using f(1,2) d px by (auto simp: sys_ok_def dest: notin_set_remove1)
    moreover have "mset (contents ?s (remove1 p xs) (ys @ [p])) = mset (contents s xs ys @ map Some [])"
      using px by (simp add: contents_def f(3) remove1_mset)
    ultimately show ?thesis
      unfolding step_effect_def by (intro exI[of _ "remove1 p xs"] exI[of _ "ys @ [p]"] exI[of _ "[]"]) simp
  qed
qed

lemma deliver_effect:
  assumes ok: "sys_ok s xs ys"
    and r: "urb_handler_get_completed (sy_heap s) (sy_handler s) = Some (Some p, h, hr)"
    and e: "h p = Some ent" "urb_handler_free_entry h (Some p) = Some h'"
  shows "step_effect s xs ys EvDeliver
    (s\<lparr>sy_heap := h', sy_handler := hr, sy_delivered := sy_delivered s @ [ue_seqnum ent]\<rparr>)"
proof -
  have rep: "handler_rep (sy_heap s) (sy_handler s) xs ys" and init: "hd_initialized (sy_handler s)"
    using ok by (simp_all add: sys_ok_def)
  obtain ys' where ys: "ys = p # ys'"
    using get_completed_rep[OF rep init] r by (cases ys) auto
  have f: "handler_rep h hr xs ys'" "hd_initialized hr" "same_payload (sy_heap s) h"
    using get_completed_rep[OF rep init] r init ys
    by (auto dest: initialized_upd)
  have h': "h' = h(p := None)" using e by (simp add: urb_handler_free_entry_def free_urb_entry_def)
  have d: "distinct (ys @ held (sy_worker s) @ xs)" using ok by (simp add: sys_ok_def)
  have eq: "map (seqnum_at h') zs = map (seqnum_at (sy_heap s)) zs" if "p \<notin> set zs" for zs
    using that same_payload_seqnum_at[OF f(3)] by (auto simp: h' seqnum_at_def fun_eq_iff)
  have "queue_rep h' (hd_pending hr) xs" "queue_rep h' (hd_completed hr) ys'"
    using f(1) d ys by (auto simp: handler_rep_def h' intro!: uq.rep_frame[of h])
  moreover have "h' q \<noteq> None" if "q \<in> set (held (sy_worker s))" for q
    using that ok d ys same_payload_dom[OF f(3), of q] by (auto simp: sys_ok_def h')
  moreover have "seqnum_at (sy_heap s) p = Some (ue_seqnum ent)"
    using same_payload_seqnum[OF f(3), of p] e(1) by (simp add: seqnum_at_def)
  ultimately show ?thesis
    using ok f(1,2) d ys eq[of xs] eq[of ys'] eq[of "held (sy_worker s)"]
    by (intro step_effectI[of _ xs ys' _ "[]"]) (auto simp: contents_def sys_ok_def handler_rep_def)
qed

lemma take_effect:
  assumes ok: "sys_ok s xs ys" and w: "sy_worker s = WIdle"
    and r: "worker_take (sy_heap s) (sy_handler s) = Some (Some p, h, hr)"
  shows "step_effect s xs ys EvTake (s\<lparr>sy_heap := h, sy_handler := hr, sy_worker := WHolds p\<rparr>)"
proof -
  have rep: "handler_rep (sy_heap s) (sy_handler s) xs ys" and init: "hd_initialized (sy_handler s)"
    using ok by (simp_all add: sys_ok_def)
  obtain xs' where xs: "xs = p # xs'" using worker_take_rep[OF rep] r by (cases xs) auto
  have f: "handler_rep h hr xs' ys" "hd_initialized hr" "seqnum_at h = seqnum_at (sy_heap s)" "h p \<noteq> None"
    using worker_take_rep[OF rep] r init xs
    by (auto dest: initialized_upd)
  show ?thesis
    using ok f w xs by (intro step_effectI[of _ xs' ys _ "[]"]) (auto simp: contents_def sys_ok_def)
qed

lemma exec_effect:
  assumes ok: "sys_ok s xs ys" and w: "sy_worker s = WHolds p"
    and r: "worker_execute os dev p (sy_heap s) = Some h"
  shows "step_effect s xs ys EvExecute (s\<lparr>sy_heap := h, sy_worker := WDone p\<rparr>)"
proof -
  obtain ent where ent: "sy_heap s p = Some ent" using ok w by (auto simp: sys_ok_def)
  have f: "handler_rep h (sy_handler s) xs ys" "seqnum_at h = seqnum_at (sy_heap s)" "h p \<noteq> None"
    using worker_execute_rep[of "sy_heap s" "sy_handler s" xs ys p ent os dev] ok ent r
    by (auto simp: sys_ok_def)
  show ?thesis
    using ok f w by (intro step_effectI[of _ xs ys _ "[]"]) (auto simp: contents_def sys_ok_def)
qed

lemma finish_effect:
  assumes ok: "sys_ok s xs ys" and w: "sy_worker s = WDone p"
    and r: "worker_finish p (sy_heap s) (sy_handler s) = Some (h, hr)"
  shows "step_effect s xs ys EvFinish (s\<lparr>sy_heap := h, sy_handler := hr, sy_worker := WIdle\<rparr>)"
proof -
  have f: "handler_rep h hr xs (ys @ [p])" "hd_initialized hr" "seqnum_at h = seqnum_at (sy_heap s)"
    using worker_finish_rep[of "sy_heap s" "sy_handler s" xs ys p] ok w r
    by (auto simp: sys_ok_def dest: initialized_upd)
  show ?thesis
    using ok f w by (intro step_effectI[of _ xs "ys @ [p]" _ "[]"]) (auto simp: contents_def sys_ok_def)
qed

lemma cancel_effect:
  assumes ok: "sys_ok s xs ys" and w: "sy_worker s = WStopped"
    and r: "urb_handler_cancel_all (sy_heap s) (sy_handler s) = Some (h, hr)"
  shows "step_effect s xs ys EvCancel (s\<lparr>sy_heap := h, sy_handler := hr\<rparr>)"
proof -
  have f: "handler_rep h hr [] (ys @ xs)" "hd_initialized hr" "seqnum_at h = seqnum_at (sy_heap s)"
    using cancel_all_rep[of "sy_heap s" "sy_handler s" xs ys] ok r
    by (auto simp: sys_ok_def dest: initialized_upd)
  show ?thesis
    using ok f w by (intro step_effectI[of _ "[]" "ys @ xs" _ "[]"]) (auto simp: contents_def sys_ok_def)
qed

lemma urb_step_effect: "urb_step s ev s' \<Longrightarrow> sys_ok s xs ys \<Longrightarrow> step_effect s xs ys ev s'"
proof (induction rule: urb_step.induct)
  case (start s hr)
  then show ?case
    by (intro step_effectI[of _ xs ys _ "[]"])
      (auto simp: contents_def sys_ok_def handler_rep_def urb_handler_start_def split: if_splits)
next
  case (stop s)
  then show ?case
    by (intro step_effectI[of _ xs ys _ "[]"]) (auto simp: contents_def sys_ok_def handler_rep_def)
next
  case (exit s)
  then show ?case
    by (intro step_effectI[of _ xs ys _ "[]"]) (auto simp: contents_def sys_ok_def)
qed (blast intro: submit_effect unlink_effect deliver_effect take_effect exec_effect finish_effect cancel_effect)+

lemma urb_run_ok:
  "urb_run s evs s' \<Longrightarrow> sys_ok s xs ys \<Longrightarrow> mset (contents s xs ys) = mset (map Some (sy_accepted s)) \<Longrightarrow>
   \<exists>xs' ys'. sys_ok s' xs' ys' \<and> mset (contents s' xs' ys') = mset (map Some (sy_accepted s')) \<and>
     (EvUnlink \<notin> set evs \<and> contents s xs ys = map Some (sy_accepted s) \<longrightarrow>
        contents s' xs' ys' = map Some (sy_accepted s'))"
proof (induction rule: urb_run.induct)
  case (run_nil s)
  then show ?case by blast
next
  case (run_snoc s evs s' ev s'')
  then obtain xs' ys' where ih: "sys_ok s' xs' ys'" "mset (contents s' xs' ys') = mset (map Some (sy_accepted s'))"
    "EvUnlink \<notin> set evs \<and> contents s xs ys = map Some (sy_accepted s) \<longrightarrow>
       contents s' xs' ys' = map Some (sy_accepted s')"
    by blast
  obtain xs2 ys2 new where e: "sys_ok s'' xs2 ys2" "sy_accepted s'' = sy_accepted s' @ new"
    "mset (contents s'' xs2 ys2) = mset (contents s' xs' ys' @ map Some new)"
    "ev \<noteq> EvUnlink \<longrightarrow> contents s'' xs2 ys2 = contents s' xs' ys' @ map Some new"
    using urb_step_effect[OF run_snoc.hyps(2) ih(1)] unfolding step_effect_def by blast
  have "mset (contents s'' xs2 ys2) = mset (map Some (sy_accepted s''))"
    using e(2,3) ih(2) by (simp only: mset_append map_append)
  moreover have "EvUnlink \<notin> set (evs @ [ev]) \<and> contents s xs ys = map Some (sy_accepted s) \<longrightarrow>
      contents s'' xs2 ys2 = map Some (sy_accepted s'')"
    using ih(3) e(2,4) by (simp only: set_append map_append) auto
  ultimately show ?case using e(1) by blast
qed

lemma urb_init_ok:
  assumes "urb_handler_init objs1 objs2 (Some d) old = (ERR_SUCCESS, hr)"
  shows "sys_ok (urb_sys_init hr) [] [] \<and> contents (urb_sys_init hr) [] [] = []"
  using assms
  by (auto simp: sys_ok_def contents_def urb_sys_init_def urb_handler_init_def handler_rep_def queue_init_def
      zero_handler_def split: if_splits prod.splits)

text \<open>A run with one accepted submission, for the examples.\<close>

definition sample_handler :: urb_handler where
  "sample_handler = zero_handler\<lparr>hd_device := 1, hd_next_seqnum := 1, hd_initialized := True\<rparr>"

lemma sample_handler_init:
  "urb_handler_init (True, True) (True, True) (Some 1) zero_handler = (ERR_SUCCESS, sample_handler)"
  by (simp add: urb_handler_init_def queue_init_def sample_handler_def zero_handler_def)

lemma sample_run:
  "\<exists>s. urb_run (urb_sys_init sample_handler) [EvSubmit] s \<and> sy_accepted s = [7] \<and> sy_delivered s = [] \<and>
     sy_heap s 6 = None"
proof -
  let ?s = "urb_sys_init sample_handler" and ?h = "usbip_create_urb_submit 7 1 0 2 0 0 None"
  have ok: "handler_rep (sy_heap ?s) (sy_handler ?s) [] []" "hd_initialized (sy_handler ?s)"
    by (simp_all add: urb_sys_init_def sample_handler_def zero_handler_def handler_rep_def)
  have b: "alloc_buffer (\<lambda>n. None) None (header_urb ?h) = Some (header_urb ?h)"
    by (simp add: alloc_buffer_def header_urb_def u_cmd_submit_def usbip_create_urb_submit_def
        zero_header_def zero_urb_def Let_def)
  obtain h hr where r: "urb_handler_submit (Some 5) (\<lambda>n. None) 0 ?h None (sy_heap ?s) (sy_handler ?s) =
      Some (ERR_SUCCESS, h, hr)" "h 6 = None"
  proof -
    have a: "sy_heap ?s 5 = None" "sy_heap ?s 6 = None" by (simp_all add: urb_sys_init_def)
    from urb_handler_submit_rep[OF ok a(1) b, of 0] obtain h hr where
      "urb_handler_submit (Some 5) (\<lambda>n. None) 0 ?h None (sy_heap ?s) (sy_handler ?s) = Some (ERR_SUCCESS, h, hr)"
      "\<forall>b. b \<notin> set [] \<and> b \<noteq> 5 \<longrightarrow> h b = sy_heap ?s b" by (elim exE conjE) (rule that)
    then show ?thesis using that a(2) by simp
  qed
  have "hc_seqnum (uh_common ?h) = 7" by (simp add: usbip_create_urb_submit_def)
  then have "urb_step ?s EvSubmit (?s\<lparr>sy_heap := h, sy_handler := hr, sy_accepted := [7]\<rparr>)"
    using urb_step.submit[OF r(1)] by (simp add: urb_sys_init_def)
  from run_snoc[OF run_nil this] r(2) show ?thesis by (auto simp: urb_sys_init_def)
qed

section \<open>Requests and replies\<close>

lemma drop_store8s_end: "i + length bs = length m \<Longrightarrow> drop i (store8s m i bs) = bs"
  by (simp add: store8s_def)

lemma alloc_buffer_fields:
  assumes "alloc_buffer malloc data u = Some u'"
  shows "ub_direction u' = ub_direction u" and "ub_endpoint u' = ub_endpoint u" and "ub_setup u' = ub_setup u"
    and "ub_type u' = ub_type u" and "ub_buffer_length u' = ub_buffer_length u" and "ub_status u' = ub_status u"
  using assms by (auto simp: alloc_buffer_def split: if_splits option.splits)

lemma usb_submit_urb_fields:
  assumes "usb_submit_urb os dev u = (r, u', reqs)"
  shows "ub_direction u' = ub_direction u" and "ub_endpoint u' = ub_endpoint u" and "ub_setup u' = ub_setup u"
    and "r = ERR_SUCCESS \<Longrightarrow> ub_status u' = 0"
  using assms by (auto simp: usb_submit_urb_def split: if_splits prod.splits)

lemma header_urb_setup: "ub_setup (header_urb header) = cs_setup (u_cmd_submit (uh_u header))"
  by (simp add: header_urb_def Let_def)

lemma header_urb_addr:
  "ucast (ub_direction (header_urb header)) = hc_direction (uh_common header) AND 0xFF"
  "ucast (ub_endpoint (header_urb header) AND 0x0F) = hc_ep (uh_common header) AND 0x0F"
proof -
  have m: "(0xFF :: uint32_t) = mask 8" "(0x0F :: uint32_t) = mask 4" "(0x0F :: uint8_t) = mask 4"
    by (simp_all add: mask_eq_exp_minus_1)
  show "ucast (ub_direction (header_urb header)) = hc_direction (uh_common header) AND 0xFF"
    unfolding m by (rule bit_word_eqI) (auto simp: header_urb_def Let_def bit_simps)
  have "(x OR 0x80) AND 0x0F = x AND (0x0F :: uint8_t)" for x
    by (simp add: bit.conj_disj_distrib2)
  then have "ub_endpoint (header_urb header) AND 0x0F = ucast (hc_ep (uh_common header)) AND 0x0F"
    by (simp add: header_urb_def Let_def)
  also have "ucast (ucast (hc_ep (uh_common header)) AND 0x0F :: uint8_t) = hc_ep (uh_common header) AND 0x0F"
    unfolding m by (rule bit_word_eqI) (auto simp: bit_simps)
  finally show "ucast (ub_endpoint (header_urb header) AND 0x0F) = hc_ep (uh_common header) AND 0x0F" .
qed

section \<open>Properties\<close>

text \<open>
  C4: no request block is lost, duplicated or invented. In every interleaving of the
  session thread (submissions, unlinks, deliveries, start, stop) with the worker thread from
  an initialised handler, the accepted sequence numbers are, as a multiset, the delivered
  ones and those of the entries that are completed, held by the worker or pending; no entry
  is in two of these places.
\<close>

theorem urb_conservation:
  assumes "urb_handler_init objs1 objs2 (Some d) old = (ERR_SUCCESS, hr)"
    and "urb_run (urb_sys_init hr) evs s"
  shows "\<exists>xs ys. queue_rep (sy_heap s) (hd_pending (sy_handler s)) xs \<and>
    queue_rep (sy_heap s) (hd_completed (sy_handler s)) ys \<and>
    distinct (ys @ held (sy_worker s) @ xs) \<and>
    mset (map Some (sy_accepted s)) = mset (map Some (sy_delivered s)) +
      mset (map (seqnum_at (sy_heap s)) (ys @ held (sy_worker s) @ xs))"
proof -
  note init = urb_init_ok[OF assms(1)]
  have "mset (contents (urb_sys_init hr) [] []) = mset (map Some (sy_accepted (urb_sys_init hr)))"
    using init by (simp add: urb_sys_init_def)
  with urb_run_ok[OF assms(2)] init obtain xs ys where
    ok: "sys_ok s xs ys" "mset (contents s xs ys) = mset (map Some (sy_accepted s))" by blast
  from ok(1) have "queue_rep (sy_heap s) (hd_pending (sy_handler s)) xs"
    "queue_rep (sy_heap s) (hd_completed (sy_handler s)) ys" "distinct (ys @ held (sy_worker s) @ xs)"
    by (simp_all add: sys_ok_def handler_rep_def)
  moreover have "mset (map Some (sy_accepted s)) = mset (map Some (sy_delivered s)) +
      mset (map (seqnum_at (sy_heap s)) (ys @ held (sy_worker s) @ xs))"
    using ok(2) by (simp only: contents_def mset_append)
  ultimately show ?thesis by blast
qed

theorem urb_conservation_witness:
  "\<exists>s xs ys. urb_run (urb_sys_init sample_handler) [EvSubmit] s \<and>
     {#Some 7#} = mset (map (seqnum_at (sy_heap s)) (ys @ held (sy_worker s) @ xs))"
proof -
  obtain s where s: "urb_run (urb_sys_init sample_handler) [EvSubmit] s" "sy_accepted s = [7]"
    "sy_delivered s = []" using sample_run by blast
  from urb_conservation[OF sample_handler_init s(1)] s show ?thesis by auto
qed

text \<open>
  C10: without unlink requests the replies come in the order of the submissions, also
  across stop, cancellation and restart: the delivered numbers are a prefix of the accepted
  ones, and the rest is still in the system in order.
\<close>

theorem urb_replies_in_order:
  assumes "urb_handler_init objs1 objs2 (Some d) old = (ERR_SUCCESS, hr)"
    and "urb_run (urb_sys_init hr) evs s" and "EvUnlink \<notin> set evs"
  shows "\<exists>rest. sy_accepted s = sy_delivered s @ rest"
proof -
  note init = urb_init_ok[OF assms(1)]
  have a0: "sy_accepted (urb_sys_init hr) = []" by (simp add: urb_sys_init_def)
  obtain xs ys where "contents s xs ys = map Some (sy_accepted s)"
    using urb_run_ok[OF assms(2), of "[]" "[]"] init a0 assms(3) by auto
  then have "map Some (sy_accepted s) = map Some (sy_delivered s) @
      map (seqnum_at (sy_heap s)) (ys @ held (sy_worker s) @ xs)"
    by (simp add: contents_def)
  then have "take (length (sy_delivered s)) (sy_accepted s) = sy_delivered s"
    by (metis append_eq_conv_conj length_map map_eq_append_conv map_injective inj_Some)
  then show ?thesis by (metis append_take_drop_id)
qed

theorem urb_replies_in_order_witness:
  "\<exists>s rest. urb_run (urb_sys_init sample_handler) [EvSubmit] s \<and> [7] = sy_delivered s @ rest"
proof -
  obtain s where s: "urb_run (urb_sys_init sample_handler) [EvSubmit] s" "sy_accepted s = [7]"
    using sample_run by blast
  from urb_replies_in_order[OF sample_handler_init s(1)] s show ?thesis by auto
qed

text \<open>
  C25: the threads never follow a null or dangling pointer. In every reachable state each
  operation of the session (with fresh memory for a new entry), and the operation the
  worker is about to do, has a result; cancelling everything terminates.
\<close>

theorem urb_no_bad_pointer:
  assumes "urb_handler_init objs1 objs2 (Some d) old = (ERR_SUCCESS, hr)"
    and "urb_run (urb_sys_init hr) evs s" and "sy_heap s a = None"
  shows "urb_handler_submit (Some a) malloc now header data (sy_heap s) (sy_handler s) \<noteq> None \<and>
    urb_handler_unlink n (sy_heap s) (sy_handler s) \<noteq> None \<and>
    urb_handler_get_completed (sy_heap s) (sy_handler s) \<noteq> None \<and>
    urb_handler_find_pending n (sy_heap s) (sy_handler s) \<noteq> None \<and>
    urb_handler_cancel_all (sy_heap s) (sy_handler s) \<noteq> None \<and>
    (case sy_worker s of
       WHolds p \<Rightarrow> worker_execute os dev p (sy_heap s) \<noteq> None
     | WDone p \<Rightarrow> worker_finish p (sy_heap s) (sy_handler s) \<noteq> None
     | _ \<Rightarrow> worker_take (sy_heap s) (sy_handler s) \<noteq> None)"
proof -
  note init = urb_init_ok[OF assms(1)]
  have "mset (contents (urb_sys_init hr) [] []) = mset (map Some (sy_accepted (urb_sys_init hr)))"
    using init by (simp add: urb_sys_init_def)
  with urb_run_ok[OF assms(2)] init obtain xs ys where ok: "sys_ok s xs ys" by blast
  then have rep: "handler_rep (sy_heap s) (sy_handler s) xs ys" and i: "hd_initialized (sy_handler s)"
    by (simp_all add: sys_ok_def)
  show ?thesis
  proof (intro conjI)
    show "urb_handler_submit (Some a) malloc now header data (sy_heap s) (sy_handler s) \<noteq> None"
      using urb_handler_submit_rep[OF rep i assms(3), of malloc data header _ now]
      by (cases "alloc_buffer malloc data (header_urb header)") (auto simp: urb_handler_submit_def i)
    show "urb_handler_unlink n (sy_heap s) (sy_handler s) \<noteq> None"
      using urb_handler_unlink_rep[OF rep i, of n] by (auto split: option.splits)
    show "urb_handler_get_completed (sy_heap s) (sy_handler s) \<noteq> None"
      using get_completed_rep[OF rep i] by (auto split: list.splits)
    show "urb_handler_find_pending n (sy_heap s) (sy_handler s) \<noteq> None"
      using rep queue_find_spec by (auto simp: urb_handler_find_pending_def handler_rep_def)
    show "urb_handler_cancel_all (sy_heap s) (sy_handler s) \<noteq> None"
      using cancel_all_rep[OF rep] by auto
    show "case sy_worker s of
       WHolds p \<Rightarrow> worker_execute os dev p (sy_heap s) \<noteq> None
     | WDone p \<Rightarrow> worker_finish p (sy_heap s) (sy_handler s) \<noteq> None
     | _ \<Rightarrow> worker_take (sy_heap s) (sy_handler s) \<noteq> None"
    proof (cases "sy_worker s")
      case (WDone p)
      then have "sy_heap s p \<noteq> None" "p \<notin> set xs" "p \<notin> set ys" using ok by (auto simp: sys_ok_def)
      from worker_finish_rep[OF rep this] WDone show ?thesis by auto
    qed (use worker_take_rep[OF rep] ok in
        \<open>auto simp: sys_ok_def worker_execute_def split: list.splits\<close>)
  qed
qed

theorem urb_no_bad_pointer_witness:
  "\<exists>s. urb_run (urb_sys_init sample_handler) [EvSubmit] s \<and>
     urb_handler_unlink 7 (sy_heap s) (sy_handler s) \<noteq> None"
proof -
  obtain s where s: "urb_run (urb_sys_init sample_handler) [EvSubmit] s" "sy_heap s 6 = None"
    using sample_run by blast
  from urb_no_bad_pointer[OF sample_handler_init s] s(1) show ?thesis by blast
qed

text \<open>
  A reply answers its request. The reply header built for a submitted request, after
  the worker ran it or it was cancelled, carries the request's sequence number, device
  identifier, direction and setup packet, and its endpoint number without the direction
  bit; it is a complete header with command \<open>RET_SUBMIT\<close>, and status 0 means that the
  transfer succeeded.
\<close>

lemma urb_reply_matches:
  assumes "alloc_buffer malloc data (header_urb header) = Some (ue_urb e0)"
    and "ue_seqnum e0 = hc_seqnum (uh_common header)" and "ue_devid e0 = hc_devid (uh_common header)"
    and "length (uh_u header) = 28"
    and "e = run_entry os dev e0 \<or> e = cancel_entry e0"
    and "urb_handler_create_return e = ret"
  shows "length (uh_u ret) = 28 \<and> hc_command (uh_common ret) = USBIP_RET_SUBMIT \<and>
    hc_seqnum (uh_common ret) = hc_seqnum (uh_common header) \<and>
    hc_devid (uh_common ret) = hc_devid (uh_common header) \<and>
    hc_direction (uh_common ret) = hc_direction (uh_common header) AND 0xFF \<and>
    hc_ep (uh_common ret) = hc_ep (uh_common header) AND 0x0F \<and>
    rs_setup (u_ret_submit (uh_u ret)) = cs_setup (u_cmd_submit (uh_u header)) \<and>
    (rs_status (u_ret_submit (uh_u ret)) = 0 \<longleftrightarrow>
      e = run_entry os dev e0 \<and> fst (usb_submit_urb os dev (ue_urb e0)) = ERR_SUCCESS)"
proof -
  have f: "ub_direction (ue_urb e) = ub_direction (header_urb header)"
    "ub_endpoint (ue_urb e) = ub_endpoint (header_urb header)"
    "ub_setup (ue_urb e) = cs_setup (u_cmd_submit (uh_u header))"
    "ue_seqnum e = ue_seqnum e0" "ue_devid e = ue_devid e0"
    using assms(5) alloc_buffer_fields[OF assms(1)]
    by (auto simp: run_entry_def cancel_entry_def header_urb_setup usb_submit_urb_fields split: prod.splits)
  have st: "ub_status (ue_urb e) = 0 \<longleftrightarrow>
      e = run_entry os dev e0 \<and> fst (usb_submit_urb os dev (ue_urb e0)) = ERR_SUCCESS"
    "ub_status (ue_urb e) \<in> {0, -5, -105}"
    using assms(5) usb_submit_urb_fields(4)
    by (auto simp: run_entry_def cancel_entry_def split: prod.splits if_splits)
  have len: "length (cs_setup (u_cmd_submit (uh_u header))) = 8"
    using assms(4) by (simp add: u_cmd_submit_def)
  have "(word_of_int (ub_status (ue_urb e)) :: uint32_t) = 0 \<longleftrightarrow> ub_status (ue_urb e) = 0"
    using st(2) by auto
  then show ?thesis
    unfolding assms(6)[symmetric] st(1)[symmetric]
    using f assms(2,3) len header_urb_addr[of header]
    by (simp add: urb_handler_create_return_def u_ret_submit_def Let_def zero_header_def
        drop_store8s_end)
qed

lemma urb_reply_matches_example:
  "rs_setup (u_ret_submit (uh_u (urb_handler_create_return (cancel_entry
      ((sample_entry 7 None)\<lparr>ue_devid := 0x10002,
         ue_urb := header_urb (usbip_create_urb_submit 7 0x10002 1 3 0 0 (Some [1, 2, 3, 4, 5, 6, 7, 8]))\<rparr>))))) =
   [1, 2, 3, 4, 5, 6, 7, 8]"
proof -
  let ?h = "usbip_create_urb_submit 7 0x10002 1 3 0 0 (Some [1, 2, 3, 4, 5, 6, 7, 8])"
  let ?e = "(sample_entry 7 None)\<lparr>ue_devid := 0x10002, ue_urb := header_urb ?h\<rparr>"
  have h: "alloc_buffer (\<lambda>n. None) None (header_urb ?h) = Some (ue_urb ?e)"
    "ue_seqnum ?e = hc_seqnum (uh_common ?h)" "ue_devid ?e = hc_devid (uh_common ?h)"
    "length (uh_u ?h) = 28"
    by (simp_all add: sample_entry_def usbip_create_urb_submit_def zero_header_def header_urb_def
        alloc_buffer_def u_cmd_submit_def zero_urb_def Let_def)
  have "cs_setup (u_cmd_submit (uh_u ?h)) = [1, 2, 3, 4, 5, 6, 7, 8]"
    by (simp add: usbip_create_urb_submit_def u_cmd_submit_def zero_header_def drop_store8s_end Let_def)
  with urb_reply_matches[OF h disjI2[OF refl] refl] show ?thesis by simp
qed

text \<open>
  C38: a control request with direction IN does not reach the control pipe. It is marked as
  a control transfer, but the direction bit makes its endpoint address \<open>0x80\<close>, and the
  submission then reads from the data pipe \<open>0x80\<close>; the setup packet is not used.
\<close>

theorem control_in_misrouted:
  assumes "hc_ep (uh_common header) = 0" and "hc_direction (uh_common header) = USBIP_DIR_IN"
    and "alloc_buffer malloc data (header_urb header) = Some u" and "dv_is_open dev"
  shows "ub_type u = USB_ENDPOINT_XFER_CONTROL \<and> ub_endpoint u = 0x80 \<and>
    snd (snd (usb_submit_urb os dev u)) =
      [ReqRead (dv_interface_handles dev ! 0) 0x80 (unat (ub_buffer_length u))]"
proof -
  have "ub_endpoint u = 0x80" "ub_type u = 0"
    using alloc_buffer_fields[OF assms(3)] assms(1,2) by (simp_all add: header_urb_def Let_def)
  then show ?thesis
    using assms(4)
    by (simp add: usb_submit_urb_def usb_interrupt_transfer_def usb_bulk_transfer_def Let_def
        split: usb_answer.split prod.split)
qed

definition sample_winusb :: winusb where
  "sample_winusb =
     \<lparr>wu_create_file = (\<lambda>p. Some 3), wu_initialize = (\<lambda>h. Some 4),
      wu_descriptor = (\<lambda>h t i l n. None), wu_alt_setting = (\<lambda>h a. True),
      wu_transfer = (\<lambda>r. XferOk 0 [])\<rparr>"

theorem control_in_misrouted_witness:
  "\<exists>u. snd (snd (usb_submit_urb sample_winusb (zero_usb_device\<lparr>dv_is_open := True\<rparr>) u)) = [ReqRead None 0x80 0]"
proof -
  let ?h = "usbip_create_urb_submit 1 1 1 0 0 0 (Some [0x80, 6, 0, 1, 0, 0, 18, 0])"
  have h: "hc_ep (uh_common ?h) = 0" "hc_direction (uh_common ?h) = USBIP_DIR_IN"
    "alloc_buffer (\<lambda>n. None) None (header_urb ?h) = Some (header_urb ?h)"
    by (simp_all add: usbip_create_urb_submit_def zero_header_def header_urb_def
        alloc_buffer_def u_cmd_submit_def zero_urb_def Let_def)
  have "dv_is_open (zero_usb_device\<lparr>dv_is_open := True\<rparr>)" by simp
  moreover have "ub_buffer_length (header_urb ?h) = 0"
    by (simp add: usbip_create_urb_submit_def zero_header_def header_urb_def u_cmd_submit_def zero_urb_def Let_def)
  ultimately show ?thesis
    using control_in_misrouted[OF h, of "zero_usb_device\<lparr>dv_is_open := True\<rparr>" sample_winusb]
    by (auto simp: zero_usb_device_def)
qed

end
