(* ===== verification/Auth.thy ===== *)
theory Auth
  imports Protocol_IO
begin

text \<open>
  The preshared-token handshake, \<^verbatim>\<open>common/auth.h\<close> and \<^verbatim>\<open>common/auth.c\<close>. A token argument is
  \<open>None\<close> for a null pointer, otherwise the bytes of the string. The environment variable is
  an argument.
\<close>

abbreviation (input) AUTH_TOKEN_MAX_LEN :: nat where "AUTH_TOKEN_MAX_LEN \<equiv> 64"
abbreviation (input) AUTH_TIMEOUT_MS :: uint32_t where "AUTH_TIMEOUT_MS \<equiv> 5000"
abbreviation (input) AUTH_WIRE_MAGIC :: uint32_t where "AUTH_WIRE_MAGIC \<equiv> 0x55424F4E"
abbreviation (input) AUTH_WIRE_HEADER_LEN :: nat where "AUTH_WIRE_HEADER_LEN \<equiv> 5"

section \<open>The functions\<close>

definition auth_get_token :: "cbuf option \<Rightarrow> cbuf option \<Rightarrow> cbuf" where
  "auth_get_token cli_arg env =
     (case cli_arg of
        Some t \<Rightarrow> (if char_at t 0 \<noteq> 0 then t
                  else case env of Some e \<Rightarrow> (if char_at e 0 \<noteq> 0 then e else []) | None \<Rightarrow> [])
      | None \<Rightarrow> (case env of Some e \<Rightarrow> (if char_at e 0 \<noteq> 0 then e else []) | None \<Rightarrow> []))"

definition auth_is_enabled :: "cbuf option \<Rightarrow> bool" where
  "auth_is_enabled token = (case token of None \<Rightarrow> False | Some t \<Rightarrow> char_at t 0 \<noteq> 0)"

text \<open>The bytes written to the buffer; the empty list is the return value 0.\<close>

definition build_handshake :: "nat \<Rightarrow> cbuf option \<Rightarrow> byte list" where
  "build_handshake buf_len token =
     (if \<not> auth_is_enabled token then []
      else let t = the token; tlen = strlen t in
        if tlen > AUTH_TOKEN_MAX_LEN \<or> AUTH_WIRE_HEADER_LEN + tlen > buf_len then []
        else [ucast (drop_bit 24 AUTH_WIRE_MAGIC), ucast (drop_bit 16 AUTH_WIRE_MAGIC),
              ucast (drop_bit 8 AUTH_WIRE_MAGIC), ucast AUTH_WIRE_MAGIC, word_of_nat tlen] @ take tlen t)"

text \<open>
  The comparison loop: \<open>diff\<close> starts with the low byte of the xor of the two lengths and
  collects the differing bits of all positions both strings have.
\<close>

function compare_loop :: "cbuf \<Rightarrow> byte list \<Rightarrow> nat \<Rightarrow> nat \<Rightarrow> nat \<Rightarrow> byte \<Rightarrow> byte" where
  "compare_loop exp got exp_len tlen i diff =
     (if i < exp_len \<and> i < tlen
      then compare_loop exp got exp_len tlen (Suc i) (diff OR (char_at exp i XOR (got ! i)))
      else diff)"
  by pat_completeness auto
termination
  by (relation "measure (\<lambda>(exp, got, n, m, i, d). n - i)") auto

declare compare_loop.simps [simp del]

definition token_diff :: "cbuf \<Rightarrow> byte list \<Rightarrow> byte \<Rightarrow> byte" where
  "token_diff exp got tlen =
     compare_loop exp got (strlen exp) (unat tlen) 0
       (ucast ((word_of_nat (strlen exp) :: uint64_t) XOR ucast tlen))"

text \<open>The checks of the five header bytes: magic number and a plausible length.\<close>

definition auth_header_ok :: "byte list \<Rightarrow> bool" where
  "auth_header_ok header \<longleftrightarrow>
     (let magic = push_bit 24 (ucast (header ! 0)) OR push_bit 16 (ucast (header ! 1)) OR
            push_bit 8 (ucast (header ! 2)) OR ucast (header ! 3) :: uint32_t;
          tlen = header ! 4
      in \<not> magic \<noteq> AUTH_WIRE_MAGIC \<and> \<not> (tlen = 0 \<or> unat tlen > AUTH_TOKEN_MAX_LEN))"

definition auth_server_handshake :: "cbuf option \<Rightarrow> conn \<Rightarrow> (error_code \<times> conn) option" where
  "auth_server_handshake expected_token c =
     (if \<not> auth_is_enabled expected_token then Some (ERR_SUCCESS, c)
      else do {
        (got, header, c1) \<leftarrow> net_recv_all_timeout AUTH_WIRE_HEADER_LEN AUTH_TIMEOUT_MS c;
        if got \<noteq> int AUTH_WIRE_HEADER_LEN then Some (ERR_PERMISSION_DENIED, c1)
        else if \<not> auth_header_ok header then Some (ERR_PERMISSION_DENIED, c1)
        else do {
          let tlen = header ! 4;
          (got, got_token, c2) \<leftarrow> net_recv_all_timeout (unat tlen) AUTH_TIMEOUT_MS c1;
          if got \<noteq> int (unat tlen) then Some (ERR_PERMISSION_DENIED, c2)
          else if token_diff (the expected_token) got_token tlen \<noteq> 0
          then Some (ERR_PERMISSION_DENIED, c2)
          else Some (ERR_SUCCESS, c2)
        }
      })"

definition auth_client_handshake :: "cbuf option \<Rightarrow> conn \<Rightarrow> error_code \<times> conn" where
  "auth_client_handshake token c =
     (if \<not> auth_is_enabled token then (ERR_SUCCESS, c)
      else let buf = build_handshake (AUTH_WIRE_HEADER_LEN + AUTH_TOKEN_MAX_LEN) token in
        if length buf = 0 then (ERR_INVALID_PARAM, c)
        else case net_send_all buf c of
          (n, c') \<Rightarrow> (if n \<noteq> int (length buf) then ERR_SOCKET_SEND else ERR_SUCCESS, c'))"

section \<open>The frame\<close>

text \<open>The documented frame of a token: magic, length byte, the characters.\<close>

definition auth_frame :: "byte list \<Rightarrow> byte list" where
  "auth_frame t = [0x55, 0x42, 0x4F, 0x4E, word_of_nat (length t)] @ t"

lemma length_auth_frame [simp]: "length (auth_frame t) = 5 + length t"
  by (simp add: auth_frame_def)

lemma auth_is_enabled_Some: "auth_is_enabled (Some t) \<longleftrightarrow> cstr t \<noteq> []"
  by (simp add: auth_is_enabled_def cstr_eq_Nil_iff)

lemma take_strlen: "take (strlen t) t = cstr t"
  by (simp add: strlen_def cstr_def takeWhile_eq_take[symmetric])

lemma build_handshake_eq:
  assumes "cstr t \<noteq> []" and "69 \<le> n"
  shows "build_handshake n (Some t) = (if strlen t \<le> 64 then auth_frame (cstr t) else [])"
  using assms
  by (simp add: build_handshake_def auth_is_enabled_Some auth_frame_def take_strlen Let_def)
    (simp add: strlen_def)

text \<open>The comparison finds no difference exactly if all compared bits agree.\<close>

lemma or_eq_zero_iff: "(a OR b = 0) \<longleftrightarrow> a = 0 \<and> b = (0 :: 'a::len word)"
  by (auto simp: bit_eq_iff bit_simps)

lemma xor_eq_zero_iff: "(a XOR b = 0) \<longleftrightarrow> a = (b :: 'a::len word)"
  by (auto simp: bit_eq_iff bit_simps)

lemma compare_loop_zero_iff:
  "compare_loop exp got n m i d = 0 \<longleftrightarrow>
     d = 0 \<and> (\<forall>j. i \<le> j \<and> j < n \<and> j < m \<longrightarrow> char_at exp j = got ! j)"
proof (induction exp got n m i d rule: compare_loop.induct)
  case (1 exp got n m i d)
  show ?case
  proof (cases "i < n \<and> i < m")
    case True
    have "compare_loop exp got n m i d = 0 \<longleftrightarrow> (d = 0 \<and> char_at exp i = got ! i) \<and>
        (\<forall>j. Suc i \<le> j \<and> j < n \<and> j < m \<longrightarrow> char_at exp j = got ! j)"
      using "1.IH"[OF True] True by (subst compare_loop.simps) (simp add: or_eq_zero_iff xor_eq_zero_iff)
    moreover have "(\<forall>j. i \<le> j \<and> j < n \<and> j < m \<longrightarrow> char_at exp j = got ! j) \<longleftrightarrow>
        char_at exp i = got ! i \<and> (\<forall>j. Suc i \<le> j \<and> j < n \<and> j < m \<longrightarrow> char_at exp j = got ! j)"
      using True by (metis Suc_leD Suc_leI le_neq_implies_less order_refl)
    ultimately show ?thesis by simp
  next
    case False
    then show ?thesis by (subst compare_loop.simps) auto
  qed
qed

lemma unat_byte_of_nat: "unat (word_of_nat n :: byte) = n mod 256"
  by (simp add: unsigned_of_nat take_bit_nat_def)

lemma length_xor_zero_iff:
  "(ucast ((word_of_nat n :: uint64_t) XOR ucast (l :: byte)) :: byte) = 0 \<longleftrightarrow> unat l = n mod 256"
proof -
  have "(ucast ((word_of_nat n :: uint64_t) XOR ucast l) :: byte) = word_of_nat n XOR l"
    by (rule bit_word_eqI) (auto simp: bit_simps)
  moreover have "word_of_nat n = l \<longleftrightarrow> unat l = n mod 256"
    by (auto simp: word_unat_eq_iff unat_byte_of_nat)
  ultimately show ?thesis by (simp add: xor_eq_zero_iff)
qed

text \<open>
  The comparison accepts exactly the prefix of the expected token whose length is the
  token's length modulo 256.
\<close>

lemma token_diff_zero_iff:
  assumes "length got = unat tlen"
  shows "token_diff e got tlen = 0 \<longleftrightarrow>
    unat tlen = strlen e mod 256 \<and> got = take (strlen e mod 256) (cstr e)"
proof -
  have "got = take (strlen e mod 256) (cstr e) \<longleftrightarrow>
      (\<forall>j. j < strlen e \<and> j < unat tlen \<longrightarrow> char_at e j = got ! j)"
    if l: "unat tlen = strlen e mod 256"
  proof -
    have "strlen e mod 256 \<le> length (cstr e)" by (simp add: strlen_def)
    then show ?thesis
      using assms l by (auto simp: list_eq_iff_nth_eq char_at_cstr strlen_def)
  qed
  then show ?thesis
    by (auto simp: token_diff_def compare_loop_zero_iff length_xor_zero_iff)
qed

lemma auth_header_ok_iff:
  assumes "length h = 5"
  shows "auth_header_ok h \<longleftrightarrow>
    (\<exists>l. h = [0x55, 0x42, 0x4F, 0x4E, l] \<and> 0 < unat l \<and> unat l \<le> 64)"
proof -
  obtain b0 b1 b2 b3 b4 where h: "h = [b0, b1, b2, b3, b4]"
    using assms by (auto simp: numeral_eq_Suc length_Suc_conv)
  have "push_bit 24 (ucast b0) OR push_bit 16 (ucast b1) OR push_bit 8 (ucast b2) OR ucast b3 =
      mk32 b3 b2 b1 b0"
    by (simp add: mk32_def or.commute or.left_commute or.assoc)
  moreover have "(AUTH_WIRE_MAGIC :: uint32_t) = mk32 0x4E 0x4F 0x42 0x55"
    by (simp add: mk32_def)
  moreover have "mk32 b3 b2 b1 b0 = mk32 0x4E 0x4F 0x42 0x55 \<longleftrightarrow>
      b0 = 0x55 \<and> b1 = 0x42 \<and> b2 = 0x4F \<and> b3 = 0x4E"
    by (metis byte_at_mk32)
  moreover have "b4 \<noteq> 0 \<longleftrightarrow> 0 < unat b4" by (simp add: unat_gt_0)
  ultimately show ?thesis by (auto simp: auth_header_ok_def h not_less)
qed

lemma auth_frame_eq:
  "length t = unat l \<Longrightarrow> [0x55, 0x42, 0x4F, 0x4E, l] @ t = auth_frame t"
  by (simp add: auth_frame_def)

section \<open>What the server accepts\<close>

lemmas server_defs = auth_server_handshake_def auth_is_enabled_Some

text \<open>
  Every run of the handshake: an accepting run has consumed exactly the frame of the
  accepted prefix, every other run reports \<open>ERR_PERMISSION_DENIED\<close>; nothing is sent.
\<close>

lemma auth_server_handshake_cases:
  assumes "cstr e \<noteq> []" and "auth_server_handshake (Some e) c = Some (r, c')"
  shows "(r = ERR_SUCCESS \<and> 0 < strlen e mod 256 \<and> strlen e mod 256 \<le> 64 \<and>
      rx_bytes (rx c) = auth_frame (take (strlen e mod 256) (cstr e)) @ rx_bytes (rx c') \<or>
      r = ERR_PERMISSION_DENIED) \<and> sent c' = sent c"
proof -
  obtain got h c1 where r1: "net_recv_all_timeout 5 AUTH_TIMEOUT_MS c = Some (got, h, c1)"
    using assms by (auto simp: server_defs bind_eq_Some_conv)
  note p1 = timed_recv_prefix[OF r1]
  show ?thesis
  proof (cases "got = 5 \<and> auth_header_ok h")
    case False
    then have "r = ERR_PERMISSION_DENIED" "c' = c1" using assms r1 by (auto simp: server_defs split: if_splits)
    then show ?thesis using p1(4) by simp
  next
    case True
    then obtain l where h: "h = [0x55, 0x42, 0x4F, 0x4E, l]" "0 < unat l" "unat l \<le> 64"
      using p1(3) auth_header_ok_iff[of h] by auto
    obtain got2 t c2 where r2: "net_recv_all_timeout (unat l) AUTH_TIMEOUT_MS c1 = Some (got2, t, c2)"
      and out: "(if got2 \<noteq> int (unat l) then Some (ERR_PERMISSION_DENIED, c2)
          else if token_diff e t l \<noteq> 0 then Some (ERR_PERMISSION_DENIED, c2)
          else Some (ERR_SUCCESS, c2)) = Some (r, c')"
      using assms r1 True h(1) by (auto simp: server_defs bind_eq_Some_conv cong: if_cong)
    note p2 = timed_recv_prefix[OF r2]
    have s: "sent c' = sent c" using out p1(4) p2(4) by (auto split: if_splits)
    show ?thesis
    proof (cases "got2 = int (unat l) \<and> token_diff e t l = 0")
      case False
      then show ?thesis using out s by (auto split: if_splits)
    next
      case True
      then have lt: "length t = unat l" using p2(3) by simp
      then have "unat l = strlen e mod 256" "t = take (strlen e mod 256) (cstr e)"
        using True token_diff_zero_iff[of t l e] by auto
      moreover have "r = ERR_SUCCESS" "c' = c2" using out True by auto
      moreover have "rx_bytes (rx c) = auth_frame t @ rx_bytes (rx c2)"
        using p1(1) p2(1) h(1) auth_frame_eq[OF lt] by (metis append_assoc)
      ultimately show ?thesis using h s by simp
    qed
  qed
qed

text \<open>On a calm connection the frame of the compared prefix is accepted.\<close>

lemma auth_server_handshake_accepts:
  assumes "n = strlen e mod 256" and "0 < n" and "n \<le> 64"
    and "calm (Suc (Suc (Suc (Suc m)))) AUTH_TIMEOUT_MS c"
    and "rx_bytes (rx c) = auth_frame (take n (cstr e)) @ rest"
  shows "\<exists>c'. auth_server_handshake (Some e) c = Some (ERR_SUCCESS, c') \<and> rx_bytes (rx c') = rest"
proof -
  define l :: byte where "l = word_of_nat n"
  have l: "unat l = n" using assms(3) by (simp add: l_def unat_byte_of_nat)
  have "n \<le> length (cstr e)" using assms(1) by (simp add: strlen_def)
  then have lt: "length (take n (cstr e)) = n" by simp
  have en: "cstr e \<noteq> []" using assms(2) lt by (cases "cstr e") auto
  let ?h = "[0x55, 0x42, 0x4F, 0x4E, l]" and ?t = "take n (cstr e)"
  have b: "rx_bytes (rx c) = ?h @ ?t @ rest"
    using assms(5) lt by (simp add: auth_frame_def l_def)
  obtain c1 where c1: "net_recv_all_timeout 5 AUTH_TIMEOUT_MS c = Some (5, ?h, c1)"
    "rx_bytes (rx c1) = ?t @ rest" "calm (Suc (Suc m)) AUTH_TIMEOUT_MS c1"
    using calm_recv[of "Suc (Suc m)" AUTH_TIMEOUT_MS c 5] assms(4) b by auto
  obtain c2 where c2: "net_recv_all_timeout n AUTH_TIMEOUT_MS c1 = Some (int n, ?t, c2)"
    "rx_bytes (rx c2) = rest"
    using calm_recv[of m AUTH_TIMEOUT_MS c1 n] c1 lt by auto
  have "auth_header_ok ?h" using l assms(2,3) by (simp add: auth_header_ok_iff)
  moreover have "token_diff e ?t l = 0"
    using token_diff_zero_iff[of ?t l e] l lt assms(1) by simp
  moreover have "int n = uint l" by (simp flip: l)
  ultimately show ?thesis using c1 c2 en l by (simp add: server_defs)
qed

lemma calm_4: "calm 4 tmo c = calm (Suc (Suc (Suc (Suc 0)))) tmo c"
  by (simp add: eval_nat_numeral)

lemma auth_client_handshake_ok:
  assumes "cstr t \<noteq> []" and "strlen t \<le> 64" and "tx_ok (txs c)"
  shows "\<exists>c'. auth_client_handshake (Some t) c = (ERR_SUCCESS, c') \<and> sent_to c (auth_frame (cstr t)) c'"
  using net_send_all_ok[OF assms(3), of "auth_frame (cstr t)"] assms(1,2)
  by (auto simp: auth_client_handshake_def build_handshake_eq auth_is_enabled_Some sent_to_def Let_def
      auth_frame_def)

lemma auth_frame_inject:
  assumes "auth_frame s @ x = auth_frame t @ y" and "length s \<le> 64" and "length t \<le> 64"
  shows "s = t \<and> x = y"
proof -
  have w: "(word_of_nat (length s) :: byte) = word_of_nat (length t)" and st: "s @ x = t @ y"
    using assms(1) by (simp_all add: auth_frame_def)
  have "length s mod 256 = length t mod 256"
    using arg_cong[OF w, of unat] by (simp only: unat_byte_of_nat)
  then have "length s = length t" using assms(2,3) by simp
  then show ?thesis using st by simp
qed

section \<open>Properties\<close>


definition quiet_conn :: "rx_event list \<Rightarrow> conn" where
  "quiet_conn r = \<lparr>rx = r, txs = [], sent = [], ticks = replicate 8 0, sel = replicate 8 1\<rparr>"

lemma calm_quiet_conn:
  assumes "length r \<le> 4"
  shows "calm 4 AUTH_TIMEOUT_MS (quiet_conn r)"
  using assms by (simp add: calm_def quiet_conn_def sorted_wrt_iff_nth_less)


text \<open>
  The handshake end to end. A client with token \<open>t\<close> sends its frame on a healthy
  connection and goes on with \<open>rest\<close>; the server with token \<open>e\<close> reads the bytes in any chunks
  within the time limit. It admits the client exactly if the two strings are equal, and then
  its stream is at \<open>rest\<close>.
\<close>

lemma auth_end_to_end:
  assumes "cstr t \<noteq> []" and "strlen t \<le> 64" and "cstr e \<noteq> []" and "strlen e \<le> 64"
    and "tx_ok (txs c)" and "sent c = []" and "auth_client_handshake (Some t) c = (r, c1)"
    and "rx_bytes (rx d) = sent c1 @ rest" and "calm 4 AUTH_TIMEOUT_MS d"
  shows "r = ERR_SUCCESS \<and> sent c1 = auth_frame (cstr t) \<and>
    ((\<exists>d'. auth_server_handshake (Some e) d = Some (ERR_SUCCESS, d') \<and> rx_bytes (rx d') = rest)
      \<longleftrightarrow> streq t e)"
proof -
  have s: "r = ERR_SUCCESS" "sent c1 = auth_frame (cstr t)"
    using auth_client_handshake_ok[OF assms(1,2,5)] assms(6,7) by (auto dest!: sent_toD(1))
  have n: "strlen e = strlen e mod 256" "0 < strlen e" using assms(3,4) by (simp_all add: strlen_def)
  have "\<exists>d'. auth_server_handshake (Some e) d = Some (ERR_SUCCESS, d') \<and> rx_bytes (rx d') = rest"
    if "streq t e"
    using auth_server_handshake_accepts[OF n assms(4), of 0 d rest] assms(8,9) s that
    by (simp add: streq_def strlen_def calm_4)
  moreover have "streq t e"
    if h: "auth_server_handshake (Some e) d = Some (ERR_SUCCESS, d')" for d'
  proof -
    have "rx_bytes (rx d) = auth_frame (cstr e) @ rx_bytes (rx d')"
      using auth_server_handshake_cases[OF assms(3) h] n by (simp add: strlen_def)
    then show ?thesis
      using assms(2,4,8) s auth_frame_inject[of "cstr t" rest "cstr e" "rx_bytes (rx d')"]
      by (simp add: streq_def strlen_def)
  qed
  ultimately show ?thesis using s by blast
qed

lemma auth_end_to_end_example:
  "\<exists>c1 d'. auth_client_handshake (Some (ascii ''ab'')) (quiet_conn []) = (ERR_SUCCESS, c1) \<and>
     auth_server_handshake (Some (ascii ''ab''))
       (quiet_conn [RxData (take 3 (sent c1)), RxWouldBlock, RxData (drop 3 (sent c1) @ [1])]) =
       Some (ERR_SUCCESS, d') \<and> rx_bytes (rx d') = [1]"
proof -
  let ?t = "ascii ''ab''"
  obtain r c1 where c1: "auth_client_handshake (Some ?t) (quiet_conn []) = (r, c1)" by fastforce
  let ?d = "quiet_conn [RxData (take 3 (sent c1)), RxWouldBlock, RxData (drop 3 (sent c1) @ [1])]"
  have t: "cstr ?t \<noteq> []" "strlen ?t \<le> 64" by (simp_all add: ascii_def of_char_def strlen_def)
  have ok: "tx_ok (txs (quiet_conn []))" "sent (quiet_conn []) = []" by (simp_all add: quiet_conn_def tx_ok_def)
  have d: "rx_bytes (rx ?d) = sent c1 @ [1]" by (simp add: quiet_conn_def)
  have calm: "calm 4 AUTH_TIMEOUT_MS ?d"
    by (rule calm_quiet_conn) simp
  from auth_end_to_end[OF t t ok c1 d calm] c1 show ?thesis by auto
qed



end
