(* ===== verification/Socket_Setup.thy ===== *)
theory Socket_Setup
  imports Network
begin

text \<open>
  The part of \<^verbatim>\<open>common/network_win32.c\<close> that creates, configures, queries and closes
  sockets and looks up addresses. The answers of Winsock and of the IP helper library are
  the fields of \<open>winsock\<close>; every function returns the calls it makes that have an effect
  (\<open>sys_call list\<close>, in order) with its result.
\<close>

section \<open>Winsock as an argument\<close>

datatype sockopt =
    SO_REUSEADDR bool | TCP_NODELAY bool | SO_BROADCAST | FIONBIO bool
  | SO_RCVTIMEO uint32_t | SO_SNDTIMEO uint32_t | SO_KEEPALIVE bool
  | SIO_KEEPALIVE_VALS uint32_t uint32_t | SO_RCVBUF int | SO_SNDBUF int

datatype sys_call =
    SysSetOpt socket_t sockopt
  | SysBind socket_t uint32_t uint16_t
  | SysListen socket_t
  | SysConnect socket_t uint32_t uint16_t
  | SysShutdown socket_t
  | SysClose socket_t

record unicast_address =
  ua_s_addr :: uint32_t
  ua_prefix :: nat

record adapter =
  ad_up :: bool
  ad_loopback :: bool
  ad_unicast :: "unicast_address list"

datatype gaa_answer = GaaOverflow | GaaError | GaaOk "adapter list"

record winsock =
  ws_startup :: int
  ws_socket :: socket_t
  ws_setopt :: "socket_t \<Rightarrow> sockopt \<Rightarrow> bool"
  ws_bind :: "socket_t \<Rightarrow> uint32_t \<Rightarrow> uint16_t \<Rightarrow> bool"
  ws_listen :: "socket_t \<Rightarrow> bool"
  ws_accept :: "socket_t \<Rightarrow> socket_t \<times> uint32_t \<times> uint16_t"
  ws_connect :: "socket_t \<Rightarrow> uint32_t \<Rightarrow> uint16_t \<Rightarrow> io_answer"
  ws_select :: "int \<Rightarrow> socket_set \<Rightarrow> (nat \<times> nat) option \<Rightarrow> int \<times> socket_set"
  ws_so_error :: "socket_t \<Rightarrow> int"
  ws_peek :: "socket_t \<Rightarrow> io_answer"
  ws_sockname :: "socket_t \<Rightarrow> (uint32_t \<times> uint16_t) option"
  ws_peername :: "socket_t \<Rightarrow> (uint32_t \<times> uint16_t) option"
  ws_inet_addr :: "cbuf \<Rightarrow> uint32_t"
  ws_inet_ntoa :: "uint32_t \<Rightarrow> cbuf"
  ws_inet_ntop :: "uint32_t \<Rightarrow> nat \<Rightarrow> cbuf option"
  ws_inet_pton :: "cbuf \<Rightarrow> bool"
  ws_gethostbyname :: "cbuf \<Rightarrow> uint32_t option"
  ws_getaddrinfo :: "cbuf \<Rightarrow> uint32_t option"
  ws_malloc1 :: bool
  ws_gaa1 :: gaa_answer
  ws_malloc2 :: bool
  ws_gaa2 :: gaa_answer

abbreviation (input) INADDR_ANY :: uint32_t where "INADDR_ANY \<equiv> 0"
abbreviation (input) INADDR_NONE :: uint32_t where "INADDR_NONE \<equiv> -1"

section \<open>Library state\<close>

definition network_init :: "winsock \<Rightarrow> bool \<Rightarrow> error_code \<times> bool" where
  "network_init os initialized =
     (if initialized then (ERR_SUCCESS, initialized)
      else if ws_startup os \<noteq> 0 then (ERR_NETWORK_INIT, initialized)
      else (ERR_SUCCESS, True))"

definition network_cleanup :: "bool \<Rightarrow> bool" where
  "network_cleanup initialized = (if initialized then False else initialized)"

definition network_is_initialized :: "bool \<Rightarrow> bool" where
  "network_is_initialized initialized = initialized"

lemma network_state:
  "fst (network_init os up) = ERR_SUCCESS \<longleftrightarrow> network_is_initialized (snd (network_init os up))"
  "\<not> network_is_initialized (network_cleanup up)"
  by (simp_all add: network_init_def network_is_initialized_def network_cleanup_def)

section \<open>Options\<close>

definition set_option :: "winsock \<Rightarrow> socket_t \<Rightarrow> sockopt \<Rightarrow> error_code \<times> sys_call list" where
  "set_option os fd opt =
     (if ws_setopt os fd opt then ERR_SUCCESS else ERR_SOCKET_OPTION, [SysSetOpt fd opt])"

definition socket_set_nonblocking :: "winsock \<Rightarrow> socket_t \<Rightarrow> bool \<Rightarrow> error_code \<times> sys_call list" where
  "socket_set_nonblocking os fd nonblocking = set_option os fd (FIONBIO nonblocking)"

definition socket_set_nodelay :: "winsock \<Rightarrow> socket_t \<Rightarrow> bool \<Rightarrow> error_code \<times> sys_call list" where
  "socket_set_nodelay os fd nodelay = set_option os fd (TCP_NODELAY nodelay)"

definition socket_set_reuseaddr :: "winsock \<Rightarrow> socket_t \<Rightarrow> bool \<Rightarrow> error_code \<times> sys_call list" where
  "socket_set_reuseaddr os fd reuse = set_option os fd (SO_REUSEADDR reuse)"

definition udp_enable_broadcast :: "winsock \<Rightarrow> socket_t \<Rightarrow> error_code \<times> sys_call list" where
  "udp_enable_broadcast os fd = set_option os fd SO_BROADCAST"

text \<open>Options set one after the other, the first failure ends the sequence.\<close>

fun set_options :: "winsock \<Rightarrow> socket_t \<Rightarrow> sockopt list \<Rightarrow> error_code \<times> sys_call list" where
  "set_options os fd [] = (ERR_SUCCESS, [])"
| "set_options os fd (opt # opts) =
     (case set_option os fd opt of
        (e, tr) \<Rightarrow> (if e \<noteq> ERR_SUCCESS then (e, tr)
                   else (case set_options os fd opts of (e', tr') \<Rightarrow> (e', tr @ tr'))))"

definition socket_set_timeout ::
    "winsock \<Rightarrow> socket_t \<Rightarrow> uint32_t \<Rightarrow> uint32_t \<Rightarrow> error_code \<times> sys_call list" where
  "socket_set_timeout os fd recv_timeout_ms send_timeout_ms =
     set_options os fd [SO_RCVTIMEO recv_timeout_ms, SO_SNDTIMEO send_timeout_ms]"

definition socket_set_keepalive ::
    "winsock \<Rightarrow> socket_t \<Rightarrow> bool \<Rightarrow> uint32_t \<Rightarrow> uint32_t \<Rightarrow> uint32_t \<Rightarrow> error_code \<times> sys_call list" where
  "socket_set_keepalive os fd enable idle_sec interval_sec count =
     set_options os fd
       (SO_KEEPALIVE enable #
        (if enable then [SIO_KEEPALIVE_VALS (idle_sec * 1000) (interval_sec * 1000)] else []))"

definition socket_set_buffer_size ::
    "winsock \<Rightarrow> socket_t \<Rightarrow> int \<Rightarrow> int \<Rightarrow> error_code \<times> sys_call list" where
  "socket_set_buffer_size os fd recv_size send_size =
     set_options os fd
       ((if recv_size > 0 then [SO_RCVBUF recv_size] else []) @
        (if send_size > 0 then [SO_SNDBUF send_size] else []))"

section \<open>Closing and querying\<close>

definition socket_close :: "socket_t \<Rightarrow> sys_call list" where
  "socket_close fd = (if fd \<noteq> INVALID_SOCKET_VAL then [SysShutdown fd, SysClose fd] else [])"

definition socket_is_valid :: "socket_t \<Rightarrow> bool" where
  "socket_is_valid fd \<longleftrightarrow> fd \<noteq> INVALID_SOCKET_VAL"

definition socket_is_connected :: "winsock \<Rightarrow> socket_t \<Rightarrow> bool" where
  "socket_is_connected os fd =
     (case ws_peek os fd of WouldBlock \<Rightarrow> True | SockError \<Rightarrow> False | Count k \<Rightarrow> int k \<ge> 0)"

definition socket_get_error :: "winsock \<Rightarrow> socket_t \<Rightarrow> int" where
  "socket_get_error os fd = ws_so_error os fd"

text \<open>
  \<open>strncpy(dst, s, n - 1); dst[n - 1] = 0\<close>: the pattern by which addresses are returned.
\<close>

definition copy_addr :: "cbuf \<Rightarrow> cbuf \<Rightarrow> nat \<Rightarrow> cbuf" where
  "copy_addr dst s n = (strncpy dst s (n - 1))[n - 1 := 0]"

text \<open>A null output argument is \<open>None\<close>.\<close>

definition put_addr :: "winsock \<Rightarrow> uint32_t \<Rightarrow> cbuf option \<Rightarrow> nat \<Rightarrow> cbuf option" where
  "put_addr os a dst n =
     (case dst of None \<Rightarrow> None
      | Some d \<Rightarrow> Some (if n > 0 then copy_addr d (ws_inet_ntoa os a) n else d))"

definition socket_get_local_addr :: "winsock \<Rightarrow> socket_t \<Rightarrow> cbuf option \<Rightarrow> nat \<Rightarrow> uint16_t option
    \<Rightarrow> error_code \<times> cbuf option \<times> uint16_t option" where
  "socket_get_local_addr os fd addr addr_len port =
     (case ws_sockname os fd of
        None \<Rightarrow> (ERR_SOCKET_OPTION, addr, port)
      | Some (a, p) \<Rightarrow>
          (ERR_SUCCESS, put_addr os a addr addr_len, map_option (\<lambda>_. be16toh p) port))"

definition socket_get_peer_addr :: "winsock \<Rightarrow> socket_t \<Rightarrow> cbuf option \<Rightarrow> nat \<Rightarrow> uint16_t option
    \<Rightarrow> error_code \<times> cbuf option \<times> uint16_t option" where
  "socket_get_peer_addr os fd addr addr_len port =
     (case ws_peername os fd of
        None \<Rightarrow> (ERR_SOCKET_OPTION, addr, port)
      | Some (a, p) \<Rightarrow>
          (ERR_SUCCESS, put_addr os a addr addr_len, map_option (\<lambda>_. be16toh p) port))"

section \<open>Servers\<close>

definition bind_target :: "winsock \<Rightarrow> cbuf option \<Rightarrow> uint32_t" where
  "bind_target os bind_addr =
     (case bind_addr of
        None \<Rightarrow> INADDR_ANY
      | Some b \<Rightarrow> (if streq b (ascii ''0.0.0.0'') then INADDR_ANY else ws_inet_addr os b))"

definition tcp_server_create :: "winsock \<Rightarrow> cbuf option \<Rightarrow> uint16_t \<Rightarrow> socket_t \<times> sys_call list" where
  "tcp_server_create os bind_addr port =
     (let sock = ws_socket os in
      if sock = INVALID_SOCKET_VAL then (INVALID_SOCKET_VAL, [])
      else
        let tr = snd (socket_set_reuseaddr os sock True) @ snd (socket_set_nodelay os sock True);
            a = bind_target os bind_addr;
            tr1 = tr @ [SysBind sock a (htobe16 port)]
        in if \<not> ws_bind os sock a (htobe16 port) then (INVALID_SOCKET_VAL, tr1 @ [SysClose sock])
           else if \<not> ws_listen os sock
           then (INVALID_SOCKET_VAL, tr1 @ [SysListen sock, SysClose sock])
           else (sock, tr1 @ [SysListen sock]))"

definition tcp_server_accept :: "winsock \<Rightarrow> socket_t \<Rightarrow> cbuf option \<Rightarrow> nat \<Rightarrow> uint16_t option
    \<Rightarrow> socket_t \<times> cbuf option \<times> uint16_t option \<times> sys_call list" where
  "tcp_server_accept os server_fd client_ip ip_len client_port =
     (case ws_accept os server_fd of
        (client_sock, a, p) \<Rightarrow>
          (if client_sock = INVALID_SOCKET_VAL
           then (INVALID_SOCKET_VAL, client_ip, client_port, [])
           else (client_sock, put_addr os a client_ip ip_len,
                 map_option (\<lambda>_. be16toh p) client_port,
                 snd (socket_set_nodelay os client_sock True))))"

definition tcp_server_accept_timeout :: "winsock \<Rightarrow> socket_t \<Rightarrow> cbuf option \<Rightarrow> nat
    \<Rightarrow> uint16_t option \<Rightarrow> uint32_t \<Rightarrow> socket_t \<times> cbuf option \<times> uint16_t option \<times> sys_call list" where
  "tcp_server_accept_timeout os server_fd client_ip ip_len client_port timeout_ms =
     (let fds = socket_set_add_read socket_set_init server_fd in
      case socket_select (ws_select os) fds timeout_ms of
        (result, fds') \<Rightarrow>
          (if result \<le> 0 then (INVALID_SOCKET_VAL, client_ip, client_port, [])
           else if socket_is_readable fds' server_fd
           then tcp_server_accept os server_fd client_ip ip_len client_port
           else (INVALID_SOCKET_VAL, client_ip, client_port, [])))"

section \<open>Clients\<close>

definition resolve_target :: "winsock \<Rightarrow> cbuf \<Rightarrow> uint32_t option" where
  "resolve_target os host =
     (let a = ws_inet_addr os host
      in if a = INADDR_NONE then ws_gethostbyname os host else Some a)"

definition tcp_client_connect :: "winsock \<Rightarrow> cbuf \<Rightarrow> uint16_t \<Rightarrow> socket_t \<times> sys_call list" where
  "tcp_client_connect os host port =
     (let sock = ws_socket os in
      if sock = INVALID_SOCKET_VAL then (INVALID_SOCKET_VAL, [])
      else case resolve_target os host of
        None \<Rightarrow> (INVALID_SOCKET_VAL, [SysClose sock])
      | Some a \<Rightarrow>
          let tr = [SysConnect sock a (htobe16 port)] in
          (case ws_connect os sock a (htobe16 port) of
             Count _ \<Rightarrow> (sock, tr @ snd (socket_set_nodelay os sock True))
           | _ \<Rightarrow> (INVALID_SOCKET_VAL, tr @ [SysClose sock])))"

definition tcp_client_connect_timeout ::
    "winsock \<Rightarrow> cbuf \<Rightarrow> uint16_t \<Rightarrow> uint32_t \<Rightarrow> socket_t \<times> sys_call list" where
  "tcp_client_connect_timeout os host port timeout_ms =
     (let sock = ws_socket os in
      if sock = INVALID_SOCKET_VAL then (INVALID_SOCKET_VAL, [])
      else
        let tr = snd (socket_set_nonblocking os sock True);
            done_tr = snd (socket_set_nonblocking os sock False) @ snd (socket_set_nodelay os sock True)
        in case resolve_target os host of
          None \<Rightarrow> (INVALID_SOCKET_VAL, tr @ [SysClose sock])
        | Some a \<Rightarrow>
            let tr1 = tr @ [SysConnect sock a (htobe16 port)];
                failed = (INVALID_SOCKET_VAL, tr1 @ [SysClose sock])
            in case ws_connect os sock a (htobe16 port) of
                 Count _ \<Rightarrow> (sock, tr1 @ done_tr)
               | SockError \<Rightarrow> failed
               | WouldBlock \<Rightarrow>
                   (case socket_select (ws_select os) (socket_set_add_write socket_set_init sock)
                           timeout_ms of
                      (result, fds) \<Rightarrow>
                        (if result \<le> 0 \<or> \<not> socket_is_writable fds sock then failed
                         else if socket_get_error os sock \<noteq> 0 then failed
                         else (sock, tr1 @ done_tr))))"

section \<open>Datagrams\<close>

definition udp_socket_create :: "winsock \<Rightarrow> socket_t" where
  "udp_socket_create os = ws_socket os"

definition udp_socket_bind ::
    "winsock \<Rightarrow> socket_t \<Rightarrow> cbuf option \<Rightarrow> uint16_t \<Rightarrow> error_code \<times> sys_call list" where
  "udp_socket_bind os fd bind_addr port =
     (let a = bind_target os bind_addr
      in (if ws_bind os fd a (htobe16 port) then ERR_SUCCESS else ERR_SOCKET_BIND,
          [SysBind fd a (htobe16 port)]))"

text \<open>
  A datagram on the wire: destination (or source) address and port in network order, and
  the payload. \<open>sendto\<close> answers the number of bytes or fails.
\<close>

type_synonym datagram = "uint32_t \<times> uint16_t \<times> byte list"

definition udp_sendto :: "winsock \<Rightarrow> nat option \<Rightarrow> byte list \<Rightarrow> cbuf \<Rightarrow> uint16_t
    \<Rightarrow> int \<times> datagram option" where
  "udp_sendto os answer buf dest_addr dest_port =
     (case answer of
        None \<Rightarrow> (-1, None)
      | Some k \<Rightarrow> (int k, Some (ws_inet_addr os dest_addr, htobe16 dest_port, buf)))"

text \<open>\<open>recvfrom\<close> fails (\<open>None\<close>) or delivers a datagram; one longer than the buffer fails.\<close>

definition udp_recvfrom :: "winsock \<Rightarrow> datagram option \<Rightarrow> nat \<Rightarrow> cbuf option \<Rightarrow> nat \<Rightarrow> uint16_t option
    \<Rightarrow> int \<times> byte list \<times> cbuf option \<times> uint16_t option" where
  "udp_recvfrom os d len src_addr addr_len src_port =
     (case d of
        None \<Rightarrow> (-1, [], src_addr, src_port)
      | Some (a, p, bs) \<Rightarrow>
          (if length bs > len then (-1, take len bs, src_addr, src_port)
           else (int (length bs), bs, put_addr os a src_addr addr_len,
                 map_option (\<lambda>_. be16toh p) src_port)))"

definition udp_recvfrom_timeout :: "winsock \<Rightarrow> socket_t \<Rightarrow> datagram option \<Rightarrow> nat \<Rightarrow> cbuf option \<Rightarrow> nat
    \<Rightarrow> uint16_t option \<Rightarrow> uint32_t \<Rightarrow> int \<times> byte list \<times> cbuf option \<times> uint16_t option" where
  "udp_recvfrom_timeout os fd d len src_addr addr_len src_port timeout_ms =
     (case socket_select (ws_select os) (socket_set_add_read socket_set_init fd) timeout_ms of
        (result, fds) \<Rightarrow>
          (if result \<le> 0 then (result, [], src_addr, src_port)
           else udp_recvfrom os d len src_addr addr_len src_port))"

section \<open>Names and addresses\<close>

definition resolve_hostname :: "winsock \<Rightarrow> cbuf \<Rightarrow> cbuf \<Rightarrow> nat \<Rightarrow> error_code \<times> cbuf" where
  "resolve_hostname os hostname ip_addr ip_len =
     (case ws_getaddrinfo os hostname of
        None \<Rightarrow> (ERR_HOST_NOT_FOUND, ip_addr)
      | Some a \<Rightarrow> (case ws_inet_ntop os a ip_len of
                    None \<Rightarrow> (ERR_GENERAL, ip_addr)
                  | Some t \<Rightarrow> (ERR_SUCCESS, t)))"

text \<open>The adapter table, after the second attempt with a larger buffer when there is one.\<close>

datatype adapters_result = AdaptersNoMemory | AdaptersFailed | Adapters "adapter list"

definition get_adapters :: "winsock \<Rightarrow> adapters_result" where
  "get_adapters os =
     (if \<not> ws_malloc1 os then AdaptersNoMemory
      else case ws_gaa1 os of
        GaaOk as \<Rightarrow> Adapters as
      | GaaError \<Rightarrow> AdaptersFailed
      | GaaOverflow \<Rightarrow>
          (if \<not> ws_malloc2 os then AdaptersNoMemory
           else case ws_gaa2 os of GaaOk as \<Rightarrow> Adapters as | _ \<Rightarrow> AdaptersFailed))"

text \<open>
  The broadcast address of an interface, in network byte order. C leaves the shift by 32
  of a prefix of length 0 undefined: \<open>None\<close>.
\<close>

definition broadcast_of :: "unicast_address \<Rightarrow> uint32_t option" where
  "broadcast_of u =
     (if ua_prefix u < 32 then
        if ua_prefix u = 0 then None
        else let mask = htobe32 (NOT (push_bit (32 - ua_prefix u) 1 - 1))
             in Some ((ua_s_addr u AND mask) OR NOT mask)
      else let mask = 0xFFFFFFFF in Some ((ua_s_addr u AND mask) OR NOT mask))"

text \<open>
  The two nested loops: \<open>None\<close> is undefined behaviour, \<open>Some None\<close> no address found.
\<close>

fun broadcast_unicast :: "winsock \<Rightarrow> nat \<Rightarrow> unicast_address list \<Rightarrow> cbuf option option" where
  "broadcast_unicast os addr_len [] = Some None"
| "broadcast_unicast os addr_len (u # us) =
     (case broadcast_of u of
        None \<Rightarrow> None
      | Some b \<Rightarrow> (case ws_inet_ntop os b addr_len of
                    Some t \<Rightarrow> Some (Some t)
                  | None \<Rightarrow> broadcast_unicast os addr_len us))"

fun broadcast_adapters :: "winsock \<Rightarrow> nat \<Rightarrow> adapter list \<Rightarrow> cbuf option option" where
  "broadcast_adapters os addr_len [] = Some None"
| "broadcast_adapters os addr_len (a # as) =
     (if \<not> ad_up a \<or> ad_loopback a then broadcast_adapters os addr_len as
      else case broadcast_unicast os addr_len (ad_unicast a) of
        None \<Rightarrow> None
      | Some (Some t) \<Rightarrow> Some (Some t)
      | Some None \<Rightarrow> broadcast_adapters os addr_len as)"

definition get_broadcast_address :: "winsock \<Rightarrow> cbuf \<Rightarrow> nat \<Rightarrow> (error_code \<times> cbuf) option" where
  "get_broadcast_address os broadcast_addr addr_len =
     (let limited = copy_addr broadcast_addr (ascii ''255.255.255.255'') addr_len
      in case get_adapters os of
        Adapters as \<Rightarrow>
          (case broadcast_adapters os addr_len as of
             None \<Rightarrow> None
           | Some (Some t) \<Rightarrow> Some (ERR_SUCCESS, t)
           | Some None \<Rightarrow> Some (ERR_SUCCESS, limited))
      | _ \<Rightarrow> Some (ERR_SUCCESS, limited))"

fun local_ip_unicast :: "winsock \<Rightarrow> nat \<Rightarrow> unicast_address list \<Rightarrow> cbuf option" where
  "local_ip_unicast os ip_len [] = None"
| "local_ip_unicast os ip_len (u # us) =
     (case ws_inet_ntop os (ua_s_addr u) ip_len of
        Some t \<Rightarrow> Some t
      | None \<Rightarrow> local_ip_unicast os ip_len us)"

fun local_ip_adapters :: "winsock \<Rightarrow> nat \<Rightarrow> adapter list \<Rightarrow> cbuf option" where
  "local_ip_adapters os ip_len [] = None"
| "local_ip_adapters os ip_len (a # as) =
     (if \<not> ad_up a \<or> ad_loopback a then local_ip_adapters os ip_len as
      else case local_ip_unicast os ip_len (ad_unicast a) of
        Some t \<Rightarrow> Some t
      | None \<Rightarrow> local_ip_adapters os ip_len as)"

definition get_local_ip :: "winsock \<Rightarrow> cbuf \<Rightarrow> nat \<Rightarrow> error_code \<times> cbuf" where
  "get_local_ip os ip_addr ip_len =
     (case get_adapters os of
        AdaptersNoMemory \<Rightarrow> (ERR_OUT_OF_MEMORY, ip_addr)
      | AdaptersFailed \<Rightarrow> (ERR_HOST_NOT_FOUND, ip_addr)
      | Adapters as \<Rightarrow> (case local_ip_adapters os ip_len as of
                         Some t \<Rightarrow> (ERR_SUCCESS, t)
                       | None \<Rightarrow> (ERR_HOST_NOT_FOUND, ip_addr)))"

definition is_valid_ip :: "winsock \<Rightarrow> cbuf option \<Rightarrow> bool" where
  "is_valid_ip os ip_str = (case ip_str of None \<Rightarrow> False | Some s \<Rightarrow> ws_inet_pton os s)"

section \<open>Byte order and bit operations\<close>

lemma bit_mk32:
  "bit (mk32 b0 b1 b2 b3) n \<longleftrightarrow>
     n < 32 \<and> (if n < 8 then bit b0 n else if n < 16 then bit b1 (n - 8)
              else if n < 24 then bit b2 (n - 16) else bit b3 (n - 24))"
  by (auto simp: mk32_def bit_simps bit_byte_ge)

lemma byte_at_logic:
  "byte_at i (x AND y) = byte_at i x AND byte_at i y"
  "byte_at i (x OR y) = byte_at i x OR byte_at i y"
  by (auto intro!: bit_word_eqI simp: bit_simps)

lemma be32toh_logic:
  "be32toh (x AND y) = be32toh x AND be32toh y"
  "be32toh (x OR y) = be32toh x OR be32toh y"
  "be32toh (NOT x) = NOT (be32toh x)"
  by (auto intro!: bit_word_eqI simp: be32toh_def bit_mk32 bit_simps split: if_splits)

section \<open>Properties\<close>

text \<open>
  No descriptor is lost: a function that creates a socket returns either that socket, not
  closed, or the invalid value after closing it exactly once, as its last call.
\<close>

definition leak_free :: "socket_t \<Rightarrow> socket_t \<times> sys_call list \<Rightarrow> bool" where
  "leak_free sock out =
     (case out of (s, tr) \<Rightarrow>
        if sock = INVALID_SOCKET_VAL then s = INVALID_SOCKET_VAL \<and> tr = []
        else s = sock \<and> SysClose sock \<notin> set tr \<or>
             s = INVALID_SOCKET_VAL \<and> tr \<noteq> [] \<and> last tr = SysClose sock \<and>
             SysClose sock \<notin> set (butlast tr))"

lemmas setup_defs = socket_set_nonblocking_def socket_set_nodelay_def socket_set_reuseaddr_def
  set_option_def

text \<open>
  The listening socket, the blocking connect and the connect with a timeout lose no
  descriptor on any path, whatever the socket library answers.
\<close>

lemma sockets_not_leaked:
  "leak_free (ws_socket os) (tcp_server_create os bind_addr port) \<and>
   leak_free (ws_socket os) (tcp_client_connect os host port) \<and>
   leak_free (ws_socket os) (tcp_client_connect_timeout os host port timeout_ms)"
proof (intro conjI)
  show "leak_free (ws_socket os) (tcp_server_create os bind_addr port)"
    by (simp add: leak_free_def tcp_server_create_def setup_defs Let_def)
  show "leak_free (ws_socket os) (tcp_client_connect os host port)"
    by (simp add: leak_free_def tcp_client_connect_def setup_defs Let_def
        split: option.split io_answer.split)
  show "leak_free (ws_socket os) (tcp_client_connect_timeout os host port timeout_ms)"
    by (simp add: leak_free_def tcp_client_connect_timeout_def setup_defs Let_def
        split: option.split io_answer.split prod.split)
qed

text \<open>
  A successful connect with a timeout leaves the socket in blocking mode: it is made
  non-blocking first, and the last change of the mode is back to blocking.
\<close>

lemma connect_timeout_blocking:
  assumes "tcp_client_connect_timeout os host port timeout_ms = (s, tr)"
    and "s \<noteq> INVALID_SOCKET_VAL"
  shows "filter (\<lambda>c. c \<in> {SysSetOpt s (FIONBIO True), SysSetOpt s (FIONBIO False)}) tr =
    [SysSetOpt s (FIONBIO True), SysSetOpt s (FIONBIO False)] \<and> s = ws_socket os"
  using assms
  by (auto simp: tcp_client_connect_timeout_def setup_defs Let_def
      split: option.splits io_answer.splits prod.splits if_splits)

text \<open>Answers of a healthy stack on which a connect first reports that it would block.\<close>

definition sample_winsock :: winsock where
  "sample_winsock =
     \<lparr>ws_startup = 0, ws_socket = 5, ws_setopt = (\<lambda>fd opt. True), ws_bind = (\<lambda>fd a p. True),
      ws_listen = (\<lambda>fd. True), ws_accept = (\<lambda>fd. (7, 0x0100007F, 0xA80C)),
      ws_connect = (\<lambda>fd a p. WouldBlock), ws_select = (\<lambda>n fds tv. (1, fds)),
      ws_so_error = (\<lambda>fd. 0), ws_peek = (\<lambda>fd. WouldBlock), ws_sockname = (\<lambda>fd. None),
      ws_peername = (\<lambda>fd. None), ws_inet_addr = (\<lambda>s. 0x0100007F),
      ws_inet_ntoa = (\<lambda>a. ascii ''127.0.0.1''), ws_inet_ntop = (\<lambda>a n. Some (ascii ''127.0.0.1'')),
      ws_inet_pton = (\<lambda>s. True), ws_gethostbyname = (\<lambda>h. None), ws_getaddrinfo = (\<lambda>h. None),
      ws_malloc1 = True, ws_gaa1 = GaaError, ws_malloc2 = True, ws_gaa2 = GaaError\<rparr>"

lemma connect_timeout_blocking_example:
  "filter (\<lambda>c. c \<in> {SysSetOpt 5 (FIONBIO True), SysSetOpt 5 (FIONBIO False)})
     (snd (tcp_client_connect_timeout sample_winsock (ascii ''127.0.0.1'') 3240 5000)) =
   [SysSetOpt 5 (FIONBIO True), SysSetOpt 5 (FIONBIO False)]"
proof -
  have "fst (tcp_client_connect_timeout sample_winsock (ascii ''127.0.0.1'') 3240 5000) = 5"
    by (simp add: tcp_client_connect_timeout_def sample_winsock_def resolve_target_def
        socket_select_def socket_set_add_write_def socket_set_init_def FD_SET_def
        socket_is_writable_def socket_get_error_def setup_defs)
  then obtain tr where
    tr: "tcp_client_connect_timeout sample_winsock (ascii ''127.0.0.1'') 3240 5000 = (5, tr)"
    by (metis prod.collapse)
  have "(5 :: socket_t) \<noteq> INVALID_SOCKET_VAL" by simp
  from connect_timeout_blocking[OF tr this] show ?thesis by (simp add: tr)
qed

text \<open>
  The address \<^verbatim>\<open>get_broadcast_address\<close> computes for an interface is the directed
  broadcast address: read in host order, the network part is kept and every host bit is
  set. For prefix length 0 the expression has no defined value.
\<close>

lemma broadcast_of_correct:
  "broadcast_of u =
     (if ua_prefix u = 0 then None
      else Some (htobe32 (be32toh (ua_s_addr u) OR mask (32 - ua_prefix u))))"
proof (cases "ua_prefix u < 32 \<and> ua_prefix u \<noteq> 0")
  case True
  let ?m = "mask (32 - ua_prefix u) :: uint32_t"
  have m: "push_bit (32 - ua_prefix u) 1 - 1 = ?m"
    by (simp add: mask_eq_exp_minus_1 push_bit_eq_mult)
  have "be32toh ((ua_s_addr u AND htobe32 (NOT ?m)) OR NOT (htobe32 (NOT ?m))) =
      be32toh (ua_s_addr u) OR ?m"
    by (rule bit_word_eqI) (auto simp: be32toh_logic bit_simps)
  then have "(ua_s_addr u AND htobe32 (NOT ?m)) OR NOT (htobe32 (NOT ?m)) =
      htobe32 (be32toh (ua_s_addr u) OR ?m)"
    by (metis htobe32_inverse(2))
  then show ?thesis using True by (simp only: broadcast_of_def m Let_def if_True if_False simp_thms)
next
  case False
  have ff: "(0xFFFFFFFF :: uint32_t) = NOT 0" by simp
  show ?thesis using False by (auto simp: broadcast_of_def Let_def ff)
qed

text \<open>
  The timeout given to \<open>select\<close> is the requested number of milliseconds, split into
  seconds and less than one second of microseconds; only the all-ones value waits for ever.
\<close>

lemma select_timeval_exact:
  "select_timeval ms =
     (if ms = -1 then None else Some (unat ms div 1000, (unat ms mod 1000) * 1000))"
proof -
  have "unat (ms mod 1000 * 1000) = unat ms mod 1000 * 1000"
  proof -
    have "unat ms mod 1000 * 1000 < 1000 * 1000" by (rule mult_strict_right_mono) simp_all
    then have "unat ms mod 1000 * 1000 < 2 ^ 32" by simp
    then show ?thesis by (simp add: unat_word_ariths unat_mod)
  qed
  then show ?thesis by (simp add: select_timeval_def unat_div)
qed

text \<open>
  A returned address is a C string inside its buffer: for a buffer of at least
  \<open>ip_len > 0\<close> bytes, the peer address of an accepted connection is the textual address cut
  to \<open>ip_len - 1\<close> characters, and the buffer keeps its size.
\<close>

lemma accept_address_terminated:
  assumes "ws_accept os fd = (s, a, p)" and "s \<noteq> INVALID_SOCKET_VAL"
    and "0 < ip_len" and "ip_len \<le> length buf"
    and "tcp_server_accept os fd (Some buf) ip_len port = (s', ip, port', tr)"
  shows "s' = s \<and> (\<exists>b. ip = Some b \<and> length b = length buf \<and>
    cstr b = take (ip_len - 1) (cstr (ws_inet_ntoa os a)))"
proof -
  let ?t = "take (ip_len - 1) (cstr (ws_inet_ntoa os a))"
  let ?b = "copy_addr buf (ws_inet_ntoa os a) ip_len"
  have s: "s' = s" "ip = Some ?b"
    using assms by (simp_all add: tcp_server_accept_def put_addr_def)
  have "drop (ip_len - 1) buf = buf ! (ip_len - 1) # drop ip_len buf"
    using assms(3,4) by (metis Cons_nth_drop_Suc Suc_pred' diff_less less_le_trans zero_less_one)
  then have "?b = ?t @ replicate (ip_len - 1 - length ?t) 0 @ 0 # drop ip_len buf"
    using assms(3) by (simp add: copy_addr_def strncpy_def Let_def list_update_append)
  also have "\<dots> = ?t @ 0 # replicate (ip_len - 1 - length ?t) 0 @ drop ip_len buf"
    by (simp add: replicate_app_Cons_same)
  finally have "cstr ?b = ?t" by simp
  moreover have "length ?b = length buf" using assms(4) by (simp add: copy_addr_def)
  ultimately show ?thesis using s by simp
qed

lemma accept_address_terminated_example:
  "\<exists>b. fst (snd (tcp_server_accept sample_winsock 3 (Some (replicate 16 1)) 8 None)) = Some b \<and>
     cstr b = take 7 (ascii ''127.0.0.1'')"
proof -
  have a: "ws_accept sample_winsock 3 = (7, 0x0100007F, 0xA80C)" by (simp add: sample_winsock_def)
  have valid: "(7 :: socket_t) \<noteq> INVALID_SOCKET_VAL" by simp
  obtain s ip port tr where
    r: "tcp_server_accept sample_winsock 3 (Some (replicate 16 1)) 8 None = (s, ip, port, tr)"
    by (metis prod_cases4)
  have "cstr (ws_inet_ntoa sample_winsock 0x0100007F) = ascii ''127.0.0.1''"
    by (simp add: sample_winsock_def ascii_def of_char_def)
  with accept_address_terminated[OF a valid _ _ r] show ?thesis by (auto simp: r)
qed

end
