(* ===== verification/Client_Manager.thy ===== *)
theory Client_Manager
  imports Device_List Urb_Handler Auth Socket_Setup
begin

text \<open>
  Connected clients, \<^verbatim>\<open>server/client_manager.c\<close>: the list of connections, attaching and
  detaching devices, the device-list and import requests, and the forwarding of request
  blocks. \<open>server_state\<close> holds the manager, the device list it refers to, the heap of
  request-block entries and the calls made to Windows (handles given back, sockets closed).
  A client is the address of its node, and \<open>cc_device\<close> is the address of the device entry
  whose device it points to, so that a pointer to a freed entry is visible. Operations that
  follow pointers return an option, \<open>None\<close> when the pointer is bad.
\<close>

section \<open>Clients\<close>

datatype client_state =
  CLIENT_STATE_CONNECTED | CLIENT_STATE_ATTACHED | CLIENT_STATE_DISCONNECTING | CLIENT_STATE_DISCONNECTED

definition client_state_string :: "client_state \<Rightarrow> string" where
  "client_state_string state =
     (case state of
        CLIENT_STATE_CONNECTED \<Rightarrow> ''Connected''
      | CLIENT_STATE_ATTACHED \<Rightarrow> ''Attached''
      | CLIENT_STATE_DISCONNECTING \<Rightarrow> ''Disconnecting''
      | CLIENT_STATE_DISCONNECTED \<Rightarrow> ''Disconnected'')"

record client_connection =
  cc_id :: uint32_t
  cc_socket :: socket_t
  cc_ip_address :: cbuf
  cc_port :: uint16_t
  cc_state :: client_state
  cc_attached_busid :: cbuf
  cc_device :: "nat option"
  cc_urb_handler :: "urb_handler option"
  cc_running :: bool
  cc_connect_time :: uint64_t
  cc_bytes_sent :: uint64_t
  cc_bytes_received :: uint64_t
  cc_urbs_processed :: uint64_t

record client_manager =
  cm_clients :: "(nat \<times> client_connection) list"
  cm_client_count :: int
  cm_next_client_id :: uint32_t
  cm_initialized :: bool

record server_state =
  ss_manager :: client_manager
  ss_list :: device_list
  ss_heap :: urb_heap
  ss_usb :: "winusb_call list"
  ss_net :: "sys_call list"

abbreviation (input) MAX_CLIENTS :: int where "MAX_CLIENTS \<equiv> 16"
abbreviation (input) USB_MAX_INTERFACES :: nat where "USB_MAX_INTERFACES \<equiv> 32"

definition new_client :: "uint32_t \<Rightarrow> socket_t \<Rightarrow> cbuf option \<Rightarrow> uint16_t \<Rightarrow> uint64_t \<Rightarrow> client_connection" where
  "new_client cid socket ip_address port now =
     \<lparr>cc_id = cid, cc_socket = socket,
      cc_ip_address = (case ip_address of None \<Rightarrow> replicate 64 0 | Some ip \<Rightarrow> strncpy (replicate 64 0) ip 63),
      cc_port = port, cc_state = CLIENT_STATE_CONNECTED, cc_attached_busid = replicate 32 0,
      cc_device = None, cc_urb_handler = None, cc_running = False, cc_connect_time = now,
      cc_bytes_sent = 0, cc_bytes_received = 0, cc_urbs_processed = 0\<rparr>"

definition create_client :: "nat option \<Rightarrow> uint32_t \<Rightarrow> socket_t \<Rightarrow> cbuf option \<Rightarrow> uint16_t \<Rightarrow> uint64_t
    \<Rightarrow> (nat \<times> client_connection) option" where
  "create_client calloc cid socket ip_address port now =
     map_option (\<lambda>p. (p, new_client cid socket ip_address port now)) calloc"

definition client_at :: "server_state \<Rightarrow> nat \<Rightarrow> client_connection option" where
  "client_at s p = map_of (cm_clients (ss_manager s)) p"

definition set_client :: "nat \<Rightarrow> client_connection \<Rightarrow> server_state \<Rightarrow> server_state" where
  "set_client p c s =
     s\<lparr>ss_manager := (ss_manager s)\<lparr>cm_clients :=
        map (\<lambda>(q, d). (q, if q = p then c else d)) (cm_clients (ss_manager s))\<rparr>\<rparr>"

definition set_device :: "nat \<Rightarrow> usb_device \<Rightarrow> winusb_call list \<Rightarrow> server_state \<Rightarrow> server_state" where
  "set_device p d tr s =
     s\<lparr>ss_list := set_entry (ss_list s) p (\<lambda>e. e\<lparr>de_device := d\<rparr>), ss_usb := ss_usb s @ tr\<rparr>"

definition client_stop_threads :: "client_connection \<Rightarrow> client_connection" where
  "client_stop_threads c = c\<lparr>cc_running := False\<rparr>"

definition client_start_threads :: "client_connection \<Rightarrow> error_code" where
  "client_start_threads c = ERR_SUCCESS"

definition client_set_state :: "client_connection \<Rightarrow> client_state \<Rightarrow> client_connection" where
  "client_set_state c state = c\<lparr>cc_state := state\<rparr>"

section \<open>The manager\<close>

definition client_manager_init :: "bool \<Rightarrow> error_code \<times> client_manager" where
  "client_manager_init mutex_ok =
     (let m = \<lparr>cm_clients = [], cm_client_count = 0, cm_next_client_id = 1, cm_initialized = False\<rparr>
      in if \<not> mutex_ok then (ERR_MUTEX_INIT, m) else (ERR_SUCCESS, m\<lparr>cm_initialized := True\<rparr>))"

definition client_manager_add :: "nat option \<Rightarrow> uint64_t \<Rightarrow> socket_t \<Rightarrow> cbuf option \<Rightarrow> uint16_t
    \<Rightarrow> client_manager \<Rightarrow> error_code \<times> nat option \<times> client_manager" where
  "client_manager_add calloc now socket ip_address port m =
     (if \<not> cm_initialized m then (ERR_INVALID_PARAM, None, m)
      else if cm_client_count m \<ge> MAX_CLIENTS then (ERR_BUSY, None, m)
      else
        let cid = cm_next_client_id m;
            m = m\<lparr>cm_next_client_id := cid + 1\<rparr>
        in case create_client calloc cid socket ip_address port now of
             None \<Rightarrow> (ERR_OUT_OF_MEMORY, None, m)
           | Some (p, c) \<Rightarrow>
               (ERR_SUCCESS, Some p,
                m\<lparr>cm_clients := (p, c) # cm_clients m, cm_client_count := cm_client_count m + 1\<rparr>))"

text \<open>
  \<open>free_client\<close>: \<open>joined\<close> is what the worker does until it is joined. The client is already
  unlinked; its fields are the argument.
\<close>

definition free_client :: "(urb_heap \<Rightarrow> urb_handler \<Rightarrow> (urb_heap \<times> urb_handler) option)
    \<Rightarrow> client_connection \<Rightarrow> server_state \<Rightarrow> server_state option" where
  "free_client joined client s = do {
     let client = client_stop_threads client;
     let s = (if socket_is_valid (cc_socket client)
              then s\<lparr>ss_net := ss_net s @ socket_close (cc_socket client)\<rparr> else s);
     s \<leftarrow> (case cc_urb_handler client of
            None \<Rightarrow> Some s
          | Some hr \<Rightarrow> do {
              (h, hr) \<leftarrow> urb_handler_cleanup joined (ss_heap s) hr;
              Some (s\<lparr>ss_heap := h\<rparr>)
            });
     (case cc_device client of
        None \<Rightarrow> Some s
      | Some p \<Rightarrow> do {
          e \<leftarrow> entry_at (ss_list s) p;
          let (d, tr) = usb_close_device (de_device e);
          Some (set_device p d tr s)
        })
   }"

fun unlink_client :: "nat \<Rightarrow> (nat \<times> client_connection) list
    \<Rightarrow> (nat \<times> client_connection) list \<times> client_connection option" where
  "unlink_client client [] = ([], None)"
| "unlink_client client ((p, c) # ns) =
     (if p = client then (ns, Some c)
      else case unlink_client client ns of (ns', r) \<Rightarrow> ((p, c) # ns', r))"

definition client_manager_remove :: "(urb_heap \<Rightarrow> urb_handler \<Rightarrow> (urb_heap \<times> urb_handler) option)
    \<Rightarrow> nat \<Rightarrow> server_state \<Rightarrow> (error_code \<times> server_state) option" where
  "client_manager_remove joined client s =
     (let m = ss_manager s
      in if \<not> cm_initialized m then Some (ERR_INVALID_PARAM, s)
         else case unlink_client client (cm_clients m) of
           (ns, None) \<Rightarrow> Some (ERR_NOT_FOUND, s)
         | (ns, Some c) \<Rightarrow> do {
             let s = s\<lparr>ss_manager := m\<lparr>cm_clients := ns, cm_client_count := cm_client_count m - 1\<rparr>,
                       ss_list := (if char_at (cc_attached_busid c) 0 \<noteq> 0
                                   then snd (device_list_unexport (cc_attached_busid c) (ss_list s))
                                   else ss_list s)\<rparr>;
             s \<leftarrow> free_client joined c s;
             Some (ERR_SUCCESS, s)
           })"

fun find_client :: "(client_connection \<Rightarrow> bool) \<Rightarrow> (nat \<times> client_connection) list \<Rightarrow> nat option" where
  "find_client P [] = None"
| "find_client P ((p, c) # ns) = (if P c then Some p else find_client P ns)"

definition client_manager_find :: "client_manager \<Rightarrow> uint32_t \<Rightarrow> nat option" where
  "client_manager_find m client_id =
     (if \<not> cm_initialized m then None else find_client (\<lambda>c. cc_id c = client_id) (cm_clients m))"

definition client_manager_find_by_socket :: "client_manager \<Rightarrow> socket_t \<Rightarrow> nat option" where
  "client_manager_find_by_socket m socket =
     (if \<not> cm_initialized m then None else find_client (\<lambda>c. cc_socket c = socket) (cm_clients m))"

definition client_manager_find_by_device :: "client_manager \<Rightarrow> cbuf \<Rightarrow> nat option" where
  "client_manager_find_by_device m busid =
     (if \<not> cm_initialized m then None
      else find_client (\<lambda>c. streq (cc_attached_busid c) busid) (cm_clients m))"

definition client_manager_count :: "client_manager \<Rightarrow> int" where
  "client_manager_count m = cm_client_count m"

definition client_manager_remove_by_id :: "(urb_heap \<Rightarrow> urb_handler \<Rightarrow> (urb_heap \<times> urb_handler) option)
    \<Rightarrow> uint32_t \<Rightarrow> server_state \<Rightarrow> (error_code \<times> server_state) option" where
  "client_manager_remove_by_id joined client_id s =
     (case client_manager_find (ss_manager s) client_id of
        None \<Rightarrow> Some (ERR_NOT_FOUND, s)
      | Some p \<Rightarrow> client_manager_remove joined p s)"

partial_function (option) disconnect_loop :: "(urb_heap \<Rightarrow> urb_handler \<Rightarrow> (urb_heap \<times> urb_handler) option)
    \<Rightarrow> server_state \<Rightarrow> server_state option" where
  "disconnect_loop joined s =
     (if cm_clients (ss_manager s) = [] then Some s
      else do {
        r \<leftarrow> client_manager_remove joined (fst (hd (cm_clients (ss_manager s)))) s;
        disconnect_loop joined (snd r)
      })"

declare disconnect_loop.simps [code]

definition client_manager_disconnect_all :: "(urb_heap \<Rightarrow> urb_handler \<Rightarrow> (urb_heap \<times> urb_handler) option)
    \<Rightarrow> server_state \<Rightarrow> server_state option" where
  "client_manager_disconnect_all joined s =
     (if \<not> cm_initialized (ss_manager s) then Some s else disconnect_loop joined s)"

definition client_manager_disconnect_device_users ::
    "(urb_heap \<Rightarrow> urb_handler \<Rightarrow> (urb_heap \<times> urb_handler) option)
      \<Rightarrow> cbuf \<Rightarrow> server_state \<Rightarrow> server_state option" where
  "client_manager_disconnect_device_users joined busid s =
     (if \<not> cm_initialized (ss_manager s) then Some s
      else case client_manager_find_by_device (ss_manager s) busid of
        None \<Rightarrow> Some s
      | Some p \<Rightarrow> map_option snd (client_manager_remove joined p s))"

definition client_manager_cleanup :: "(urb_heap \<Rightarrow> urb_handler \<Rightarrow> (urb_heap \<times> urb_handler) option)
    \<Rightarrow> server_state \<Rightarrow> server_state option" where
  "client_manager_cleanup joined s =
     (if \<not> cm_initialized (ss_manager s) then Some s
      else do {
        s \<leftarrow> client_manager_disconnect_all joined s;
        Some (s\<lparr>ss_manager := (ss_manager s)\<lparr>cm_initialized := False\<rparr>\<rparr>)
      })"

fun foreach_client :: "(client_connection \<Rightarrow> 's \<Rightarrow> bool \<times> 's) \<Rightarrow> (nat \<times> client_connection) list \<Rightarrow> 's \<Rightarrow> 's" where
  "foreach_client callback [] st = st"
| "foreach_client callback ((p, c) # ns) st =
     (case callback c st of (go, st') \<Rightarrow> if go then foreach_client callback ns st' else st')"

definition client_manager_foreach :: "client_manager \<Rightarrow> (client_connection \<Rightarrow> 's \<Rightarrow> bool \<times> 's) \<Rightarrow> 's \<Rightarrow> 's" where
  "client_manager_foreach m callback st =
     (if \<not> cm_initialized m then st else foreach_client callback (cm_clients m) st)"

section \<open>Attaching and detaching\<close>

text \<open>What Windows answers while a device is attached.\<close>

record attach_env =
  ae_os :: winusb
  ae_calloc :: bool
  ae_objs1 :: "bool \<times> bool"
  ae_objs2 :: "bool \<times> bool"
  ae_thread :: bool
  ae_now :: uint64_t

definition release_and_close :: "nat \<Rightarrow> usb_device \<Rightarrow> winusb_call list \<Rightarrow> server_state \<Rightarrow> server_state" where
  "release_and_close p d tr s =
     (let (err, d) = usb_release_interface d 0; (d, tr2) = usb_close_device d
      in set_device p d (tr @ tr2) s)"

text \<open>
  The whole of \<open>client_attach_device\<close>: find, check, open, claim, create and start the handler,
  and the cleanup of each failing step. The result of the final export is ignored by the code.
\<close>

definition client_attach_device :: "attach_env \<Rightarrow> nat \<Rightarrow> cbuf \<Rightarrow> server_state
    \<Rightarrow> (error_code \<times> server_state) option" where
  "client_attach_device env client busid s = do {
     c \<leftarrow> client_at s client;
     (case found_entry (ss_list s) busid of
        None \<Rightarrow> Some (ERR_USB_NOT_FOUND, s)
      | Some (p, e) \<Rightarrow>
        if \<not> de_is_shared e then Some (ERR_USB_NOT_FOUND, s)
        else if de_state e \<noteq> DEVICE_STATE_AVAILABLE then Some (ERR_DEVICE_BUSY, s)
        else (case usb_open_device (ae_os env) (de_device e) of (err, d1, tr1) \<Rightarrow>
          if err \<noteq> ERR_SUCCESS then Some (err, set_device p d1 tr1 s)
          else (case usb_claim_interface d1 0 of (err, d2) \<Rightarrow>
            if err \<noteq> ERR_SUCCESS then
              (case usb_close_device d2 of (d3, tr2) \<Rightarrow> Some (err, set_device p d3 (tr1 @ tr2) s))
            else if \<not> ae_calloc env then
              Some (ERR_OUT_OF_MEMORY, release_and_close p d2 tr1 (set_client client (c\<lparr>cc_urb_handler := None\<rparr>) s))
            else (case urb_handler_init (ae_objs1 env) (ae_objs2 env) (Some p) zero_handler of (err, hr) \<Rightarrow>
              if err \<noteq> ERR_SUCCESS then
                Some (err, release_and_close p d2 tr1 (set_client client (c\<lparr>cc_urb_handler := None\<rparr>) s))
              else (case urb_handler_start (ae_thread env) hr of (err, hr) \<Rightarrow>
                if err \<noteq> ERR_SUCCESS then do {
                  (h, hr) \<leftarrow> urb_handler_cleanup (\<lambda>h hr. Some (h, hr)) (ss_heap s) hr;
                  Some (err, release_and_close p d2 tr1
                    (set_client client (c\<lparr>cc_urb_handler := None\<rparr>) (s\<lparr>ss_heap := h\<rparr>)))
                }
                else
                  let c = client_set_state (c\<lparr>cc_urb_handler := Some hr, cc_device := Some p,
                            cc_attached_busid := strncpy (cc_attached_busid c) busid 31\<rparr>)
                            CLIENT_STATE_ATTACHED;
                      s = set_client client c (set_device p d2 tr1 s)
                  in Some (ERR_SUCCESS, s\<lparr>ss_list := snd (device_list_export (ae_now env) busid (cc_id c)
                                             (Some (cc_ip_address c)) (ss_list s))\<rparr>))))))
   }"

definition client_detach_device :: "(urb_heap \<Rightarrow> urb_handler \<Rightarrow> (urb_heap \<times> urb_handler) option)
    \<Rightarrow> nat \<Rightarrow> server_state \<Rightarrow> (error_code \<times> server_state) option" where
  "client_detach_device joined client s = do {
     c \<leftarrow> client_at s client;
     (if char_at (cc_attached_busid c) 0 = 0 then Some (ERR_SUCCESS, s)
      else do {
        s \<leftarrow> (case cc_urb_handler c of
               None \<Rightarrow> Some s
             | Some hr \<Rightarrow> do {
                 (h, hr) \<leftarrow> urb_handler_stop joined (ss_heap s) hr;
                 (h, hr) \<leftarrow> urb_handler_cleanup joined h hr;
                 Some (s\<lparr>ss_heap := h\<rparr>)
               });
        s \<leftarrow> (case cc_device c of
               None \<Rightarrow> Some s
             | Some p \<Rightarrow> do {
                 e \<leftarrow> entry_at (ss_list s) p;
                 Some (release_and_close p (de_device e) [] s)
               });
        let s = s\<lparr>ss_list := snd (device_list_unexport (cc_attached_busid c) (ss_list s))\<rparr>;
        Some (ERR_SUCCESS, set_client client
          (client_set_state (c\<lparr>cc_urb_handler := None, cc_device := None,
             cc_attached_busid := (cc_attached_busid c)[0 := 0]\<rparr>) CLIENT_STATE_CONNECTED) s)
      })
   }"

section \<open>Requests\<close>

text \<open>
  A handler that talks to the peer returns, waits for ever, or follows a bad pointer. The two
  combinators continue after a receive (\<open>None\<close>: waits for ever) and after an operation on the
  state (\<open>None\<close>: bad pointer).
\<close>

datatype 'a outcome = Returns 'a | Waits | Faults

definition after_recv :: "'a option \<Rightarrow> ('a \<Rightarrow> 'b outcome) \<Rightarrow> 'b outcome" where
  "after_recv r f = (case r of None \<Rightarrow> Waits | Some x \<Rightarrow> f x)"

definition after_op :: "'a option \<Rightarrow> ('a \<Rightarrow> 'b outcome) \<Rightarrow> 'b outcome" where
  "after_op r f = (case r of None \<Rightarrow> Faults | Some x \<Rightarrow> f x)"

text \<open>The device list: the callback sends one device and its interfaces.\<close>

fun send_interfaces :: "usb_interface_info list \<Rightarrow> conn \<Rightarrow> bool \<times> conn" where
  "send_interfaces [] c = (True, c)"
| "send_interfaces (i # is) c =
     (case usbip_send_interface (usb_interface_to_usbip i) c of
        (err, c) \<Rightarrow> if err \<noteq> ERR_SUCCESS then (False, c) else send_interfaces is c)"

record send_devlist_data =
  sd_conn :: conn
  sd_count :: int
  sd_error :: error_code

definition send_device_callback :: "device_entry \<Rightarrow> send_devlist_data \<Rightarrow> bool \<times> send_devlist_data" where
  "send_device_callback entry data =
     (case usbip_send_device (usb_device_to_usbip (de_device entry)) (sd_conn data) of (err, c) \<Rightarrow>
        if err \<noteq> ERR_SUCCESS then (False, data\<lparr>sd_conn := c, sd_error := ERR_SOCKET_SEND\<rparr>)
        else (case send_interfaces
                (take (min (unat (dv_num_interfaces (de_device entry))) USB_MAX_INTERFACES)
                   (dv_interfaces (de_device entry))) c of
          (ok, c) \<Rightarrow>
            if \<not> ok then (False, data\<lparr>sd_conn := c, sd_error := ERR_SOCKET_SEND\<rparr>)
            else (True, data\<lparr>sd_conn := c, sd_count := sd_count data + 1\<rparr>)))"

fun count_shared :: "(nat \<times> device_entry) list \<Rightarrow> int \<Rightarrow> int" where
  "count_shared [] n = n"
| "count_shared ((p, e) # ns) n =
     count_shared ns (if de_is_shared e \<and> de_state e = DEVICE_STATE_AVAILABLE then n + 1 else n)"

definition client_send_device_list :: "server_state \<Rightarrow> conn \<Rightarrow> error_code \<times> conn" where
  "client_send_device_list s c =
     (let device_count = count_shared (dl_head (ss_list s)) 0;
          reply = usbip_create_devlist_reply (word_of_int device_count);
          ndev_net = htobe32 (dr_ndev reply)
      in case send_mem 8 (mem_header_basic (usbip_pack_header_basic (dr_header reply))) c of (err, c) \<Rightarrow>
         if err \<noteq> ERR_SUCCESS then (ERR_SOCKET_SEND, c)
         else (case send_mem 4 (mem32 ndev_net) c of (err, c) \<Rightarrow>
           if err \<noteq> ERR_SUCCESS then (ERR_SOCKET_SEND, c)
           else
             let data = device_list_foreach_shared (ss_list s) send_device_callback
                          \<lparr>sd_conn = c, sd_count = 0, sd_error = ERR_SUCCESS\<rparr>
             in (sd_error data, sd_conn data)))"

text \<open>The import request; \<open>joined\<close> is for the detach when the device record cannot be sent.\<close>

definition import_status :: "error_code \<Rightarrow> uint32_t" where
  "import_status err =
     (if err = ERR_SUCCESS then USBIP_ST_OK else if err = ERR_DEVICE_BUSY then USBIP_ST_DEV_BUSY else USBIP_ST_NA)"

definition client_device :: "nat \<Rightarrow> server_state \<Rightarrow> usb_device option" where
  "client_device client s = do {
     c \<leftarrow> client_at s client;
     p \<leftarrow> cc_device c;
     e \<leftarrow> entry_at (ss_list s) p;
     Some (de_device e)
   }"

definition client_handle_import :: "attach_env \<Rightarrow> (urb_heap \<Rightarrow> urb_handler \<Rightarrow> (urb_heap \<times> urb_handler) option)
    \<Rightarrow> nat \<Rightarrow> cbuf \<Rightarrow> server_state \<times> conn \<Rightarrow> (error_code \<times> server_state \<times> conn) outcome" where
  "client_handle_import env joined client busid sc =
     (case sc of (s, c) \<Rightarrow>
        after_op (client_attach_device env client busid s) (\<lambda>(err, s).
          let header = zero_header_basic\<lparr>hb_version := USBIP_PROTO_VERSION, hb_command := OP_REP_IMPORT,
                         hb_status := import_status err\<rparr>
          in after_op (if err = ERR_SUCCESS then map_option usb_device_to_usbip (client_device client s)
                         else Some zero_device) (\<lambda>reply_device.
             case send_mem 8 (mem_header_basic (usbip_pack_header_basic header)) c of (e1, c) \<Rightarrow>
               if e1 \<noteq> ERR_SUCCESS then Returns (ERR_SOCKET_SEND, s, c)
               else if err = ERR_SUCCESS then
                 (case send_mem 312 (mem_device (usbip_pack_device reply_device)) c of (e2, c) \<Rightarrow>
                    if e2 \<noteq> ERR_SUCCESS then
                      after_op (client_detach_device joined client s) (\<lambda>(_, s). Returns (ERR_SOCKET_SEND, s, c))
                    else Returns (err, s, c))
               else Returns (err, s, c))))"

definition client_handle_request :: "attach_env \<Rightarrow> (urb_heap \<Rightarrow> urb_handler \<Rightarrow> (urb_heap \<times> urb_handler) option)
    \<Rightarrow> nat \<Rightarrow> server_state \<times> conn \<Rightarrow> (error_code \<times> server_state \<times> conn) outcome" where
  "client_handle_request env joined client sc =
     (case sc of (s, c) \<Rightarrow>
        after_recv (usbip_recv_header_basic c) (\<lambda>(r, c).
          case r of
            Inl err \<Rightarrow> Returns (err, s, c)
          | Inr header \<Rightarrow>
              if hb_command header = OP_REQ_DEVLIST then
                (case client_send_device_list s c of (err, c) \<Rightarrow> Returns (err, s, c))
              else if hb_command header = OP_REQ_IMPORT then
                after_recv (net_recv_all 32 c) (\<lambda>(received, busid, c).
                  if received \<noteq> 32 then Returns (ERR_SOCKET_RECV, s, c)
                  else client_handle_import env joined client (busid[31 := 0]) (s, c))
              else Returns (ERR_PROTOCOL_UNSUPPORTED, s, c)))"

section \<open>Request blocks\<close>

definition client_forward_urb :: "nat option \<Rightarrow> (nat \<Rightarrow> byte list option) \<Rightarrow> uint64_t \<Rightarrow> usbip_header
    \<Rightarrow> byte list option \<Rightarrow> urb_heap \<Rightarrow> client_connection
    \<Rightarrow> (error_code \<times> urb_heap \<times> client_connection) option" where
  "client_forward_urb calloc malloc now header data h c =
     (case cc_urb_handler c of
        None \<Rightarrow> Some (ERR_INVALID_PARAM, h, c)
      | Some hr \<Rightarrow> do {
          let c = c\<lparr>cc_urbs_processed := cc_urbs_processed c + 1\<rparr>;
          (err, h, hr) \<leftarrow> urb_handler_submit calloc malloc now header data h hr;
          Some (err, h, c\<lparr>cc_urb_handler := Some hr\<rparr>)
        })"

definition client_send_urb_completion :: "urb_entry \<Rightarrow> client_connection \<Rightarrow> conn
    \<Rightarrow> error_code \<times> client_connection \<times> conn" where
  "client_send_urb_completion entry cl c =
     (case usbip_send_urb_header (urb_handler_create_return entry) c of (err, c) \<Rightarrow>
        if err \<noteq> ERR_SUCCESS then (err, cl, c)
        else
          let u = ue_urb entry
          in if ub_direction u = ucast USBIP_DIR_IN \<and> ub_actual_length u > 0 then
               (case usbip_send_urb_data (take (unat (ub_actual_length u)) (urb_data u)) c of (err, c) \<Rightarrow>
                  if err \<noteq> ERR_SUCCESS then (err, cl, c)
                  else (ERR_SUCCESS, cl\<lparr>cc_bytes_sent := cc_bytes_sent cl + ucast (ub_actual_length u)\<rparr>, c))
             else (ERR_SUCCESS, cl, c))"

section \<open>Attachment invariant\<close>

text \<open>Opening, claiming, releasing and closing leave the identity of a device alone.\<close>

lemma usb_device_busid [simp]:
  "usb_open_device os d = (err, d', tr) \<Longrightarrow> dv_busid d' = dv_busid d"
  "usb_claim_interface d n = (err, d') \<Longrightarrow> dv_busid d' = dv_busid d"
  "usb_release_interface d n = (err, d') \<Longrightarrow> dv_busid d' = dv_busid d"
  "usb_close_device d = (d', tr) \<Longrightarrow> dv_busid d' = dv_busid d"
  by (auto simp: usb_open_device_def open_virtual_def usb_claim_interface_def usb_release_interface_def
      usb_close_device_def Let_def split: if_splits option.splits prod.splits)

definition attached :: "client_connection \<Rightarrow> bool" where
  "attached c \<longleftrightarrow> char_at (cc_attached_busid c) 0 \<noteq> 0"

text \<open>
  The buffers are well formed, an attached client points to the entry found under its
  identifier, which is exported to it, and a client that is not attached has no pointer.
\<close>

definition client_ok :: "device_list \<Rightarrow> client_connection \<Rightarrow> bool" where
  "client_ok l c \<longleftrightarrow>
     length (cc_attached_busid c) = 32 \<and> cc_attached_busid c ! 31 = 0 \<and>
     cc_state c = (if attached c then CLIENT_STATE_ATTACHED else CLIENT_STATE_CONNECTED) \<and>
     (if attached c then
        (case found_entry l (cc_attached_busid c) of
           None \<Rightarrow> False
         | Some (p, e) \<Rightarrow> cc_device c = Some p \<and> de_state e = DEVICE_STATE_EXPORTED \<and> de_client_id e = cc_id c)
      else cc_device c = None)"

definition no_sharing :: "(nat \<times> client_connection) list \<Rightarrow> bool" where
  "no_sharing ns \<longleftrightarrow>
     (\<forall>n\<in>set ns. \<forall>n'\<in>set ns.
        attached (snd n) \<and> attached (snd n') \<and> streq (cc_attached_busid (snd n)) (cc_attached_busid (snd n')) \<longrightarrow>
        fst n = fst n')"

definition attach_inv :: "server_state \<Rightarrow> bool" where
  "attach_inv s \<longleftrightarrow>
     dl_inv (ss_list s) \<and> dl_lookup (ss_list s) [] = None \<and>
     distinct (map fst (cm_clients (ss_manager s))) \<and>
     cm_client_count (ss_manager s) = int (length (cm_clients (ss_manager s))) \<and>
     (\<forall>n\<in>set (cm_clients (ss_manager s)). client_ok (ss_list s) (snd n)) \<and>
     no_sharing (cm_clients (ss_manager s))"

text \<open>What a change of the list has to respect for the clients other than one.\<close>

lemma client_ok_mono:
  assumes "client_ok l c"
    and "attached c \<Longrightarrow> map_option (\<lambda>(p, e). (p, de_state e, de_client_id e)) (found_entry l' (cc_attached_busid c)) =
      map_option (\<lambda>(p, e). (p, de_state e, de_client_id e)) (found_entry l (cc_attached_busid c))"
  shows "client_ok l' c"
  using assms by (auto simp: client_ok_def split: option.splits if_splits)

lemma map_of_set_client:
  "distinct (map fst ns) \<Longrightarrow> n \<in> set (map (\<lambda>(q, d). (q, if q = p then c else d)) ns) \<Longrightarrow>
   n = (p, c) \<or> n \<in> set ns \<and> fst n \<noteq> p"
  by (auto split: if_splits)

lemma set_client_simps [simp]:
  "ss_list (set_client p c s) = ss_list s" "ss_heap (set_client p c s) = ss_heap s"
  "ss_usb (set_client p c s) = ss_usb s" "ss_net (set_client p c s) = ss_net s"
  "cm_client_count (ss_manager (set_client p c s)) = cm_client_count (ss_manager s)"
  "length (cm_clients (ss_manager (set_client p c s))) = length (cm_clients (ss_manager s))"
  "map fst (cm_clients (ss_manager (set_client p c s))) = map fst (cm_clients (ss_manager s))"
  by (simp_all add: set_client_def comp_def split_beta)

lemma set_device_simps [simp]:
  "ss_manager (set_device p d tr s) = ss_manager s" "ss_heap (set_device p d tr s) = ss_heap s"
  "ss_net (set_device p d tr s) = ss_net s" "client_at (set_device p d tr s) = client_at s"
  by (simp_all add: set_device_def client_at_def fun_eq_iff)

lemma client_at_mem: "client_at s p = Some c \<Longrightarrow> (p, c) \<in> set (cm_clients (ss_manager s))"
  by (simp add: client_at_def map_of_SomeD)

text \<open>
  The general step: one client and one part of the list change, every other client keeps its
  entry.
\<close>

lemma attach_inv_update:
  assumes inv: "attach_inv s" and cl: "client_at s p = Some c0"
    and "dl_inv l'" and "dl_lookup l' [] = None" and "client_ok l' c"
    and others: "\<And>q d. (q, d) \<in> set (cm_clients (ss_manager s)) \<Longrightarrow> q \<noteq> p \<Longrightarrow> attached d \<Longrightarrow>
      map_option (\<lambda>(p, e). (p, de_state e, de_client_id e)) (found_entry l' (cc_attached_busid d)) =
      map_option (\<lambda>(p, e). (p, de_state e, de_client_id e)) (found_entry (ss_list s) (cc_attached_busid d)) \<and>
      (attached c \<longrightarrow> \<not> streq (cc_attached_busid c) (cc_attached_busid d))"
  shows "attach_inv (set_client p c s\<lparr>ss_list := l', ss_heap := h, ss_usb := u, ss_net := t\<rparr>)"
proof -
  let ?ns = "cm_clients (ss_manager s)"
  have d: "distinct (map fst ?ns)" using inv by (simp add: attach_inv_def)
  have m: "n = (p, c) \<or> n \<in> set ?ns \<and> fst n \<noteq> p" if "n \<in> set (cm_clients (ss_manager (set_client p c s)))" for n
    using map_of_set_client[OF d] that by (auto simp: set_client_def)
  have ok: "client_ok l' (snd n)" if "n \<in> set ?ns" "fst n \<noteq> p" for n
  proof (rule client_ok_mono)
    show "client_ok (ss_list s) (snd n)" using inv that(1) by (simp add: attach_inv_def)
  qed (use that others[of "fst n" "snd n"] in simp)
  have uniq: "fst n = fst n'" if "n \<in> set ?ns" "n' \<in> set ?ns" "attached (snd n)" "attached (snd n')"
      "streq (cc_attached_busid (snd n)) (cc_attached_busid (snd n'))" for n n'
    using inv that unfolding attach_inv_def no_sharing_def by blast
  have other: "attached c \<Longrightarrow> attached (snd n) \<Longrightarrow> \<not> streq (cc_attached_busid c) (cc_attached_busid (snd n))"
    if "n \<in> set ?ns" "fst n \<noteq> p" for n
    using others[of "fst n" "snd n"] that by simp
  have *: "\<forall>n\<in>set (cm_clients (ss_manager (set_client p c s))). client_ok l' (snd n)"
    using m ok assms(5) by fastforce
  have **: "no_sharing (cm_clients (ss_manager (set_client p c s)))"
    unfolding no_sharing_def
  proof (intro ballI impI)
    fix n n' assume a: "n \<in> set (cm_clients (ss_manager (set_client p c s)))"
      "n' \<in> set (cm_clients (ss_manager (set_client p c s)))"
      "attached (snd n) \<and> attached (snd n') \<and> streq (cc_attached_busid (snd n)) (cc_attached_busid (snd n'))"
    from m[OF a(1)] m[OF a(2)] show "fst n = fst n'"
    proof (elim disjE)
      assume "n = (p, c)" "n' \<in> set ?ns \<and> fst n' \<noteq> p"
      then show ?thesis using other[of n'] a(3) by simp
    next
      assume "n \<in> set ?ns \<and> fst n \<noteq> p" "n' = (p, c)"
      then show ?thesis using other[of n] a(3) by (simp add: streq_def)
    next
      assume "n \<in> set ?ns \<and> fst n \<noteq> p" "n' \<in> set ?ns \<and> fst n' \<noteq> p"
      then show ?thesis using uniq[of n n'] a(3) by blast
    qed simp
  qed
  let ?s = "set_client p c s\<lparr>ss_list := l', ss_heap := h, ss_usb := u, ss_net := t\<rparr>"
  have eq: "ss_manager ?s = ss_manager (set_client p c s)" "ss_list ?s = l'" by simp_all
  have "cm_client_count (ss_manager s) = int (length ?ns)" using inv by (simp add: attach_inv_def)
  then have "cm_client_count (ss_manager (set_client p c s)) = int (length (cm_clients (ss_manager (set_client p c s))))"
    "distinct (map fst (cm_clients (ss_manager (set_client p c s))))" using d by simp_all
  then show ?thesis unfolding attach_inv_def eq using assms(3,4) * ** by blast
qed

abbreviation link_view :: "device_list \<Rightarrow> cbuf \<Rightarrow> (nat \<times> device_state \<times> uint32_t) option" where
  "link_view l b \<equiv> map_option (\<lambda>(p, e). (p, de_state e, de_client_id e)) (found_entry l b)"

lemma attach_inv_list:
  assumes "attach_inv s" and "dl_inv l'" and "dl_lookup l' [] = None"
    and "\<And>q d. (q, d) \<in> set (cm_clients (ss_manager s)) \<Longrightarrow> attached d \<Longrightarrow>
      link_view l' (cc_attached_busid d) = link_view (ss_list s) (cc_attached_busid d)"
  shows "attach_inv (s\<lparr>ss_list := l'\<rparr>)"
proof -
  have "client_ok l' (snd n)" if "n \<in> set (cm_clients (ss_manager s))" for n
  proof (rule client_ok_mono)
    show "client_ok (ss_list s) (snd n)" using assms(1) that by (simp add: attach_inv_def)
  qed (use that assms(4)[of "fst n" "snd n"] in simp)
  then show ?thesis using assms(1-3) by (simp add: attach_inv_def)
qed

lemma attach_inv_frame [simp]:
  "attach_inv (s\<lparr>ss_heap := h\<rparr>) = attach_inv s" "attach_inv (s\<lparr>ss_usb := u\<rparr>) = attach_inv s"
  "attach_inv (s\<lparr>ss_net := t\<rparr>) = attach_inv s"
  by (simp_all add: attach_inv_def)

lemma attach_inv_device:
  assumes inv: "attach_inv s" and fe: "found_entry (ss_list s) b = Some (p, e)" and "dv_busid d = dv_busid (de_device e)"
  shows "attach_inv (set_device p d tr s)"
    and "found_entry (ss_list (set_device p d tr s)) b' =
      (if cstr b' = cstr b then Some (p, e\<lparr>de_device := d\<rparr>) else found_entry (ss_list s) b')"
proof -
  let ?f = "\<lambda>e :: device_entry. e\<lparr>de_device := d\<rparr>"
  have l: "dl_inv (ss_list s)" "dl_lookup (ss_list s) [] = None" using inv by (simp_all add: attach_inv_def)
  have "entry_ok e" using unexport.found_ok[OF l(1) fe] .
  then have f: "busid_of (?f e) = busid_of e" "entry_ok (?f e)"
    using assms(3) by (simp_all add: busid_of_def entry_ok_def)
  note st = set_found_entry[where f = ?f, OF l(1) fe f] found_entry_set[where f = ?f, OF l(1) fe f]
  have n: "cstr b \<noteq> []"
    using l(2) fe found_entry_lookup[of "ss_list s" b] l(1) dl_lookup_cong[of b "[]" "ss_list s"]
    by (auto simp: dl_inv_def)
  show fs: "found_entry (ss_list (set_device p d tr s)) b' =
      (if cstr b' = cstr b then Some (p, e\<lparr>de_device := d\<rparr>) else found_entry (ss_list s) b')" for b'
    using st(3) by (simp add: set_device_def)
  have "attach_inv (s\<lparr>ss_list := set_entry (ss_list s) p ?f\<rparr>)"
  proof (rule attach_inv_list[OF inv])
    show "dl_inv (set_entry (ss_list s) p ?f)" by (rule st(1))
    show "dl_lookup (set_entry (ss_list s) p ?f) [] = None" using st(2)[of "[]"] l(2) n by simp
    fix q d'
    show "link_view (set_entry (ss_list s) p ?f) (cc_attached_busid d') = link_view (ss_list s) (cc_attached_busid d')"
      using st(3) fe found_entry_cong[of "cc_attached_busid d'" b "ss_list s"] by auto
  qed
  then show "attach_inv (set_device p d tr s)" by (simp add: set_device_def)
qed

lemma attach_inv_handler:
  assumes inv: "attach_inv s" and cl: "client_at s p = Some c"
  shows "attach_inv (set_client p (c\<lparr>cc_urb_handler := x\<rparr>) s)"
proof -
  have ok: "client_ok (ss_list s) c" using inv client_at_mem[OF cl] by (force simp: attach_inv_def)
  have "attach_inv (set_client p (c\<lparr>cc_urb_handler := x\<rparr>) s\<lparr>ss_list := ss_list s, ss_heap := ss_heap s,
      ss_usb := ss_usb s, ss_net := ss_net s\<rparr>)"
  proof (rule attach_inv_update[OF inv cl])
    show "client_ok (ss_list s) (c\<lparr>cc_urb_handler := x\<rparr>)" using ok
      by (auto simp: client_ok_def attached_def split: option.splits if_splits)
    fix q d assume d: "(q, d) \<in> set (cm_clients (ss_manager s))" "q \<noteq> p" "attached d"
    have "fst (p, c) = fst (q, d)" if "attached c" "streq (cc_attached_busid c) (cc_attached_busid d)"
      using inv client_at_mem[OF cl] d(1,3) that unfolding attach_inv_def no_sharing_def by (metis snd_conv)
    then show "link_view (ss_list s) (cc_attached_busid d) = link_view (ss_list s) (cc_attached_busid d) \<and>
        (attached (c\<lparr>cc_urb_handler := x\<rparr>) \<longrightarrow>
          \<not> streq (cc_attached_busid (c\<lparr>cc_urb_handler := x\<rparr>)) (cc_attached_busid d))"
      using d(2) by (auto simp: attached_def)
  qed (use inv in \<open>simp_all add: attach_inv_def\<close>)
  then show ?thesis by (simp add: set_client_def)
qed

lemma release_and_close_eq:
  obtains d' tr' where "\<And>s. release_and_close p d tr s = set_device p d' tr' s" and "dv_busid d' = dv_busid d"
proof -
  obtain err d1 where r: "usb_release_interface d 0 = (err, d1)" by fastforce
  obtain d2 tr2 where c: "usb_close_device d1 = (d2, tr2)" by fastforce
  show thesis using r c by (intro that[of d2 "tr @ tr2"]) (simp_all add: release_and_close_def)
qed

lemma attach_inv_release:
  assumes "attach_inv s" and "found_entry (ss_list s) b = Some (p, e)" and "dv_busid d = dv_busid (de_device e)"
  shows "attach_inv (release_and_close p d tr s)"
  using attach_inv_device(1)[OF assms(1,2)] assms(3) by (metis release_and_close_eq)

text \<open>The success branch of attaching, after the device was opened and claimed.\<close>

lemma attach_inv_success:
  assumes inv: "attach_inv s" and cl: "client_at s client = Some c"
    and fe: "found_entry (ss_list s) busid = Some (p, e)" and av: "de_state e = DEVICE_STATE_AVAILABLE"
    and c': "c' = c\<lparr>cc_urb_handler := hr, cc_device := Some p,
      cc_attached_busid := strncpy (cc_attached_busid c) busid 31, cc_state := CLIENT_STATE_ATTACHED\<rparr>"
    and l': "l' = snd (device_list_export now busid (cc_id c) ip (ss_list s))"
  shows "attach_inv (set_client client c' s\<lparr>ss_list := l'\<rparr>)" and "attached c'"
    and "streq (cc_attached_busid c') busid"
proof -
  have l: "dl_inv (ss_list s)" "dl_lookup (ss_list s) [] = None" using inv by (simp_all add: attach_inv_def)
  have ok: "client_ok (ss_list s) c" using inv client_at_mem[OF cl] by (force simp: attach_inv_def)
  have d: "distinct (map fst (dl_head (ss_list s)))" using l(1) by (simp add: dl_inv_def)
  have lk: "dl_lookup (ss_list s) busid = Some e" using fe by (simp add: found_entry_lookup[OF d])
  then have b: "busid_of e = cstr busid" "length (cstr busid) \<le> 31" "cstr busid \<noteq> []"
    using dl_lookup_busid[OF lk] unexport.found_ok[OF l(1) fe] l(2) dl_lookup_cong[of busid "[]" "ss_list s"]
    by (auto simp: entry_ok_def strlen_def busid_of_def)
  have len: "length (cc_attached_busid c) = 32" "cc_attached_busid c ! 31 = 0" using ok by (auto simp: client_ok_def)
  have dr: "drop 31 (cc_attached_busid c) = [0]"
    using len Cons_nth_drop_Suc[of 31 "cc_attached_busid c"] by simp
  show st: "streq (cc_attached_busid c') busid"
    using cstr_strncpy[of 31 "cc_attached_busid c" busid] len dr b(2) by (simp add: c' streq_def)
  then show att: "attached c'" using b(3) by (simp add: attached_def streq_def flip: cstr_eq_Nil_iff)
  have l31: "length (cc_attached_busid c') = 32" "cc_attached_busid c' ! 31 = 0"
    using len dr by (simp_all add: c' strncpy_def Let_def nth_append)
  have fd: "found_entry l' b' = (if cstr b' = cstr busid then Some (p, export_change now (cc_id c) ip e)
      else found_entry (ss_list s) b')" for b'
    unfolding l' export.found[OF l(1)] by (simp add: fe av export_check_def)
  have "attach_inv (set_client client c' s\<lparr>ss_list := l', ss_heap := ss_heap s, ss_usb := ss_usb s, ss_net := ss_net s\<rparr>)"
  proof (rule attach_inv_update[OF inv cl])
    show "dl_inv l'" unfolding l' by (rule export.keeps_inv[OF l(1)])
    show "dl_lookup l' [] = None" unfolding l' export.lookup[OF l(1)] using l(2) b(3) by simp
    show "client_ok l' c'"
      using l31 att st by (simp add: client_ok_def fd streq_def) (simp add: c' export_change_def)
    fix q d assume d: "(q, d) \<in> set (cm_clients (ss_manager s))" "q \<noteq> client" "attached d"
    have "client_ok (ss_list s) d" using inv d(1) by (force simp: attach_inv_def)
    then have "cstr (cc_attached_busid d) \<noteq> cstr busid"
      using d(3) fe av found_entry_cong[of "cc_attached_busid d" busid "ss_list s"] by (auto simp: client_ok_def)
    then show "link_view l' (cc_attached_busid d) = link_view (ss_list s) (cc_attached_busid d) \<and>
        (attached c' \<longrightarrow> \<not> streq (cc_attached_busid c') (cc_attached_busid d))"
      using st by (auto simp: fd streq_def)
  qed
  then show "attach_inv (set_client client c' s\<lparr>ss_list := l'\<rparr>)" by (simp add: set_client_def)
qed

text \<open>The ways attaching can end.\<close>

lemma client_attach_cases:
  assumes cl: "client_at s client = Some c" and r: "client_attach_device env client busid s = Some (err, s')"
  obtains
    (refused) "s' = s" and "err \<noteq> ERR_SUCCESS"
  | (not_opened) p e d1 tr1 where "found_entry (ss_list s) busid = Some (p, e)"
      and "de_state e = DEVICE_STATE_AVAILABLE" and "usb_open_device (ae_os env) (de_device e) = (err, d1, tr1)"
      and "err \<noteq> ERR_SUCCESS" and "s' = set_device p d1 tr1 s"
  | (not_claimed) p e d1 tr1 d2 d3 tr2 where "found_entry (ss_list s) busid = Some (p, e)"
      and "de_state e = DEVICE_STATE_AVAILABLE" and "usb_open_device (ae_os env) (de_device e) = (ERR_SUCCESS, d1, tr1)"
      and "usb_claim_interface d1 0 = (err, d2)" and "err \<noteq> ERR_SUCCESS"
      and "usb_close_device d2 = (d3, tr2)" and "s' = set_device p d3 (tr1 @ tr2) s"
  | (no_handler) p e d1 tr1 d2 h where "found_entry (ss_list s) busid = Some (p, e)"
      and "de_state e = DEVICE_STATE_AVAILABLE" and "usb_open_device (ae_os env) (de_device e) = (ERR_SUCCESS, d1, tr1)"
      and "usb_claim_interface d1 0 = (ERR_SUCCESS, d2)" and "err \<noteq> ERR_SUCCESS"
      and "s' = release_and_close p d2 tr1 (set_client client (c\<lparr>cc_urb_handler := None\<rparr>) (s\<lparr>ss_heap := h\<rparr>))"
  | (success) p e d1 tr1 d2 hr c' where "found_entry (ss_list s) busid = Some (p, e)"
      and "de_state e = DEVICE_STATE_AVAILABLE" and "usb_open_device (ae_os env) (de_device e) = (ERR_SUCCESS, d1, tr1)"
      and "usb_claim_interface d1 0 = (ERR_SUCCESS, d2)" and "err = ERR_SUCCESS"
      and "c' = c\<lparr>cc_urb_handler := Some hr, cc_device := Some p,
        cc_attached_busid := strncpy (cc_attached_busid c) busid 31, cc_state := CLIENT_STATE_ATTACHED\<rparr>"
      and "s' = set_client client c' (set_device p d2 tr1 s)\<lparr>ss_list :=
        snd (device_list_export (ae_now env) busid (cc_id c) (Some (cc_ip_address c)) (ss_list (set_device p d2 tr1 s)))\<rparr>"
proof (cases "found_entry (ss_list s) busid")
  case None
  then show thesis using r cl refused by (auto simp: client_attach_device_def)
next
  case (Some pe)
  obtain p e where pe: "pe = (p, e)" by fastforce
  note fe = Some[unfolded pe]
  obtain err1 d1 tr1 where op: "usb_open_device (ae_os env) (de_device e) = (err1, d1, tr1)" by (metis prod_cases3)
  obtain err2 d2 where cm: "usb_claim_interface d1 0 = (err2, d2)" by fastforce
  obtain d3 tr2 where cd: "usb_close_device d2 = (d3, tr2)" by fastforce
  obtain err3 hr where ih: "urb_handler_init (ae_objs1 env) (ae_objs2 env) (Some p) zero_handler = (err3, hr)" by fastforce
  obtain err4 hr4 where sh: "urb_handler_start (ae_thread env) hr = (err4, hr4)" by fastforce
  note r' = r[unfolded client_attach_device_def cl, simplified, unfolded fe, simplified, unfolded op, simplified,
      unfolded cm, simplified, unfolded cd ih, simplified, unfolded sh, simplified]
  have h: "s = s\<lparr>ss_heap := ss_heap s\<rparr>" by simp
  consider "\<not> de_is_shared e \<or> de_state e \<noteq> DEVICE_STATE_AVAILABLE"
    | "de_is_shared e" "de_state e = DEVICE_STATE_AVAILABLE" "err1 \<noteq> ERR_SUCCESS"
    | "de_is_shared e" "de_state e = DEVICE_STATE_AVAILABLE" "err1 = ERR_SUCCESS" "err2 \<noteq> ERR_SUCCESS"
    | "de_is_shared e" "de_state e = DEVICE_STATE_AVAILABLE" "err1 = ERR_SUCCESS" "err2 = ERR_SUCCESS"
      "\<not> ae_calloc env \<or> err3 \<noteq> ERR_SUCCESS"
    | "de_is_shared e" "de_state e = DEVICE_STATE_AVAILABLE" "err1 = ERR_SUCCESS" "err2 = ERR_SUCCESS"
      "ae_calloc env" "err3 = ERR_SUCCESS" "err4 \<noteq> ERR_SUCCESS"
    | "de_is_shared e" "de_state e = DEVICE_STATE_AVAILABLE" "err1 = ERR_SUCCESS" "err2 = ERR_SUCCESS"
      "ae_calloc env" "err3 = ERR_SUCCESS" "err4 = ERR_SUCCESS" by blast
  then show thesis
  proof cases
    case 1 then show ?thesis using r' refused by (auto split: if_splits)
  next
    case 2 then show ?thesis using r' op fe by (intro not_opened[of p e d1 tr1]) auto
  next
    case 3 then show ?thesis using r' op cm cd fe by (intro not_claimed[of p e d1 tr1 d2 d3 tr2]) auto
  next
    case 4 then show ?thesis using r' op cm fe by (intro no_handler[of p e d1 tr1 d2 "ss_heap s"]) (auto split: if_splits)
  next
    case 5
    then obtain h hr' where "urb_handler_cleanup (\<lambda>h hr. Some (h, hr)) (ss_heap s) hr4 = Some (h, hr')"
      using r' cm sh by (auto split: bind_splits)
    with 5 show ?thesis using r' op cm sh fe by (intro no_handler[of p e d1 tr1 d2 h]) auto
  next
    case 6 then show ?thesis using r' op cm sh fe
      by (intro success[of p e d1 tr1 d2 _ hr4]) (auto simp: client_set_state_def Let_def)
  qed
qed

text \<open>
  Attaching keeps the invariant, whatever the branch; a device the client had before stays
  exported to it.
\<close>

lemma client_attach_inv:
  assumes inv: "attach_inv s" and cl: "client_at s client = Some c"
    and r: "client_attach_device env client busid s = Some (err, s')"
  shows "attach_inv s'"
  using cl r
proof (cases rule: client_attach_cases)
  case (not_opened p e d1 tr1)
  then show ?thesis using attach_inv_device(1)[OF inv not_opened(1)] by simp
next
  case (not_claimed p e d1 tr1 d2 d3 tr2)
  then have "dv_busid d3 = dv_busid (de_device e)" by simp
  then show ?thesis using attach_inv_device(1)[OF inv not_claimed(1)] not_claimed(7) by simp
next
  case (no_handler p e d1 tr1 d2 h)
  have "attach_inv (s\<lparr>ss_heap := h\<rparr>)" using inv by simp
  moreover have "client_at (s\<lparr>ss_heap := h\<rparr>) client = Some c" using cl by (simp add: client_at_def)
  ultimately have "attach_inv (set_client client (c\<lparr>cc_urb_handler := None\<rparr>) (s\<lparr>ss_heap := h\<rparr>))" by (rule attach_inv_handler)
  then show ?thesis unfolding no_handler(6) by (rule attach_inv_release) (use no_handler in simp_all)
next
  case (success p e d1 tr1 d2 hr c')
  have b: "dv_busid d2 = dv_busid (de_device e)" using success(3,4) by simp
  show ?thesis unfolding success(7)
  proof (rule attach_inv_success(1)[OF attach_inv_device(1)[OF inv success(1) b] _ _ _ success(6) refl])
    show "client_at (set_device p d2 tr1 s) client = Some c" using cl by simp
    show "found_entry (ss_list (set_device p d2 tr1 s)) busid = Some (p, e\<lparr>de_device := d2\<rparr>)"
      using attach_inv_device(2)[OF inv success(1) b] by simp
  qed (use success in simp)
qed (use inv in simp)

lemma attach_inv_client_ok: "attach_inv s \<Longrightarrow> client_at s p = Some c \<Longrightarrow> client_ok (ss_list s) c"
  using client_at_mem by (force simp: attach_inv_def)

lemma attached_entry:
  assumes "client_ok l c" and "attached c"
  obtains p e where "found_entry l (cc_attached_busid c) = Some (p, e)" and "entry_at l p = Some e"
    and "cc_device c = Some p" and "de_state e = DEVICE_STATE_EXPORTED" and "de_client_id e = cc_id c"
  using assms by (auto simp: client_ok_def found_entry_def split: option.splits)

lemma other_client_differs:
  assumes "attach_inv s" and "(p, c) \<in> set (cm_clients (ss_manager s))" "(q, d) \<in> set (cm_clients (ss_manager s))"
    and "q \<noteq> p" and "attached c" and "attached d"
  shows "cstr (cc_attached_busid d) \<noteq> cstr (cc_attached_busid c)"
  using assms unfolding attach_inv_def no_sharing_def streq_def by (metis fst_conv snd_conv)

text \<open>Withdrawing the export of one client's device keeps what the other clients see.\<close>

lemma unexport_others:
  assumes inv: "attach_inv s" and c: "(p, c) \<in> set (cm_clients (ss_manager s))" "attached c"
    and d: "(q, d) \<in> set (cm_clients (ss_manager s))" "q \<noteq> p" "attached d"
  shows "link_view (snd (device_list_unexport (cc_attached_busid c) (ss_list s))) (cc_attached_busid d) =
    link_view (ss_list s) (cc_attached_busid d)"
proof -
  have "dl_inv (ss_list s)" using inv by (simp add: attach_inv_def)
  from unexport.found[OF this] show ?thesis
    using other_client_differs[OF inv c(1) d(1,2) c(2) d(3)] by simp
qed

lemma unexport_list_inv:
  assumes "attach_inv s"
  shows "dl_inv (snd (device_list_unexport b (ss_list s)))"
    and "dl_lookup (snd (device_list_unexport b (ss_list s))) [] = None"
proof -
  have l: "dl_inv (ss_list s)" "dl_lookup (ss_list s) [] = None" using assms by (simp_all add: attach_inv_def)
  show "dl_inv (snd (device_list_unexport b (ss_list s)))" by (rule unexport.keeps_inv[OF l(1)])
  show "dl_lookup (snd (device_list_unexport b (ss_list s))) [] = None"
    using l(2) dl_lookup_cong[of "[]" b "ss_list s"] by (auto simp: unexport.lookup[OF l(1)])
qed

lemma set_client_list: "set_client p c (s\<lparr>ss_list := l\<rparr>) = set_client p c s\<lparr>ss_list := l\<rparr>"
  by (simp add: set_client_def)

lemma client_detach_inv:
  assumes inv: "attach_inv s" and r: "client_detach_device joined client s = Some (err, s')"
  shows "attach_inv s'"
proof (cases "\<exists>c. client_at s client = Some c \<and> attached c")
  case False
  then show ?thesis using r inv
    by (auto simp: client_detach_device_def attached_def split: bind_splits if_splits)
next
  case True
  then obtain c where cl: "client_at s client = Some c" and at: "attached c" by auto
  let ?b = "cc_attached_busid c"
  obtain p e where e: "found_entry (ss_list s) ?b = Some (p, e)" "entry_at (ss_list s) p = Some e" "cc_device c = Some p"
    by (rule attached_entry[OF attach_inv_client_ok[OF inv cl] at])
  obtain d tr where rc: "release_and_close p (de_device e) [] t = set_device p d tr t" "dv_busid d = dv_busid (de_device e)" for t
    using release_and_close_eq[of p "de_device e" "[]"] by metis
  let ?c = "client_set_state (c\<lparr>cc_urb_handler := None, cc_device := None, cc_attached_busid := ?b[0 := 0]\<rparr>)
      CLIENT_STATE_CONNECTED"
  obtain h where s': "s' = set_client client ?c ((set_device p d tr (s\<lparr>ss_heap := h\<rparr>))
      \<lparr>ss_list := snd (device_list_unexport ?b (ss_list (set_device p d tr (s\<lparr>ss_heap := h\<rparr>))))\<rparr>)"
  proof -
    note * = r[unfolded client_detach_device_def cl] at[unfolded attached_def] e(2,3)
    show thesis
    proof (cases "cc_urb_handler c")
      case None
      show thesis by (rule that[of "ss_heap s"]) (use * None in \<open>simp add: rc(1) Let_def\<close>)
    next
      case (Some hr)
      then obtain h1 hr1 h2 hr2 where "urb_handler_stop joined (ss_heap s) hr = Some (h1, hr1)"
        "urb_handler_cleanup joined h1 hr1 = Some (h2, hr2)" using * by (auto split: bind_splits)
      then show thesis by (intro that[of h2]) (use * Some in \<open>simp add: rc(1) Let_def\<close>)
    qed
  qed
  let ?s = "set_device p d tr (s\<lparr>ss_heap := h\<rparr>)"
  have i: "attach_inv (s\<lparr>ss_heap := h\<rparr>)" using inv by simp
  have fe: "found_entry (ss_list (s\<lparr>ss_heap := h\<rparr>)) ?b = Some (p, e)" using e(1) by simp
  note i2 = attach_inv_device[OF i fe rc(2), of tr]
  have cl2: "client_at ?s client = Some c" using cl by (simp add: client_at_def)
  have "attach_inv (set_client client ?c ?s\<lparr>ss_list := snd (device_list_unexport ?b (ss_list ?s)), ss_heap := ss_heap ?s,
      ss_usb := ss_usb ?s, ss_net := ss_net ?s\<rparr>)"
  proof (rule attach_inv_update[OF i2(1) cl2 unexport_list_inv[OF i2(1)]])
    have "\<not> attached ?c" by (simp add: client_set_state_def attached_def char_at_def nth_list_update)
    then show "client_ok (snd (device_list_unexport ?b (ss_list ?s))) ?c"
      using attach_inv_client_ok[OF inv cl] by (auto simp: client_ok_def client_set_state_def)
    fix q d' assume "(q, d') \<in> set (cm_clients (ss_manager ?s))" "q \<noteq> client" "attached d'"
    from unexport_others[OF i2(1) client_at_mem[OF cl2] at this] \<open>\<not> attached ?c\<close>
    show "link_view (snd (device_list_unexport ?b (ss_list ?s))) (cc_attached_busid d') =
        link_view (ss_list ?s) (cc_attached_busid d') \<and>
        (attached ?c \<longrightarrow> \<not> streq (cc_attached_busid ?c) (cc_attached_busid d'))" by simp
  qed
  then show ?thesis unfolding s' set_client_list by simp
qed

lemma filter_fst_absent: "p \<notin> fst ` set ns \<Longrightarrow> filter (\<lambda>n. fst n \<noteq> p) ns = ns"
  by (induction ns) auto

lemma unlink_client_eq:
  "distinct (map fst ns) \<Longrightarrow> unlink_client p ns = (filter (\<lambda>n. fst n \<noteq> p) ns, map_of ns p)"
proof (induction p ns rule: unlink_client.induct)
  case (2 p q c ns)
  have "filter (\<lambda>n. fst n \<noteq> p) ns = ns" if "q = p" using 2(2) that by (simp add: filter_fst_absent)
  then show ?case using 2 by auto
qed simp

lemma length_filter_fst:
  "distinct (map fst ns) \<Longrightarrow> map_of ns p = Some c \<Longrightarrow> Suc (length (filter (\<lambda>n. fst n \<noteq> p) ns)) = length ns"
proof (induction ns)
  case (Cons n ns)
  have "filter (\<lambda>m. fst m \<noteq> p) ns = ns" if "fst n = p" using Cons.prems(1) that by (auto simp: filter_fst_absent)
  then show ?case using Cons by (cases n) (auto split: if_splits)
qed simp

text \<open>Unlinking a client and withdrawing its export, before its resources are freed.\<close>

lemma attach_inv_unlink:
  assumes inv: "attach_inv s" and cl: "client_at s client = Some c"
    and l': "l' = (if attached c then snd (device_list_unexport (cc_attached_busid c) (ss_list s)) else ss_list s)"
  shows "attach_inv (s\<lparr>ss_manager := (ss_manager s)\<lparr>cm_clients := filter (\<lambda>n. fst n \<noteq> client) (cm_clients (ss_manager s)),
      cm_client_count := cm_client_count (ss_manager s) - 1\<rparr>, ss_list := l'\<rparr>)"
proof -
  let ?ns = "cm_clients (ss_manager s)" and ?ns' = "filter (\<lambda>n. fst n \<noteq> client) (cm_clients (ss_manager s))"
  have l: "dl_inv l'" "dl_lookup l' [] = None"
    using inv unexport_list_inv[OF inv, of "cc_attached_busid c"] by (auto simp: l' attach_inv_def)
  have ok: "client_ok l' (snd n)" if "n \<in> set ?ns'" for n
  proof (rule client_ok_mono)
    show "client_ok (ss_list s) (snd n)" using inv that by (simp add: attach_inv_def)
    assume "attached (snd n)"
    then show "link_view l' (cc_attached_busid (snd n)) = link_view (ss_list s) (cc_attached_busid (snd n))"
      using unexport_others[OF inv client_at_mem[OF cl], of "fst n" "snd n"] that by (simp add: l')
  qed
  have "no_sharing ?ns'" using inv by (auto simp: attach_inv_def no_sharing_def)
  moreover have d: "distinct (map fst ?ns)" using inv by (simp add: attach_inv_def)
  moreover have "cm_client_count (ss_manager s) - 1 = int (length ?ns')"
    using inv length_filter_fst[OF d cl[unfolded client_at_def]] by (simp add: attach_inv_def)
  ultimately show ?thesis using l ok by (simp add: attach_inv_def distinct_map_filter)
qed

lemma client_remove_inv:
  assumes inv: "attach_inv s" and r: "client_manager_remove joined client s = Some (err, s')"
  shows "attach_inv s'"
proof (cases "cm_initialized (ss_manager s) \<and> client_at s client \<noteq> None")
  case False
  have d: "distinct (map fst (cm_clients (ss_manager s)))" using inv by (simp add: attach_inv_def)
  show ?thesis using False r inv
    by (auto simp: client_manager_remove_def Let_def unlink_client_eq[OF d] client_at_def split: if_splits)
next
  case True
  then obtain c where cl: "client_at s client = Some c" by auto
  have d: "distinct (map fst (cm_clients (ss_manager s)))" using inv by (simp add: attach_inv_def)
  define s1 where "s1 = s\<lparr>ss_manager := (ss_manager s)\<lparr>cm_clients := filter (\<lambda>n. fst n \<noteq> client) (cm_clients (ss_manager s)),
      cm_client_count := cm_client_count (ss_manager s) - 1\<rparr>,
      ss_list := (if attached c then snd (device_list_unexport (cc_attached_busid c) (ss_list s)) else ss_list s)\<rparr>"
  have i1: "attach_inv s1" unfolding s1_def by (rule attach_inv_unlink[OF inv cl refl])
  have "client_manager_remove joined client s = map_option (Pair ERR_SUCCESS) (free_client joined c s1)"
    using True cl unlink_client_eq[OF d, of client]
    by (simp add: client_manager_remove_def Let_def client_at_def s1_def attached_def map_option_bind split: bind_splits)
  then have f: "free_client joined c s1 = Some s'" using r by (cases "free_client joined c s1") auto
  have ok: "client_ok (ss_list s) c" by (rule attach_inv_client_ok[OF inv cl])
  show ?thesis
  proof (cases "attached c")
    case False
    then have "cc_device c = None" using ok by (simp add: client_ok_def)
    then show ?thesis using f i1 by (auto simp: free_client_def client_stop_threads_def Let_def split: bind_splits option.splits if_splits)
  next
    case True
    obtain p e where e: "found_entry (ss_list s) (cc_attached_busid c) = Some (p, e)" "cc_device c = Some p"
      by (rule attached_entry[OF ok True])
    have l: "dl_inv (ss_list s)" using inv by (simp add: attach_inv_def)
    have fe: "found_entry (ss_list s1) (cc_attached_busid c) = Some (p, unexport_change e)"
      using True e(1) by (simp add: s1_def unexport.found[OF l])
    then have ea: "entry_at (ss_list s1) p = Some (unexport_change e)" by (auto simp: found_entry_def split: option.splits)
    obtain d' tr where cd: "usb_close_device (de_device (unexport_change e)) = (d', tr)" by fastforce
    have dv: "attach_inv (set_device p d' tr t)" if "attach_inv t" "ss_list t = ss_list s1" for t
      by (rule attach_inv_device(1)[OF that(1) _ usb_device_busid(4)[OF cd]]) (use fe that in simp)
    show ?thesis using f i1 e(2) ea cd
      by (auto simp: free_client_def client_stop_threads_def Let_def intro!: dv split: bind_splits option.splits if_splits)
  qed
qed

lemma no_sharing_Cons:
  assumes "\<not> attached c" and "no_sharing ns"
  shows "no_sharing ((p, c) # ns)"
  unfolding no_sharing_def
proof (intro ballI impI)
  fix n n' assume a: "n \<in> set ((p, c) # ns)" "n' \<in> set ((p, c) # ns)"
    "attached (snd n) \<and> attached (snd n') \<and> streq (cc_attached_busid (snd n)) (cc_attached_busid (snd n'))"
  then have "n \<in> set ns" "n' \<in> set ns" using assms(1) by auto
  then show "fst n = fst n'" using assms(2) a(3) unfolding no_sharing_def by blast
qed

lemma client_add_inv:
  assumes inv: "attach_inv s" and fresh: "\<And>p. calloc = Some p \<Longrightarrow> client_at s p = None"
    and r: "client_manager_add calloc now socket ip port (ss_manager s) = (err, q, m)"
  shows "attach_inv (s\<lparr>ss_manager := m\<rparr>)"
proof (cases "err = ERR_SUCCESS")
  case False
  then show ?thesis using inv r
    by (auto simp: client_manager_add_def create_client_def Let_def attach_inv_def split: if_splits option.splits)
next
  case True
  let ?c = "new_client (cm_next_client_id (ss_manager s)) socket ip port now"
  obtain p where p: "calloc = Some p"
    and m: "m = (ss_manager s)\<lparr>cm_next_client_id := cm_next_client_id (ss_manager s) + 1,
      cm_clients := (p, ?c) # cm_clients (ss_manager s), cm_client_count := cm_client_count (ss_manager s) + 1\<rparr>"
    using True r by (auto simp: client_manager_add_def create_client_def Let_def split: if_splits option.splits)
  have n: "\<not> attached ?c" by (simp add: attached_def new_client_def char_at_def)
  have "client_ok (ss_list s) ?c" using n by (simp add: client_ok_def) (simp add: new_client_def)
  moreover have "p \<notin> fst ` set (cm_clients (ss_manager s))"
    using fresh[OF p] by (simp add: client_at_def map_of_eq_None_iff)
  moreover have "no_sharing ((p, ?c) # cm_clients (ss_manager s))"
    using inv n by (intro no_sharing_Cons) (simp_all add: attach_inv_def)
  ultimately show ?thesis using inv by (simp add: attach_inv_def m)
qed

text \<open>
  The sessions of all clients as steps on the shared state. A request is handled only for a
  client in the state \<open>CLIENT_STATE_CONNECTED\<close>, as the session loop does, and a step exists
  only where the operation returns.
\<close>

datatype server_op = SrvAdd | SrvAttach nat | SrvDetach nat | SrvRemove nat | SrvShare | SrvBusy

inductive server_step :: "server_state \<Rightarrow> server_op \<Rightarrow> server_state \<Rightarrow> bool" where
  srv_add: "client_manager_add calloc now socket ip port (ss_manager s) = (err, q, m) \<Longrightarrow>
    (\<And>p. calloc = Some p \<Longrightarrow> client_at s p = None) \<Longrightarrow> server_step s SrvAdd (s\<lparr>ss_manager := m\<rparr>)"
| srv_attach: "client_at s p = Some c \<Longrightarrow> cc_state c = CLIENT_STATE_CONNECTED \<Longrightarrow>
    client_attach_device env p busid s = Some (err, s') \<Longrightarrow> server_step s (SrvAttach p) s'"
| srv_detach: "client_detach_device joined p s = Some (err, s') \<Longrightarrow> server_step s (SrvDetach p) s'"
| srv_remove: "client_manager_remove joined p s = Some (err, s') \<Longrightarrow> server_step s (SrvRemove p) s'"
| srv_share: "device_list_set_shared sh b (ss_list s) = (err, l) \<Longrightarrow> server_step s SrvShare (s\<lparr>ss_list := l\<rparr>)"
| srv_busy: "device_list_set_busy bs b (ss_list s) = (err, l) \<Longrightarrow> server_step s SrvBusy (s\<lparr>ss_list := l\<rparr>)"

inductive server_run :: "server_state \<Rightarrow> server_op list \<Rightarrow> server_state \<Rightarrow> bool" where
  srv_nil: "server_run s [] s"
| srv_cons: "server_step s op s1 \<Longrightarrow> server_run s1 ops s2 \<Longrightarrow> server_run s (op # ops) s2"

inductive_cases server_run_consE: "server_run s (op # ops) s'"
inductive_simps server_run_nil_iff: "server_run s [] s'"

lemma attach_inv_share:
  assumes inv: "attach_inv s" and "device_list_set_shared sh b (ss_list s) = (err, l)"
  shows "attach_inv (s\<lparr>ss_list := l\<rparr>)"
proof (rule attach_inv_list[OF inv])
  have l: "dl_inv (ss_list s)" "dl_lookup (ss_list s) [] = None" using inv by (simp_all add: attach_inv_def)
  have e: "l = snd (device_list_set_shared sh b (ss_list s))" using assms(2) by simp
  show "dl_inv l" unfolding e by (rule set_shared.keeps_inv[OF l(1)])
  show "dl_lookup l [] = None" unfolding e set_shared.lookup[OF l(1)]
    using l(2) dl_lookup_cong[of "[]" b "ss_list s"] by auto
  show "link_view l (cc_attached_busid d) = link_view (ss_list s) (cc_attached_busid d)" for d
    unfolding e set_shared.found[OF l(1)] using found_entry_cong[of "cc_attached_busid d" b "ss_list s"]
    by (cases "found_entry (ss_list s) b") auto
qed

lemma attach_inv_busy:
  assumes inv: "attach_inv s" and "device_list_set_busy bs b (ss_list s) = (err, l)"
  shows "attach_inv (s\<lparr>ss_list := l\<rparr>)"
proof (rule attach_inv_list[OF inv])
  have l: "dl_inv (ss_list s)" "dl_lookup (ss_list s) [] = None" using inv by (simp_all add: attach_inv_def)
  have e: "l = snd (device_list_set_busy bs b (ss_list s))" using assms(2) by simp
  show "dl_inv l" unfolding e by (rule set_busy.keeps_inv[OF l(1)])
  show "dl_lookup l [] = None" unfolding e set_busy.lookup[OF l(1)]
    using l(2) dl_lookup_cong[of "[]" b "ss_list s"] by auto
  fix q d assume d: "(q, d) \<in> set (cm_clients (ss_manager s))" "attached d"
  have ok: "client_ok (ss_list s) d" using inv d(1) by (force simp: attach_inv_def)
  obtain p e' where f: "found_entry (ss_list s) (cc_attached_busid d) = Some (p, e')"
    "de_state e' = DEVICE_STATE_EXPORTED" by (rule attached_entry[OF ok d(2)])
  have "found_entry (ss_list s) b = Some (p, e')" if "cstr (cc_attached_busid d) = cstr b"
    using f(1) found_entry_cong[OF that] by simp
  then show "link_view l (cc_attached_busid d) = link_view (ss_list s) (cc_attached_busid d)"
    using f by (simp add: e set_busy.found[OF l(1)] busy_change_def)
qed

lemma server_step_inv: "server_step s op s' \<Longrightarrow> attach_inv s \<Longrightarrow> attach_inv s'"
proof (induction rule: server_step.induct)
  case (srv_attach s p c env busid err s')
  then show ?case using client_attach_inv by blast
qed (auto intro: client_add_inv client_detach_inv client_remove_inv attach_inv_share attach_inv_busy)

lemma server_run_inv: "server_run s ops s' \<Longrightarrow> attach_inv s \<Longrightarrow> attach_inv s'"
  by (induction rule: server_run.induct) (auto dest: server_step_inv)

section \<open>Stopping a handler returns\<close>

text \<open>What is asked of a worker that is being joined: it keeps the two queues well formed.\<close>

definition joined_ok :: "(urb_heap \<Rightarrow> urb_handler \<Rightarrow> (urb_heap \<times> urb_handler) option) \<Rightarrow> bool" where
  "joined_ok joined \<longleftrightarrow>
     (\<forall>h hr xs ys. handler_rep h hr xs ys \<longrightarrow>
        (\<exists>h' hr' xs' ys'. joined h hr = Some (h', hr') \<and> handler_rep h' hr' xs' ys' \<and>
           hd_running hr' = hd_running hr \<and> hd_initialized hr' = hd_initialized hr))"

lemma joined_idle: "joined_ok (\<lambda>h hr. Some (h, hr))"
  by (auto simp: joined_ok_def)

lemma joined_okE:
  assumes "joined_ok joined" and "handler_rep h hr xs ys"
  obtains h' hr' xs' ys' where "joined h hr = Some (h', hr')" and "handler_rep h' hr' xs' ys'"
    and "hd_running hr' = hd_running hr" and "hd_initialized hr' = hd_initialized hr"
  using assms unfolding joined_ok_def by blast

lemma urb_handler_stop_returns:
  assumes "joined_ok joined" and "handler_rep h hr xs ys"
  obtains h' hr' xs' ys' where "urb_handler_stop joined h hr = Some (h', hr')" and "handler_rep h' hr' xs' ys'"
    and "\<not> hd_running hr'" and "hd_initialized hr' = hd_initialized hr"
proof (cases "hd_running hr")
  case False
  then show thesis using assms(2) that by (simp add: urb_handler_stop_def)
next
  case True
  have "handler_rep h (hr\<lparr>hd_running := False\<rparr>) xs ys" using assms(2) by (simp add: handler_rep_def)
  from joined_okE[OF assms(1) this] obtain h1 hr1 xs1 ys1 where
    j: "joined h (hr\<lparr>hd_running := False\<rparr>) = Some (h1, hr1)" "handler_rep h1 hr1 xs1 ys1"
    "hd_running hr1 = hd_running (hr\<lparr>hd_running := False\<rparr>)"
    "hd_initialized hr1 = hd_initialized (hr\<lparr>hd_running := False\<rparr>)" .
  from cancel_all_rep[OF j(2)] obtain h2 hr2 where c: "urb_handler_cancel_all h1 hr1 = Some (h2, hr2)"
    "handler_rep h2 hr2 [] (ys1 @ xs1)" "hr2 = hr1\<lparr>hd_pending := hd_pending hr2, hd_completed := hd_completed hr2\<rparr>" by blast
  have "hd_running hr2 = hd_running hr1" "hd_initialized hr2 = hd_initialized hr1" by (subst c(3), simp)+
  then show thesis using True j c(1,2) that by (simp add: urb_handler_stop_def)
qed

lemma urb_handler_cleanup_returns:
  assumes "joined_ok joined" and "handler_rep h hr xs ys"
  shows "\<exists>h' hr'. urb_handler_cleanup joined h hr = Some (h', hr')"
proof (cases "hd_initialized hr")
  case True
  obtain h1 hr1 xs1 ys1 where st: "urb_handler_stop joined h hr = Some (h1, hr1)" "handler_rep h1 hr1 xs1 ys1"
    by (rule urb_handler_stop_returns[OF assms])
  have q: "queue_rep h1 (hd_pending hr1) xs1" "queue_rep h1 (hd_completed hr1) ys1" "set xs1 \<inter> set ys1 = {}"
    using st(2) by (simp_all add: handler_rep_def)
  let ?h = "\<lambda>a. if a \<in> set xs1 then None else h1 a"
  have "queue_rep ?h (hd_completed hr1) ys1" by (rule uq.rep_frame[OF q(2)]) (use q(3) in auto)
  from queue_cleanup_spec[OF q(1)] queue_cleanup_spec[OF this] show ?thesis
    using True st(1) by (simp add: urb_handler_cleanup_def)
qed (simp add: urb_handler_cleanup_def)

section \<open>Properties\<close>

text \<open>
  C5: a device has at most one client, and attached clients never hold a dangling pointer.
  In every state reached from an empty manager by connections, attach requests of clients that
  have no device, detaching, removal and changes of the sharing and busy marks, an attached
  client points to the entry found under its bus identifier, which is exported to it, and no
  other attached client has the same identifier or the same device.
\<close>

theorem attach_exclusive:
  assumes "dl_inv (ss_list s0)" and "dl_lookup (ss_list s0) [] = None" and "ss_manager s0 = snd (client_manager_init ok)"
    and "server_run s0 ops s" and "client_at s p = Some c" and "cc_state c = CLIENT_STATE_ATTACHED"
  shows "\<exists>a e. found_entry (ss_list s) (cc_attached_busid c) = Some (a, e) \<and> cc_device c = Some a \<and>
      de_state e = DEVICE_STATE_EXPORTED \<and> de_client_id e = cc_id c \<and>
      (\<forall>q d. q \<noteq> p \<and> client_at s q = Some d \<and> cc_state d = CLIENT_STATE_ATTACHED \<longrightarrow>
         \<not> streq (cc_attached_busid d) (cc_attached_busid c) \<and> cc_device d \<noteq> Some a)"
proof -
  have "attach_inv s0" using assms(1-3) by (simp add: attach_inv_def client_manager_init_def Let_def no_sharing_def)
  then have inv: "attach_inv s" by (rule server_run_inv[OF assms(4)])
  then have dist: "distinct (map fst (dl_head (ss_list s)))" by (simp add: attach_inv_def dl_inv_def)
  have att: "attached d" if "client_at s q = Some d" "cc_state d = CLIENT_STATE_ATTACHED" for q d
    using attach_inv_client_ok[OF inv that(1)] that(2) by (auto simp: client_ok_def split: if_splits)
  obtain a e where e: "found_entry (ss_list s) (cc_attached_busid c) = Some (a, e)" "entry_at (ss_list s) a = Some e"
    "cc_device c = Some a" "de_state e = DEVICE_STATE_EXPORTED" "de_client_id e = cc_id c"
    by (rule attached_entry[OF attach_inv_client_ok[OF inv assms(5)] att[OF assms(5,6)]])
  have "\<not> streq (cc_attached_busid d) (cc_attached_busid c) \<and> cc_device d \<noteq> Some a"
    if d: "q \<noteq> p" "client_at s q = Some d" "cc_state d = CLIENT_STATE_ATTACHED" for q d
  proof -
    have ne: "cstr (cc_attached_busid d) \<noteq> cstr (cc_attached_busid c)"
      by (rule other_client_differs[OF inv client_at_mem[OF assms(5)] client_at_mem[OF d(2)] d(1) att[OF assms(5,6)] att[OF d(2,3)]])
    obtain a' e' where e': "found_entry (ss_list s) (cc_attached_busid d) = Some (a', e')"
      "entry_at (ss_list s) a' = Some e'" "cc_device d = Some a'"
      by (rule attached_entry[OF attach_inv_client_ok[OF inv d(2)] att[OF d(2,3)]])
    have "busid_of e = cstr (cc_attached_busid c)" by (rule found_entryE[OF dist e(1)])
    moreover have "busid_of e' = cstr (cc_attached_busid d)" by (rule found_entryE[OF dist e'(1)])
    ultimately have "a' \<noteq> a" using ne e(2) e'(2) by auto
    then show ?thesis using ne e'(3) by (simp add: streq_def)
  qed
  then show ?thesis using e by blast
qed

definition sample_device :: "string \<Rightarrow> usb_device" where
  "sample_device b = zero_usb_device\<lparr>dv_path := ascii ''p'' @ [0], dv_busid := ascii b @ [0]\<rparr>"

definition sample_server :: server_state where
  "sample_server =
     \<lparr>ss_manager = snd (client_manager_init True),
      ss_list = \<lparr>dl_head = [(7, new_entry (sample_device ''1-2'')), (9, new_entry (sample_device ''1-1''))],
        dl_count = 2, dl_locks = 0, dl_initialized = True\<rparr>,
      ss_heap = Map.empty, ss_usb = [], ss_net = []\<rparr>"

definition sample_env :: attach_env where
  "sample_env = \<lparr>ae_os = sample_winusb, ae_calloc = True, ae_objs1 = (True, True), ae_objs2 = (True, True),
     ae_thread = True, ae_now = 8\<rparr>"

definition sample_connected :: server_state where
  "sample_connected = sample_server\<lparr>ss_manager :=
     snd (snd (client_manager_add (Some 100) 0 5 None 1 (ss_manager sample_server)))\<rparr>"

lemma sample_connected_run: "server_run sample_server [SrvAdd] sample_connected"
proof -
  let ?r = "client_manager_add (Some 100) 0 5 None 1 (ss_manager sample_server)"
  have f: "client_at sample_server p = None" for p
    by (simp add: client_at_def sample_server_def client_manager_init_def Let_def)
  have "server_step sample_server SrvAdd (sample_server\<lparr>ss_manager := snd (snd ?r)\<rparr>)"
    by (rule srv_add[of "Some 100" 0 5 None 1 sample_server "fst ?r" "fst (snd ?r)" "snd (snd ?r)"]) (simp_all add: f)
  then show ?thesis unfolding sample_connected_def by (rule srv_cons[OF _ srv_nil])
qed

definition sample_attached :: server_state where
  "sample_attached = snd (the (client_attach_device sample_env 100 (ascii ''1-1'') sample_connected))"

lemma sample_attached_eval:
  "map_option fst (client_attach_device sample_env 100 (ascii ''1-1'') sample_connected) = Some ERR_SUCCESS"
  "map_option cc_state (client_at sample_connected 100) = Some CLIENT_STATE_CONNECTED"
  "map_option cc_state (client_at sample_attached 100) = Some CLIENT_STATE_ATTACHED"
  "client_at sample_attached 100 \<bind> cc_device = Some 9"
  by code_simp+

lemma sample_attached_run: "server_run sample_server [SrvAdd, SrvAttach 100] sample_attached"
proof -
  obtain c where c: "client_at sample_connected 100 = Some c" "cc_state c = CLIENT_STATE_CONNECTED"
    using sample_attached_eval(2) by auto
  have "client_attach_device sample_env 100 (ascii ''1-1'') sample_connected = Some (ERR_SUCCESS, sample_attached)"
    using sample_attached_eval(1) by (auto simp: sample_attached_def)
  from srv_attach[OF c this] have "server_run sample_connected [SrvAttach 100] sample_attached"
    by (rule srv_cons[OF _ srv_nil])
  with sample_connected_run show ?thesis
    by (auto elim!: server_run_consE simp: server_run_nil_iff intro: srv_cons)
qed

theorem attach_exclusive_witness:
  "\<exists>c e. client_at sample_attached 100 = Some c \<and>
     found_entry (ss_list sample_attached) (cc_attached_busid c) = Some (9, e) \<and> de_client_id e = cc_id c"
proof -
  obtain c where c: "client_at sample_attached 100 = Some c" "cc_state c = CLIENT_STATE_ATTACHED" "cc_device c = Some 9"
    using sample_attached_eval(3,4) by auto
  have "dl_inv (ss_list sample_server)" "dl_lookup (ss_list sample_server) [] = None" by code_simp+
  moreover have "ss_manager sample_server = snd (client_manager_init True)" by (simp add: sample_server_def)
  ultimately show ?thesis using attach_exclusive[OF _ _ _ sample_attached_run c(1,2)] c(1,3) by fastforce
qed

end
