(* ===== verification/Server_Requests.thy ===== *)
theory Server_Requests
  imports Client_Manager
begin

text \<open>
  What the requests of \<^verbatim>\<open>server/client_manager.c\<close> guarantee: failed attachments leave nothing
  behind, detaching always returns and releases the device, and the byte images of the
  device-list and import replies.
\<close>

section \<open>Failed attachments\<close>

lemma usb_claim_handles [simp]:
  "usb_claim_interface d n = (err, d') \<Longrightarrow> dv_interface_handles d' = dv_interface_handles d"
  "usb_claim_interface d n = (err, d') \<Longrightarrow> dv_handle d' = dv_handle d"
  "usb_release_interface d n = (err, d') \<Longrightarrow> dv_interface_handles d' = dv_interface_handles d"
  "usb_release_interface d n = (err, d') \<Longrightarrow> dv_handle d' = dv_handle d"
  by (auto simp: usb_claim_interface_def usb_release_interface_def split: if_splits)

text \<open>Opening, claiming and giving up again, in the two ways the code does it.\<close>

lemma open_claim_close:
  assumes d: "usb_device_inv d" "\<not> dv_is_open d" and o: "usb_open_device os d = (ERR_SUCCESS, d1, tr1)"
    and c: "usb_claim_interface d1 0 = (err, d2)"
  shows "usb_close_device d2 = (d3, tr2) \<Longrightarrow>
      tr1 @ tr2 = obtained_handles os d \<and> usb_device_inv d3 \<and> \<not> dv_is_open d3"
    and "usb_release_interface d2 0 = (err', d3) \<Longrightarrow> usb_close_device d3 = (d4, tr2) \<Longrightarrow>
      tr1 @ tr2 = obtained_handles os d \<and> usb_device_inv d4 \<and> \<not> dv_is_open d4"
proof -
  have p: "char_at (dv_path d) 0 \<noteq> 0" using o by (auto simp: usb_open_device_def)
  have i2: "usb_device_inv d2" using usb_claim_release_inv(1)[OF usb_open_device_inv[OF d(1) o], of 0] c by simp
  show "usb_close_device d2 = (d3, tr2) \<Longrightarrow>
      tr1 @ tr2 = obtained_handles os d \<and> usb_device_inv d3 \<and> \<not> dv_is_open d3"
    using usb_open_close_trace[OF d p o i2] usb_close_device_closed(1,2)[OF i2] c by simp
  assume r: "usb_release_interface d2 0 = (err', d3)" "usb_close_device d3 = (d4, tr2)"
  have i3: "usb_device_inv d3" using usb_claim_release_inv(2)[OF i2, of 0] r(1) by simp
  show "tr1 @ tr2 = obtained_handles os d \<and> usb_device_inv d4 \<and> \<not> dv_is_open d4"
    using usb_open_close_trace[OF d p o i3 _ _ r(2)] usb_close_device_closed(1,2)[OF i3 r(2)] c r(1) by simp
qed

lemma link_view_set_device:
  assumes "attach_inv s" and "found_entry (ss_list s) b = Some (p, e)" and "dv_busid d = dv_busid (de_device e)"
  shows "link_view (ss_list (set_device p d tr s)) b' = link_view (ss_list s) b'"
  unfolding attach_inv_device(2)[OF assms] using assms(2) found_entry_cong[of b' b "ss_list s"] by simp

lemma client_at_set_client [simp]:
  "client_at s p = Some c0 \<Longrightarrow> client_at (set_client p c s) p = Some c"
proof -
  have "map_of ns p = Some c0 \<Longrightarrow> map_of (map (\<lambda>(q, d). (q, if q = p then c else d)) ns) p = Some c" for ns
    by (induction ns) (auto split: if_splits)
  then show "client_at s p = Some c0 \<Longrightarrow> client_at (set_client p c s) p = Some c"
    by (simp add: client_at_def set_client_def)
qed


lemma sample_connected_inv: "attach_inv sample_connected"
proof (rule server_run_inv[OF sample_connected_run])
  have "dl_inv (ss_list sample_server)" "dl_lookup (ss_list sample_server) [] = None" by code_simp+
  then show "attach_inv sample_server"
    by (simp add: attach_inv_def) (simp add: sample_server_def client_manager_init_def Let_def no_sharing_def)
qed


section \<open>Detaching\<close>

text \<open>
  C19: detaching returns and releases. For an attached client whose handler holds well-formed
  queues, and a worker that keeps them so until it is joined, detaching returns: the client is
  connected without device and handler, its device is available again, closed, and belongs to
  no client, and every other entry is as before.
\<close>

theorem detach_releases:
  assumes inv: "attach_inv s" and cl: "client_at s client = Some c" and st: "cc_state c = CLIENT_STATE_ATTACHED"
    and hr: "cc_urb_handler c = Some hr" "handler_rep (ss_heap s) hr xs ys" and j: "joined_ok joined"
    and dev: "\<And>e. dl_lookup (ss_list s) (cc_attached_busid c) = Some e \<Longrightarrow> usb_device_inv (de_device e)"
  shows "\<exists>s' c' e'. client_detach_device joined client s = Some (ERR_SUCCESS, s') \<and>
    client_at s' client = Some c' \<and> cc_state c' = CLIENT_STATE_CONNECTED \<and> cc_device c' = None \<and>
    cc_urb_handler c' = None \<and> \<not> attached c' \<and>
    dl_lookup (ss_list s') (cc_attached_busid c) = Some e' \<and> de_state e' = DEVICE_STATE_AVAILABLE \<and>
    de_client_id e' = 0 \<and> \<not> dv_is_open (de_device e') \<and>
    (\<forall>b. \<not> streq b (cc_attached_busid c) \<longrightarrow> dl_lookup (ss_list s') b = dl_lookup (ss_list s) b)"
proof -
  let ?b = "cc_attached_busid c"
  have ok: "client_ok (ss_list s) c" by (rule attach_inv_client_ok[OF inv cl])
  then have at: "attached c" using st by (auto simp: client_ok_def split: if_splits)
  have l: "dl_inv (ss_list s)" using inv by (simp add: attach_inv_def)
  obtain p e where e: "found_entry (ss_list s) ?b = Some (p, e)" "entry_at (ss_list s) p = Some e" "cc_device c = Some p"
    by (rule attached_entry[OF ok at])
  have lk: "dl_lookup (ss_list s) ?b = Some e" using e(1) l by (simp add: found_entry_lookup dl_inv_def)
  obtain h1 hr1 xs1 ys1 where st1: "urb_handler_stop joined (ss_heap s) hr = Some (h1, hr1)" "handler_rep h1 hr1 xs1 ys1"
    by (rule urb_handler_stop_returns[OF j hr(2)])
  obtain h2 hr2 where cu: "urb_handler_cleanup joined h1 hr1 = Some (h2, hr2)"
    using urb_handler_cleanup_returns[OF j st1(2)] by blast
  obtain er d1 where rl: "usb_release_interface (de_device e) 0 = (er, d1)" by fastforce
  obtain d2 tr where cs: "usb_close_device d1 = (d2, tr)" by fastforce
  have i1: "usb_device_inv d1" using usb_claim_release_inv(2)[OF dev[OF lk], of 0] rl by simp
  have closed: "\<not> dv_is_open d2" by (rule usb_close_device_closed(2)[OF i1 cs])
  let ?f = "\<lambda>e :: device_entry. e\<lparr>de_device := d2\<rparr>"
  have "busid_of (?f e) = busid_of e" "entry_ok (?f e)"
    using rl cs unexport.found_ok[OF l e(1)] by (simp_all add: busid_of_def entry_ok_def)
  note se = set_found_entry[where f = ?f, OF l e(1) this]
  let ?l = "set_entry (ss_list s) p ?f"
  let ?c = "c\<lparr>cc_urb_handler := None, cc_device := None, cc_attached_busid := ?b[0 := 0], cc_state := CLIENT_STATE_CONNECTED\<rparr>"
  let ?s = "set_client client ?c (s\<lparr>ss_heap := h2, ss_usb := ss_usb s @ tr, ss_list := snd (device_list_unexport ?b ?l)\<rparr>)"
  have "client_detach_device joined client s = Some (ERR_SUCCESS, ?s)"
    using cl at hr(1) st1(1) cu e(2,3) rl cs
    by (simp add: client_detach_device_def attached_def client_set_state_def release_and_close_def set_device_def)
  moreover have "client_at ?s client = Some ?c" 
    by (rule client_at_set_client[of _ _ c]) (use cl in \<open>simp add: client_at_def\<close>)
  moreover have "\<not> attached ?c" by (simp add: attached_def char_at_def nth_list_update)
  moreover have "dl_lookup (ss_list ?s) ?b = Some (unexport_change (?f e))"
    by (simp add: unexport.lookup[OF se(1)] se(2))
  moreover have "dl_lookup (ss_list ?s) b = dl_lookup (ss_list s) b" if "\<not> streq b ?b" for b
    using that by (simp add: unexport.lookup[OF se(1)] se(2) streq_def)
  ultimately show ?thesis
    by (intro exI[of _ ?s] exI[of _ ?c] exI[of _ "unexport_change (?f e)"])
      (simp add: unexport_change_def closed)
qed

theorem detach_releases_witness:
  "\<exists>s'. client_detach_device (\<lambda>h hr. Some (h, hr)) 100 sample_attached = Some (ERR_SUCCESS, s') \<and>
     (\<exists>e. dl_lookup (ss_list s') (ascii ''1-1'') = Some e \<and> de_state e = DEVICE_STATE_AVAILABLE)"
proof -
  have inv: "attach_inv sample_attached"
  proof -
    obtain c where c: "client_at sample_connected 100 = Some c" "cc_state c = CLIENT_STATE_CONNECTED"
      using sample_attached_eval(2) by auto
    have "client_attach_device sample_env 100 (ascii ''1-1'') sample_connected = Some (ERR_SUCCESS, sample_attached)"
      using sample_attached_eval(1) by (auto simp: sample_attached_def)
    from srv_attach[OF c this] sample_connected_inv show ?thesis by (rule server_step_inv)
  qed
  have ev: "case client_at sample_attached 100 of None \<Rightarrow> False
    | Some c \<Rightarrow> cc_state c = CLIENT_STATE_ATTACHED \<and> cstr (cc_attached_busid c) = ascii ''1-1'' \<and>
        (case cc_urb_handler c of None \<Rightarrow> False
         | Some hr \<Rightarrow> hd_pending hr = empty_queue \<and> hd_completed hr = empty_queue)" by code_simp
  then obtain c hr where c: "client_at sample_attached 100 = Some c" "cc_state c = CLIENT_STATE_ATTACHED"
    "cc_urb_handler c = Some hr" "cstr (cc_attached_busid c) = ascii ''1-1''"
    "hd_pending hr = empty_queue" "hd_completed hr = empty_queue" by (auto split: option.splits)
  have lk: "dl_lookup l (cc_attached_busid c) = dl_lookup l (ascii ''1-1'')" for l
    by (rule dl_lookup_cong) (simp add: c(4) cstr_id ascii_def)
  have "case dl_lookup (ss_list sample_attached) (ascii ''1-1'') of None \<Rightarrow> False
    | Some e \<Rightarrow> usb_device_inv (de_device e)" by code_simp
  then have d: "usb_device_inv (de_device e)"
    if "dl_lookup (ss_list sample_attached) (cc_attached_busid c) = Some e" for e using that lk by simp
  have "handler_rep (ss_heap sample_attached) hr [] []" using c(5,6) by (simp add: handler_rep_def)
  from detach_releases[OF inv c(1,2,3) this joined_idle d] show ?thesis unfolding lk by blast
qed

section \<open>The device list on the wire\<close>

definition entry_wire :: "device_entry \<Rightarrow> byte list" where
  "entry_wire e =
     wire_device (usb_device_to_usbip (de_device e)) @
     concat (map (\<lambda>i. mem_interface (usb_interface_to_usbip i))
       (take (min (unat (dv_num_interfaces (de_device e))) USB_MAX_INTERFACES) (dv_interfaces (de_device e))))"

definition shared_entries :: "device_list \<Rightarrow> device_entry list" where
  "shared_entries l = filter de_is_shared (map snd (dl_head l))"

definition announced :: "device_list \<Rightarrow> nat" where
  "announced l = length (filter (\<lambda>e. de_state e = DEVICE_STATE_AVAILABLE) (shared_entries l))"

definition devlist_wire :: "device_list \<Rightarrow> byte list" where
  "devlist_wire l =
     wire_header_basic (dr_header (usbip_create_devlist_reply 0)) @ be32 (word_of_nat (announced l)) @
     concat (map entry_wire (shared_entries l))"

lemma count_shared_eq:
  "count_shared ns n = n + int (length (filter (\<lambda>e. de_state e = DEVICE_STATE_AVAILABLE) (filter de_is_shared (map snd ns))))"
  by (induction ns n rule: count_shared.induct) auto

lemma send_interfaces_ok:
  "tx_ok (txs c) \<Longrightarrow> \<exists>c'. send_interfaces is c = (True, c') \<and>
     sent_to c (concat (map (\<lambda>i. mem_interface (usb_interface_to_usbip i)) is)) c'"
proof (induction "is" arbitrary: c)
  case Nil
  then show ?case by (auto intro: sent_to_refl)
next
  case (Cons i "is")
  obtain c1 where c1: "usbip_send_interface (usb_interface_to_usbip i) c = (ERR_SUCCESS, c1)"
    "sent_to c (mem_interface (usb_interface_to_usbip i)) c1" using ui_io.send_ok[OF _ Cons.prems] by blast
  from Cons.IH[OF sent_toD(2)[OF c1(2)]] c1 show ?case by (auto intro: sent_to_trans)
qed

lemma send_device_callback_ok:
  assumes "tx_ok (txs (sd_conn d))"
  shows "\<exists>c'. send_device_callback e d = (True, d\<lparr>sd_conn := c', sd_count := sd_count d + 1\<rparr>) \<and>
    sent_to (sd_conn d) (entry_wire e) c'"
proof -
  obtain c1 where c1: "usbip_send_device (usb_device_to_usbip (de_device e)) (sd_conn d) = (ERR_SUCCESS, c1)"
    "sent_to (sd_conn d) (wire_device (usb_device_to_usbip (de_device e))) c1"
    using ud_io.send_ok[OF device_wf_to_usbip assms] by blast
  obtain c2 where c2: "send_interfaces (take (min (unat (dv_num_interfaces (de_device e))) USB_MAX_INTERFACES)
        (dv_interfaces (de_device e))) c1 = (True, c2)"
    "sent_to c1 (concat (map (\<lambda>i. mem_interface (usb_interface_to_usbip i))
       (take (min (unat (dv_num_interfaces (de_device e))) USB_MAX_INTERFACES) (dv_interfaces (de_device e))))) c2"
    using send_interfaces_ok[OF sent_toD(2)[OF c1(2)]] by blast
  show ?thesis using c1 c2 by (auto simp: send_device_callback_def entry_wire_def intro: sent_to_trans)
qed

lemma foreach_send_ok:
  "tx_ok (txs (sd_conn d)) \<Longrightarrow> \<exists>c'. foreach_loop de_is_shared send_device_callback ns d =
      d\<lparr>sd_conn := c', sd_count := sd_count d + int (length (filter de_is_shared (map snd ns)))\<rparr> \<and>
    sent_to (sd_conn d) (concat (map entry_wire (filter de_is_shared (map snd ns)))) c'"
proof (induction ns arbitrary: d)
  case Nil
  then show ?case by (auto intro!: exI[of _ "sd_conn d"] sent_to_refl)
next
  case (Cons n ns)
  obtain p e where n: "n = (p, e)" by fastforce
  show ?case
  proof (cases "de_is_shared e")
    case True
    obtain c1 where c1: "send_device_callback e d = (True, d\<lparr>sd_conn := c1, sd_count := sd_count d + 1\<rparr>)"
      "sent_to (sd_conn d) (entry_wire e) c1" using send_device_callback_ok[OF Cons.prems] by blast
    have "tx_ok (txs (sd_conn (d\<lparr>sd_conn := c1, sd_count := sd_count d + 1\<rparr>)))" using sent_toD(2)[OF c1(2)] by simp
    from Cons.IH[OF this] True n c1 show ?thesis by (auto simp: add.assoc intro: sent_to_trans)
  next
    case False
    then show ?thesis using Cons n by simp
  qed
qed

text \<open>The reply is sent whole on a healthy connection.\<close>

lemma client_send_device_list_ok:
  assumes "tx_ok (txs c)"
  shows "\<exists>c'. client_send_device_list s c = (ERR_SUCCESS, c') \<and> sent_to c (devlist_wire (ss_list s)) c'"
proof -
  let ?n = "count_shared (dl_head (ss_list s)) 0"
  let ?r = "usbip_create_devlist_reply (word_of_int ?n)"
  have n: "word_of_int ?n = (word_of_nat (announced (ss_list s)) :: uint32_t)"
    by (simp add: count_shared_eq announced_def shared_entries_def)
  have h: "dr_header (usbip_create_devlist_reply k) = dr_header (usbip_create_devlist_reply 0)"
    "dr_ndev (usbip_create_devlist_reply k) = k" for k
    by (simp_all add: usbip_create_devlist_reply_def)
  obtain c1 where c1: "send_mem 8 (mem_header_basic (usbip_pack_header_basic (dr_header ?r))) c = (ERR_SUCCESS, c1)"
    "sent_to c (wire_header_basic (dr_header (usbip_create_devlist_reply 0))) c1"
    using hb_io.send_ok[where x = "dr_header ?r", OF _ assms] by (auto simp: usbip_send_header_basic_def h(1)[of "word_of_int ?n"])
  obtain c2 where c2: "send_mem 4 (mem32 (htobe32 (dr_ndev ?r))) c1 = (ERR_SUCCESS, c2)"
    "sent_to c1 (be32 (word_of_nat (announced (ss_list s)))) c2"
    using send_mem_ok[OF sent_toD(2)[OF c1(2)], of "mem32 (htobe32 (dr_ndev ?r))" 4] by (auto simp: mem32_htobe32 h n)
  obtain c3 where c3: "foreach_loop de_is_shared send_device_callback (dl_head (ss_list s))
        \<lparr>sd_conn = c2, sd_count = 0, sd_error = ERR_SUCCESS\<rparr> =
      \<lparr>sd_conn = c2, sd_count = 0, sd_error = ERR_SUCCESS\<rparr>\<lparr>sd_conn := c3,
         sd_count := 0 + int (length (filter de_is_shared (map snd (dl_head (ss_list s)))))\<rparr>"
    "sent_to c2 (concat (map entry_wire (shared_entries (ss_list s)))) c3"
    using foreach_send_ok[of "\<lparr>sd_conn = c2, sd_count = 0, sd_error = ERR_SUCCESS\<rparr>"] sent_toD(2)[OF c2(2)]
    by (auto simp: shared_entries_def)
  have "client_send_device_list s c = (ERR_SUCCESS, c3)"
    using c1(1) c2(1) c3(1) by (simp add: client_send_device_list_def Let_def device_list_foreach_shared_def)
  then show ?thesis using sent_to_trans[OF c1(2) sent_to_trans[OF c2(2) c3(2)]] by (auto simp: devlist_wire_def)
qed

text \<open>
  C40: the announced number of devices is wrong while a shared device is in use. The reply to
  a device-list request announces the shared devices that are available, but is followed by
  the records of all shared devices: when a shared device is exported or busy, more records
  are sent than announced.
\<close>

theorem devlist_count_short:
  assumes "tx_ok (txs c)" and "(p, e) \<in> set (dl_head (ss_list s))" and "de_is_shared e"
    and "de_state e \<noteq> DEVICE_STATE_AVAILABLE" and "length (dl_head (ss_list s)) < 2 ^ 32"
    and "client_send_device_list s c = (err, c')"
  shows "err = ERR_SUCCESS \<and> (\<exists>n recs. sent c' = sent c @ wire_header_basic (dr_header (usbip_create_devlist_reply 0)) @
      be32 n @ concat recs \<and> recs = map entry_wire (shared_entries (ss_list s)) \<and> unat n < length recs)"
proof -
  let ?l = "ss_list s"
  have r: "err = ERR_SUCCESS" "sent c' = sent c @ devlist_wire ?l"
    using client_send_device_list_ok[OF assms(1), of s] assms(6) by auto
  have e: "e \<in> set (shared_entries ?l)" using assms(2,3) by (force simp: shared_entries_def)
  then have lt: "announced ?l < length (shared_entries ?l)"
    using assms(4) unfolding announced_def by (intro length_filter_less[of e]) auto
  moreover have "length (shared_entries ?l) \<le> length (dl_head ?l)"
    by (metis shared_entries_def length_filter_le length_map)
  ultimately have "announced ?l < 2 ^ 32" using assms(5) by simp
  then have "unat (word_of_nat (announced ?l) :: uint32_t) = announced ?l" by (simp add: unat_of_nat)
  then show ?thesis using r lt by (auto simp: devlist_wire_def)
qed

theorem devlist_count_short_witness:
  "\<exists>n recs. sent (snd (client_send_device_list sample_attached sample_conn)) =
     wire_header_basic (dr_header (usbip_create_devlist_reply 0)) @ be32 n @ concat recs \<and> unat n < length recs"
proof -
  obtain err c' where r: "client_send_device_list sample_attached sample_conn = (err, c')" by fastforce
  have "length (dl_head (ss_list sample_attached)) = 2"
    "list_ex (\<lambda>n. de_is_shared (snd n) \<and> de_state (snd n) \<noteq> DEVICE_STATE_AVAILABLE) (dl_head (ss_list sample_attached))"
    by code_simp+
  then obtain q e' where h: "length (dl_head (ss_list sample_attached)) = 2"
    "(q, e') \<in> set (dl_head (ss_list sample_attached))" "de_is_shared e'" "de_state e' \<noteq> DEVICE_STATE_AVAILABLE"
    by (auto simp: list_ex_iff)
  have "tx_ok (txs sample_conn)" "sent sample_conn = []" by (simp_all add: sample_conn_def tx_ok_def)
  with devlist_count_short[of sample_conn q e' sample_attached err c'] h r show ?thesis by fastforce
qed

section \<open>The import reply\<close>

definition import_wire :: "error_code \<Rightarrow> usb_device option \<Rightarrow> byte list" where
  "import_wire err dev =
     wire_header_basic (zero_header_basic\<lparr>hb_version := USBIP_PROTO_VERSION, hb_command := OP_REP_IMPORT,
       hb_status := import_status err\<rparr>) @
     (case dev of None \<Rightarrow> [] | Some d \<Rightarrow> wire_device (usb_device_to_usbip d))"

lemma client_device_attached:
  assumes inv: "attach_inv s" and cl: "client_at s client = Some c" and "\<not> attached c"
    and r: "client_attach_device env client busid s = Some (ERR_SUCCESS, s')"
  obtains e' where "client_device client s' = Some (de_device e')" and "dl_lookup (ss_list s') busid = Some e'"
    and "de_state e' = DEVICE_STATE_EXPORTED" and "de_client_id e' = cc_id c"
  using cl r
proof (cases rule: client_attach_cases)
  case (success p e d1 tr1 d2 hr c')
  let ?t = "set_device p d2 tr1 s"
  have b: "dv_busid d2 = dv_busid (de_device e)" using success(3,4) by simp
  have t: "attach_inv ?t" by (rule attach_inv_device(1)[OF inv success(1) b])
  then have l: "dl_inv (ss_list ?t)" by (simp add: attach_inv_def)
  have fe: "found_entry (ss_list ?t) busid = Some (p, e\<lparr>de_device := d2\<rparr>)"
    using attach_inv_device(2)[OF inv success(1) b] by simp
  let ?e = "export_change (ae_now env) (cc_id c) (Some (cc_ip_address c)) (e\<lparr>de_device := d2\<rparr>)"
  have s': "ss_list s' = snd (device_list_export (ae_now env) busid (cc_id c) (Some (cc_ip_address c)) (ss_list ?t))"
    "client_at s' client = client_at (set_client client c' ?t) client"
    by (simp_all add: success(7) client_at_def)
  have f': "found_entry (ss_list s') busid = Some (p, ?e)"
    unfolding s' export.found[OF l] using fe success(2) by (simp add: export_check_def)
  have l': "dl_inv (ss_list s')" unfolding s' by (rule export.keeps_inv[OF l])
  have "client_at s' client = Some c'" unfolding s' by (rule client_at_set_client[of _ _ c]) (use cl in simp)
  moreover have "entry_at (ss_list s') p = Some ?e" using f' by (auto simp: found_entry_def split: option.splits)
  ultimately have "client_device client s' = Some (de_device ?e)" by (simp add: client_device_def success(6))
  moreover have "dl_lookup (ss_list s') busid = Some ?e" using f' l' by (simp add: found_entry_lookup dl_inv_def)
  ultimately show thesis by (intro that[of ?e]) (simp_all add: export_change_def)
qed simp_all

text \<open>
  On a healthy connection the import handler returns, the reply says whether the device was
  attached, and the record sent is that of the entry now exported to the client.
\<close>

lemma client_handle_import_ok:
  assumes inv: "attach_inv s" and cl: "client_at s client = Some c" and "\<not> attached c" and tx: "tx_ok (txs k)"
    and r: "client_attach_device env client busid s = Some (err, s')"
  shows "\<exists>k' dev. client_handle_import env joined client busid (s, k) = Returns (err, s', k') \<and>
    sent_to k (import_wire err dev) k' \<and>
    dev = (if err = ERR_SUCCESS then map_option de_device (dl_lookup (ss_list s') busid) else None) \<and>
    (err = ERR_SUCCESS \<longrightarrow> exported_to (cc_id c) (dl_lookup (ss_list s') busid))"
proof -
  let ?h = "zero_header_basic\<lparr>hb_version := USBIP_PROTO_VERSION, hb_command := OP_REP_IMPORT,
       hb_status := import_status err\<rparr>"
  obtain k1 where k1: "send_mem 8 (mem_header_basic (usbip_pack_header_basic ?h)) k = (ERR_SUCCESS, k1)"
    "sent_to k (wire_header_basic ?h) k1"
    using hb_io.send_ok[where x = ?h, OF _ tx] by (auto simp: usbip_send_header_basic_def)
  show ?thesis
  proof (cases "err = ERR_SUCCESS")
    case False
    then show ?thesis using r k1
      by (auto simp: client_handle_import_def after_op_def Let_def import_wire_def)
  next
    case True
    obtain e where e: "client_device client s' = Some (de_device e)" "dl_lookup (ss_list s') busid = Some e"
      "de_state e = DEVICE_STATE_EXPORTED" "de_client_id e = cc_id c"
      by (rule client_device_attached[OF inv cl assms(3) r[unfolded True]])
    obtain k2 where k2: "send_mem 312 (mem_device (usbip_pack_device (usb_device_to_usbip (de_device e)))) k1 = (ERR_SUCCESS, k2)"
      "sent_to k1 (wire_device (usb_device_to_usbip (de_device e))) k2"
      using ud_io.send_ok[OF device_wf_to_usbip sent_toD(2)[OF k1(2)]] by (auto simp: usbip_send_device_def)
    have "client_handle_import env joined client busid (s, k) = Returns (err, s', k2)"
      using r k1(1) k2(1) e(1) True by (simp add: client_handle_import_def after_op_def Let_def)
    moreover have "sent_to k (import_wire err (Some (de_device e))) k2"
      using sent_to_trans[OF k1(2) k2(2)] by (simp add: import_wire_def)
    ultimately show ?thesis using e True by (auto simp: exported_to_def)
  qed
qed

end
