(* ===== verification/Server_Main.thy ===== *)
theory Server_Main
  imports Server_Requests
begin

text \<open>
  The server program, \<^verbatim>\<open>server/main.c\<close>: the command line, the session with one client, the
  accept loop, start-up with its roll-back, and shutdown. Everything that varies while the
  program runs is a script: one \<open>session_env\<close> for each turn of the session loop and one
  \<open>loop_env\<close> for each turn of the accept loop, each with the value of \<open>g_server.running\<close> read
  at its start. A loop at the end of its script is still running, so the result is \<open>Waits\<close>.
  What the worker thread does between two steps of a session is the function \<open>se_worker\<close>.
\<close>

section \<open>Command line\<close>

record server_config =
  sv_port :: uint16_t
  sv_bind_address :: cbuf
  sv_device_filter :: cbuf
  sv_auth_token :: "cbuf option"
  sv_verbose :: bool
  sv_list_only :: bool

abbreviation (input) USBIP_PORT :: uint16_t where "USBIP_PORT \<equiv> 3240"

definition default_config :: server_config where
  "default_config =
     \<lparr>sv_port = USBIP_PORT, sv_bind_address = str_copy (replicate 64 0) (ascii ''0.0.0.0'') 64,
      sv_device_filter = replicate 32 0, sv_auth_token = None, sv_verbose = False, sv_list_only = False\<rparr>"

definition opt :: "cbuf \<Rightarrow> string \<Rightarrow> string \<Rightarrow> bool" where
  "opt arg short long \<longleftrightarrow> streq arg (ascii short) \<or> streq arg (ascii long)"

text \<open>The loop over the arguments after the program name; the result is the exit value.\<close>

fun parse_args :: "cbuf list \<Rightarrow> server_config \<Rightarrow> int \<times> server_config" where
  "parse_args [] g = (0, g)"
| "parse_args (arg # args) g =
     (if opt arg ''-h'' ''--help'' then (-1, g)
      else if opt arg ''-l'' ''--list'' then parse_args args (g\<lparr>sv_list_only := True\<rparr>)
      else if opt arg ''-v'' ''--verbose'' then parse_args args (g\<lparr>sv_verbose := True\<rparr>)
      else case args of
        [] \<Rightarrow> (-1, g)
      | val # args \<Rightarrow>
          if opt arg ''-p'' ''--port'' then parse_args args (g\<lparr>sv_port := word_of_int (atoi val)\<rparr>)
          else if opt arg ''-b'' ''--bind'' then
            parse_args args (g\<lparr>sv_bind_address := str_copy (sv_bind_address g) val 64\<rparr>)
          else if opt arg ''-d'' ''--device'' then
            parse_args args (g\<lparr>sv_device_filter := str_copy (sv_device_filter g) val 32\<rparr>)
          else if opt arg ''-k'' ''--auth-token'' then parse_args args (g\<lparr>sv_auth_token := Some val\<rparr>)
          else (-1, g))"

section \<open>The session with a client\<close>

definition after_call :: "'a outcome \<Rightarrow> ('a \<Rightarrow> 'b outcome) \<Rightarrow> 'b outcome" where
  "after_call r f = (case r of Returns x \<Rightarrow> f x | Waits \<Rightarrow> Waits | Faults \<Rightarrow> Faults)"

type_synonym worker_acts = "urb_heap \<Rightarrow> urb_handler \<Rightarrow> (urb_heap \<times> urb_handler) option"

record session_env =
  se_running :: bool
  se_attach :: attach_env
  se_joined :: worker_acts
  se_worker :: "nat \<Rightarrow> worker_acts"
  se_data_malloc :: bool
  se_calloc :: "nat option"
  se_malloc :: "nat \<Rightarrow> byte list option"
  se_now :: uint64_t

text \<open>
  Sending the completed request blocks. Before each look at the completed queue the worker may
  have acted; \<open>n\<close> counts its moves. \<open>None\<close>: a bad pointer, or the worker feeds the loop for ever.
\<close>

definition worker_moves :: "worker_acts \<Rightarrow> urb_heap \<Rightarrow> client_connection \<Rightarrow> (urb_heap \<times> client_connection) option" where
  "worker_moves w h cl =
     (case cc_urb_handler cl of
        None \<Rightarrow> Some (h, cl)
      | Some hr \<Rightarrow> map_option (\<lambda>(h, hr). (h, cl\<lparr>cc_urb_handler := Some hr\<rparr>)) (w h hr))"

definition next_completed :: "urb_heap \<Rightarrow> client_connection \<Rightarrow> (nat option \<times> urb_heap \<times> client_connection) option" where
  "next_completed h cl =
     (case cc_urb_handler cl of
        None \<Rightarrow> Some (None, h, cl)
      | Some hr \<Rightarrow>
          map_option (\<lambda>(r, h, hr). (r, h, cl\<lparr>cc_urb_handler := Some hr\<rparr>)) (urb_handler_get_completed h hr))"

definition send_completed :: "nat \<Rightarrow> urb_heap \<Rightarrow> client_connection \<Rightarrow> conn
    \<Rightarrow> (error_code \<times> urb_heap \<times> client_connection \<times> conn) option" where
  "send_completed p h cl c = do {
     e \<leftarrow> h p;
     let (err, cl, c) = client_send_urb_completion e cl c;
     h \<leftarrow> urb_handler_free_entry h (Some p);
     Some (err, h, cl, c)
   }"

partial_function (option) drain_loop :: "(nat \<Rightarrow> worker_acts) \<Rightarrow> nat \<Rightarrow> urb_heap \<Rightarrow> client_connection \<Rightarrow> conn
    \<Rightarrow> (urb_heap \<times> client_connection \<times> conn) option" where
  "drain_loop worker n h cl c = do {
     (h, cl) \<leftarrow> worker_moves (worker n) h cl;
     (r, h, cl) \<leftarrow> next_completed h cl;
     if r = None then Some (h, cl, c)
     else do {
       (err, h, cl, c) \<leftarrow> send_completed (the r) h cl c;
       if err \<noteq> ERR_SUCCESS then Some (h, cl, c) else drain_loop worker (Suc n) h cl c
     }
   }"

declare drain_loop.simps [code]

definition forward_and_drain :: "session_env \<Rightarrow> nat \<Rightarrow> usbip_header \<Rightarrow> byte list option \<Rightarrow> client_connection
    \<Rightarrow> server_state \<Rightarrow> conn \<Rightarrow> (bool \<times> server_state \<times> conn) outcome" where
  "forward_and_drain env client header data cl s c =
     after_op (client_forward_urb (se_calloc env) (se_malloc env) (se_now env) header data (ss_heap s) cl)
       (\<lambda>(err, h, cl).
          after_op (drain_loop (\<lambda>n. se_worker env (Suc n)) 0 h cl c)
            (\<lambda>(h, cl, c). Returns (True, set_client client cl (s\<lparr>ss_heap := h\<rparr>), c)))"

definition submit_turn :: "session_env \<Rightarrow> nat \<Rightarrow> usbip_header \<Rightarrow> client_connection \<Rightarrow> server_state \<Rightarrow> conn
    \<Rightarrow> (bool \<times> server_state \<times> conn) outcome" where
  "submit_turn env client header cl s c =
     (let len = cs_transfer_buffer_length (u_cmd_submit (uh_u header))
      in if hc_direction (uh_common header) = USBIP_DIR_OUT \<and> len > 0 then
           if \<not> se_data_malloc env then Returns (False, set_client client cl s, c)
           else after_recv (usbip_recv_urb_data (unat len) c) (\<lambda>(r, c).
             case r of
               Inl err \<Rightarrow> Returns (False, set_client client cl s, c)
             | Inr data \<Rightarrow> forward_and_drain env client header (Some data)
                 (cl\<lparr>cc_bytes_received := cc_bytes_received cl + ucast len\<rparr>) s c)
         else forward_and_drain env client header None cl s c)"

definition unlink_turn :: "nat \<Rightarrow> usbip_header \<Rightarrow> client_connection \<Rightarrow> server_state \<Rightarrow> conn
    \<Rightarrow> (bool \<times> server_state \<times> conn) outcome" where
  "unlink_turn client header cl s c =
     after_op (case cc_urb_handler cl of
         None \<Rightarrow> Some (ss_heap s, cl)
       | Some hr \<Rightarrow> map_option (\<lambda>(err, h, hr). (h, cl\<lparr>cc_urb_handler := Some hr\<rparr>))
           (urb_handler_unlink (u_cmd_unlink_seqnum (uh_u header)) (ss_heap s) hr))
       (\<lambda>(h, cl).
          let ret = usbip_create_urb_unlink_ret (hc_seqnum (uh_common header)) (hc_devid (uh_common header)) 0
          in case usbip_send_urb_header ret c of (err, c) \<Rightarrow>
            Returns (True, set_client client cl (s\<lparr>ss_heap := h\<rparr>), c))"

text \<open>One turn of the loop; the first part of the result tells whether the loop goes on.\<close>

definition session_turn :: "session_env \<Rightarrow> nat \<Rightarrow> server_state \<Rightarrow> conn \<Rightarrow> (bool \<times> server_state \<times> conn) outcome" where
  "session_turn env client s c =
     after_op (client_at s client) (\<lambda>cl.
       if cc_state cl = CLIENT_STATE_CONNECTED then
         after_call (client_handle_request (se_attach env) (se_joined env) client (s, c))
           (\<lambda>(err, s, c). Returns (err = ERR_SUCCESS, s, c))
       else if cc_state cl = CLIENT_STATE_ATTACHED then
         after_recv (usbip_recv_urb_header c) (\<lambda>(r, c).
           case r of
             Inl err \<Rightarrow> Returns (False, s, c)
           | Inr header \<Rightarrow>
               after_op (worker_moves (se_worker env 0) (ss_heap s) cl) (\<lambda>(h, cl).
                 let s = s\<lparr>ss_heap := h\<rparr>
                 in if hc_command (uh_common header) = USBIP_CMD_SUBMIT then submit_turn env client header cl s c
                    else if hc_command (uh_common header) = USBIP_CMD_UNLINK then unlink_turn client header cl s c
                    else Returns (True, set_client client cl s, c)))
       else Returns (True, s, c))"

fun handle_client_session :: "session_env list \<Rightarrow> nat \<Rightarrow> server_state \<Rightarrow> conn \<Rightarrow> (server_state \<times> conn) outcome" where
  "handle_client_session [] client s c = Waits"
| "handle_client_session (env # envs) client s c =
     after_op (client_at s client) (\<lambda>cl.
       if \<not> (se_running env \<and> cc_state cl \<noteq> CLIENT_STATE_DISCONNECTED) then Returns (s, c)
       else after_call (session_turn env client s c) (\<lambda>(go, s, c).
         if go then handle_client_session envs client s c else Returns (s, c)))"

section \<open>The accept loop\<close>

record loop_env =
  le_running :: bool
  le_os :: winsock
  le_ip_buf :: cbuf
  le_conn :: conn
  le_calloc :: "nat option"
  le_now :: uint64_t
  le_session :: "session_env list"
  le_joined :: worker_acts

definition serve_client :: "loop_env \<Rightarrow> nat \<Rightarrow> server_state \<Rightarrow> conn \<Rightarrow> (server_state \<times> conn) outcome" where
  "serve_client env client s c =
     after_call (handle_client_session (le_session env) client s c) (\<lambda>(s, c).
       after_op (client_detach_device (le_joined env) client s) (\<lambda>(err, s).
         after_op (client_manager_remove (le_joined env) client s) (\<lambda>(err, s). Returns (s, c))))"

definition server_turn :: "loop_env \<Rightarrow> cbuf option \<Rightarrow> socket_t \<Rightarrow> server_state \<Rightarrow> (server_state \<times> conn) outcome" where
  "server_turn env auth_token server_socket s =
     (case tcp_server_accept_timeout (le_os env) server_socket (Some (le_ip_buf env)) 64 (Some 0) 1000 of
        (client_socket, client_ip, client_port, tr) \<Rightarrow>
          let s = s\<lparr>ss_net := ss_net s @ tr\<rparr>;
              rejected = s\<lparr>ss_net := ss_net s @ socket_close client_socket\<rparr>
          in if \<not> socket_is_valid client_socket then Returns (s, le_conn env)
             else after_recv (if auth_is_enabled auth_token then auth_server_handshake auth_token (le_conn env)
                              else Some (ERR_SUCCESS, le_conn env)) (\<lambda>(auth_err, c).
               if auth_err \<noteq> ERR_SUCCESS then Returns (rejected, c)
               else case client_manager_add (le_calloc env) (le_now env) client_socket client_ip (the client_port)
                           (ss_manager s) of
                 (err, client, m) \<Rightarrow>
                   if err \<noteq> ERR_SUCCESS then Returns (rejected\<lparr>ss_manager := m\<rparr>, c)
                   else serve_client env (the client) (s\<lparr>ss_manager := m\<rparr>) c))"

fun server_main_loop :: "loop_env list \<Rightarrow> cbuf option \<Rightarrow> socket_t \<Rightarrow> server_state \<Rightarrow> server_state outcome" where
  "server_main_loop [] auth_token server_socket s = Waits"
| "server_main_loop (env # envs) auth_token server_socket s =
     (if \<not> le_running env then Returns s
      else after_call (server_turn env auth_token server_socket s)
        (\<lambda>(s, c). server_main_loop envs auth_token server_socket s))"

section \<open>Start and shutdown\<close>

text \<open>What start-up asks of the system; \<open>in_log\<close> is the result of \<^verbatim>\<open>log_init\<close>.\<close>

record init_env =
  in_log :: error_code
  in_os :: winsock
  in_list_mutex :: bool
  in_utf8 :: "16 word list \<Rightarrow> nat \<Rightarrow> cbuf option"
  in_nodes :: "device_node list option"
  in_allocs :: "nat option list"
  in_clock :: "nat \<Rightarrow> uint64_t"
  in_manager_mutex :: bool
  in_token_env :: "cbuf option"

record g_server =
  gs_config :: server_config
  gs_running :: bool
  gs_server_socket :: socket_t
  gs_state :: server_state
  gs_network_up :: bool
  gs_host :: g_usb_host

text \<open>
  The handler of the interrupt and termination signals. The loops read the flag as \<open>le_running\<close> and
  \<open>se_running\<close> at the start of a turn.
\<close>

definition signal_handler :: "g_server \<Rightarrow> g_server" where
  "signal_handler g = g\<lparr>gs_running := False\<rparr>"

text \<open>The device list of the globals replaced, and the handles given back appended to the trace.\<close>

definition with_list :: "device_list \<times> winusb_call list \<Rightarrow> g_server \<Rightarrow> g_server" where
  "with_list r g =
     (case r of (l, tr) \<Rightarrow> g\<lparr>gs_state := (gs_state g)\<lparr>ss_list := l, ss_usb := ss_usb (gs_state g) @ tr\<rparr>\<rparr>)"

text \<open>The calls that undo the first steps, in the order of the failing branches.\<close>

definition undo_host :: "g_server \<Rightarrow> g_server" where
  "undo_host g = g\<lparr>gs_host := usb_host_cleanup (gs_host g), gs_network_up := network_cleanup (gs_network_up g)\<rparr>"

definition undo_list :: "g_server \<Rightarrow> g_server" where
  "undo_list g = undo_host (with_list (device_list_cleanup (ss_list (gs_state g))) g)"

definition apply_filter :: "cbuf \<Rightarrow> device_list \<Rightarrow> device_list" where
  "apply_filter device_filter l =
     (if char_at device_filter 0 \<noteq> 0
      then snd (device_list_set_shared True device_filter (device_list_unshare_all l)) else l)"

text \<open>The client manager is empty when start-up cleans it up, so no worker is joined.\<close>

definition server_init :: "init_env \<Rightarrow> g_server \<Rightarrow> error_code \<times> g_server" where
  "server_init env g =
     (if in_log env \<noteq> ERR_SUCCESS then (in_log env, g)
      else case network_init (in_os env) (gs_network_up g) of (err, up) \<Rightarrow>
        let g = g\<lparr>gs_network_up := up\<rparr> in
        if err \<noteq> ERR_SUCCESS then (err, g)
        else case usb_host_init (gs_host g) of (err, up) \<Rightarrow>
          let g = g\<lparr>gs_host := up\<rparr> in
          if err \<noteq> ERR_SUCCESS then (err, g\<lparr>gs_network_up := network_cleanup (gs_network_up g)\<rparr>)
          else case device_list_init (in_list_mutex env) of (err, l) \<Rightarrow>
            let g = with_list (l, []) g in
            if err \<noteq> ERR_SUCCESS then (err, undo_host g)
            else
              let (err, l, tr) = device_list_refresh (in_utf8 env) (uh_initialized (gs_host g)) (in_nodes env) (in_allocs env)
                                   (in_clock env) l;
                  g = with_list (apply_filter (sv_device_filter (gs_config g)) l, tr) g
              in case client_manager_init (in_manager_mutex env) of (err, m) \<Rightarrow>
                let g = g\<lparr>gs_state := (gs_state g)\<lparr>ss_manager := m\<rparr>\<rparr> in
                if err \<noteq> ERR_SUCCESS then (err, undo_list g)
                else case tcp_server_create (in_os env) (Some (sv_bind_address (gs_config g))) (sv_port (gs_config g)) of
                  (sock, tr) \<Rightarrow>
                    let g = g\<lparr>gs_server_socket := sock, gs_state := (gs_state g)\<lparr>ss_net := ss_net (gs_state g) @ tr\<rparr>\<rparr>
                    in if \<not> socket_is_valid sock then
                         (ERR_SOCKET_CREATE, undo_list (g\<lparr>gs_state := (gs_state g)\<lparr>ss_manager := m\<lparr>cm_initialized := False\<rparr>\<rparr>\<rparr>))
                       else
                         (ERR_SUCCESS, g\<lparr>gs_running := True,
                            gs_config := (gs_config g)\<lparr>sv_auth_token :=
                              Some (auth_get_token (sv_auth_token (gs_config g)) (in_token_env env))\<rparr>\<rparr>))"

definition server_cleanup :: "worker_acts \<Rightarrow> g_server \<Rightarrow> g_server option" where
  "server_cleanup joined g = do {
     let g = g\<lparr>gs_running := False\<rparr>;
     s \<leftarrow> client_manager_disconnect_all joined (gs_state g);
     let g = (if socket_is_valid (gs_server_socket g)
              then g\<lparr>gs_state := s\<lparr>ss_net := ss_net s @ socket_close (gs_server_socket g)\<rparr>,
                     gs_server_socket := INVALID_SOCKET_VAL\<rparr>
              else g\<lparr>gs_state := s\<rparr>);
     s \<leftarrow> client_manager_cleanup joined (gs_state g);
     Some (undo_list (g\<lparr>gs_state := s\<rparr>))
   }"

text \<open>
  The program: its exit code and final state, \<open>Waits\<close> while the accept loop runs. The list
  option only enumerates; the devices it prints are collected.
\<close>

definition list_devices :: "init_env \<Rightarrow> bool \<Rightarrow> int \<times> usb_device list" where
  "list_devices env host_up =
     (case usb_enumerate_devices (in_utf8 env) host_up (in_nodes env) (\<lambda>ds d. ds @ [d]) [] of
        (err, printed) \<Rightarrow> (if err \<noteq> ERR_SUCCESS then 1 else 0, printed))"

definition server_main :: "cbuf list \<Rightarrow> init_env \<Rightarrow> loop_env list \<Rightarrow> worker_acts \<Rightarrow> g_server \<Rightarrow> (int \<times> g_server) outcome" where
  "server_main args env envs joined g =
     (case parse_args args (gs_config g) of (ret, cfg) \<Rightarrow>
        let g = g\<lparr>gs_config := cfg\<rparr> in
        if ret \<noteq> 0 then Returns (1, g)
        else if sv_list_only cfg then
          let g = g\<lparr>gs_network_up := snd (network_init (in_os env) (gs_network_up g)),
                    gs_host := snd (usb_host_init (gs_host g))\<rparr>
          in Returns (fst (list_devices env (uh_initialized (gs_host g))), undo_host g)
        else case server_init env g of (err, g) \<Rightarrow>
          if err \<noteq> ERR_SUCCESS then Returns (1, g)
          else after_call (server_main_loop envs (sv_auth_token (gs_config g)) (gs_server_socket g) (gs_state g)) (\<lambda>s.
            after_op (server_cleanup joined (g\<lparr>gs_state := s\<rparr>)) (\<lambda>g. Returns (0, g))))"

section \<open>Sending what is complete\<close>

text \<open>The bytes of one reply.\<close>

definition completion_wire :: "urb_entry \<Rightarrow> byte list" where
  "completion_wire e =
     wire_header (urb_handler_create_return e) @
     (if ub_direction (ue_urb e) = ucast USBIP_DIR_IN \<and> ub_actual_length (ue_urb e) > 0
      then take (unat (ub_actual_length (ue_urb e))) (urb_data (ue_urb e)) else [])"

lemma completion_wire_next [simp]: "completion_wire (e\<lparr>ue_next := n\<rparr>) = completion_wire e"
  by (simp add: completion_wire_def urb_handler_create_return_def Let_def)

lemma header_wf_return: "header_wf (urb_handler_create_return e)"
  by (simp add: header_wf_def urb_handler_create_return_def zero_header_def Let_def)

text \<open>The fields that the attachment of a client rests on.\<close>

definition same_attachment :: "client_connection \<Rightarrow> client_connection \<Rightarrow> bool" where
  "same_attachment cl cl' \<longleftrightarrow> cc_id cl' = cc_id cl \<and> cc_attached_busid cl' = cc_attached_busid cl \<and>
     cc_device cl' = cc_device cl \<and> cc_state cl' = cc_state cl"

lemma same_attachment_refl [simp]: "same_attachment cl cl" by (simp add: same_attachment_def)

lemma same_attachment_trans [trans]:
  "same_attachment a b \<Longrightarrow> same_attachment b c \<Longrightarrow> same_attachment a c" by (simp add: same_attachment_def)

lemma send_completion_frame:
  assumes "client_send_urb_completion e cl c = (err, cl', c')"
  shows "cl' = cl\<lparr>cc_bytes_sent := cc_bytes_sent cl'\<rparr>"
  using assms by (auto simp: client_send_urb_completion_def Let_def split: prod.splits if_splits)

lemma send_completion_ok:
  assumes "tx_ok (txs c)"
  shows "\<exists>cl' c'. client_send_urb_completion e cl c = (ERR_SUCCESS, cl', c') \<and> sent_to c (completion_wire e) c'"
proof -
  obtain c1 where c1: "usbip_send_urb_header (urb_handler_create_return e) c = (ERR_SUCCESS, c1)"
    "sent_to c (wire_header (urb_handler_create_return e)) c1"
    using uh_io.send_ok[OF header_wf_return assms] by blast
  let ?d = "take (unat (ub_actual_length (ue_urb e))) (urb_data (ue_urb e))"
  obtain c2 where c2: "usbip_send_urb_data ?d c1 = (ERR_SUCCESS, c2)" "sent_to c1 ?d c2"
    using usbip_send_urb_data_ok[OF sent_toD(2)[OF c1(2)]] by blast
  show ?thesis
    using c1 c2 sent_to_trans[OF c1(2) c2(2)]
    by (auto simp: client_send_urb_completion_def completion_wire_def Let_def)
qed

lemma drain_ok:
  assumes "handler_rep h hr xs ys" and "hd_initialized hr" and "cc_urb_handler cl = Some hr"
    and "tx_ok (txs c)" and idle: "\<And>n h hr. worker n h hr = Some (h, hr)"
  shows "\<exists>h' hr' cl' c'. drain_loop worker n h cl c = Some (h', cl', c') \<and> cc_urb_handler cl' = Some hr' \<and>
    handler_rep h' hr' xs [] \<and> sent_to c (concat (map (\<lambda>p. completion_wire (the (h p))) ys)) c' \<and>
    (\<forall>p \<in> set ys. h' p = None) \<and> (\<forall>p. p \<notin> set ys \<longrightarrow> h' p = h p)"
  using assms(1-4)
proof (induction ys arbitrary: h hr cl c n)
  case Nil
  have "drain_loop worker n h cl c = Some (h, cl, c)"
    using get_completed_rep[OF Nil(1,2)] Nil(3) idle
    by (subst drain_loop.simps) (simp add: worker_moves_def next_completed_def)
  then show ?case using Nil sent_to_refl[OF Nil(4)] by auto
next
  case (Cons p ys)
  obtain h1 hr1 where g: "urb_handler_get_completed h hr = Some (Some p, h1, hr1)" "handler_rep h1 hr1 xs ys"
    "hr1 = hr\<lparr>hd_completed := hd_completed hr1\<rparr>" "same_payload h h1" "\<forall>b. b \<noteq> p \<longrightarrow> h1 b = h b" "p \<notin> set ys"
    using get_completed_rep[OF Cons.prems(1,2)] by auto
  have i1: "hd_initialized hr1" using Cons.prems(2) by (subst g(3)) simp
  have px: "p \<notin> set xs" using Cons.prems(1) by (auto simp: handler_rep_def)
  obtain e where e: "h p = Some e" using Cons.prems(1) path_alloc by (fastforce simp: handler_rep_def queue_rep_def)
  obtain nx where e1: "h1 p = Some (e\<lparr>ue_next := nx\<rparr>)" using same_payload_entry[OF g(4) e] by blast
  let ?cl = "cl\<lparr>cc_urb_handler := Some hr1\<rparr>"
  obtain cl2 c2 where s: "client_send_urb_completion (e\<lparr>ue_next := nx\<rparr>) ?cl c = (ERR_SUCCESS, cl2, c2)"
    "sent_to c (completion_wire e) c2" using send_completion_ok[OF Cons.prems(4), of "e\<lparr>ue_next := nx\<rparr>" ?cl] by auto
  have cl2: "cc_urb_handler cl2 = Some hr1" by (subst send_completion_frame[OF s(1)]) simp
  let ?h = "h1(p := None)"
  have "path (h1(p := None)) a zs b = path h1 a zs b" if "p \<notin> set zs" for a zs b using that by simp
  then have rep: "handler_rep ?h hr1 xs ys" using g(2,6) px by (simp add: handler_rep_def queue_rep_def)
  have step: "drain_loop worker n h cl c = drain_loop worker (Suc n) ?h cl2 c2"
    using g(1) e1 s(1) Cons.prems(3) idle
    by (subst drain_loop.simps)
      (simp add: worker_moves_def next_completed_def send_completed_def urb_handler_free_entry_def free_urb_entry_def)
  have same: "map (\<lambda>q. completion_wire (the (?h q))) ys = map (\<lambda>q. completion_wire (the (h q))) ys"
    using g(5,6) by (auto intro!: map_cong)
  from Cons.IH[OF rep i1 cl2 sent_toD(2)[OF s(2)], of "Suc n"] obtain h' hr' cl' c' where
    r: "drain_loop worker (Suc n) ?h cl2 c2 = Some (h', cl', c')" "cc_urb_handler cl' = Some hr'"
    "handler_rep h' hr' xs []" "sent_to c2 (concat (map (\<lambda>q. completion_wire (the (h q))) ys)) c'"
    "\<forall>q \<in> set ys. h' q = None" "\<forall>q. q \<notin> set ys \<longrightarrow> h' q = ?h q" unfolding same by blast
  have "sent_to c (concat (map (\<lambda>q. completion_wire (the (h q))) (p # ys))) c'"
    using sent_to_trans[OF s(2) r(4)] e by simp
  moreover have "\<forall>q \<in> set (p # ys). h' q = None" "\<forall>q. q \<notin> set (p # ys) \<longrightarrow> h' q = h q"
    using r(5,6) g(5,6) by auto
  ultimately show ?case using r(1-3) unfolding step by blast
qed

section \<open>The attachments over a session\<close>

text \<open>The addresses of the connected clients.\<close>

definition addrs :: "server_state \<Rightarrow> nat list" where
  "addrs s = map fst (cm_clients (ss_manager s))"

text \<open>What a step of a session keeps.\<close>

definition keeps :: "server_state \<Rightarrow> server_state \<Rightarrow> bool" where
  "keeps s s' \<longleftrightarrow> attach_inv s' \<and> addrs s' = addrs s \<and> cm_initialized (ss_manager s') = cm_initialized (ss_manager s)"

lemma keeps_refl: "attach_inv s \<Longrightarrow> keeps s s" by (simp add: keeps_def)

lemma keeps_trans: "keeps s s1 \<Longrightarrow> keeps s1 s2 \<Longrightarrow> keeps s s2" by (simp add: keeps_def)

lemma client_at_addrs: "(\<exists>c. client_at s p = Some c) \<longleftrightarrow> p \<in> set (addrs s)"
  using map_of_eq_None_iff[of "cm_clients (ss_manager s)" p]
  by (cases "map_of (cm_clients (ss_manager s)) p") (simp_all add: client_at_def addrs_def)

lemma addrs_simps [simp]:
  "addrs (set_client p c s) = addrs s" "addrs (set_device q d tr s) = addrs s"
  "cm_initialized (ss_manager (set_client p c s)) = cm_initialized (ss_manager s)"
  "addrs (s\<lparr>ss_heap := h\<rparr>) = addrs s" "addrs (s\<lparr>ss_list := l\<rparr>) = addrs s"
  by (simp_all add: addrs_def set_client_def comp_def split_beta)

lemma release_and_close_manager [simp]: "ss_manager (release_and_close p d tr s) = ss_manager s"
  by (simp add: release_and_close_def split: prod.splits)

lemma addrs_release [simp]: "addrs (release_and_close p d tr s) = addrs s"
  by (simp add: addrs_def)

lemma attach_inv_client:
  assumes inv: "attach_inv s" and cl: "client_at s p = Some c" and same: "same_attachment c c'"
  shows "attach_inv (set_client p c' s)"
proof -
  have ok: "client_ok (ss_list s) c" by (rule attach_inv_client_ok[OF inv cl])
  have at: "attached c' = attached c" using same by (simp add: same_attachment_def attached_def)
  have "attach_inv (set_client p c' s\<lparr>ss_list := ss_list s, ss_heap := ss_heap s, ss_usb := ss_usb s, ss_net := ss_net s\<rparr>)"
  proof (rule attach_inv_update[OF inv cl])
    show "client_ok (ss_list s) c'" using ok same at
      by (auto simp: client_ok_def same_attachment_def split: option.splits)
    fix q d assume d: "(q, d) \<in> set (cm_clients (ss_manager s))" "q \<noteq> p" "attached d"
    have "fst (p, c) = fst (q, d)" if "attached c" "streq (cc_attached_busid c) (cc_attached_busid d)"
      using inv client_at_mem[OF cl] d(1,3) that unfolding attach_inv_def no_sharing_def by (metis snd_conv)
    then show "link_view (ss_list s) (cc_attached_busid d) = link_view (ss_list s) (cc_attached_busid d) \<and>
        (attached c' \<longrightarrow> \<not> streq (cc_attached_busid c') (cc_attached_busid d))"
      using d(2) at same by (auto simp: same_attachment_def)
  qed (use inv in \<open>simp_all add: attach_inv_def\<close>)
  then show ?thesis by (simp add: set_client_def)
qed

lemma keeps_client:
  assumes "attach_inv s" and "client_at s p = Some c" and "same_attachment c c'"
  shows "keeps s (set_client p c' (s\<lparr>ss_heap := h\<rparr>))" and "keeps s (set_client p c' s)"
  using attach_inv_client[of "s\<lparr>ss_heap := h\<rparr>" p c c'] attach_inv_client[OF assms] assms
  by (simp_all add: keeps_def client_at_def)

lemma keeps_attach:
  assumes "attach_inv s" and "client_at s p = Some c"
    and "client_attach_device env p busid s = Some (err, s')"
  shows "keeps s s'"
proof -
  have "attach_inv s'" by (rule client_attach_inv[OF assms])
  moreover from assms(2,3) have "addrs s' = addrs s \<and> cm_initialized (ss_manager s') = cm_initialized (ss_manager s)"
    by (cases rule: client_attach_cases) auto
  ultimately show ?thesis by (simp add: keeps_def)
qed

lemma keeps_detach:
  assumes "attach_inv s" and "client_detach_device joined p s = Some (err, s')"
  shows "keeps s s'"
proof -
  have "addrs s' = addrs s \<and> cm_initialized (ss_manager s') = cm_initialized (ss_manager s)"
    using assms(2)
    by (auto simp: client_detach_device_def bind_eq_Some_conv split: if_splits option.splits)
  then show ?thesis using client_detach_inv[OF assms] by (simp add: keeps_def)
qed

lemmas outcome_simps = after_op_def after_recv_def after_call_def

lemma keeps_import:
  assumes "attach_inv s" and "client_at s p = Some cl"
    and "client_handle_import env joined p busid (s, c) = Returns (err, s', c')"
  shows "keeps s s'"
proof -
  obtain e1 s1 where a: "client_attach_device env p busid s = Some (e1, s1)"
    using assms(3) by (auto simp: client_handle_import_def outcome_simps split: option.splits)
  have k: "keeps s s1" by (rule keeps_attach[OF assms(1,2) a])
  have "s' = s1 \<or> (\<exists>e2. client_detach_device joined p s1 = Some (e2, s'))"
    using assms(3) a
    by (auto simp: client_handle_import_def outcome_simps Let_def split: option.splits prod.splits if_splits)
  then show ?thesis using k keeps_detach[of s1 joined p] keeps_trans[OF k] by (auto simp: keeps_def)
qed

lemma keeps_request:
  assumes "attach_inv s" and "client_at s p = Some cl"
    and "client_handle_request env joined p (s, c) = Returns (err, s', c')"
  shows "keeps s s'"
proof -
  have "s' = s \<or> (\<exists>busid c1. client_handle_import env joined p busid (s, c1) = Returns (err, s', c'))"
    using assms(3)
    by (auto simp: client_handle_request_def outcome_simps split: option.splits prod.splits if_splits sum.splits)
  then show ?thesis using keeps_import[OF assms(1,2)] keeps_refl[OF assms(1)] by blast
qed

lemma worker_moves_same: "worker_moves w h cl = Some (h', cl') \<Longrightarrow> same_attachment cl cl'"
  by (auto simp: worker_moves_def same_attachment_def split: option.splits)

lemma next_completed_same: "next_completed h cl = Some (r, h', cl') \<Longrightarrow> same_attachment cl cl'"
  by (auto simp: next_completed_def same_attachment_def split: option.splits)

lemma send_completed_same:
  assumes "send_completed p h cl c = Some (err, h', cl', c')"
  shows "same_attachment cl cl'"
proof -
  obtain e where e: "h p = Some e" using assms by (auto simp: send_completed_def bind_eq_Some_conv)
  obtain er k d where r: "client_send_urb_completion e cl c = (er, k, d)" by (metis prod_cases3)
  then have k: "cl' = k" using assms e by (auto simp: send_completed_def bind_eq_Some_conv)
  show ?thesis unfolding k same_attachment_def by (subst (1 2 3 4) send_completion_frame[OF r]) simp
qed

lemma drain_same: "drain_loop worker n h cl c = Some r \<Longrightarrow> same_attachment cl (fst (snd r))"
proof (induction rule: drain_loop.raw_induct[rotated, consumes 1, case_names step])
  case (step f worker n h cl c r)
  obtain h1 cl1 where w: "worker_moves (worker n) h cl = Some (h1, cl1)"
    using step(2) by (auto simp: bind_eq_Some_conv)
  obtain q h2 cl2 where g: "next_completed h1 cl1 = Some (q, h2, cl2)"
    using step(2) w by (auto simp: bind_eq_Some_conv)
  have s2: "same_attachment cl cl2"
    using worker_moves_same[OF w] next_completed_same[OF g] by (rule same_attachment_trans)
  show ?case
  proof (cases "q = None")
    case True
    then show ?thesis using step(2) w g s2 by auto
  next
    case False
    then obtain err h3 cl3 c3 where s: "send_completed (the q) h2 cl2 c = Some (err, h3, cl3, c3)"
      "(if err \<noteq> ERR_SUCCESS then Some (h3, cl3, c3) else f worker (Suc n) h3 cl3 c3) = Some r"
      using step(2) w g by (auto simp: bind_eq_Some_conv)
    have s3: "same_attachment cl cl3" using s2 send_completed_same[OF s(1)] by (rule same_attachment_trans)
    show ?thesis
    proof (cases "err = ERR_SUCCESS")
      case True
      then have "same_attachment cl3 (fst (snd r))" using step(1) s(2) by simp
      with s3 show ?thesis by (rule same_attachment_trans)
    next
      case False
      then show ?thesis using s(2) s3 by auto
    qed
  qed
qed

lemma forward_same: "client_forward_urb calloc malloc now header data h cl = Some (err, h', cl') \<Longrightarrow> same_attachment cl cl'"
  by (auto simp: client_forward_urb_def same_attachment_def bind_eq_Some_conv split: option.splits)

lemma keeps_forward:
  assumes "attach_inv s" and "client_at s p = Some cl" and "same_attachment cl cl1"
    and "forward_and_drain env p header data cl1 s c = Returns (go, s', c')"
  shows "keeps s s'"
proof -
  obtain e h2 cl2 where f: "client_forward_urb (se_calloc env) (se_malloc env) (se_now env) header data (ss_heap s) cl1 = Some (e, h2, cl2)"
    using assms(4) by (auto simp: forward_and_drain_def outcome_simps split: option.splits)
  then obtain h3 cl3 c3 where d: "drain_loop (\<lambda>n. se_worker env (Suc n)) 0 h2 cl2 c = Some (h3, cl3, c3)"
    "s' = set_client p cl3 (s\<lparr>ss_heap := h3\<rparr>)"
    using assms(4) by (auto simp: forward_and_drain_def outcome_simps split: option.splits)
  have "same_attachment cl cl3"
    using same_attachment_trans[OF assms(3) forward_same[OF f]] drain_same[OF d(1)] by (simp add: same_attachment_def)
  then show ?thesis unfolding d(2) by (rule keeps_client(1)[OF assms(1,2)])
qed

lemma keeps_submit:
  assumes "attach_inv s" and "client_at s p = Some cl" and "same_attachment cl cl1"
    and "submit_turn env p header cl1 s c = Returns (go, s', c')"
  shows "keeps s s'"
proof -
  have b: "same_attachment cl (cl1\<lparr>cc_bytes_received := x\<rparr>)" for x using assms(3) by (simp add: same_attachment_def)
  have "s' = set_client p cl1 s \<or> (\<exists>data cl2 c2. same_attachment cl cl2 \<and>
      forward_and_drain env p header data cl2 s c2 = Returns (go, s', c'))"
    using assms(3,4) b
    by (auto simp: submit_turn_def outcome_simps Let_def split: option.splits prod.splits if_splits sum.splits)
  then show ?thesis using keeps_client(2)[OF assms(1-3)] keeps_forward[OF assms(1,2)] by blast
qed

lemma keeps_unlink:
  assumes "attach_inv s" and "client_at s p = Some cl" and "same_attachment cl cl1"
    and "unlink_turn p header cl1 s c = Returns (go, s', c')"
  shows "keeps s s'"
proof -
  have "\<exists>x h. s' = set_client p cl1 (s\<lparr>ss_heap := h\<rparr>) \<or> s' = set_client p (cl1\<lparr>cc_urb_handler := x\<rparr>) (s\<lparr>ss_heap := h\<rparr>)"
    using assms(4) by (auto simp: unlink_turn_def outcome_simps Let_def split: option.splits prod.splits)
  moreover have "same_attachment cl (cl1\<lparr>cc_urb_handler := x\<rparr>)" for x using assms(3) by (simp add: same_attachment_def)
  ultimately show ?thesis using keeps_client(1)[OF assms(1,2)] assms(3) by blast
qed

lemma keeps_turn:
  assumes inv: "attach_inv s" and r: "session_turn env p s c = Returns (go, s', c')"
  shows "keeps s s'"
proof -
  obtain cl where cl: "client_at s p = Some cl"
    using r by (auto simp: session_turn_def outcome_simps split: option.splits)
  show ?thesis
  proof (cases "cc_state cl = CLIENT_STATE_CONNECTED")
    case True
    then obtain err where "client_handle_request (se_attach env) (se_joined env) p (s, c) = Returns (err, s', c')"
      using r cl by (auto simp: session_turn_def outcome_simps split: outcome.splits)
    from keeps_request[OF inv cl this] show ?thesis .
  next
    case False
    have "s' = s \<or> (\<exists>h cl1. worker_moves (se_worker env 0) (ss_heap s) cl = Some (h, cl1) \<and>
        (s' = set_client p cl1 (s\<lparr>ss_heap := h\<rparr>) \<or>
         (\<exists>header c1. submit_turn env p header cl1 (s\<lparr>ss_heap := h\<rparr>) c1 = Returns (go, s', c') \<or>
           unlink_turn p header cl1 (s\<lparr>ss_heap := h\<rparr>) c1 = Returns (go, s', c'))))"
      using r cl False
      by (auto simp: session_turn_def outcome_simps Let_def split: option.splits prod.splits if_splits sum.splits)
    then show ?thesis
    proof (elim disjE exE conjE)
      assume "s' = s" then show ?thesis using keeps_refl[OF inv] by simp
    next
      fix h cl1 assume w: "worker_moves (se_worker env 0) (ss_heap s) cl = Some (h, cl1)" and "s' = set_client p cl1 (s\<lparr>ss_heap := h\<rparr>)"
      then show ?thesis using keeps_client(1)[OF inv cl worker_moves_same[OF w]] by simp
    next
      fix h cl1 header c1
      assume w: "worker_moves (se_worker env 0) (ss_heap s) cl = Some (h, cl1)"
        and t: "submit_turn env p header cl1 (s\<lparr>ss_heap := h\<rparr>) c1 = Returns (go, s', c')"
      show ?thesis using keeps_submit[OF _ _ worker_moves_same[OF w] t] inv cl by (simp add: keeps_def client_at_def)
    next
      fix h cl1 header c1
      assume w: "worker_moves (se_worker env 0) (ss_heap s) cl = Some (h, cl1)"
        and t: "unlink_turn p header cl1 (s\<lparr>ss_heap := h\<rparr>) c1 = Returns (go, s', c')"
      show ?thesis using keeps_unlink[OF _ _ worker_moves_same[OF w] t] inv cl by (simp add: keeps_def client_at_def)
    qed
  qed
qed

lemma keeps_session:
  "attach_inv s \<Longrightarrow> handle_client_session envs p s c = Returns (s', c') \<Longrightarrow> keeps s s'"
proof (induction envs arbitrary: s c)
  case (Cons env envs)
  obtain cl where cl: "client_at s p = Some cl" using Cons(3) by (auto simp: outcome_simps split: option.splits)
  show ?case
  proof (cases "se_running env \<and> cc_state cl \<noteq> CLIENT_STATE_DISCONNECTED")
    case False
    then show ?thesis using Cons(2,3) cl keeps_refl by (auto simp: outcome_simps)
  next
    case True
    then obtain go s1 c1 where t: "session_turn env p s c = Returns (go, s1, c1)"
      "(if go then handle_client_session envs p s1 c1 else Returns (s1, c1)) = Returns (s', c')"
      using Cons(3) cl by (auto simp: outcome_simps split: outcome.splits)
    have k: "keeps s s1" by (rule keeps_turn[OF Cons(2) t(1)])
    show ?thesis
    proof (cases go)
      case False
      then show ?thesis using t(2) k by simp
    next
      case go: True
      have "keeps s1 s'" by (rule Cons.IH[of s1 c1]) (use k t(2) go in \<open>simp_all add: keeps_def\<close>)
      with k show ?thesis by (rule keeps_trans)
    qed
  qed
qed simp

section \<open>The attachments over the accept loop\<close>

lemma client_remove_addrs:
  assumes "attach_inv s" and "client_manager_remove joined p s = Some (err, s')" and "cm_initialized (ss_manager s)"
  shows "addrs s' = filter (\<lambda>q. q \<noteq> p) (addrs s) \<and> cm_initialized (ss_manager s')"
proof -
  have d: "distinct (map fst (cm_clients (ss_manager s)))" using assms(1) by (simp add: attach_inv_def)
  have f: "ss_manager s2 = ss_manager s1" if "free_client joined c s1 = Some s2" for c s1 s2
    using that by (auto simp: free_client_def bind_eq_Some_conv Let_def case_prod_unfold split: option.splits if_splits)
  show ?thesis
  proof (cases "client_at s p")
    case None
    then have "p \<notin> set (addrs s)" using client_at_addrs[of s p] by auto
    then have "filter (\<lambda>q. q \<noteq> p) (addrs s) = addrs s" by (auto intro: filter_True)
    then show ?thesis using None assms(2,3)
      by (simp add: client_manager_remove_def unlink_client_eq[OF d] client_at_def Let_def)
  next
    case (Some c)
    let ?m = "(ss_manager s)\<lparr>cm_clients := filter (\<lambda>n. fst n \<noteq> p) (cm_clients (ss_manager s)),
      cm_client_count := cm_client_count (ss_manager s) - 1\<rparr>"
    have "ss_manager s' = ?m"
      using assms(2,3) Some unlink_client_eq[OF d, of p]
      by (auto simp: client_manager_remove_def client_at_def Let_def bind_eq_Some_conv dest!: f)
    then show ?thesis using assms(3) by (simp add: addrs_def filter_map comp_def)
  qed
qed

lemma serve_client_addrs:
  assumes "attach_inv s" and "cm_initialized (ss_manager s)" and "serve_client env p s c = Returns (s', c')"
  shows "attach_inv s' \<and> addrs s' = filter (\<lambda>q. q \<noteq> p) (addrs s) \<and> cm_initialized (ss_manager s')"
proof -
  obtain s1 e2 s2 e3 where r: "handle_client_session (le_session env) p s c = Returns (s1, c')"
    "client_detach_device (le_joined env) p s1 = Some (e2, s2)"
    "client_manager_remove (le_joined env) p s2 = Some (e3, s')"
    using assms(3) by (auto simp: serve_client_def outcome_simps split: outcome.splits option.splits)
  have k1: "keeps s s1" by (rule keeps_session[OF assms(1) r(1)])
  then have "keeps s1 s2" using keeps_detach[OF _ r(2)] by (simp add: keeps_def)
  with k1 have k: "keeps s s2" by (rule keeps_trans)
  then show ?thesis using client_remove_addrs[OF _ r(3)] client_remove_inv[OF _ r(3)] assms(2) by (simp add: keeps_def)
qed

lemma attach_inv_net_manager [simp]:
  "attach_inv (s\<lparr>ss_net := t, ss_manager := m\<rparr>) = attach_inv (s\<lparr>ss_manager := m\<rparr>)"
  by (simp add: attach_inv_def)

text \<open>The cases of one turn of the accept loop.\<close>

lemma server_turn_cases:
  assumes "server_turn env token sock s = Returns (s', c')"
  obtains (no_client) t where "s' = s\<lparr>ss_net := t\<rparr>" and "sent c' = sent (le_conn env)"
  | (not_added) t c err q m cs ip port where "s' = s\<lparr>ss_net := t, ss_manager := m\<rparr>" and "c' = c"
      and "auth_is_enabled token \<Longrightarrow> auth_server_handshake token (le_conn env) = Some (ERR_SUCCESS, c)"
      and "client_manager_add (le_calloc env) (le_now env) cs ip port (ss_manager s) = (err, q, m)" and "err \<noteq> ERR_SUCCESS"
  | (served) t c p m cs ip port where "serve_client env p (s\<lparr>ss_net := t, ss_manager := m\<rparr>) c = Returns (s', c')"
      and "auth_is_enabled token \<Longrightarrow> auth_server_handshake token (le_conn env) = Some (ERR_SUCCESS, c)"
      and "client_manager_add (le_calloc env) (le_now env) cs ip port (ss_manager s) = (ERR_SUCCESS, Some p, m)"
proof -
  obtain cs ip port tr where a: "tcp_server_accept_timeout (le_os env) sock (Some (le_ip_buf env)) 64 (Some 0) 1000 =
      (cs, ip, port, tr)" by (metis prod_cases4)
  show thesis
  proof (cases "socket_is_valid cs")
    case False
    then show thesis using assms a no_client[of "ss_net s @ tr"] by (simp add: server_turn_def Let_def)
  next
    case True
    let ?h = "if auth_is_enabled token then auth_server_handshake token (le_conn env) else Some (ERR_SUCCESS, le_conn env)"
    obtain ae c where h: "?h = Some (ae, c)"
      using assms a True by (cases ?h) (auto simp: server_turn_def outcome_simps)
    show thesis
    proof (cases "ae = ERR_SUCCESS")
      case False
      then have en: "auth_is_enabled token" "auth_server_handshake token (le_conn env) = Some (ae, c)"
        using h by (auto split: if_splits)
      then obtain e where e: "token = Some e" "cstr e \<noteq> []"
        by (auto simp: auth_is_enabled_def cstr_eq_Nil_iff split: option.splits)
      have "sent c = sent (le_conn env)" using auth_server_handshake_cases[OF e(2)] en(2) e(1) by blast
      then show thesis using assms a True h False no_client[of "ss_net s @ tr @ socket_close cs"]
        by (simp add: server_turn_def outcome_simps Let_def)
    next
      case ok: True
      obtain err q m where ad: "client_manager_add (le_calloc env) (le_now env) cs ip (the port) (ss_manager s) = (err, q, m)"
        by (metis prod_cases3)
      have hs: "auth_is_enabled token \<Longrightarrow> auth_server_handshake token (le_conn env) = Some (ERR_SUCCESS, c)"
        using h ok by simp
      show thesis
      proof (cases "err = ERR_SUCCESS")
        case False
        then show thesis using assms a True h ok ad hs not_added[where t = "ss_net s @ tr @ socket_close cs" and m = m and c = c and cs = cs and ip = ip
            and port = "the port" and err = err and q = q]
          by (simp add: server_turn_def outcome_simps Let_def)
      next
        case True2: True
        then obtain p where "q = Some p"
          using ad by (auto simp: client_manager_add_def Let_def split: if_splits option.splits)
        then show thesis using assms a True h ok ad hs True2 served[where p = p and t = "ss_net s @ tr"
            and m = m and c = c and cs = cs and ip = ip and port = "the port"]
          by (simp add: server_turn_def outcome_simps Let_def)
      qed
    qed
  qed
qed

section \<open>Start-up\<close>

lemma apply_filter_lookup:
  assumes "dl_inv l" and "\<And>b. map_option de_is_shared (dl_lookup l b) = map_option (\<lambda>_. True) (X b)"
  shows "map_option de_is_shared (dl_lookup (apply_filter flt l) b) =
    map_option (\<lambda>_. cstr flt = [] \<or> streq b flt) (X b)"
proof (cases "char_at flt 0 = 0")
  case True
  then show ?thesis using assms(2)[of b] by (simp add: apply_filter_def cstr_eq_Nil_iff)
next
  case False
  let ?l = "share_entries False l"
  have i: "dl_inv ?l" by (rule share_entries_spec(1)[OF assms(1)])
  have n: "cstr flt \<noteq> []" using False by (simp add: cstr_eq_Nil_iff)
  have X: "dl_lookup l k = None \<longleftrightarrow> X k = None" for k using assms(2)[of k] by (metis option.map_disc_iff)
  have c: "dl_lookup l flt = dl_lookup l b" if "cstr b = cstr flt" using that by (simp add: dl_lookup_def)
  have lk: "dl_lookup (apply_filter flt l) b =
      (if cstr b = cstr flt then map_option (\<lambda>e. e\<lparr>de_is_shared := True\<rparr>) (dl_lookup l flt)
       else map_option (\<lambda>e. e\<lparr>de_is_shared := False\<rparr>) (dl_lookup l b))"
    using False by (simp add: apply_filter_def share_all_eq set_shared.lookup[OF i] share_entries_spec(2) option.map_comp comp_def)
  show ?thesis
  proof (cases "dl_lookup l b")
    case None
    then show ?thesis using X[of b] c by (auto simp: lk)
  next
    case (Some y)
    then obtain a where "X b = Some a" using X[of b] by auto
    then show ?thesis using Some c n by (auto simp: lk streq_def)
  qed
qed

text \<open>Nothing but the error code tells a failing start from one that did not happen.\<close>

definition all_down :: "g_server \<Rightarrow> bool" where
  "all_down g \<longleftrightarrow> \<not> gs_network_up g \<and> \<not> uh_initialized (gs_host g)"

lemma undo_all_down: "all_down (undo_host g)" "all_down (undo_list g)"
  "gs_running (undo_host g) = gs_running g" "gs_running (undo_list g) = gs_running g"
  by (simp_all add: all_down_def undo_host_def undo_list_def with_list_def network_cleanup_def
      split: prod.splits)

lemma all_down_same [simp]: "all_down g \<Longrightarrow> all_down (g\<lparr>gs_network_up := False\<rparr>)"
  by (simp add: all_down_def)

lemma server_init_failed:
  assumes "server_init env g = (err, g')" and "err \<noteq> ERR_SUCCESS" and "all_down g"
  shows "all_down g' \<and> gs_running g' = gs_running g"
  using assms
  by (auto simp: server_init_def network_init_def usb_host_init_def with_list_def undo_all_down Let_def
      split: prod.splits if_splits)

text \<open>The list a start-up builds from the enumerated devices, filtered.\<close>

lemma first_list_shared:
  assumes "device_list_init True = (e0, l0)" and "ds = map (node_device utf8) (filter (\<lambda>d. \<not> node_skipped d) nodes)"
    and "length ds \<le> length allocs" and "distinct allocs" and "None \<notin> set allocs"
    and r: "device_list_refresh utf8 True (Some nodes) allocs now l0 = (err, l, tr)"
  shows "map_option de_is_shared (dl_lookup (apply_filter flt l) b) =
    map_option (\<lambda>_. cstr flt = [] \<or> streq b flt) (last_device ds b)"
proof -
  have l0: "dl_inv l0" "dl_initialized l0" "dl_head l0 = []" "\<And>b. dl_lookup l0 b = None"
    using assms(1) by (auto simp: device_list_init_def dl_inv_def dl_lookup_def Let_def)
  note spec = device_list_refresh_spec[OF l0(1,2) _ assms(2-5) r]
  have "map_option de_is_shared (dl_lookup l b) = map_option (\<lambda>_. True) (last_device ds b)" for b
  proof -
    have "map_option entry_view (dl_lookup l b) = map_option (\<lambda>d. (d, DEVICE_STATE_AVAILABLE, 0, [], True)) (last_device ds b)"
      using spec[of b] l0(3,4) by simp
    then have "map_option (\<lambda>v. snd (snd (snd (snd v)))) (map_option entry_view (dl_lookup l b)) =
        map_option (\<lambda>v. snd (snd (snd (snd v)))) (map_option (\<lambda>d. (d, DEVICE_STATE_AVAILABLE, 0 :: uint32_t, [] :: byte list, True)) (last_device ds b))"
      by simp
    then show ?thesis by (simp add: option.map_comp comp_def entry_view_def)
  qed
  moreover have "dl_inv l" using spec[of "[]"] l0(3) by simp
  ultimately show ?thesis by (rule apply_filter_lookup[rotated])
qed

lemma server_init_success:
  assumes "server_init env g = (ERR_SUCCESS, g')"
  obtains l0 err l tr where "device_list_init True = (ERR_SUCCESS, l0)"
    and "device_list_refresh (in_utf8 env) True (in_nodes env) (in_allocs env) (in_clock env) l0 = (err, l, tr)"
    and "ss_list (gs_state g') = apply_filter (sv_device_filter (gs_config g)) l"
    and "gs_running g'" and "gs_network_up g'" and "uh_initialized (gs_host g')" and "socket_is_valid (gs_server_socket g')"
    and "sv_auth_token (gs_config g') = Some (auth_get_token (sv_auth_token (gs_config g)) (in_token_env env))"
proof -
  have m: "in_list_mutex env"
    using assms by (auto simp: server_init_def device_list_init_def Let_def split: prod.splits if_splits)
  obtain l0 where l0: "device_list_init True = (ERR_SUCCESS, l0)" by (simp add: device_list_init_def Let_def)
  obtain err l tr where r: "device_list_refresh (in_utf8 env) True (in_nodes env) (in_allocs env) (in_clock env) l0 = (err, l, tr)"
    by (metis prod_cases3)
  have "ss_list (gs_state g') = apply_filter (sv_device_filter (gs_config g)) l \<and> gs_running g' \<and> gs_network_up g' \<and>
      uh_initialized (gs_host g') \<and> socket_is_valid (gs_server_socket g') \<and>
      sv_auth_token (gs_config g') = Some (auth_get_token (sv_auth_token (gs_config g)) (in_token_env env))"
    using assms m l0 r
    by (auto simp: server_init_def network_init_def usb_host_init_def with_list_def Let_def split: prod.splits if_splits)
  then show thesis using that l0 r by blast
qed

section \<open>Properties\<close>

text \<open>
  C11: all completed request blocks are answered, in order. When the session looks at the
  completed queue on a healthy connection and the worker is idle, the loop ends, the replies
  to all completed entries (header, and the data of an IN transfer) are sent in the order of
  the queue, each entry is freed, and only pending entries are left.
\<close>

theorem drain_sends_all:
  assumes "handler_rep h hr xs ys" and "hd_initialized hr" and "cc_urb_handler cl = Some hr" and "tx_ok (txs c)"
  shows "\<exists>h' hr' cl' c'. drain_loop (\<lambda>n h hr. Some (h, hr)) 0 h cl c = Some (h', cl', c') \<and>
    cc_urb_handler cl' = Some hr' \<and> handler_rep h' hr' xs [] \<and>
    sent c' = sent c @ concat (map (\<lambda>p. completion_wire (the (h p))) ys) \<and> (\<forall>p \<in> set ys. h' p = None)"
  using drain_ok[OF assms, of "\<lambda>n h hr. Some (h, hr)" 0] by auto

definition sample_drain_client :: client_connection where
  "sample_drain_client = (new_client 1 7 None 0 0)\<lparr>cc_urb_handler := Some (sample_handler\<lparr>hd_completed :=
     \<lparr>q_head = Some 10, q_tail = Some 11, q_count = 2\<rparr>\<rparr>)\<rparr>"

theorem drain_sends_all_witness:
  "\<exists>h' cl' c'. drain_loop (\<lambda>n h hr. Some (h, hr)) 0 sample_heap sample_drain_client sample_conn = Some (h', cl', c') \<and>
     sent c' = completion_wire (sample_entry 1 (Some 11)) @ completion_wire (sample_entry 2 None) \<and> h' 10 = None"
proof -
  let ?hr = "sample_handler\<lparr>hd_completed := \<lparr>q_head = Some 10, q_tail = Some 11, q_count = 2\<rparr>\<rparr>"
  have "handler_rep sample_heap ?hr [] [10, 11]"
    by (simp add: handler_rep_def queue_rep_def sample_heap_def sample_entry_def sample_handler_def zero_handler_def empty_queue_def)
  moreover have "hd_initialized ?hr" by (simp add: sample_handler_def)
  moreover have "cc_urb_handler sample_drain_client = Some ?hr" by (simp add: sample_drain_client_def)
  moreover have "tx_ok (txs sample_conn)" "sent sample_conn = []" by (simp_all add: sample_conn_def tx_ok_def)
  moreover have "the (sample_heap 10) = sample_entry 1 (Some 11)" "the (sample_heap 11) = sample_entry 2 None"
    by (simp_all add: sample_heap_def)
  ultimately show ?thesis using drain_sends_all[of sample_heap ?hr "[]" "[10, 11]" sample_drain_client sample_conn] by auto
qed


text \<open>
  C7: the accept loop leaves no client behind. Started without clients, with the attachment
  invariant, the loop ends (when it ends) with the invariant and again without clients,
  whatever the clients sent, the devices answered and the worker did.
\<close>

theorem accept_loop_clean:
  assumes "attach_inv s" and "cm_clients (ss_manager s) = []" and "cm_initialized (ss_manager s)"
    and "server_main_loop envs token sock s = Returns s'"
  shows "attach_inv s' \<and> cm_clients (ss_manager s') = [] \<and> cm_client_count (ss_manager s') = 0"
proof -
  have turn: "attach_inv s2 \<and> addrs s2 = [] \<and> cm_initialized (ss_manager s2)"
    if i: "attach_inv s1" "addrs s1 = []" "cm_initialized (ss_manager s1)"
      and t: "server_turn env token sock s1 = Returns (s2, c)" for env s1 s2 c
    using t
  proof (cases rule: server_turn_cases)
    case (no_client t)
    then show ?thesis using i by (simp add: addrs_def)
  next
    case (not_added t c err q m cs ip port)
    have "attach_inv (s1\<lparr>ss_manager := m\<rparr>)"
      by (rule client_add_inv[OF i(1) _ not_added(4)]) (use i(2) in \<open>simp add: client_at_def addrs_def\<close>)
    then show ?thesis using not_added i
      by (auto simp: addrs_def client_manager_add_def create_client_def Let_def split: if_splits option.splits)
  next
    case (served t c p m cs ip port)
    have "attach_inv (s1\<lparr>ss_manager := m\<rparr>)"
      by (rule client_add_inv[OF i(1) _ served(3)]) (use i(2) in \<open>simp add: client_at_def addrs_def\<close>)
    moreover have "map fst (cm_clients m) = [p]" "cm_initialized m"
      using served(3) i(2,3)
      by (auto simp: addrs_def client_manager_add_def create_client_def Let_def split: if_splits option.splits)
    ultimately show ?thesis using serve_client_addrs[OF _ _ served(1)] by (simp add: addrs_def)
  qed
  have "attach_inv s' \<and> addrs s' = []"
    if "attach_inv s1" "addrs s1 = []" "cm_initialized (ss_manager s1)"
      "server_main_loop envs token sock s1 = Returns s'" for s1
    using that
  proof (induction envs arbitrary: s1)
    case (Cons env envs)
    show ?case
    proof (cases "le_running env")
      case False
      then show ?thesis using Cons.prems by simp
    next
      case True
      then obtain s2 c where t: "server_turn env token sock s1 = Returns (s2, c)"
        "server_main_loop envs token sock s2 = Returns s'"
        using Cons.prems(4) by (auto simp: outcome_simps split: outcome.splits)
      with turn[OF Cons.prems(1-3) t(1)] show ?thesis using Cons.IH by blast
    qed
  qed simp
  from this[OF assms(1) _ assms(3,4)] assms(2) have "attach_inv s'" "cm_clients (ss_manager s') = []"
    by (simp_all add: addrs_def)
  then show ?thesis by (auto simp: attach_inv_def)
qed


text \<open>A session script: each turn served with the sample environment while the program runs.\<close>

definition sample_session :: session_env where
  "sample_session =
     \<lparr>se_running = True, se_attach = sample_env, se_joined = (\<lambda>h hr. Some (h, hr)), se_worker = (\<lambda>n h hr. Some (h, hr)),
      se_data_malloc = True, se_calloc = Some 200, se_malloc = (\<lambda>n. Some (replicate n 0)), se_now = 9\<rparr>"

definition listening_winsock :: winsock where
  "listening_winsock = sample_winsock\<lparr>ws_select := (\<lambda>n fds tv. (1, fds))\<rparr>"

definition sample_loop :: "rx_event list \<Rightarrow> loop_env" where
  "sample_loop r =
     \<lparr>le_running = True, le_os = listening_winsock, le_ip_buf = replicate 64 0, le_conn = quiet_conn r,
      le_calloc = Some 100, le_now = 3, le_session = [sample_session, sample_session, sample_session],
      le_joined = (\<lambda>h hr. Some (h, hr))\<rparr>"


theorem accept_loop_clean_witness:
  "\<exists>s'. server_main_loop
       [sample_loop [RxData (wire_header_basic (iq_header (usbip_create_import_request (Some (ascii ''1-1'')))) @
          iq_busid (usbip_create_import_request (Some (ascii ''1-1'')))), RxClosed],
        sample_loop [] \<lparr>le_running := False\<rparr>] None 4 sample_server = Returns s' \<and>
     cm_clients (ss_manager s') = []"
proof -
  let ?r = "server_main_loop
       [sample_loop [RxData (wire_header_basic (iq_header (usbip_create_import_request (Some (ascii ''1-1'')))) @
          iq_busid (usbip_create_import_request (Some (ascii ''1-1'')))), RxClosed],
        sample_loop [] \<lparr>le_running := False\<rparr>] None 4 sample_server"
  have "case ?r of Returns s' \<Rightarrow> True | _ \<Rightarrow> False" by code_simp
  then obtain s' where r: "?r = Returns s'" by (auto split: outcome.splits)
  have "dl_inv (ss_list sample_server)" "dl_lookup (ss_list sample_server) [] = None" by code_simp+
  then have "attach_inv sample_server"
    by (simp add: attach_inv_def) (simp add: sample_server_def client_manager_init_def Let_def no_sharing_def)
  moreover have "cm_clients (ss_manager sample_server) = []" "cm_initialized (ss_manager sample_server)"
    by (simp_all add: sample_server_def client_manager_init_def Let_def)
  ultimately show ?thesis using accept_loop_clean[OF _ _ _ r] r by blast
qed



lemma server_init_succeeds:
  assumes "in_log env = ERR_SUCCESS" and "ws_startup (in_os env) = 0" and "in_list_mutex env" and "in_manager_mutex env"
    and "socket_is_valid (fst (tcp_server_create (in_os env) (Some (sv_bind_address (gs_config g))) (sv_port (gs_config g))))"
  shows "fst (server_init env g) = ERR_SUCCESS"
  using assms
  by (auto simp: server_init_def network_init_def usb_host_init_def device_list_init_def client_manager_init_def
      with_list_def Let_def split: prod.splits)

definition sample_globals :: g_server where
  "sample_globals =
     \<lparr>gs_config = default_config\<lparr>sv_device_filter := str_copy (replicate 32 0) (ascii ''9-9'') 32\<rparr>, gs_running = False,
      gs_server_socket = INVALID_SOCKET_VAL, gs_state = sample_server, gs_network_up = False, gs_host = default_usb_host\<rparr>"

definition sample_init :: init_env where
  "sample_init =
     \<lparr>in_log = ERR_SUCCESS, in_os = listening_winsock, in_list_mutex = True, in_utf8 = (\<lambda>w n. None),
      in_nodes = Some [\<lparr>dn_hardware_id = ascii ''VID_0403 PID_6001'', dn_service = ascii ''WinUSB'', dn_desc = [], dn_desc_w = None,
        dn_friendly_w = None, dn_instance_id = ascii ''a''\<rparr>],
      in_allocs = [Some 60], in_clock = (\<lambda>n. 0), in_manager_mutex = True, in_token_env = None\<rparr>"


end
