(* ===== verification/Discovery.thy ===== *)
theory Discovery
  imports Device_List Socket_Setup
begin

text \<open>
  Discovery of servers by UDP broadcast: the client side of \<^verbatim>\<open>client/discovery.c\<close> and the
  responder thread of \<^verbatim>\<open>gui/server_gui.c\<close>. Each turn of the collecting loop is a record of the
  clock values it reads and of what the socket answers; a loop that runs out of turns has not
  ended, which is the result \<open>None\<close>.
\<close>

section \<open>Data\<close>

abbreviation (input) DISCOVERY_PORT :: uint16_t where "DISCOVERY_PORT \<equiv> 3241"
abbreviation (input) MAX_DISCOVERED_SERVERS :: nat where "MAX_DISCOVERED_SERVERS \<equiv> 32"

definition DISCOVERY_REQUEST :: "byte list" where
  "DISCOVERY_REQUEST = ascii ''USBIP_DISCOVER''"

definition DISCOVERY_RESPONSE :: "byte list" where
  "DISCOVERY_RESPONSE = ascii ''USBIP_SERVER''"

record discovered_server =
  ds_ip_address :: cbuf
  ds_port :: uint16_t
  ds_hostname :: cbuf
  ds_device_count :: int
  ds_response_time_ms :: uint64_t

definition zero_server :: discovered_server where
  "zero_server =
     \<lparr>ds_ip_address = replicate 64 0, ds_port = 0, ds_hostname = replicate 128 0, ds_device_count = 0,
      ds_response_time_ms = 0\<rparr>"

text \<open>The result is the filled part of the array \<open>servers\<close>; its length is \<open>server_count\<close>.\<close>

type_synonym discovery_result = "discovered_server list"

definition discovery_clear_results :: "discovery_result \<Rightarrow> discovery_result" where
  "discovery_clear_results r = []"

section \<open>Parsing a response\<close>

text \<open>
  \<open>sscanf(s, "%127s %d", hostname, &count)\<close>: the number of fields stored, the word, the
  number. C leaves a number outside the range of \<open>int\<close> undefined; it is kept here.
\<close>

definition scan_int :: "byte list \<Rightarrow> int option" where
  "scan_int s =
     (let f = (if s \<noteq> [] \<and> (hd s = 45 \<or> hd s = 43) then tl s else s)
      in if f = [] \<or> \<not> (48 \<le> hd f \<and> hd f \<le> 57) then None
         else Some (if hd s = 45 then - atoi_digits 0 f else atoi_digits 0 f))"

definition scan_word_int :: "byte list \<Rightarrow> (byte list \<times> int option) option" where
  "scan_word_int s =
     (let s1 = dropWhile isspace s; w = take 127 (takeWhile (\<lambda>c. \<not> isspace c) s1)
      in if w = [] then None else Some (w, scan_int (dropWhile isspace (drop (length w) s1))))"

definition store_string :: "cbuf \<Rightarrow> byte list \<Rightarrow> cbuf" where
  "store_string dst w = w @ [0] @ drop (length w + 1) dst"

definition is_response :: "byte list \<Rightarrow> bool" where
  "is_response recv_buf \<longleftrightarrow> take (length DISCOVERY_RESPONSE) (cstr recv_buf) = DISCOVERY_RESPONSE"

text \<open>
  The fields of a server from a datagram; the second result tells whether a host name was read.
\<close>

definition parse_response :: "byte list \<Rightarrow> cbuf \<Rightarrow> uint64_t \<Rightarrow> discovered_server \<Rightarrow> discovered_server \<times> bool" where
  "parse_response recv_buf src_ip time server =
     (let ptr = dropWhile (\<lambda>c. c = 32) (drop (length DISCOVERY_RESPONSE) (cstr recv_buf));
          server = server\<lparr>ds_ip_address := str_copy (ds_ip_address server) src_ip 64, ds_port := 3240,
                     ds_response_time_ms := time\<rparr>
      in case scan_word_int ptr of
           None \<Rightarrow> (server, False)
         | Some (w, n) \<Rightarrow>
             (server\<lparr>ds_hostname := store_string (ds_hostname server) w,
                ds_device_count := (case n of None \<Rightarrow> ds_device_count server | Some k \<Rightarrow> k)\<rparr>, True))"

section \<open>The client\<close>

record discovery_turn =
  dt_elapsed_tick :: uint32_t
  dt_os :: winsock
  dt_datagram :: "datagram option"
  dt_ip_buf :: cbuf
  dt_response_tick :: uint32_t

text \<open>The loop that collects responses; the buffer has 511 usable bytes.\<close>

fun discovery_loop :: "socket_t \<Rightarrow> uint32_t \<Rightarrow> uint32_t \<Rightarrow> discovery_turn list \<Rightarrow> discovery_result \<Rightarrow> discovery_result option" where
  "discovery_loop sock start_time timeout_ms [] result =
     (if length result < MAX_DISCOVERED_SERVERS then None else Some result)"
| "discovery_loop sock start_time timeout_ms (t # ts) result =
     (if \<not> length result < MAX_DISCOVERED_SERVERS then Some result
      else
        let elapsed = dt_elapsed_tick t - start_time
        in if elapsed \<ge> timeout_ms then Some result
           else
             let remaining = timeout_ms - elapsed
             in case udp_recvfrom_timeout (dt_os t) sock (dt_datagram t) 511 (Some (dt_ip_buf t)) 64 (Some 0)
                       (if remaining > 500 then 500 else remaining) of
                  (received, bs, src_ip, src_port) \<Rightarrow>
                    if received \<le> 0 then discovery_loop sock start_time timeout_ms ts result
                    else if is_response bs then
                      (case parse_response bs (the src_ip) (ucast (dt_response_tick t - start_time)) zero_server of
                         (server, found) \<Rightarrow>
                           discovery_loop sock start_time timeout_ms ts (if found then result @ [server] else result))
                    else discovery_loop sock start_time timeout_ms ts result)"

text \<open>What Winsock answers to the two broadcasts, and the clock when the loop starts.\<close>

record broadcast_env =
  be_os :: winsock
  be_send1 :: "nat option"
  be_send2 :: "nat option"
  be_start :: uint32_t
  be_addr_buf :: cbuf

text \<open>
  The error code, the servers, the datagrams sent and the socket calls; \<open>None\<close> when the loop
  does not end, or when computing the broadcast address is undefined.
\<close>

definition discovery_broadcast :: "broadcast_env \<Rightarrow> uint32_t \<Rightarrow> discovery_turn list \<Rightarrow> discovery_result option
    \<Rightarrow> (error_code \<times> discovery_result \<times> datagram list \<times> sys_call list) option" where
  "discovery_broadcast env timeout_ms turns result =
     (if result = None then Some (ERR_INVALID_PARAM, [], [], []) else
      let result = discovery_clear_results (the result);
          os = be_os env;
          sock = udp_socket_create os
      in if \<not> socket_is_valid sock then Some (ERR_SOCKET_CREATE, result, [], [])
         else case udp_enable_broadcast os sock of (err, tr1) \<Rightarrow>
           if err \<noteq> ERR_SUCCESS then Some (err, result, [], tr1 @ socket_close sock)
           else case udp_socket_bind os sock (Some (ascii ''0.0.0.0'')) 0 of (err, tr2) \<Rightarrow>
             if err \<noteq> ERR_SUCCESS then Some (err, result, [], tr1 @ tr2 @ socket_close sock)
             else do {
               (err, broadcast_addr) \<leftarrow> get_broadcast_address os (be_addr_buf env) 64;
               (case udp_sendto os (be_send1 env) DISCOVERY_REQUEST broadcast_addr DISCOVERY_PORT of (n, d1) \<Rightarrow>
                  if n < 0 then Some (ERR_SOCKET_SEND, result, [], tr1 @ tr2 @ socket_close sock)
                  else
                    let d2 = snd (udp_sendto os (be_send2 env) DISCOVERY_REQUEST (ascii ''255.255.255.255'') DISCOVERY_PORT)
                    in do {
                      result \<leftarrow> discovery_loop sock (be_start env) timeout_ms turns result;
                      Some (ERR_SUCCESS, result, List.map_filter id [d1, d2], tr1 @ tr2 @ socket_close sock)
                    })
             })"

text \<open>
  The pointer to the server is taken to be valid; a missing address is \<open>None\<close>. The server is
  cleared first, so the errors leave it zero.
\<close>

definition discovery_query :: "winsock \<Rightarrow> cbuf option \<Rightarrow> nat option \<Rightarrow> uint32_t \<Rightarrow> datagram option \<Rightarrow> cbuf \<Rightarrow> uint32_t \<Rightarrow> uint32_t
    \<Rightarrow> error_code \<times> discovered_server \<times> sys_call list" where
  "discovery_query os ip_address send_answer start_time dgram ip_buf end_time timeout_ms =
     (if ip_address = None then (ERR_INVALID_PARAM, zero_server, []) else
      let sock = udp_socket_create os
      in if \<not> socket_is_valid sock then (ERR_SOCKET_CREATE, zero_server, [])
         else case udp_sendto os send_answer DISCOVERY_REQUEST (the ip_address) DISCOVERY_PORT of (n, d) \<Rightarrow>
           if n < 0 then (ERR_SOCKET_SEND, zero_server, socket_close sock)
           else case udp_recvfrom_timeout os sock dgram 511 (Some ip_buf) 64 (Some 0) timeout_ms of
             (received, bs, src_ip, src_port) \<Rightarrow>
               if received \<le> 0 then (ERR_TIMEOUT, zero_server, socket_close sock)
               else if \<not> is_response bs then (ERR_PROTOCOL_INVALID, zero_server, socket_close sock)
               else (ERR_SUCCESS, fst (parse_response bs (the src_ip) (ucast (end_time - start_time)) zero_server),
                     socket_close sock))"

definition discovery_ping :: "winsock \<Rightarrow> cbuf option \<Rightarrow> uint16_t \<Rightarrow> uint32_t \<Rightarrow> bool \<times> sys_call list" where
  "discovery_ping os ip_address port timeout_ms =
     (if ip_address = None then (False, []) else
      case tcp_client_connect_timeout os (the ip_address) port timeout_ms of (sock, tr) \<Rightarrow>
        if \<not> socket_is_valid sock then (False, tr) else (True, tr @ socket_close sock))"

section \<open>The responder\<close>

fun shared_loop :: "(nat \<times> device_entry) list \<Rightarrow> nat \<Rightarrow> nat" where
  "shared_loop [] n = n"
| "shared_loop ((p, e) # ns) n = shared_loop ns (if de_is_shared e then Suc n else n)"

text \<open>\<open>snprintf\<close> into 256 bytes, then the bytes up to the terminator.\<close>

definition discovery_response :: "cbuf \<Rightarrow> nat \<Rightarrow> byte list" where
  "discovery_response hostname shared_count =
     take 255 (DISCOVERY_RESPONSE @ [32] @ cstr hostname @ [32] @ ascii (show_nat shared_count))"

text \<open>One turn of the responder: the datagram it sends for a datagram received.\<close>

definition responder_turn :: "winsock \<Rightarrow> socket_t \<Rightarrow> datagram option \<Rightarrow> cbuf \<Rightarrow> cbuf \<Rightarrow> device_list \<Rightarrow> nat option
    \<Rightarrow> datagram option" where
  "responder_turn os sock d ip_buf hostname l send_answer =
     (case udp_recvfrom_timeout os sock d 255 (Some ip_buf) 64 (Some 0) 1000 of
        (received, bs, src_ip, src_port) \<Rightarrow>
          if received \<le> 0 then None
          else if take 14 (cstr bs) = DISCOVERY_REQUEST then
            snd (udp_sendto os send_answer (discovery_response hostname (shared_loop (dl_head l) 0))
                   (the src_ip) (the src_port))
          else None)"

definition listener_hostname :: "cbuf option \<Rightarrow> cbuf" where
  "listener_hostname name = (case name of Some h \<Rightarrow> h | None \<Rightarrow> ascii ''USB-Server'' @ replicate 117 0)"

text \<open>
  The thread: one record per turn while \<open>server_running\<close> holds. The result are the datagrams it
  sends.
\<close>

record listener_turn =
  lt_os :: winsock
  lt_datagram :: "datagram option"
  lt_ip_buf :: cbuf
  lt_list :: device_list
  lt_send :: "nat option"

definition discovery_listener_thread :: "socket_t \<Rightarrow> cbuf option \<Rightarrow> listener_turn list \<Rightarrow> datagram list" where
  "discovery_listener_thread sock name turns =
     List.map_filter (\<lambda>t. responder_turn (lt_os t) sock (lt_datagram t) (lt_ip_buf t) (listener_hostname name) (lt_list t) (lt_send t)) turns"

section \<open>Laws\<close>

lemma atoi_digits_append:
  "\<forall>c \<in> set xs. 48 \<le> c \<and> c \<le> 57 \<Longrightarrow> atoi_digits acc (xs @ ys) = atoi_digits (atoi_digits acc xs) ys"
  by (induction xs arbitrary: acc) auto

definition digit_byte :: "byte \<Rightarrow> bool" where
  "digit_byte c \<longleftrightarrow> 48 \<le> c \<and> c \<le> 57"

lemma digit_byte_cases: "d < 10 \<Longrightarrow> d = 0 \<or> d = 1 \<or> d = 2 \<or> d = 3 \<or> d = 4 \<or> d = 5 \<or> d = 6 \<or> d = 7 \<or> d = 8 \<or> d = (9 :: nat)"
  by auto

lemma digit_chars: "map (\<lambda>d. of_char (digit_char d)) [0 ..< 10] = [48, 49, 50, 51, 52, 53, 54, 55, 56, (57 :: byte)]"
  by code_simp

lemma digit_byte_of_nat: "d < 10 \<Longrightarrow> of_char (digit_char d) = [48, 49, 50, 51, 52, 53, 54, 55, 56, (57 :: byte)] ! d"
  unfolding digit_chars[symmetric] by simp

lemma digit_byte_digit:
  assumes "d < 10"
  shows "digit_byte (of_char (digit_char d))" and "uint (of_char (digit_char d) - (48 :: byte)) = int d"
  unfolding digit_byte_of_nat[OF assms] using digit_byte_cases[OF assms] by (auto simp: digit_byte_def)

lemma show_nat_bytes: "\<forall>c \<in> set (ascii (show_nat n)). digit_byte c"
proof (induction n rule: show_nat.induct)
  case (1 n)
  then show ?case by (subst show_nat.simps) (auto simp: ascii_def digit_byte_digit)
qed

lemma show_nat_nonempty: "ascii (show_nat n) \<noteq> []"
  by (subst show_nat.simps) (simp add: ascii_def)

lemma atoi_show_nat: "atoi_digits 0 (ascii (show_nat n)) = int n"
proof (induction n rule: show_nat.induct)
  case (1 n)
  show ?case
  proof (cases "n < 10")
    case True
    then show ?thesis using digit_byte_digit[OF True] by (subst show_nat.simps) (simp add: ascii_def digit_byte_def)
  next
    case False
    have d: "n mod 10 < 10" by simp
    have "ascii (show_nat n) = ascii (show_nat (n div 10)) @ [of_char (digit_char (n mod 10))]"
      using False by (subst show_nat.simps) (simp add: ascii_def)
    moreover have "atoi_digits 0 (ascii (show_nat (n div 10))) = int (n div 10)" using 1 False by simp
    moreover have "\<forall>c \<in> set (ascii (show_nat (n div 10))). 48 \<le> c \<and> c \<le> 57"
      using show_nat_bytes by (simp add: digit_byte_def)
    ultimately have "atoi_digits 0 (ascii (show_nat n)) = 10 * int (n div 10) + int (n mod 10)"
      using digit_byte_digit[OF d] by (simp add: atoi_digits_append digit_byte_def)
    then show ?thesis by (simp add: zmod_int zdiv_int)
  qed
qed

lemma show_nat_length: "n < 10 ^ Suc k \<Longrightarrow> length (show_nat n) \<le> Suc k"
proof (induction k arbitrary: n)
  case 0
  then show ?case by (subst show_nat.simps) simp
next
  case (Suc k)
  then have "n div 10 < 10 ^ Suc k" by (simp add: less_mult_imp_div_less mult.commute)
  from Suc.IH[OF this] show ?case by (subst show_nat.simps) simp
qed

lemma shared_loop_eq: "shared_loop ns n = n + length (filter de_is_shared (map snd ns))"
  by (induction ns n rule: shared_loop.induct) auto

lemma response_magic [simp]: "length DISCOVERY_RESPONSE = 12" "0 \<notin> set DISCOVERY_RESPONSE" "cstr DISCOVERY_REQUEST = DISCOVERY_REQUEST"
  "length DISCOVERY_REQUEST = 14"
  by (simp_all add: DISCOVERY_RESPONSE_def DISCOVERY_REQUEST_def ascii_def of_char_def)

lemma digit_not_space: "digit_byte c \<Longrightarrow> \<not> isspace c \<and> c \<noteq> 0 \<and> c \<noteq> 45 \<and> c \<noteq> 43"
  by (auto simp: digit_byte_def isspace_def word_le_nat_alt)

lemma takeWhile_stop: "\<forall>x \<in> set w. P x \<Longrightarrow> \<not> P y \<Longrightarrow> takeWhile P (w @ y # zs) = w"
  by (induction w) auto

text \<open>What a host name must be to travel as one word.\<close>

definition host_word :: "cbuf \<Rightarrow> bool" where
  "host_word hostname \<longleftrightarrow> cstr hostname \<noteq> [] \<and> length (cstr hostname) \<le> 127 \<and> (\<forall>c \<in> set (cstr hostname). \<not> isspace c)"

lemma response_bytes:
  assumes "host_word hostname" and "n < 2 ^ 31"
  shows "discovery_response hostname n = DISCOVERY_RESPONSE @ [32] @ cstr hostname @ [32] @ ascii (show_nat n)"
    and "cstr (discovery_response hostname n) = discovery_response hostname n"
    and "length (discovery_response hostname n) \<le> 255"
proof -
  have "n < 10 ^ Suc 9" using assms(2) by simp
  then have "length (show_nat n) \<le> 10" using show_nat_length[of n 9] by simp
  then have l: "length (DISCOVERY_RESPONSE @ [32] @ cstr hostname @ [32] @ ascii (show_nat n)) \<le> 255"
    using assms(1) by (simp add: host_word_def ascii_def)
  then show e: "discovery_response hostname n = DISCOVERY_RESPONSE @ [32] @ cstr hostname @ [32] @ ascii (show_nat n)"
    unfolding discovery_response_def by (rule take_all)
  show "length (discovery_response hostname n) \<le> 255" unfolding e by (rule l)
  have "0 \<notin> set (ascii (show_nat n))" using show_nat_bytes[of n] digit_not_space by blast
  then show "cstr (discovery_response hostname n) = discovery_response hostname n"
    unfolding e by (intro cstr_id) simp
qed

lemma scan_response:
  assumes "host_word hostname"
  shows "scan_word_int (cstr hostname @ 32 # ascii (show_nat n)) = Some (cstr hostname, Some (int n))"
proof -
  let ?w = "cstr hostname" and ?d = "ascii (show_nat n)"
  obtain c cs where w: "?w = c # cs" "\<not> isspace c" using assms by (cases ?w) (auto simp: host_word_def)
  have ns: "\<forall>x \<in> set ?w. \<not> isspace x" and l: "length ?w \<le> 127" using assms by (auto simp: host_word_def)
  have sp: "isspace 32" by (simp add: isspace_def)
  have s1: "dropWhile isspace (?w @ 32 # ?d) = ?w @ 32 # ?d" using w by simp
  have tw: "take 127 (takeWhile (\<lambda>c. \<not> isspace c) (?w @ 32 # ?d)) = ?w"
    using takeWhile_stop[of ?w "\<lambda>c. \<not> isspace c" 32 ?d] ns sp l by simp
  obtain e es where d: "?d = e # es" using show_nat_nonempty by (cases ?d) auto
  then have e: "digit_byte e" using show_nat_bytes[of n] by auto
  have "dropWhile isspace (32 # ?d) = ?d" using sp d digit_not_space[OF e] by simp
  moreover have "scan_int ?d = Some (int n)"
    using d e digit_not_space[OF e] atoi_show_nat[of n] by (simp add: scan_int_def digit_byte_def)
  ultimately show ?thesis unfolding scan_word_int_def s1 tw Let_def using w(1) by simp
qed

lemma parse_discovery_response:
  assumes "host_word hostname" and "n < 2 ^ 31"
  shows "is_response (discovery_response hostname n)"
    and "parse_response (discovery_response hostname n) ip time zero_server =
      (zero_server\<lparr>ds_ip_address := str_copy (replicate 64 0) ip 64, ds_port := 3240, ds_response_time_ms := time,
         ds_hostname := store_string (replicate 128 0) (cstr hostname), ds_device_count := int n\<rparr>, True)"
proof -
  have b: "cstr (discovery_response hostname n) = DISCOVERY_RESPONSE @ [32] @ cstr hostname @ [32] @ ascii (show_nat n)"
    using response_bytes(1,2)[OF assms] by simp
  show "is_response (discovery_response hostname n)" unfolding is_response_def b by simp
  obtain c cs where w: "cstr hostname = c # cs" "c \<noteq> 32"
    using assms(1) by (cases "cstr hostname") (auto simp: host_word_def isspace_def)
  have "dropWhile (\<lambda>c. c = 32) (drop (length DISCOVERY_RESPONSE) (cstr (discovery_response hostname n))) =
      cstr hostname @ 32 # ascii (show_nat n)"
    unfolding b using w by simp
  then show "parse_response (discovery_response hostname n) ip time zero_server =
      (zero_server\<lparr>ds_ip_address := str_copy (replicate 64 0) ip 64, ds_port := 3240, ds_response_time_ms := time,
         ds_hostname := store_string (replicate 128 0) (cstr hostname), ds_device_count := int n\<rparr>, True)"
    by (simp add: parse_response_def scan_response[OF assms(1)] zero_server_def)
qed

lemma cstr_store [simp]: "0 \<notin> set w \<Longrightarrow> cstr (store_string dst w) = w"
  unfolding store_string_def by simp

lemma put_addr_Some: "\<exists>b. put_addr os a (Some buf) 64 = Some b"
  by (simp add: put_addr_def)

section \<open>The responses collected\<close>

text \<open>The servers a client reports: port, host name and address are terminated strings of a response.\<close>

definition server_ok :: "discovered_server \<Rightarrow> bool" where
  "server_ok v \<longleftrightarrow> ds_port v = 3240 \<and> cstr (ds_hostname v) \<noteq> [] \<and> length (cstr (ds_hostname v)) \<le> 127 \<and>
     length (ds_hostname v) = 128 \<and> length (ds_ip_address v) = 64"

lemma length_store [simp]: "length w < length dst \<Longrightarrow> length (store_string dst w) = length dst"
  by (simp add: store_string_def)

lemma scan_word_intD:
  assumes "scan_word_int s = Some (w, n)" and "0 \<notin> set s"
  shows "w \<noteq> []" and "length w \<le> 127" and "0 \<notin> set w"
proof -
  let ?s = "dropWhile isspace s"
  have "w = take 127 (takeWhile (\<lambda>c. \<not> isspace c) ?s)" "w \<noteq> []"
    using assms(1) by (auto simp: scan_word_int_def Let_def split: if_splits)
  then show "w \<noteq> []" "length w \<le> 127" "0 \<notin> set w"
    using assms(2) by (auto dest!: in_set_takeD set_takeWhileD set_dropWhileD)
qed

lemma parse_response_ok:
  assumes "parse_response bs ip time zero_server = (v, True)"
  shows "server_ok v"
proof -
  let ?p = "dropWhile (\<lambda>c. c = 32) (drop (length DISCOVERY_RESPONSE) (cstr bs))"
  have z: "0 \<notin> set ?p" using cstr_zero_free by (meson in_set_dropD set_dropWhileD)
  obtain w n where s: "scan_word_int ?p = Some (w, n)"
    using assms by (auto simp: parse_response_def Let_def split: option.splits)
  have v: "v = zero_server\<lparr>ds_ip_address := str_copy (ds_ip_address zero_server) ip 64, ds_port := 3240,
       ds_response_time_ms := time, ds_hostname := store_string (ds_hostname zero_server) w,
       ds_device_count := (case n of None \<Rightarrow> ds_device_count zero_server | Some k \<Rightarrow> k)\<rparr>"
    using assms unfolding parse_response_def Let_def s by (cases n) auto
  show ?thesis using scan_word_intD[OF s z] unfolding server_ok_def v by (simp add: zero_server_def)
qed

lemma discovery_loop_ok:
  "discovery_loop sock start timeout ts r = Some r' \<Longrightarrow> list_all server_ok r \<Longrightarrow> length r \<le> 32 \<Longrightarrow>
     list_all server_ok r' \<and> length r' \<le> 32"
proof (induction sock start timeout ts r rule: discovery_loop.induct)
  case (2 sock start timeout t ts r)
  then show ?case
    by (auto simp: Let_def split: if_splits prod.splits dest: parse_response_ok)
qed (auto split: if_splits)

lemma discovery_loop_ends:
  "\<exists>t \<in> set ts. timeout \<le> dt_elapsed_tick t - start \<Longrightarrow> \<exists>r'. discovery_loop sock start timeout ts r = Some r'"
proof (induction ts arbitrary: r)
  case (Cons t ts)
  show ?case
  proof (cases "timeout \<le> dt_elapsed_tick t - start")
    case False
    then have "\<exists>r'. discovery_loop sock start timeout ts q = Some r'" for q using Cons by auto
    then show ?thesis by (simp add: Let_def split: prod.split)
  qed simp
qed simp

lemma recv_datagram:
  assumes "fst (socket_select (ws_select os) (socket_set_add_read socket_set_init sock) timeout_ms) > 0"
    and "length bs \<le> len"
  shows "udp_recvfrom_timeout os sock (Some (a, p, bs)) len (Some buf) 64 (Some q) timeout_ms =
    (int (length bs), bs, Some (copy_addr buf (ws_inet_ntoa os a) 64), Some (be16toh p))"
  using assms by (auto simp: udp_recvfrom_timeout_def udp_recvfrom_def put_addr_def split: prod.split)

lemma responder_answers:
  assumes "fst (socket_select (ws_select os) (socket_set_add_read socket_set_init sock) 1000) > 0"
  shows "responder_turn os sock (Some (a, p, DISCOVERY_REQUEST)) buf hostname l (Some k) =
    Some (ws_inet_addr os (copy_addr buf (ws_inet_ntoa os a) 64), p,
          discovery_response hostname (length (filter de_is_shared (map snd (dl_head l)))))"
  unfolding responder_turn_def using recv_datagram[OF assms, of DISCOVERY_REQUEST 255]
  by (simp add: udp_sendto_def shared_loop_eq)

lemma map_filter_pair: "length (List.map_filter id [a, b]) \<le> 2"
  by (simp split: option.split)

section \<open>Properties\<close>

text \<open>
  C22: discovery. A server host that receives the discovery request answers to the sender with a
  response that the client, when it arrives in time, turns into one more server: with the host
  name of the server, the number of its shared devices and the USB/IP port. The host name is a
  word of at most 127 characters, and the select calls report a datagram.
\<close>

theorem discovery_end_to_end:
  assumes "host_word hostname" and "shared = length (filter de_is_shared (map snd (dl_head l)))" and "shared < 2 ^ 31"
    and "fst (socket_select (ws_select server_os) (socket_set_add_read socket_set_init server_sock) 1000) > 0"
    and "responder_turn server_os server_sock (Some (a, p, DISCOVERY_REQUEST)) buf hostname l (Some k) = Some (a', p', reply)"
    and "dt_datagram t = Some (b, q, reply)"
    and "\<And>ms. fst (socket_select (ws_select (dt_os t)) (socket_set_add_read socket_set_init sock) ms) > 0"
    and "length result < MAX_DISCOVERED_SERVERS" and "dt_elapsed_tick t - start < timeout"
  shows "p' = p \<and> (\<exists>server. cstr (ds_hostname server) = cstr hostname \<and> ds_device_count server = int shared \<and>
      ds_port server = 3240 \<and> ds_response_time_ms server = ucast (dt_response_tick t - start) \<and>
      discovery_loop sock start timeout (t # ts) result = discovery_loop sock start timeout ts (result @ [server]))"
proof -
  have r: "p' = p" "reply = discovery_response hostname shared"
    using assms(5) unfolding responder_answers[OF assms(4)] assms(2) by simp_all
  note resp = response_bytes[OF assms(1,3)] and parse = parse_discovery_response[OF assms(1,3)]
  have len: "length reply \<le> 511" "reply \<noteq> []" using resp(1,3) unfolding r(2) by simp_all
  have recv: "udp_recvfrom_timeout (dt_os t) sock (dt_datagram t) 511 (Some (dt_ip_buf t)) 64 (Some 0) ms =
      (int (length reply), reply, Some (copy_addr (dt_ip_buf t) (ws_inet_ntoa (dt_os t) b) 64), Some (be16toh q))" for ms
    unfolding assms(6) by (rule recv_datagram[OF assms(7) len(1)])
  obtain server where s: "parse_response reply (copy_addr (dt_ip_buf t) (ws_inet_ntoa (dt_os t) b) 64)
      (ucast (dt_response_tick t - start)) zero_server = (server, True)"
    "cstr (ds_hostname server) = cstr hostname" "ds_device_count server = int shared" "ds_port server = 3240"
    "ds_response_time_ms server = ucast (dt_response_tick t - start)"
    unfolding r(2) parse(2) using that by simp
  have "discovery_loop sock start timeout (t # ts) result = discovery_loop sock start timeout ts (result @ [server])"
    using assms(8,9) len(2) parse(1) unfolding discovery_loop.simps(2) recv Let_def
    by (auto simp: s(1) r(2)[symmetric] not_le[symmetric])
  then show ?thesis using r(1) s(2-5) by blast
qed

definition sample_turn :: discovery_turn where
  "sample_turn = \<lparr>dt_elapsed_tick = 40, dt_os = sample_winsock, dt_datagram = Some (9, 7, discovery_response (ascii ''PC'') 2),
     dt_ip_buf = replicate 64 0, dt_response_tick = 50\<rparr>"

theorem discovery_end_to_end_witness:
  "\<exists>server. cstr (ds_hostname server) = ascii ''PC'' \<and> ds_device_count server = 2 \<and>
     discovery_loop 5 10 3000 [sample_turn] [] = discovery_loop 5 10 3000 [] [server]"
proof -
  have h: "host_word (ascii ''PC'')" "cstr (ascii ''PC'') = ascii ''PC''" by code_simp+
  have d: "length (filter de_is_shared (map snd (dl_head sample_list))) = 2" by code_simp
  have sel: "fst (socket_select (ws_select sample_winsock) fds ms) > 0" for fds ms
    by (simp add: socket_select_def sample_winsock_def)
  have r: "responder_turn sample_winsock 6 (Some (9, 7, DISCOVERY_REQUEST)) (replicate 64 0) (ascii ''PC'') sample_list (Some 16) =
      Some (ws_inet_addr sample_winsock (copy_addr (replicate 64 0) (ws_inet_ntoa sample_winsock 9) 64), 7, discovery_response (ascii ''PC'') 2)"
    unfolding responder_answers[OF sel] d ..
  show ?thesis
    using discovery_end_to_end[OF h(1) d[symmetric] _ sel r, of sample_turn 9 7 5 "[]" 10 3000 "[]"] sel h(2)
    by (auto simp: sample_turn_def)
qed

text \<open>
  The bounds of discovery. The collecting loop ends once the time is over, whatever arrives;
  the client then has at most 32 servers, each with the USB/IP port, a non-empty terminated host
  name of at most 127 characters and buffers of their declared sizes.
\<close>

lemma discovery_bounded:
  assumes "\<exists>t \<in> set turns. timeout \<le> dt_elapsed_tick t - be_start env"
    and "get_broadcast_address (be_os env) (be_addr_buf env) 64 \<noteq> None"
  shows "\<exists>err servers out tr. discovery_broadcast env timeout turns result = Some (err, servers, out, tr) \<and>
     list_all server_ok servers \<and> length servers \<le> 32 \<and> length out \<le> 2 \<and>
     (socket_is_valid (udp_socket_create (be_os env)) \<and> result \<noteq> None \<longrightarrow> last tr = SysClose (udp_socket_create (be_os env)))"
proof -
  obtain ab where ab: "get_broadcast_address (be_os env) (be_addr_buf env) 64 = Some ab" using assms(2) by blast
  have "\<forall>sock. \<exists>r'. discovery_loop sock (be_start env) timeout turns [] = Some r'"
    using discovery_loop_ends[OF assms(1)] by blast
  from choice[OF this] obtain r where r: "\<And>sock. discovery_loop sock (be_start env) timeout turns [] = Some (r sock)" by blast
  then have ok: "list_all server_ok (r sock) \<and> length (r sock) \<le> 32" for sock
    using discovery_loop_ok[OF r[of sock]] by simp
  show ?thesis
    by (simp add: discovery_broadcast_def discovery_clear_results_def ab r ok socket_close_def socket_is_valid_def
        Let_def map_filter_pair del: map_filter_simps split: prod.split)
qed

definition sample_broadcast :: broadcast_env where
  "sample_broadcast = \<lparr>be_os = sample_winsock, be_send1 = Some 14, be_send2 = Some 14, be_start = 10, be_addr_buf = replicate 64 0\<rparr>"

lemma discovery_bounded_example:
  "\<exists>err servers out tr. discovery_broadcast sample_broadcast 3000 [sample_turn, sample_turn\<lparr>dt_elapsed_tick := 3010\<rparr>] (Some []) =
     Some (err, servers, out, tr) \<and> list_all server_ok servers \<and> length servers \<le> 32"
proof -
  have t: "\<exists>t \<in> set [sample_turn, sample_turn\<lparr>dt_elapsed_tick := 3010\<rparr>]. 3000 \<le> dt_elapsed_tick t - be_start sample_broadcast"
    by (simp add: sample_broadcast_def)
  have b: "get_broadcast_address (be_os sample_broadcast) (be_addr_buf sample_broadcast) 64 \<noteq> None"
    by (simp add: sample_broadcast_def get_broadcast_address_def get_adapters_def sample_winsock_def)
  from discovery_bounded[OF t b, of "Some []"] show ?thesis by metis
qed

end
