(* ===== verification/Log.thy ===== *)
theory Log
  imports Error_Codes
begin

text \<open>
  Logging, \<^verbatim>\<open>common/log.c\<close>: the configuration, opening and closing of the log file, the line
  \<^verbatim>\<open>log_write\<close> builds in its buffer, and the hex dump. What is written to the console, the file
  and the debugger is a trace of \<open>log_event\<close>; the system's answers (the standard handle, the
  result of \<^verbatim>\<open>fopen\<close>, the clock) are arguments. The mutex is taken and given back inside each
  function, and taking one that was never created has no effect, so it is not part of the state.
  A line that would be written outside the buffer gives \<open>None\<close>.
\<close>

section \<open>State\<close>

datatype log_level =
  LOG_LEVEL_TRACE | LOG_LEVEL_DEBUG | LOG_LEVEL_INFO | LOG_LEVEL_WARN | LOG_LEVEL_ERROR | LOG_LEVEL_FATAL
| LOG_LEVEL_NONE

definition level_value :: "log_level \<Rightarrow> nat" where
  "level_value level =
     (case level of LOG_LEVEL_TRACE \<Rightarrow> 0 | LOG_LEVEL_DEBUG \<Rightarrow> 1 | LOG_LEVEL_INFO \<Rightarrow> 2 | LOG_LEVEL_WARN \<Rightarrow> 3
      | LOG_LEVEL_ERROR \<Rightarrow> 4 | LOG_LEVEL_FATAL \<Rightarrow> 5 | LOG_LEVEL_NONE \<Rightarrow> 6)"

abbreviation (input) LOG_TARGET_NONE :: uint32_t where "LOG_TARGET_NONE \<equiv> 0"
abbreviation (input) LOG_TARGET_CONSOLE :: uint32_t where "LOG_TARGET_CONSOLE \<equiv> 1"
abbreviation (input) LOG_TARGET_FILE :: uint32_t where "LOG_TARGET_FILE \<equiv> 2"
abbreviation (input) LOG_TARGET_DEBUGGER :: uint32_t where "LOG_TARGET_DEBUGGER \<equiv> 4"
abbreviation (input) LOG_BUFFER_SIZE :: nat where "LOG_BUFFER_SIZE \<equiv> 1024"
abbreviation (input) MAX_PATH :: nat where "MAX_PATH \<equiv> 260"

record log_config =
  lc_level :: log_level
  lc_targets :: uint32_t
  lc_show_timestamp :: bool
  lc_show_level :: bool
  lc_show_location :: bool
  lc_use_colors :: bool
  lc_log_file :: cbuf

datatype log_event =
  LogOpen nat | LogClose nat | ConsoleColor nat | ConsoleLine "byte list" | FileLine nat "byte list"
| DebugLine "byte list"

text \<open>A handle or file that is not there is \<open>None\<close>.\<close>

record g_log =
  lg_config :: log_config
  lg_console_handle :: "nat option"
  lg_log_file :: "nat option"
  lg_initialized :: bool
  lg_trace :: "log_event list"

definition default_log :: g_log where
  "default_log =
     \<lparr>lg_config = \<lparr>lc_level = LOG_LEVEL_INFO, lc_targets = LOG_TARGET_CONSOLE, lc_show_timestamp = True,
        lc_show_level = True, lc_show_location = False, lc_use_colors = True, lc_log_file = replicate MAX_PATH 0\<rparr>,
      lg_console_handle = None, lg_log_file = None, lg_initialized = False, lg_trace = []\<rparr>"

definition level_names :: "byte list list" where
  "level_names = [ascii ''TRACE'', ascii ''DEBUG'', ascii ''INFO '', ascii ''WARN '', ascii ''ERROR'', ascii ''FATAL'']"

definition level_colors :: "nat list" where
  "level_colors = [8, 11, 10, 14, 12, 13]"

definition logged :: "log_event list \<Rightarrow> g_log \<Rightarrow> g_log" where
  "logged es g = g\<lparr>lg_trace := lg_trace g @ es\<rparr>"

section \<open>Lines\<close>

definition pad_nat :: "nat \<Rightarrow> nat \<Rightarrow> byte list" where
  "pad_nat w n = (let s = ascii (show_nat n) in replicate (w - length s) 48 @ s)"

record system_time =
  st_year :: uint16_t
  st_month :: uint16_t
  st_day :: uint16_t
  st_hour :: uint16_t
  st_minute :: uint16_t
  st_second :: uint16_t
  st_milliseconds :: uint16_t

definition get_timestamp :: "system_time \<Rightarrow> nat \<Rightarrow> byte list" where
  "get_timestamp st n =
     take (n - 1)
       (pad_nat 4 (unat (st_year st)) @ [45] @ pad_nat 2 (unat (st_month st)) @ [45] @ pad_nat 2 (unat (st_day st)) @ [32] @
        pad_nat 2 (unat (st_hour st)) @ [58] @ pad_nat 2 (unat (st_minute st)) @ [58] @ pad_nat 2 (unat (st_second st)) @ [46] @
        pad_nat 3 (unat (st_milliseconds st)))"

text \<open>The part of a string after the last occurrence of a character, if there is one.\<close>

definition strrchr :: "byte list \<Rightarrow> byte \<Rightarrow> byte list option" where
  "strrchr s c = (if c \<in> set s then Some (rev (takeWhile (\<lambda>x. x \<noteq> c) (rev s))) else None)"

definition get_filename :: "byte list \<Rightarrow> byte list" where
  "get_filename path =
     (case strrchr path 92 of
        Some name \<Rightarrow> name
      | None \<Rightarrow> (case strrchr path 47 of Some name \<Rightarrow> name | None \<Rightarrow> path))"

text \<open>
  One \<^verbatim>\<open>snprintf\<close> into the rest of the buffer, then the advance by the length of the text it was
  given: the text so far and the number of bytes left. A text that does not fit takes the
  pointer behind the buffer, where the next call writes.
\<close>

definition put_part :: "byte list \<Rightarrow> byte list \<times> nat \<Rightarrow> (byte list \<times> nat) option" where
  "put_part s b =
     (case b of (full, remaining) \<Rightarrow>
        if length s > remaining then None else Some (full @ take (remaining - 1) s, remaining - length s))"

text \<open>Where a line is logged.\<close>

record log_site =
  site_file :: "byte list"
  site_line :: nat
  site_func :: "byte list"

definition location_part :: "log_site \<Rightarrow> byte list" where
  "location_part site =
     [91] @ get_filename (site_file site) @ [58] @ ascii (show_nat (site_line site)) @ [32] @ site_func site @ [93, 32]"

definition build_line :: "log_config \<Rightarrow> log_level \<Rightarrow> log_site \<Rightarrow> system_time \<Rightarrow> byte list \<Rightarrow> byte list option" where
  "build_line cfg level site now message = do {
     b \<leftarrow> (if lc_show_timestamp cfg then put_part ([91] @ get_timestamp now 48 @ [93, 32]) ([], LOG_BUFFER_SIZE + 256)
           else Some ([], LOG_BUFFER_SIZE + 256));
     b \<leftarrow> (if \<not> lc_show_level cfg then Some b
           else if level_value level < length level_names
           then put_part ([91] @ level_names ! level_value level @ [93, 32]) b else None);
     (full, remaining) \<leftarrow> (if lc_show_location cfg then put_part (location_part site) b else Some b);
     Some (full @ take (remaining - 1) message)
   }"

definition set_console_color :: "g_log \<Rightarrow> nat \<Rightarrow> log_event list" where
  "set_console_color g color = (if lg_console_handle g \<noteq> None then [ConsoleColor color] else [])"

text \<open>The output to each target; a level without a colour reads outside the table.\<close>

definition emit_line :: "g_log \<Rightarrow> log_level \<Rightarrow> byte list \<Rightarrow> log_event list option" where
  "emit_line g level full = do {
     let targets = lc_targets (lg_config g);
     console \<leftarrow> (if targets AND LOG_TARGET_CONSOLE = 0 then Some []
                 else if \<not> lc_use_colors (lg_config g) then Some [ConsoleLine full]
                 else if level_value level < length level_colors
                 then Some (set_console_color g (level_colors ! level_value level) @ [ConsoleLine full] @ set_console_color g 7)
                 else None);
     Some (console @
       (if targets AND LOG_TARGET_FILE \<noteq> 0 then (case lg_log_file g of None \<Rightarrow> [] | Some f \<Rightarrow> [FileLine f full]) else []) @
       (if targets AND LOG_TARGET_DEBUGGER \<noteq> 0 then [DebugLine (take (LOG_BUFFER_SIZE + 257) (full @ [10]))] else []))
   }"

text \<open>\<open>txt\<close> is what the format and its arguments give.\<close>

definition log_write :: "log_level \<Rightarrow> log_site \<Rightarrow> system_time \<Rightarrow> byte list \<Rightarrow> g_log \<Rightarrow> g_log option" where
  "log_write level site now txt g =
     (if level_value level < level_value (lc_level (lg_config g)) \<or> lc_targets (lg_config g) = LOG_TARGET_NONE then Some g
      else do {
        full \<leftarrow> build_line (lg_config g) level site now (take (LOG_BUFFER_SIZE - 1) txt);
        es \<leftarrow> emit_line g level full;
        Some (logged es g)
      })"

section \<open>Hex dump\<close>

definition hex_digit :: "nat \<Rightarrow> byte" where
  "hex_digit d = (if d < 10 then word_of_nat (48 + d) else word_of_nat (55 + d))"

definition hex_byte :: "byte \<Rightarrow> byte list" where
  "hex_byte b = [hex_digit (unat b div 16), hex_digit (unat b mod 16)]"

fun show_hex :: "nat \<Rightarrow> byte list" where
  "show_hex n = (if n < 16 then [hex_digit n] else show_hex (n div 16) @ [hex_digit (n mod 16)])"

declare show_hex.simps [simp del]

text \<open>The loop over the 16 columns from column \<open>i\<close>: hex part and character part.\<close>

fun hex_columns :: "nat \<Rightarrow> nat \<Rightarrow> byte list \<Rightarrow> byte list" where
  "hex_columns 0 i bytes = []"
| "hex_columns (Suc n) i bytes =
     (case bytes of [] \<Rightarrow> [32, 32, 32] | b # bs \<Rightarrow> hex_byte b @ [32]) @ (if i = 7 then [32] else []) @
     hex_columns n (Suc i) (tl bytes)"

fun ascii_columns :: "nat \<Rightarrow> byte list \<Rightarrow> byte list" where
  "ascii_columns 0 bytes = []"
| "ascii_columns (Suc n) bytes =
     (case bytes of [] \<Rightarrow> 32 | b # bs \<Rightarrow> if b \<ge> 32 \<and> b < 127 then b else 46) # ascii_columns n (tl bytes)"

definition dump_line :: "nat \<Rightarrow> byte list \<Rightarrow> byte list" where
  "dump_line offset bytes =
     (let h = show_hex offset; hex_part = hex_columns 16 0 bytes
      in take 127 ([32, 32] @ replicate (4 - length h) 48 @ h @ [58, 32] @ hex_part @ replicate (49 - length hex_part) 32 @
                   [32, 124] @ ascii_columns 16 bytes @ [124]))"

definition emit_dump :: "g_log \<Rightarrow> byte list \<Rightarrow> log_event list" where
  "emit_dump g line =
     (let targets = lc_targets (lg_config g)
      in (if targets AND LOG_TARGET_CONSOLE \<noteq> 0 then [ConsoleLine line] else []) @
         (if targets AND LOG_TARGET_FILE \<noteq> 0 then (case lg_log_file g of None \<Rightarrow> [] | Some f \<Rightarrow> [FileLine f line]) else []) @
         (if targets AND LOG_TARGET_DEBUGGER \<noteq> 0 then [DebugLine (take 149 (line @ [10]))] else []))"

function dump_loop :: "nat \<Rightarrow> byte list \<Rightarrow> g_log \<Rightarrow> g_log" where
  "dump_loop offset bytes g =
     (if offset < length bytes then
        let line_len = (if length bytes - offset > 16 then 16 else length bytes - offset);
            line = dump_line offset (take line_len (drop offset bytes))
        in dump_loop (offset + line_len) bytes (logged (emit_dump g line) g)
      else g)"
  by pat_completeness auto
termination by (relation "measure (\<lambda>(offset, bytes, g). length bytes - offset)") auto

declare dump_loop.simps [simp del]

definition log_hexdump :: "log_level \<Rightarrow> byte list option \<Rightarrow> byte list option \<Rightarrow> log_site \<Rightarrow> system_time \<Rightarrow> g_log \<Rightarrow> g_log option" where
  "log_hexdump level prefix data site now g =
     (if level_value level < level_value (lc_level (lg_config g)) \<or> data = None \<or> data = Some [] then Some g
      else do {
        g \<leftarrow> log_write level site now
               ((case prefix of Some p \<Rightarrow> p | None \<Rightarrow> ascii ''Data'') @ ascii '': '' @ ascii (show_nat (length (the data))) @
                ascii '' bytes'') g;
        Some (dump_loop 0 (the data) g)
      })"

section \<open>Life of the log\<close>

definition log_init :: "bool \<Rightarrow> nat option \<Rightarrow> nat option \<Rightarrow> log_config option \<Rightarrow> log_site \<Rightarrow> system_time \<Rightarrow> g_log
    \<Rightarrow> (error_code \<times> g_log) option" where
  "log_init mutex_ok std_handle fopen config site now g =
     (if lg_initialized g then Some (ERR_ALREADY_INITIALIZED, g)
      else if \<not> mutex_ok then Some (ERR_MUTEX_INIT, g)
      else
        let g = (case config of None \<Rightarrow> g | Some c \<Rightarrow> g\<lparr>lg_config := c\<rparr>);
            g = (if lc_targets (lg_config g) AND LOG_TARGET_CONSOLE \<noteq> 0 then g\<lparr>lg_console_handle := std_handle\<rparr> else g);
            wanted = (lc_targets (lg_config g) AND LOG_TARGET_FILE \<noteq> 0 \<and> char_at (lc_log_file (lg_config g)) 0 \<noteq> 0)
        in if wanted \<and> fopen = None then Some (ERR_FILE_OPEN, g\<lparr>lg_log_file := None\<rparr>)
           else do {
             let g = (if wanted then logged [LogOpen (the fopen)] (g\<lparr>lg_log_file := fopen\<rparr>) else g);
             g \<leftarrow> log_write LOG_LEVEL_INFO site now (ascii ''USB Over Network v1.0.0 logging initialized'')
                   (g\<lparr>lg_initialized := True\<rparr>);
             Some (ERR_SUCCESS, g)
           })"

definition close_current :: "g_log \<Rightarrow> g_log" where
  "close_current g =
     (case lg_log_file g of None \<Rightarrow> g | Some f \<Rightarrow> logged [LogClose f] (g\<lparr>lg_log_file := None\<rparr>))"

definition log_cleanup :: "log_site \<Rightarrow> system_time \<Rightarrow> g_log \<Rightarrow> g_log option" where
  "log_cleanup site now g =
     (if \<not> lg_initialized g then Some g
      else do {
        g \<leftarrow> log_write LOG_LEVEL_INFO site now (ascii ''Logging shutdown'') g;
        Some ((close_current g)\<lparr>lg_initialized := False\<rparr>)
      })"

definition log_set_level :: "log_level \<Rightarrow> g_log \<Rightarrow> g_log" where
  "log_set_level level g = g\<lparr>lg_config := (lg_config g)\<lparr>lc_level := level\<rparr>\<rparr>"

definition log_get_level :: "g_log \<Rightarrow> log_level" where
  "log_get_level g = lc_level (lg_config g)"

definition log_set_targets :: "uint32_t \<Rightarrow> g_log \<Rightarrow> g_log" where
  "log_set_targets targets g = g\<lparr>lg_config := (lg_config g)\<lparr>lc_targets := targets\<rparr>\<rparr>"

definition log_set_file :: "cbuf option \<Rightarrow> nat option \<Rightarrow> g_log \<Rightarrow> error_code \<times> g_log" where
  "log_set_file filepath fopen g =
     (case filepath of
        None \<Rightarrow> (ERR_INVALID_PARAM, g)
      | Some path \<Rightarrow>
          let g = close_current g;
              cfg = (lg_config g)\<lparr>lc_log_file := strncpy (lc_log_file (lg_config g)) path (MAX_PATH - 1)\<rparr>;
              g = g\<lparr>lg_config := cfg\<rparr>
          in case fopen of
               None \<Rightarrow> (ERR_FILE_OPEN, g)
             | Some f \<Rightarrow>
                 (ERR_SUCCESS, logged [LogOpen f]
                    (g\<lparr>lg_log_file := Some f, lg_config := cfg\<lparr>lc_targets := lc_targets cfg OR LOG_TARGET_FILE\<rparr>\<rparr>)))"

definition log_close_file :: "g_log \<Rightarrow> g_log" where
  "log_close_file g =
     (let g = close_current g
      in g\<lparr>lg_config := (lg_config g)\<lparr>lc_targets := lc_targets (lg_config g) AND NOT LOG_TARGET_FILE\<rparr>\<rparr>)"

section \<open>Lines fit\<close>

text \<open>What stands before the message.\<close>

definition line_prefix :: "log_config \<Rightarrow> log_level \<Rightarrow> log_site \<Rightarrow> system_time \<Rightarrow> byte list" where
  "line_prefix cfg level site now =
     (if lc_show_timestamp cfg then [91] @ get_timestamp now 48 @ [93, 32] else []) @
     (if lc_show_level cfg then [91] @ level_names ! level_value level @ [93, 32] else []) @
     (if lc_show_location cfg then location_part site else [])"

lemma level_value_less: "level \<noteq> LOG_LEVEL_NONE \<Longrightarrow> level_value level < 6"
  by (cases level) (simp_all add: level_value_def)

lemma level_tables [simp]: "length level_names = 6" "length level_colors = 6"
  by (simp_all add: level_names_def level_colors_def)

lemma level_name_length: "k < 6 \<Longrightarrow> length (level_names ! k) = 5"
proof -
  have "list_all (\<lambda>n. length n = 5) level_names" by code_simp
  then show "k < 6 \<Longrightarrow> length (level_names ! k) = 5" by (simp add: list_all_length)
qed

lemma put_part_fits: "length s < n \<Longrightarrow> put_part s (full, n) = Some (full @ s, n - length s)"
  by (simp add: put_part_def)

lemma timestamp_length: "length (get_timestamp now 48) \<le> 47"
  by (simp add: get_timestamp_def)

lemma build_line_complete:
  assumes "level \<noteq> LOG_LEVEL_NONE" and "length (location_part site) \<le> 198" and "length message \<le> 1023"
  shows "build_line cfg level site now message = Some (line_prefix cfg level site now @ message)"
proof -
  have l: "length (level_names ! level_value level) = 5" using level_value_less[OF assms(1)] by (rule level_name_length)
  have s: "length (get_timestamp now 48) < 48" using timestamp_length[of now] by simp
  show ?thesis
    using s level_value_less[OF assms(1)] assms(2,3)
    by (simp add: build_line_def line_prefix_def put_part_fits l)
qed

section \<open>The hex dump as a table\<close>

definition dump_chunk :: "byte list \<Rightarrow> nat \<Rightarrow> byte list" where
  "dump_chunk data i = take 16 (drop (16 * i) data)"

definition dump_rows :: "byte list \<Rightarrow> nat" where
  "dump_rows data = (length data + 15) div 16"

definition row_events :: "g_log \<Rightarrow> byte list \<Rightarrow> nat \<Rightarrow> log_event list" where
  "row_events g data i = emit_dump g (dump_line (16 * i) (dump_chunk data i))"

lemma logged_fields [simp]:
  "lg_config (logged es g) = lg_config g" "lg_log_file (logged es g) = lg_log_file g"
  "lg_trace (logged es g) = lg_trace g @ es"
  by (simp_all add: logged_def)

lemma emit_dump_logged [simp]: "emit_dump (logged es g) line = emit_dump g line"
  unfolding emit_dump_def logged_fields ..

lemma logged_logged: "logged fs (logged es g) = logged (es @ fs) g"
  by (simp add: logged_def)

lemma dump_loop_rows:
  "16 * k \<le> length data + 15 \<Longrightarrow>
   dump_loop (16 * k) data g = logged (concat (map (row_events g data) [k ..< dump_rows data])) g"
proof (induction "dump_rows data - k" arbitrary: k g)
  case 0
  then have "dump_rows data \<le> k" "\<not> 16 * k < length data" by (auto simp: dump_rows_def)
  then show ?case by (simp add: dump_loop.simps logged_def)
next
  case (Suc n)
  then have k: "k < dump_rows data" "16 * k < length data" by (auto simp: dump_rows_def)
  let ?len = "if length data - 16 * k > 16 then 16 else length data - 16 * k"
  let ?g = "logged (row_events g data k) g"
  have e: "take ?len (drop (16 * k) data) = dump_chunk data k" by (simp add: dump_chunk_def)
  have r: "row_events ?g data = row_events g data" by (simp add: fun_eq_iff row_events_def)
  have u: "[k ..< dump_rows data] = k # [Suc k ..< dump_rows data]" using k(1) by (rule upt_conv_Cons)
  have "dump_loop (16 * k + ?len) data ?g = logged (concat (map (row_events g data) [Suc k ..< dump_rows data])) ?g"
  proof (cases "length data - 16 * k > 16")
    case True
    then have "16 * k + ?len = 16 * Suc k" by simp
    then show ?thesis using Suc.hyps(1)[of "Suc k" ?g] Suc.hyps(2) True unfolding r by (simp add: add.commute)
  next
    case False
    then have "dump_rows data = Suc k" "16 * k + ?len = length data" using k by (auto simp: dump_rows_def)
    then show ?thesis by (simp add: dump_loop.simps logged_def)
  qed
  then show ?case
    unfolding u dump_loop.simps[of "16 * k"] Let_def e using k(2) by (simp add: row_events_def logged_logged)
qed

lemma concat_chunks: "concat (map (dump_chunk data) [0 ..< n]) = take (16 * n) data"
  by (induction n) (simp_all add: dump_chunk_def take_add[symmetric] add.commute)

text \<open>Reading the hex part back: the characters other than spaces, in pairs.\<close>

definition hex_val :: "byte \<Rightarrow> nat" where
  "hex_val c = (if c \<le> 57 then unat c - 48 else unat c - 55)"

fun unhex :: "byte list \<Rightarrow> byte list" where
  "unhex (a # b # cs) = word_of_nat (16 * hex_val a + hex_val b) # unhex cs"
| "unhex cs = []"

definition read_hex :: "byte list \<Rightarrow> byte list" where
  "read_hex hex_part = unhex (filter (\<lambda>c. c \<noteq> 32) hex_part)"

lemma hex_digit_val: "d < 16 \<Longrightarrow> hex_val (hex_digit d) = d \<and> hex_digit d \<noteq> 32"
proof -
  have "list_all (\<lambda>d. hex_val (hex_digit d) = d \<and> hex_digit d \<noteq> 32) [0 ..< 16]" by code_simp
  then show "d < 16 \<Longrightarrow> ?thesis" by (simp add: list_all_iff)
qed

lemma unat_byte_less: "unat (b :: byte) < 256"
  using unsigned_less[of b] by simp

lemma read_hex_byte: "unhex (filter (\<lambda>c. c \<noteq> 32) (hex_byte b @ cs)) = b # unhex (filter (\<lambda>c. c \<noteq> 32) cs)"
proof -
  have "unat b div 16 < 16" "unat b mod 16 < 16" using unat_byte_less[of b] by auto
  then have "hex_val (hex_digit (unat b div 16)) = unat b div 16" "hex_val (hex_digit (unat b mod 16)) = unat b mod 16"
    "hex_digit (unat b div 16) \<noteq> 32" "hex_digit (unat b mod 16) \<noteq> 32" using hex_digit_val by blast+
  then show ?thesis by (simp add: hex_byte_def)
qed

lemma read_hex_columns: "length bytes \<le> n \<Longrightarrow> unhex (filter (\<lambda>c. c \<noteq> 32) (hex_columns n i bytes)) = bytes"
proof (induction n arbitrary: i bytes)
  case (Suc n)
  then show ?case
    by (cases bytes) (auto simp: read_hex_byte simp del: filter_append)
qed simp

lemma hex_columns_length: "length (hex_columns n i bytes) = 3 * n + (if i \<le> 7 \<and> 7 < i + n then 1 else 0)"
  by (induction n arbitrary: i bytes) (auto simp: hex_byte_def split: list.split)

lemma ascii_columns_length [simp]: "length (ascii_columns n bytes) = n"
  by (induction n bytes rule: ascii_columns.induct) simp_all

lemma show_hex_length: "n < 16 ^ Suc k \<Longrightarrow> length (show_hex n) \<le> Suc k"
proof (induction k arbitrary: n)
  case 0
  then show ?case by (subst show_hex.simps) simp
next
  case (Suc k)
  then have "n div 16 < 16 ^ Suc k" by (simp add: less_mult_imp_div_less mult.commute)
  from Suc.IH[OF this] show ?case by (subst show_hex.simps) simp
qed

lemma dump_line_length: "offset < 16 ^ Suc 15 \<Longrightarrow> length (dump_line offset bytes) < 127"
  using show_hex_length[of offset 15] by (simp add: dump_line_def hex_columns_length Let_def)

lemma prefix_length:
  "level \<noteq> LOG_LEVEL_NONE \<Longrightarrow> length (location_part site) \<le> 198 \<Longrightarrow> length (line_prefix cfg level site now) \<le> 256"
  using timestamp_length[of now] level_name_length[OF level_value_less, of level] by (simp add: line_prefix_def)

lemma color_no_line [simp]:
  "ConsoleLine l \<notin> set (set_console_color g a)" "FileLine x l \<notin> set (set_console_color g a)"
  "DebugLine l \<notin> set (set_console_color g a)"
  by (simp_all add: set_console_color_def)

lemma line_events_mem:
  fixes logfile :: "nat option"
  assumes "es = (if \<not> c then [] else if \<not> u then [ConsoleLine line]
      else set_console_color g a @ [ConsoleLine line] @ set_console_color g b) @
     (if f then (case logfile of None \<Rightarrow> [] | Some x \<Rightarrow> [FileLine x line]) else []) @ (if d then [DebugLine dline] else [])"
  shows "(ConsoleLine l \<in> set es \<longleftrightarrow> l = line \<and> c) \<and> (FileLine x l \<in> set es \<longleftrightarrow> l = line \<and> f \<and> logfile = Some x) \<and>
    (DebugLine l \<in> set es \<longleftrightarrow> l = dline \<and> d)"
  by (cases logfile; cases c; cases u; cases f; cases d; simp add: assms; metis)

section \<open>Properties\<close>

text \<open>
  C35: log lines are complete. A line of an enabled level, logged from a place whose name takes at
  most 198 characters, stays inside the buffer: time, level and place, then the message, cut
  only at 1023 characters. The same line goes to each target that is switched on, and nothing else
  changes.
\<close>

theorem log_write_complete:
  assumes "level \<noteq> LOG_LEVEL_NONE" and "length (location_part site) \<le> 198"
    and "level_value (lc_level (lg_config g)) \<le> level_value level"
    and "line = line_prefix (lg_config g) level site now @ take 1023 txt"
  shows "\<exists>es. log_write level site now txt g = Some (logged es g) \<and>
    (\<forall>l. ConsoleLine l \<in> set es \<longleftrightarrow> l = line \<and> lc_targets (lg_config g) AND LOG_TARGET_CONSOLE \<noteq> 0) \<and>
    (\<forall>f l. FileLine f l \<in> set es \<longleftrightarrow> l = line \<and> lc_targets (lg_config g) AND LOG_TARGET_FILE \<noteq> 0 \<and> lg_log_file g = Some f) \<and>
    (\<forall>l. DebugLine l \<in> set es \<longleftrightarrow> l = line @ [10] \<and> lc_targets (lg_config g) AND LOG_TARGET_DEBUGGER \<noteq> 0)"
proof (cases "lc_targets (lg_config g) = 0")
  case True
  then show ?thesis by (intro exI[of _ "[]"]) (simp add: log_write_def logged_def)
next
  case False
  have b: "build_line (lg_config g) level site now (take 1023 txt) = Some line"
    unfolding assms(4) by (rule build_line_complete[OF assms(1,2)]) simp
  have len: "length line \<le> 1279"
    unfolding assms(4) using prefix_length[OF assms(1,2), of "lg_config g" now] by simp
  define es where "es = (if \<not> (lc_targets (lg_config g) AND LOG_TARGET_CONSOLE \<noteq> 0) then []
      else if \<not> lc_use_colors (lg_config g) then [ConsoleLine line]
      else set_console_color g (level_colors ! level_value level) @ [ConsoleLine line] @ set_console_color g 7) @
     (if lc_targets (lg_config g) AND LOG_TARGET_FILE \<noteq> 0
      then (case lg_log_file g of None \<Rightarrow> [] | Some f \<Rightarrow> [FileLine f line]) else []) @
     (if lc_targets (lg_config g) AND LOG_TARGET_DEBUGGER \<noteq> 0 then [DebugLine (line @ [10])] else [])"
  have "emit_line g level line = Some es"
    using level_value_less[OF assms(1)] len by (simp add: emit_line_def es_def Let_def)
  then have "log_write level site now txt g = Some (logged es g)"
    using False assms(3) b by (simp add: log_write_def)
  then show ?thesis
    using line_events_mem[OF es_def] by blast
qed

definition sample_site :: log_site where
  "sample_site = \<lparr>site_file = ascii ''common/log.c'', site_line = 91, site_func = ascii ''log_init''\<rparr>"

definition sample_time :: system_time where
  "sample_time = \<lparr>st_year = 2024, st_month = 3, st_day = 9, st_hour = 14, st_minute = 5, st_second = 0, st_milliseconds = 7\<rparr>"

theorem log_write_complete_witness:
  "\<exists>es. log_write LOG_LEVEL_WARN sample_site sample_time (ascii ''low'') default_log = Some (logged es default_log) \<and>
     ConsoleLine (ascii ''[2024-03-09 14:05:00.007] [WARN ] low'') \<in> set es"
proof -
  have h: "LOG_LEVEL_WARN \<noteq> LOG_LEVEL_NONE" "length (location_part sample_site) \<le> 198"
    "level_value (lc_level (lg_config default_log)) \<le> level_value LOG_LEVEL_WARN"
    "ascii ''[2024-03-09 14:05:00.007] [WARN ] low'' =
     line_prefix (lg_config default_log) LOG_LEVEL_WARN sample_site sample_time @ take 1023 (ascii ''low'')"
    "lc_targets (lg_config default_log) AND 1 \<noteq> 0" by code_simp+
  from log_write_complete[OF h(1-4)] h(5) show ?thesis by blast
qed

text \<open>
  Hex dumps are exact. The dump of a block adds one row for each 16 bytes, in order, and
  nothing else; the hex part of every row takes 49 characters, so that it fits its buffer of 50
  with the terminator, no row is cut, and the bytes read back from the hex parts are the block.
\<close>

lemma hexdump_exact:
  assumes "log_hexdump level prefix (Some data) site now g = Some g'"
    and "level_value (lc_level (lg_config g)) \<le> level_value level" and "data \<noteq> []" and "length data < 2 ^ 64"
  shows "\<exists>g1. log_write level site now
        ((case prefix of Some p \<Rightarrow> p | None \<Rightarrow> ascii ''Data'') @ ascii '': '' @ ascii (show_nat (length data)) @ ascii '' bytes'') g = Some g1 \<and>
      g' = logged (concat (map (row_events g1 data) [0 ..< dump_rows data])) g1 \<and>
      concat (map (\<lambda>i. read_hex (hex_columns 16 0 (dump_chunk data i))) [0 ..< dump_rows data]) = data \<and>
      (\<forall>i < dump_rows data. length (hex_columns 16 0 (dump_chunk data i)) = 49 \<and>
         length (dump_line (16 * i) (dump_chunk data i)) < 127)"
proof -
  obtain g1 where g1: "log_write level site now
        ((case prefix of Some p \<Rightarrow> p | None \<Rightarrow> ascii ''Data'') @ ascii '': '' @ ascii (show_nat (length data)) @ ascii '' bytes'') g = Some g1"
      "g' = dump_loop 0 data g1"
    using assms(1-3) by (auto simp: log_hexdump_def split: bind_splits)
  have "g' = logged (concat (map (row_events g1 data) [0 ..< dump_rows data])) g1"
    using g1(2) dump_loop_rows[of 0 data g1] by simp
  moreover have "map (\<lambda>i. read_hex (hex_columns 16 0 (dump_chunk data i))) [0 ..< dump_rows data] =
      map (dump_chunk data) [0 ..< dump_rows data]"
    by (simp add: read_hex_def read_hex_columns dump_chunk_def)
  then have "concat (map (\<lambda>i. read_hex (hex_columns 16 0 (dump_chunk data i))) [0 ..< dump_rows data]) = take (16 * dump_rows data) data"
    by (simp only: concat_chunks)
  moreover have "take (16 * dump_rows data) data = data" by (simp add: dump_rows_def)
  moreover have "length (dump_line (16 * i) (dump_chunk data i)) < 127" if "i < dump_rows data" for i
  proof -
    have "16 * i < 16 ^ Suc 15" using that assms(4) by (simp add: dump_rows_def)
    then show ?thesis using dump_line_length by blast
  qed
  ultimately show ?thesis using g1(1) by (auto simp: hex_columns_length)
qed

lemma hexdump_exact_example:
  "\<exists>g'. log_hexdump LOG_LEVEL_ERROR None (Some [222, 173, 0, 65]) sample_site sample_time default_log = Some g' \<and>
     concat (map (\<lambda>i. read_hex (hex_columns 16 0 (dump_chunk [222, 173, 0, 65] i))) [0 ..< dump_rows [222, 173, 0, 65]]) =
       [222, 173, 0, 65]"
proof -
  let ?d = "[222, 173, 0, 65] :: byte list"
  have "log_hexdump LOG_LEVEL_ERROR None (Some ?d) sample_site sample_time default_log \<noteq> None" by code_simp
  then obtain g' where g: "log_hexdump LOG_LEVEL_ERROR None (Some ?d) sample_site sample_time default_log = Some g'" by blast
  have l: "level_value (lc_level (lg_config default_log)) \<le> level_value LOG_LEVEL_ERROR" by code_simp
  from hexdump_exact[OF g l] g show ?thesis by auto
qed

end
