(* ===== verification/Gui_Common.thy ===== *)
theory Gui_Common
  imports Log
begin

text \<open>
  What the two graphical programs share: \<^verbatim>\<open>gui/gui_common.c\<close> and the placing of controls in
  \<^verbatim>\<open>gui_layout_server\<close> and \<^verbatim>\<open>gui_layout_client\<close>. A window is never read except where the code
  does; what a program does to its controls is a trace of \<open>ui_call\<close>, and what Windows answers
  (texts, check boxes, rows, conversions between UTF-8 and UTF-16) are arguments.
\<close>

section \<open>Controls and calls\<close>

type_synonym wide = "16 word list"

definition L :: "string \<Rightarrow> wide" where
  "L s = map (\<lambda>b. ucast b) (ascii s)"

datatype gui_control =
  LabelToken | EditToken | LabelDevices | DeviceList | LabelClients | ClientList | BtnRefresh | BtnHide
| LabelServer | EditServer | BtnDiscover | BtnConnect | StatusBar | MainWindow

record rect =
  rc_x :: int
  rc_y :: int
  rc_w :: int
  rc_h :: int

text \<open>\<^verbatim>\<open>NOTIFYICONDATAW\<close>, with the fields the programs set; handles are numbers, 0 the null handle.\<close>

record notifyicon =
  ni_hWnd :: nat
  ni_uID :: uint32_t
  ni_uFlags :: uint32_t
  ni_uCallbackMessage :: uint32_t
  ni_hIcon :: nat
  ni_szTip :: wide

datatype box_kind = ErrorBox | InformationBox | ConfirmBox

datatype ui_call =
  LvClear gui_control | LvInsert gui_control int wide | LvSetItem gui_control int int wide
| LvSetCheck gui_control int bool | SetText gui_control wide | SetTextA gui_control cbuf | Enable gui_control bool
| ShowBox box_kind wide | ShowWindow bool | Move gui_control rect | PostUpdate | PostQuit | Destroy
| NIM_ADD notifyicon | NIM_MODIFY notifyicon | NIM_DELETE notifyicon | SetForeground | PopupMenu int int | PostNull
| SetTimer | KillTimer | InitControls uint32_t | GetDC | ReleaseDC | DestroyMenu | DeleteFont nat | ColumnWidth gui_control int
| Create gui_control wide rect | ExtStyle gui_control uint32_t | PasswordChar gui_control | AddColumn gui_control int wide int
| SetFont gui_control | MenuItem wide

text \<open>
  \<^verbatim>\<open>gui_utf8_to_wide\<close> and \<^verbatim>\<open>gui_wide_to_utf8\<close>: \<open>conv\<close> is what the conversion of Windows leaves
  in the buffer; \<open>None\<close> is a null pointer. The buffers of the callers are never null.
\<close>

definition gui_utf8_to_wide :: "(cbuf \<Rightarrow> wide \<Rightarrow> int \<Rightarrow> wide) \<Rightarrow> cbuf option \<Rightarrow> wide \<Rightarrow> int \<Rightarrow> wide" where
  "gui_utf8_to_wide conv utf8 wide wideLen =
     (if utf8 = None \<or> wideLen \<le> 0 then (if wideLen > 0 then wide[0 := 0] else wide) else conv (the utf8) wide wideLen)"

definition gui_wide_to_utf8 :: "(wide \<Rightarrow> cbuf \<Rightarrow> int \<Rightarrow> cbuf) \<Rightarrow> wide option \<Rightarrow> cbuf \<Rightarrow> int \<Rightarrow> cbuf" where
  "gui_wide_to_utf8 conv wide utf8 utf8Len =
     (if wide = None \<or> utf8Len \<le> 0 then (if utf8Len > 0 then utf8[0 := 0] else utf8) else conv (the wide) utf8 utf8Len)"

text \<open>
  Conversions, the row a new item gets (from the calls made so far) and the contents of a local
  buffer of a given size before it is written.
\<close>

record gui_os =
  go_to_wide :: "cbuf \<Rightarrow> wide \<Rightarrow> int \<Rightarrow> wide"
  go_to_utf8 :: "wide \<Rightarrow> cbuf \<Rightarrow> int \<Rightarrow> cbuf"
  go_row :: "ui_call list \<Rightarrow> int"
  go_wide_buf :: "nat \<Rightarrow> wide"
  go_buf :: "nat \<Rightarrow> cbuf"

text \<open>
  A notification of a list view, \<^verbatim>\<open>NMLISTVIEW\<close>, with the text of the first column of the item and
  the check mark the window reports for it.
\<close>

record item_change =
  ic_idFrom :: uint32_t
  ic_code :: uint32_t
  ic_uChanged :: uint32_t
  ic_uNewState :: uint32_t
  ic_uOldState :: uint32_t
  ic_iItem :: int
  ic_text :: wide
  ic_checked :: bool

abbreviation (input) LVN_ITEMCHANGED :: uint32_t where "LVN_ITEMCHANGED \<equiv> - 101"
abbreviation (input) LVIF_STATE :: uint32_t where "LVIF_STATE \<equiv> 8"
abbreviation (input) LVIS_STATEIMAGEMASK :: uint32_t where "LVIS_STATEIMAGEMASK \<equiv> 0xF000"

text \<open>\<^verbatim>\<open>%04X\<close> of a 16-bit number, and vendor and product.\<close>

definition hex4 :: "uint16_t \<Rightarrow> wide" where
  "hex4 n = (let h = show_hex (unat n) in map ucast (replicate (4 - length h) 48 @ h))"

definition vidpid_text :: "uint16_t \<Rightarrow> uint16_t \<Rightarrow> wide" where
  "vidpid_text vendor product = take 31 (hex4 vendor @ L '':'' @ hex4 product)"

text \<open>
  The scale of the screen, kept in \<open>system_dpi\<close> after the first call; \<open>muldiv\<close> is the Windows
  function and \<open>caps\<close> the answer of \<^verbatim>\<open>GetDeviceCaps\<close>.
\<close>

definition gui_scale_dpi :: "(int \<Rightarrow> int \<Rightarrow> int \<Rightarrow> int) \<Rightarrow> int \<Rightarrow> int \<Rightarrow> int \<Rightarrow> int \<times> int" where
  "gui_scale_dpi muldiv caps system_dpi pixels =
     (let system_dpi = (if system_dpi = 0 then (if caps = 0 then 96 else caps) else system_dpi)
      in (muldiv pixels system_dpi 96, system_dpi))"

lemma gui_scale_dpi_cached:
  "gui_scale_dpi muldiv caps (snd (gui_scale_dpi muldiv caps system_dpi q)) p =
   gui_scale_dpi muldiv caps system_dpi p"
  by (simp add: gui_scale_dpi_def Let_def)

section \<open>Layout\<close>

abbreviation (input) MARGIN :: int where "MARGIN \<equiv> 10"
abbreviation (input) PADDING :: int where "PADDING \<equiv> 5"
abbreviation (input) BUTTON_HEIGHT :: int where "BUTTON_HEIGHT \<equiv> 28"
abbreviation (input) BUTTON_WIDTH :: int where "BUTTON_WIDTH \<equiv> 90"
abbreviation (input) LABEL_HEIGHT :: int where "LABEL_HEIGHT \<equiv> 18"
abbreviation (input) EDIT_HEIGHT :: int where "EDIT_HEIGHT \<equiv> 24"

text \<open>What a layout reads: the scale, the client area, and top and bottom of the status bar.\<close>

record layout_env =
  ly_scale :: "int \<Rightarrow> int"
  ly_client_w :: int
  ly_client_h :: int
  ly_status_top :: int
  ly_status_bottom :: int

definition layout_bottom :: "layout_env \<Rightarrow> int" where
  "layout_bottom e = ly_client_h e - (ly_status_bottom e - ly_status_top e)"

text \<open>Division of the code rounds towards zero; the control \<open>c\<close> is moved to \<open>x\<close>, \<open>y\<close>, \<open>w\<close>, \<open>h\<close>.\<close>

definition half :: "int \<Rightarrow> int" where
  "half n = (if n < 0 then - ((- n) div 2) else n div 2)"

definition gui_move :: "gui_control \<Rightarrow> int \<Rightarrow> int \<Rightarrow> int \<Rightarrow> int \<Rightarrow> ui_call" where
  "gui_move c x y w h = Move c \<lparr>rc_x = x, rc_y = y, rc_w = w, rc_h = h\<rparr>"

definition gui_layout_server :: "layout_env \<Rightarrow> ui_call list" where
  "gui_layout_server e =
     (let cw = ly_client_w e; bottom = layout_bottom e; scale = ly_scale e;
          margin = scale MARGIN; pad = scale PADDING; lblH = scale LABEL_HEIGHT; editH = scale EDIT_HEIGHT;
          btnH = scale BUTTON_HEIGHT; btnW = scale BUTTON_WIDTH;
          y0 = margin; list_w = cw - 2 * margin - scale 16;
          y1 = y0 + (editH + margin);
          y2 = y1 + (lblH + pad);
          dev_list_h = scale 120;
          y3 = y2 + (dev_list_h + margin);
          y4 = y3 + (lblH + pad);
          btn_row_h = btnH + pad;
          avail = (bottom - pad) - btn_row_h - y4;
          cli_list_h = (if avail < scale 60 then scale 60 else avail);
          btnY = bottom - pad - btnH
      in [gui_move LabelToken margin (y0 + half (editH - lblH)) (scale 80) lblH,
          gui_move EditToken (margin + scale 85) y0 (cw - 2 * margin - scale 85) editH,
          gui_move LabelDevices margin y1 (cw - 2 * margin) lblH,
          gui_move DeviceList margin y2 list_w dev_list_h,
          gui_move LabelClients margin y3 (cw - 2 * margin) lblH,
          gui_move ClientList margin y4 list_w cli_list_h,
          gui_move BtnRefresh margin btnY btnW btnH,
          gui_move BtnHide (margin + btnW + pad) btnY (btnW + scale 10) btnH])"

definition gui_layout_client :: "layout_env \<Rightarrow> ui_call list" where
  "gui_layout_client e =
     (let cw = ly_client_w e; bottom = layout_bottom e; scale = ly_scale e;
          margin = scale MARGIN; pad = scale PADDING; lblH = scale LABEL_HEIGHT; editH = scale EDIT_HEIGHT;
          btnH = scale BUTTON_HEIGHT; btnSmall = scale 80; editW = scale 200; labelW = scale 50;
          y0 = margin; row1_x = margin + labelW + pad; list_w = cw - 2 * margin - scale 16;
          bx = row1_x + editW + pad;
          y1 = y0 + (editH + margin);
          y2 = y1 + (editH + margin);
          y3 = y2 + (lblH + pad);
          btnY = bottom - pad - btnH;
          avail = btnY - pad - y3;
          list_h = (if avail < scale 80 then scale 80 else avail)
      in [gui_move LabelServer margin (y0 + half (editH - lblH)) labelW lblH,
          gui_move EditServer row1_x y0 editW editH,
          gui_move BtnDiscover bx y0 btnSmall btnH,
          gui_move BtnConnect (bx + (btnSmall + pad)) y0 btnSmall btnH,
          gui_move LabelToken margin (y1 + half (editH - lblH)) labelW lblH,
          gui_move EditToken row1_x y1 editW editH,
          gui_move LabelDevices margin y2 (cw - 2 * margin) lblH,
          gui_move DeviceList margin y3 list_w list_h,
          gui_move BtnRefresh margin btnY (scale BUTTON_WIDTH) btnH])"

section \<open>Creation of controls\<close>

text \<open>Identifier, class and style are fixed by the kind of control and left out; the font is applied by the callers.\<close>

abbreviation (input) LVS_EX_GRIDLINES :: uint32_t where "LVS_EX_GRIDLINES \<equiv> 0x1"
abbreviation (input) LVS_EX_CHECKBOXES :: uint32_t where "LVS_EX_CHECKBOXES \<equiv> 0x4"
abbreviation (input) LVS_EX_FULLROWSELECT :: uint32_t where "LVS_EX_FULLROWSELECT \<equiv> 0x20"

definition gui_create_button :: "gui_control \<Rightarrow> wide \<Rightarrow> int \<Rightarrow> int \<Rightarrow> int \<Rightarrow> int \<Rightarrow> ui_call list" where
  "gui_create_button c text x y w h = [Create c text \<lparr>rc_x = x, rc_y = y, rc_w = w, rc_h = h\<rparr>]"

definition gui_create_label :: "gui_control \<Rightarrow> wide \<Rightarrow> int \<Rightarrow> int \<Rightarrow> int \<Rightarrow> int \<Rightarrow> ui_call list" where
  "gui_create_label c text x y w h = [Create c text \<lparr>rc_x = x, rc_y = y, rc_w = w, rc_h = h\<rparr>]"

definition gui_create_edit :: "gui_control \<Rightarrow> int \<Rightarrow> int \<Rightarrow> int \<Rightarrow> int \<Rightarrow> ui_call list" where
  "gui_create_edit c x y w h = [Create c [] \<lparr>rc_x = x, rc_y = y, rc_w = w, rc_h = h\<rparr>]"

definition gui_create_listview :: "gui_control \<Rightarrow> int \<Rightarrow> int \<Rightarrow> int \<Rightarrow> int \<Rightarrow> ui_call list" where
  "gui_create_listview c x y w h =
     [Create c [] \<lparr>rc_x = x, rc_y = y, rc_w = w, rc_h = h\<rparr>,
      ExtStyle c (LVS_EX_FULLROWSELECT OR LVS_EX_GRIDLINES OR LVS_EX_CHECKBOXES)]"

definition gui_create_statusbar :: "gui_control \<Rightarrow> ui_call list" where
  "gui_create_statusbar c = [Create c [] \<lparr>rc_x = 0, rc_y = 0, rc_w = 0, rc_h = 0\<rparr>]"

text \<open>What a control shows: the text it was created with or the last one set.\<close>

fun control_text :: "gui_control \<Rightarrow> ui_call list \<Rightarrow> wide option" where
  "control_text c [] = None"
| "control_text c (call # calls) =
     (case control_text c calls of
        Some t \<Rightarrow> Some t
      | None \<Rightarrow> (case call of Create c' t r \<Rightarrow> if c' = c then Some t else None
                | SetText c' t \<Rightarrow> if c' = c then Some t else None
                | _ \<Rightarrow> None))"

lemma control_text_append:
  "control_text c (xs @ ys) = (case control_text c ys of Some t \<Rightarrow> Some t | None \<Rightarrow> control_text c xs)"
  by (induction xs) (auto split: option.splits)

text \<open>What the programs rely on when they read a text field: an empty field gives the empty string.\<close>

definition reads_text :: "gui_control \<Rightarrow> cbuf \<Rightarrow> ui_call list \<Rightarrow> bool" where
  "reads_text c buf calls \<longleftrightarrow> (control_text c calls = Some [] \<longrightarrow> cstr buf = [])"

section \<open>The desktop\<close>

text \<open>
  What Windows answers while a program makes its window: icons (0 when the resource is missing),
  the size of the screen, whether the class is registered, the handle of the window, the handle of
  a font, dots per inch and the products of \<^verbatim>\<open>MulDiv\<close>.
\<close>

record window_class =
  wc_hIcon :: nat
  wc_hIconSm :: nat
  wc_lpszClassName :: wide

record desktop =
  dk_app_icon :: nat
  dk_default_icon :: nat
  dk_screen_w :: int
  dk_screen_h :: int
  dk_register :: "window_class \<Rightarrow> bool"
  dk_create :: "wide \<Rightarrow> wide \<Rightarrow> rect \<Rightarrow> nat"
  dk_muldiv :: "int \<Rightarrow> int \<Rightarrow> int \<Rightarrow> int"
  dk_caps :: int
  dk_font :: "int \<Rightarrow> wide \<Rightarrow> nat"
  dk_notify :: "notifyicon \<Rightarrow> bool"

definition gui_init_common_controls :: "ui_call list" where
  "gui_init_common_controls = [InitControls (0x1 OR 0x4 OR 0x4000)]"

text \<open>The device context is taken and never given back.\<close>

definition gui_create_font :: "desktop \<Rightarrow> int \<Rightarrow> wide \<Rightarrow> nat \<times> ui_call list" where
  "gui_create_font d points name = (dk_font d (- dk_muldiv d points (dk_caps d) 72) name, [GetDC])"

definition load_icon :: "desktop \<Rightarrow> nat" where
  "load_icon d = (if dk_app_icon d = 0 then dk_default_icon d else dk_app_icon d)"

definition register_class :: "desktop \<Rightarrow> wide \<Rightarrow> bool" where
  "register_class d name = dk_register d \<lparr>wc_hIcon = load_icon d, wc_hIconSm = load_icon d, wc_lpszClassName = name\<rparr>"

text \<open>A window of a fixed size in the middle of the screen.\<close>

definition centred :: "desktop \<Rightarrow> int \<Rightarrow> int \<Rightarrow> rect" where
  "centred d w h = \<lparr>rc_x = half (dk_screen_w d - w), rc_y = half (dk_screen_h d - h), rc_w = w, rc_h = h\<rparr>"

text \<open>On a screen that is large enough the whole window is visible and the margins differ by at most one.\<close>

lemma centred_margins:
  assumes "w \<le> dk_screen_w d" and "h \<le> dk_screen_h d"
  shows "0 \<le> rc_x (centred d w h)" and "0 \<le> rc_y (centred d w h)"
    and "dk_screen_w d - (rc_x (centred d w h) + w) - rc_x (centred d w h) \<in> {0, 1}"
    and "dk_screen_h d - (rc_y (centred d w h) + h) - rc_y (centred d w h) \<in> {0, 1}"
  using assms unfolding centred_def half_def by (simp_all, presburger+)

text \<open>
  The icon beside the clock. \<^verbatim>\<open>wcsncpy\<close> copies at most 127 units and fills the rest of them with
  zeros, so the last unit of the 128 keeps the zero it has from the start.
\<close>

definition wcsncpy :: "wide \<Rightarrow> wide \<Rightarrow> nat \<Rightarrow> wide" where
  "wcsncpy dst src n =
     (let t = takeWhile (\<lambda>u. u \<noteq> 0) (take n src) in t @ replicate (n - length t) 0 @ drop n dst)"

abbreviation (input) NIF_MESSAGE :: uint32_t where "NIF_MESSAGE \<equiv> 1"
abbreviation (input) NIF_ICON :: uint32_t where "NIF_ICON \<equiv> 2"
abbreviation (input) NIF_TIP :: uint32_t where "NIF_TIP \<equiv> 4"
abbreviation (input) WM_TRAYICON :: uint32_t where "WM_TRAYICON \<equiv> 1124"

definition zero_nid :: notifyicon where
  "zero_nid = \<lparr>ni_hWnd = 0, ni_uID = 0, ni_uFlags = 0, ni_uCallbackMessage = 0, ni_hIcon = 0, ni_szTip = replicate 128 0\<rparr>"

definition gui_tray_add :: "desktop \<Rightarrow> nat \<Rightarrow> uint32_t \<Rightarrow> wide option \<Rightarrow> bool \<times> notifyicon \<times> ui_call list" where
  "gui_tray_add d hMainWnd uID tip =
     (let nid = zero_nid\<lparr>ni_hWnd := hMainWnd, ni_uID := uID, ni_uFlags := NIF_ICON OR NIF_MESSAGE OR NIF_TIP,
                  ni_uCallbackMessage := WM_TRAYICON, ni_hIcon := load_icon d\<rparr>;
          nid = (case tip of None \<Rightarrow> nid | Some t \<Rightarrow> nid\<lparr>ni_szTip := wcsncpy (ni_szTip nid) t 127\<rparr>)
      in (dk_notify d nid, nid, [NIM_ADD nid]))"

definition gui_tray_remove :: "notifyicon \<Rightarrow> ui_call list" where
  "gui_tray_remove nid = [NIM_DELETE nid]"

definition gui_tray_update_tip :: "wide option \<Rightarrow> notifyicon \<Rightarrow> notifyicon \<times> ui_call list" where
  "gui_tray_update_tip tip nid =
     (case tip of
        None \<Rightarrow> (nid, [])
      | Some t \<Rightarrow>
          let nid = nid\<lparr>ni_szTip := wcsncpy (ni_szTip nid) t 127, ni_uFlags := NIF_TIP\<rparr> in (nid, [NIM_MODIFY nid]))"

definition gui_tray_show_menu :: "int \<times> int \<Rightarrow> ui_call list" where
  "gui_tray_show_menu pt = [SetForeground, PopupMenu (fst pt) (snd pt), PostNull]"

text \<open>The tip is a terminated string of at most 127 units, a prefix of what was asked for.\<close>

definition tip_ok :: "notifyicon \<Rightarrow> bool" where
  "tip_ok nid \<longleftrightarrow> length (ni_szTip nid) = 128 \<and> ni_szTip nid ! 127 = 0"

lemma takeWhile_of_take: "takeWhile P (take n xs) = take n (takeWhile P xs)"
  by (induction xs arbitrary: n) (auto simp: take_Cons split: nat.split)

lemma wcsncpy_text:
  assumes "n < length dst" and "dst ! n = 0"
  shows "takeWhile (\<lambda>u. u \<noteq> 0) (wcsncpy dst src n) = take n (takeWhile (\<lambda>u. u \<noteq> 0) src)"
    and "length (wcsncpy dst src n) = length dst" and "wcsncpy dst src n ! n = 0"
proof -
  let ?t = "takeWhile (\<lambda>u. u \<noteq> 0) (take n src)"
  have len: "length ?t \<le> n" by (metis length_take length_takeWhile_le min.cobounded2 order.trans)
  obtain ys where ys: "drop n dst = 0 # ys" using assms by (metis Cons_nth_drop_Suc)
  have e: "wcsncpy dst src n = ?t @ replicate (n - length ?t) 0 @ 0 # ys" by (simp add: wcsncpy_def Let_def ys)
  show "length (wcsncpy dst src n) = length dst" using len assms(1) by (simp add: wcsncpy_def Let_def)
  show "wcsncpy dst src n ! n = 0" using len by (simp add: e nth_append)
  have "\<forall>u \<in> set ?t. u \<noteq> 0" using set_takeWhileD by fast
  moreover have "takeWhile (\<lambda>u. u \<noteq> 0) (replicate k 0 @ 0 # ys) = []" for k by (cases k) simp_all
  ultimately have "takeWhile (\<lambda>u. u \<noteq> 0) (?t @ replicate (n - length ?t) 0 @ 0 # ys) = ?t"
    by (simp only: takeWhile_append2 append_Nil2 simp_thms)
  then show "takeWhile (\<lambda>u. u \<noteq> 0) (wcsncpy dst src n) = take n (takeWhile (\<lambda>u. u \<noteq> 0) src)"
    by (simp add: e takeWhile_of_take)
qed

lemma tip_set:
  assumes "tip_ok nid"
  shows "tip_ok (nid\<lparr>ni_szTip := wcsncpy (ni_szTip nid) t 127\<rparr>)"
    and "takeWhile (\<lambda>u. u \<noteq> 0) (wcsncpy (ni_szTip nid) t 127) = take 127 (takeWhile (\<lambda>u. u \<noteq> 0) t)"
  using wcsncpy_text[of 127 "ni_szTip nid" t] assms by (simp_all add: tip_ok_def)

lemma tip_ok_frame [simp]:
  "tip_ok (nid\<lparr>ni_uFlags := f\<rparr>) = tip_ok nid" "tip_ok (nid\<lparr>ni_hWnd := w\<rparr>) = tip_ok nid" "tip_ok (nid\<lparr>ni_uID := i\<rparr>) = tip_ok nid"
  "tip_ok (nid\<lparr>ni_uCallbackMessage := m\<rparr>) = tip_ok nid" "tip_ok (nid\<lparr>ni_hIcon := h\<rparr>) = tip_ok nid"
  by (simp_all add: tip_ok_def)

lemma tray_tip:
  shows "gui_tray_add d w i (Some t) = (ok, nid, calls) \<Longrightarrow>
     tip_ok nid \<and> takeWhile (\<lambda>u. u \<noteq> 0) (ni_szTip nid) = take 127 (takeWhile (\<lambda>u. u \<noteq> 0) t)"
    and "tip_ok nid0 \<Longrightarrow> gui_tray_update_tip (Some t) nid0 = (nid, calls) \<Longrightarrow>
     tip_ok nid \<and> takeWhile (\<lambda>u. u \<noteq> 0) (ni_szTip nid) = take 127 (takeWhile (\<lambda>u. u \<noteq> 0) t)"
proof -
  have z: "tip_ok zero_nid" by code_simp
  assume "gui_tray_add d w i (Some t) = (ok, nid, calls)"
  then obtain m f c h where n: "m = zero_nid\<lparr>ni_hWnd := w, ni_uID := i, ni_uFlags := f, ni_uCallbackMessage := c, ni_hIcon := h\<rparr>"
    "nid = m\<lparr>ni_szTip := wcsncpy (ni_szTip m) t 127\<rparr>" by (auto simp: gui_tray_add_def Let_def)
  then have "tip_ok m" using z by simp
  from tip_set[OF this] show "tip_ok nid \<and> takeWhile (\<lambda>u. u \<noteq> 0) (ni_szTip nid) = take 127 (takeWhile (\<lambda>u. u \<noteq> 0) t)"
    by (simp add: n(2))
next
  assume "tip_ok nid0" "gui_tray_update_tip (Some t) nid0 = (nid, calls)"
  then show "tip_ok nid \<and> takeWhile (\<lambda>u. u \<noteq> 0) (ni_szTip nid) = take 127 (takeWhile (\<lambda>u. u \<noteq> 0) t)"
    using tip_set[of nid0 t] by (auto simp: gui_tray_update_tip_def Let_def)
qed

text \<open>Messages and the status bar; a missing status bar is \<open>None\<close>.\<close>

definition gui_show_error :: "wide \<Rightarrow> ui_call" where
  "gui_show_error message = ShowBox ErrorBox message"

definition gui_show_info :: "wide \<Rightarrow> ui_call" where
  "gui_show_info message = ShowBox InformationBox message"

definition gui_show_confirm :: "wide \<Rightarrow> ui_call" where
  "gui_show_confirm message = ShowBox ConfirmBox message"

lemmas gui_show_defs [simp] = gui_show_error_def gui_show_info_def gui_show_confirm_def

definition gui_statusbar_set_text :: "gui_control option \<Rightarrow> wide \<Rightarrow> ui_call list" where
  "gui_statusbar_set_text hStatus text = (case hStatus of None \<Rightarrow> [] | Some c \<Rightarrow> [SetText c text])"

definition gui_listview_autosize_columns :: "gui_control \<Rightarrow> int \<Rightarrow> ui_call list" where
  "gui_listview_autosize_columns hList colCount = map (ColumnWidth hList) [0..colCount - 1]"

section \<open>Overlap\<close>

definition apart :: "rect \<Rightarrow> rect \<Rightarrow> bool" where
  "apart a b \<longleftrightarrow> rc_x a + rc_w a \<le> rc_x b \<or> rc_x b + rc_w b \<le> rc_x a \<or>
     rc_y a + rc_h a \<le> rc_y b \<or> rc_y b + rc_h b \<le> rc_y a"

fun moved :: "ui_call \<Rightarrow> rect option" where
  "moved (Move c r) = Some r"
| "moved _ = None"

fun all_apart :: "rect list \<Rightarrow> bool" where
  "all_apart [] \<longleftrightarrow> True"
| "all_apart (r # rs) \<longleftrightarrow> list_all (apart r) rs \<and> all_apart rs"

definition no_overlap :: "ui_call list \<Rightarrow> bool" where
  "no_overlap calls \<longleftrightarrow> all_apart (List.map_filter moved calls)"

lemma moved_gui_move [simp]:
  "List.map_filter moved (gui_move c x y w h # calls) = \<lparr>rc_x = x, rc_y = y, rc_w = w, rc_h = h\<rparr> # List.map_filter moved calls"
  "List.map_filter moved [] = []"
  by (simp_all add: gui_move_def List.map_filter_simps)

lemma apart_rect [simp]:
  "apart \<lparr>rc_x = x, rc_y = y, rc_w = w, rc_h = h\<rparr> \<lparr>rc_x = x', rc_y = y', rc_w = w', rc_h = h'\<rparr> \<longleftrightarrow>
     x + w \<le> x' \<or> x' + w' \<le> x \<or> y + h \<le> y' \<or> y' + h' \<le> y"
  by (simp add: apart_def)

text \<open>The Windows function rounds the exact quotient to the nearest integer.\<close>

definition muldiv_rounds :: "(int \<Rightarrow> int \<Rightarrow> int \<Rightarrow> int) \<Rightarrow> bool" where
  "muldiv_rounds muldiv \<longleftrightarrow> (\<forall>a b c. 0 \<le> a \<longrightarrow> 0 \<le> b \<longrightarrow> 0 < c \<longrightarrow> 2 * \<bar>c * muldiv a b c - a * b\<bar> \<le> c)"

text \<open>What the layouts need of the scale: no size is negative and their order is kept with room.\<close>

definition scale_ok :: "(int \<Rightarrow> int) \<Rightarrow> bool" where
  "scale_ok scale \<longleftrightarrow> 0 < scale 5 \<and> 0 \<le> scale 10 \<and> 0 \<le> scale 16 \<and> 0 < scale 18 \<and> scale 18 \<le> scale 24 \<and> 0 < scale 28 \<and>
     scale 28 \<le> scale 24 + scale 10 \<and> 0 < scale 50 \<and> 0 < scale 60 \<and> 0 < scale 80 \<and> scale 80 \<le> scale 85 \<and> 0 < scale 90 \<and>
     0 < scale 120 \<and> 0 < scale 200"

lemma gui_scale_ok:
  assumes "muldiv_rounds muldiv" and "24 \<le> snd (gui_scale_dpi muldiv caps dpi 0)"
  shows "scale_ok (\<lambda>p. fst (gui_scale_dpi muldiv caps dpi p))"
proof -
  define d where "d = (if dpi = 0 then (if caps = 0 then 96 else caps) else dpi)"
  have d: "24 \<le> d" and e: "fst (gui_scale_dpi muldiv caps dpi p) = muldiv p d 96" for p
    using assms(2) by (simp_all add: gui_scale_dpi_def Let_def d_def)
  have lo: "p * d - 48 \<le> 96 * muldiv p d 96" and hi: "96 * muldiv p d 96 \<le> p * d + 48" if "0 \<le> p" for p
  proof -
    have "2 * \<bar>96 * muldiv p d 96 - p * d\<bar> \<le> 96" using assms(1) d that unfolding muldiv_rounds_def by simp
    then show "p * d - 48 \<le> 96 * muldiv p d 96" "96 * muldiv p d 96 \<le> p * d + 48" by arith+
  qed
  have pos: "0 < muldiv p d 96" if "5 \<le> p" for p
  proof -
    have "5 * 24 \<le> p * d" using that d by (intro mult_mono) auto
    then show ?thesis using lo[of p] that by linarith
  qed
  have "muldiv 18 d 96 \<le> muldiv 24 d 96" using hi[of 18] lo[of 24] d by linarith
  moreover have "muldiv 28 d 96 \<le> muldiv 24 d 96 + muldiv 10 d 96" using hi[of 28] lo[of 24] lo[of 10] d by linarith
  moreover have "muldiv 80 d 96 \<le> muldiv 85 d 96" using hi[of 80] lo[of 85] d by linarith
  ultimately show ?thesis
    unfolding scale_ok_def e using pos by (simp add: less_imp_le)
qed

lemma half_bounds: "0 \<le> n \<Longrightarrow> 0 \<le> half n \<and> half n \<le> n"
  by (simp add: half_def)

section \<open>Properties\<close>

definition layout_for :: "(int \<Rightarrow> int \<Rightarrow> int \<Rightarrow> int) \<Rightarrow> int \<Rightarrow> int \<Rightarrow> int \<Rightarrow> int \<Rightarrow> int \<Rightarrow> int \<Rightarrow> layout_env" where
  "layout_for muldiv caps dpi cw ch st sb =
     \<lparr>ly_scale = (\<lambda>p. fst (gui_scale_dpi muldiv caps dpi p)), ly_client_w = cw, ly_client_h = ch,
      ly_status_top = st, ly_status_bottom = sb\<rparr>"

text \<open>The height a server window needs: the fixed rows, 60 units of client list and the buttons.\<close>

definition server_height :: "layout_env \<Rightarrow> int" where
  "server_height e = 3 * ly_scale e 10 + ly_scale e 24 + 2 * (ly_scale e 18 + ly_scale e 5) + ly_scale e 120 + ly_scale e 60 +
     ly_scale e 28 + ly_scale e 5"

definition client_height :: "layout_env \<Rightarrow> int" where
  "client_height e = 3 * ly_scale e 10 + 2 * ly_scale e 24 + ly_scale e 18 + ly_scale e 5 + ly_scale e 80 +
     ly_scale e 28 + ly_scale e 5"

lemma server_layout_disjoint:
  assumes "scale_ok (ly_scale e)" and "server_height e \<le> layout_bottom e"
  shows "no_overlap (gui_layout_server e)"
proof -
  obtain m p l ed b bw s16 s120 s60 s80 s85 s10 cw bt hf where v:
    "m = ly_scale e 10" "p = ly_scale e 5" "l = ly_scale e 18" "ed = ly_scale e 24" "b = ly_scale e 28" "bw = ly_scale e 90"
    "s16 = ly_scale e 16" "s120 = ly_scale e 120" "s60 = ly_scale e 60" "s80 = ly_scale e 80" "s85 = ly_scale e 85"
    "cw = ly_client_w e" "bt = layout_bottom e" "hf = half (ed - l)" by blast
  have c: "0 < p" "0 \<le> m" "0 < l" "l \<le> ed" "0 < b" "0 < s120" "0 < s60" "s80 \<le> s85" "0 < bw" "0 \<le> hf" "hf + l \<le> ed"
    "3 * m + ed + 2 * (l + p) + s120 + s60 + b + p \<le> bt"
    using assms half_bounds[of "ed - l"] by (auto simp: v scale_ok_def server_height_def)
  show ?thesis
    unfolding no_overlap_def gui_layout_server_def Let_def v[symmetric] moved_gui_move all_apart.simps list.pred_inject apart_rect
    using c by auto
qed

lemma client_layout_disjoint:
  assumes "scale_ok (ly_scale e)" and "client_height e \<le> layout_bottom e"
  shows "no_overlap (gui_layout_client e)"
proof -
  obtain m p l ed b bw s80 s200 s50 s16 cw bt hf where v:
    "m = ly_scale e 10" "p = ly_scale e 5" "l = ly_scale e 18" "ed = ly_scale e 24" "b = ly_scale e 28" "bw = ly_scale e 90"
    "s80 = ly_scale e 80" "s200 = ly_scale e 200" "s50 = ly_scale e 50" "s16 = ly_scale e 16"
    "cw = ly_client_w e" "bt = layout_bottom e" "hf = half (ed - l)" by blast
  have c: "0 < p" "0 \<le> m" "0 < l" "l \<le> ed" "0 < b" "b \<le> ed + m" "0 < s80" "0 < s200" "0 < s50" "0 \<le> hf" "hf + l \<le> ed"
    "3 * m + 2 * ed + l + p + s80 + b + p \<le> bt"
    using assms half_bounds[of "ed - l"] by (auto simp: v scale_ok_def client_height_def)
  show ?thesis
    unfolding no_overlap_def gui_layout_client_def Let_def v[symmetric] moved_gui_move all_apart.simps list.pred_inject apart_rect
    using c by auto
qed

lemma layout_for_fields [simp]:
  "ly_client_w (layout_for muldiv caps dpi cw ch st sb) = cw"
  "layout_bottom (layout_for muldiv caps dpi cw ch st sb) = ch - (sb - st)"
  by (simp_all add: layout_for_def layout_bottom_def)

text \<open>
  In a window that is too low the client list is drawn over the button below it.
\<close>

lemma server_layout_overlaps:
  assumes "scale_ok (ly_scale e)" and "layout_bottom e < server_height e"
    and "server_height e - ly_scale e 60 - ly_scale e 28 < layout_bottom e"
    and "2 * ly_scale e 10 + ly_scale e 16 < ly_client_w e"
  shows "\<not> no_overlap (gui_layout_server e)"
proof -
  obtain m p l ed b bw s16 s120 s60 s80 s85 cw bt hf where v:
    "m = ly_scale e 10" "p = ly_scale e 5" "l = ly_scale e 18" "ed = ly_scale e 24" "b = ly_scale e 28" "bw = ly_scale e 90"
    "s16 = ly_scale e 16" "s120 = ly_scale e 120" "s60 = ly_scale e 60" "s80 = ly_scale e 80" "s85 = ly_scale e 85"
    "cw = ly_client_w e" "bt = layout_bottom e" "hf = half (ed - l)" by blast
  have c: "0 < p" "0 < b" "0 < s60" "0 < bw" "2 * m + s16 < cw"
    "bt < 3 * m + ed + 2 * (l + p) + s120 + s60 + b + p" "3 * m + ed + 2 * (l + p) + s120 + p < bt"
    using assms by (auto simp: v scale_ok_def server_height_def)
  show ?thesis
    unfolding no_overlap_def gui_layout_server_def Let_def v[symmetric] moved_gui_move all_apart.simps list.pred_inject apart_rect
    using c by auto
qed

text \<open>
  Placing the controls. At any screen scale of at least 24 dots per inch, with a Windows
  \<^verbatim>\<open>MulDiv\<close> that rounds to the nearest integer, no two controls of the server or of the client
  window overlap when the area above the status bar is at least as high as the rows need; the width
  does not matter. A server window that is lower, by less than the client list and a button,
  has the client list over the button, against the comment of the function.
\<close>

lemma layouts_disjoint:
  assumes "muldiv_rounds muldiv" and "24 \<le> snd (gui_scale_dpi muldiv caps dpi 0)"
    and "e = layout_for muldiv caps dpi cw ch st sb"
  shows "(server_height e \<le> ch - (sb - st) \<longrightarrow> no_overlap (gui_layout_server e)) \<and>
    (client_height e \<le> ch - (sb - st) \<longrightarrow> no_overlap (gui_layout_client e)) \<and>
    (server_height e - ly_scale e 60 - ly_scale e 28 < ch - (sb - st) \<and> ch - (sb - st) < server_height e \<and>
     2 * ly_scale e 10 + ly_scale e 16 < cw \<longrightarrow> \<not> no_overlap (gui_layout_server e))"
proof -
  have s: "scale_ok (ly_scale e)" using gui_scale_ok[OF assms(1,2)] by (simp add: assms(3) layout_for_def)
  have f: "ly_client_w e = cw" "layout_bottom e = ch - (sb - st)" by (simp_all add: assms(3))
  show ?thesis
    using server_layout_disjoint[OF s] client_layout_disjoint[OF s] server_layout_overlaps[OF s] unfolding f by blast
qed

definition sample_muldiv :: "int \<Rightarrow> int \<Rightarrow> int \<Rightarrow> int" where
  "sample_muldiv a b c = (2 * a * b + c) div (2 * c)"

lemma sample_muldiv_rounds: "muldiv_rounds sample_muldiv"
proof -
  have "2 * \<bar>c * ((2 * n + c) div (2 * c)) - n\<bar> \<le> c" if "0 < c" for n c :: int
  proof -
    have "(2 * n + c) mod (2 * c) = 2 * n + c - 2 * c * ((2 * n + c) div (2 * c))" by (simp add: minus_mult_div_eq_mod)
    moreover have "0 \<le> (2 * n + c) mod (2 * c)" "(2 * n + c) mod (2 * c) < 2 * c" using that by simp_all
    ultimately show ?thesis by (simp add: abs_if algebra_simps)
  qed
  from this[where n = "_ * _"] show ?thesis unfolding muldiv_rounds_def sample_muldiv_def by (simp add: mult.assoc)
qed

definition sample_desktop :: desktop where
  "sample_desktop =
     \<lparr>dk_app_icon = 0, dk_default_icon = 7, dk_screen_w = 1280, dk_screen_h = 1024, dk_register = (\<lambda>c. wc_hIcon c \<noteq> 0),
      dk_create = (\<lambda>c t r. 1), dk_muldiv = sample_muldiv, dk_caps = 96, dk_font = (\<lambda>h name. 3), dk_notify = (\<lambda>nid. True)\<rparr>"

lemma layouts_disjoint_example:
  "no_overlap (gui_layout_server (layout_for sample_muldiv 144 0 900 700 0 30)) \<and>
   \<not> no_overlap (gui_layout_server (layout_for sample_muldiv 96 0 400 300 0 0))"
proof -
  have d: "24 \<le> snd (gui_scale_dpi sample_muldiv 144 0 0)" "24 \<le> snd (gui_scale_dpi sample_muldiv 96 0 0)" by code_simp+
  have h: "server_height (layout_for sample_muldiv 144 0 900 700 0 30) \<le> 700 - (30 - 0)"
    "server_height (layout_for sample_muldiv 96 0 400 300 0 0) - ly_scale (layout_for sample_muldiv 96 0 400 300 0 0) 60 -
       ly_scale (layout_for sample_muldiv 96 0 400 300 0 0) 28 < 300 - (0 - 0)"
    "300 - (0 - 0) < server_height (layout_for sample_muldiv 96 0 400 300 0 0)"
    "2 * ly_scale (layout_for sample_muldiv 96 0 400 300 0 0) 10 + ly_scale (layout_for sample_muldiv 96 0 400 300 0 0) 16 < 400"
    by code_simp+
  show ?thesis
    using layouts_disjoint[OF sample_muldiv_rounds d(1) refl] layouts_disjoint[OF sample_muldiv_rounds d(2) refl] h by blast
qed

end
