(* ===== verification/Gui_Server.thy ===== *)
theory Gui_Server
  imports Server_Main Discovery Gui_Common
begin

text \<open>
  The graphical server, \<^verbatim>\<open>gui/server_gui.c\<close>: the list of devices in the window, the threads that
  accept clients and serve them, start and stop. In contrast to the command-line server every
  client has a thread of its own; what the other threads do to the shared state between two
  requests of a client is a function in the script of its thread. Texts and check boxes read
  from the window, conversions and handles are arguments (\<open>gui_os\<close>, \<open>start_env\<close>).
\<close>

section \<open>State\<close>

record server_gui =
  sg_state :: server_state
  sg_server_running :: bool
  sg_server_socket :: socket_t
  sg_server_thread :: "nat option"
  sg_auth_token :: cbuf
  sg_discovery_socket :: socket_t
  sg_discovery_thread :: "nat option"
  sg_minimized :: bool
  sg_updating_checkbox :: bool
  sg_hMainWnd :: nat
  sg_hFont :: nat
  sg_nid :: notifyicon
  sg_ui :: "ui_call list"

definition ui :: "ui_call list \<Rightarrow> server_gui \<Rightarrow> server_gui" where
  "ui calls g = g\<lparr>sg_ui := sg_ui g @ calls\<rparr>"

definition with_devices :: "device_list \<Rightarrow> server_gui \<Rightarrow> server_gui" where
  "with_devices l g = g\<lparr>sg_state := (sg_state g)\<lparr>ss_list := l\<rparr>\<rparr>"

definition sg_devices :: "server_gui \<Rightarrow> device_list" where
  "sg_devices g = ss_list (sg_state g)"

section \<open>The window\<close>

abbreviation (input) SERVER_WINDOW_WIDTH :: int where "SERVER_WINDOW_WIDTH \<equiv> 520"
abbreviation (input) SERVER_WINDOW_HEIGHT :: int where "SERVER_WINDOW_HEIGHT \<equiv> 420"

definition create_device_columns :: "gui_control \<Rightarrow> ui_call list" where
  "create_device_columns hList =
     [AddColumn hList 0 (L ''Bus ID'') 50, AddColumn hList 1 (L ''VID:PID'') 75,
      AddColumn hList 2 (L ''Description'') 280, AddColumn hList 3 (L ''Status'') 55]"

definition create_client_columns :: "gui_control \<Rightarrow> ui_call list" where
  "create_client_columns hList =
     [AddColumn hList 0 (L ''IP Address'') 180, AddColumn hList 1 (L ''Device'') 150, AddColumn hList 2 (L ''Connected'') 154]"

definition create_server_controls :: "ui_call list" where
  "create_server_controls =
     (let y0 = MARGIN; y1 = y0 + (EDIT_HEIGHT + MARGIN); y2 = y1 + (LABEL_HEIGHT + PADDING);
          y3 = y2 + (120 + MARGIN); y4 = y3 + (LABEL_HEIGHT + PADDING);
          btnX = MARGIN; btnY = SERVER_WINDOW_HEIGHT - BUTTON_HEIGHT - MARGIN - 40
      in gui_create_label LabelToken (L ''Auth Token:'') MARGIN (y0 + 4) 80 LABEL_HEIGHT @
         gui_create_edit EditToken (MARGIN + 85) y0 (SERVER_WINDOW_WIDTH - 2 * MARGIN - 101) EDIT_HEIGHT @
         [PasswordChar EditToken] @
         gui_create_label LabelDevices (L ''USB Devices on This Computer:'') MARGIN y1 300 LABEL_HEIGHT @
         gui_create_listview DeviceList MARGIN y2 (SERVER_WINDOW_WIDTH - 2 * MARGIN - 16) 120 @
         create_device_columns DeviceList @
         gui_create_label LabelClients (L ''Connected Clients:'') MARGIN y3 200 LABEL_HEIGHT @
         gui_create_listview ClientList MARGIN y4 (SERVER_WINDOW_WIDTH - 2 * MARGIN - 16) 80 @
         create_client_columns ClientList @
         [ExtStyle ClientList (LVS_EX_FULLROWSELECT OR LVS_EX_GRIDLINES)] @
         gui_create_button BtnRefresh (L ''Refresh'') btnX btnY BUTTON_WIDTH BUTTON_HEIGHT @
         gui_create_button BtnHide (L ''Hide to Tray'') (btnX + (BUTTON_WIDTH + PADDING)) btnY (BUTTON_WIDTH + 10) BUTTON_HEIGHT @
         map SetFont [LabelToken, EditToken, LabelDevices, LabelClients, DeviceList, ClientList, BtnRefresh, BtnHide])"

definition create_tray_menu :: "ui_call list" where
  "create_tray_menu = [MenuItem (L ''Show Window''), MenuItem [], MenuItem (L ''Exit'')]"

section \<open>The list of devices\<close>

definition shared_text :: "bool \<Rightarrow> wide" where
  "shared_text shared = (if shared then L ''Shared'' else L ''Local'')"

text \<open>
  The callback of the enumeration: the row of a device, then the device is added when it is not
  in the list. The first components are the answers of \<open>calloc\<close> and the index.
\<close>

definition enum_device_callback :: "gui_os \<Rightarrow> nat option list \<times> int \<times> server_gui \<Rightarrow> usb_device
    \<Rightarrow> nat option list \<times> int \<times> server_gui" where
  "enum_device_callback os st device =
     (case st of (allocs, index, g) \<Rightarrow>
        let wBusId = gui_utf8_to_wide (go_to_wide os) (Some (dv_busid device)) (go_wide_buf os 32) 32;
            wDesc = gui_utf8_to_wide (go_to_wide os)
                      (Some (if char_at (dv_product device) 0 \<noteq> 0 then dv_product device else ascii ''USB Device''))
                      (go_wide_buf os 128) 128;
            g = ui [LvInsert DeviceList index wBusId] g;
            row = go_row os (sg_ui g);
            g = ui [LvSetItem DeviceList row 1 (vidpid_text (dv_vendor_id device) (dv_product_id device)),
                    LvSetItem DeviceList row 2 wDesc] g;
            dev = found_entry (sg_devices g) (dv_busid device);
            shared = (case dev of None \<Rightarrow> False | Some (p, e) \<Rightarrow> de_is_shared e);
            g = ui [LvSetItem DeviceList row 3 (shared_text shared), LvSetCheck DeviceList row shared] g
        in if dev = None
           then (tl allocs, index + 1, with_devices (snd (device_list_add (next_alloc allocs) device (sg_devices g))) g)
           else (allocs, index + 1, g))"

text \<open>The check marks set here are ignored by the notification handler, whose guard is set.\<close>

definition populate_device_list :: "gui_os \<Rightarrow> (16 word list \<Rightarrow> nat \<Rightarrow> cbuf option) \<Rightarrow> bool \<Rightarrow> device_node list option
    \<Rightarrow> nat option list \<Rightarrow> server_gui \<Rightarrow> server_gui" where
  "populate_device_list os utf8 host_up nodes allocs g =
     (let g = ui [LvClear DeviceList] (g\<lparr>sg_updating_checkbox := True\<rparr>)
      in case usb_enumerate_devices utf8 host_up nodes (enum_device_callback os) (allocs, 0, g) of
           (err, allocs, index, g) \<Rightarrow>
             (ui [SetText LabelDevices (take 63 (L ''USB Devices on This Computer ('' @ L (show_nat (nat index)) @ L ''):''))] g)
               \<lparr>sg_updating_checkbox := False\<rparr>)"

text \<open>\<open>item\<close> is the text of the first column and \<open>checked\<close> the check mark the window reports.\<close>

definition on_device_checkbox_changed :: "gui_os \<Rightarrow> wide \<Rightarrow> bool \<Rightarrow> int \<Rightarrow> server_gui \<Rightarrow> server_gui" where
  "on_device_checkbox_changed os item checked index g =
     (if sg_updating_checkbox g then g
      else
        let busid = gui_wide_to_utf8 (go_to_utf8 os) (Some item) (go_buf os 32) 32
        in if char_at busid 0 = 0 then g
           else ui [LvSetItem DeviceList index 3 (shared_text checked)]
                  (with_devices (snd (device_list_set_shared checked busid (sg_devices g))) g))"

text \<open>
  Setting a check mark notifies the window when the mark changes (\<open>changed\<close>), which calls the
  handler before the explicit call.
\<close>

definition server_gui_toggle_share :: "gui_os \<Rightarrow> wide \<Rightarrow> bool \<Rightarrow> int \<Rightarrow> bool \<Rightarrow> server_gui \<Rightarrow> server_gui" where
  "server_gui_toggle_share os item changed index share g =
     (let g = ui [LvSetCheck DeviceList index share] g;
          g = (if changed then on_device_checkbox_changed os item share index g else g)
      in on_device_checkbox_changed os item share index g)"

text \<open>The loop over the rows from \<open>i\<close>: text of the first column and whether the mark was set.\<close>

fun stop_loop :: "gui_os \<Rightarrow> (wide \<times> bool) list \<Rightarrow> int \<Rightarrow> server_gui \<Rightarrow> server_gui" where
  "stop_loop os [] i g = g"
| "stop_loop os ((item, checked) # rows) i g =
     (let busid = gui_wide_to_utf8 (go_to_utf8 os) (Some item) (go_buf os 32) 32;
          g = ui [LvSetCheck DeviceList i False] (with_devices (snd (device_list_set_shared False busid (sg_devices g))) g);
          g = (if checked then on_device_checkbox_changed os item False i g else g)
      in stop_loop os rows (i + 1) (ui [LvSetItem DeviceList i 3 (L ''Local'')] g))"

definition server_gui_stop_all :: "gui_os \<Rightarrow> (wide \<times> bool) list \<Rightarrow> server_gui \<Rightarrow> server_gui" where
  "server_gui_stop_all os rows g = stop_loop os rows 0 g"

section \<open>The list of clients\<close>

definition elapsed_text :: "uint64_t \<Rightarrow> uint64_t \<Rightarrow> wide" where
  "elapsed_text now connect_time =
     (let elapsed_ms = (if now > connect_time then now - connect_time else 0);
          elapsed_sec = (ucast (elapsed_ms div 1000) :: uint32_t)
      in if elapsed_sec < 60 then L (show_nat (unat elapsed_sec)) @ L '' sec''
         else L (show_nat (unat (elapsed_sec div 60))) @ L '' min'')"

fun client_rows :: "gui_os \<Rightarrow> (nat \<Rightarrow> uint64_t) \<Rightarrow> nat \<Rightarrow> (nat \<times> client_connection) list \<Rightarrow> server_gui \<Rightarrow> nat \<times> server_gui" where
  "client_rows os now i [] g = (i, g)"
| "client_rows os now i ((p, cl) # cls) g =
     (let ipW = gui_utf8_to_wide (go_to_wide os) (Some (cc_ip_address cl)) (go_wide_buf os 64) 64;
          busidW = gui_utf8_to_wide (go_to_wide os)
                     (Some (if char_at (cc_attached_busid cl) 0 \<noteq> 0 then cc_attached_busid cl else ascii ''-''))
                     (go_wide_buf os 32) 32;
          g = ui [LvInsert ClientList (int i) ipW] g;
          row = go_row os (sg_ui g);
          g = ui [LvSetItem ClientList row 1 busidW, LvSetItem ClientList row 2 (elapsed_text (now i) (cc_connect_time cl))] g
      in client_rows os now (Suc i) cls g)"

definition server_gui_update_clients :: "gui_os \<Rightarrow> (nat \<Rightarrow> uint64_t) \<Rightarrow> server_gui \<Rightarrow> server_gui" where
  "server_gui_update_clients os now g =
     (case client_rows os now 0 (cm_clients (ss_manager (sg_state g))) (ui [LvClear ClientList] g) of
        (index, g) \<Rightarrow> ui [SetText LabelClients (take 63 (L ''Connected Clients ('' @ L (show_nat index) @ L ''):''))] g)"

section \<open>Threads\<close>

record handler_env =
  he_others :: "server_state \<Rightarrow> server_state"
  he_server_running :: bool
  he_attach :: attach_env
  he_joined :: worker_acts

text \<open>The loop of the thread of a client, then the removal of the client.\<close>

fun handler_loop :: "handler_env list \<Rightarrow> nat \<Rightarrow> server_state \<Rightarrow> conn \<Rightarrow> (server_state \<times> conn) outcome" where
  "handler_loop [] client s c = Waits"
| "handler_loop (env # envs) client s c =
     (let s = he_others env s
      in after_op (client_at s client) (\<lambda>cl.
           if \<not> (cc_running cl \<and> he_server_running env) then Returns (s, c)
           else after_call (client_handle_request (he_attach env) (he_joined env) client (s, c)) (\<lambda>(err, s, c).
             if err \<noteq> ERR_SUCCESS then Returns (s, c) else handler_loop envs client s c)))"

definition client_handler_thread :: "handler_env list \<Rightarrow> worker_acts \<Rightarrow> nat \<Rightarrow> server_state \<Rightarrow> conn
    \<Rightarrow> (server_state \<times> conn) outcome" where
  "client_handler_thread envs joined client s c =
     after_call (handler_loop envs client s c) (\<lambda>(s, c).
       after_op (client_manager_remove joined client s) (\<lambda>(err, s). Returns (s, c)))"

text \<open>
  One turn of the accept thread. The third result is the client for which a thread was created;
  \<open>ac_malloc\<close> and \<open>ac_thread\<close> are the answers of \<^verbatim>\<open>malloc\<close> and \<^verbatim>\<open>CreateThread\<close>.
\<close>

record accept_env =
  ac_os :: winsock
  ac_ip_buf :: cbuf
  ac_conn :: conn
  ac_calloc :: "nat option"
  ac_now :: uint64_t
  ac_malloc :: bool
  ac_thread :: bool

definition start_handler :: "accept_env \<Rightarrow> nat \<Rightarrow> server_state \<Rightarrow> nat option \<times> server_state" where
  "start_handler env p s =
     (if ac_malloc env then
        (if ac_thread env then Some p else None,
         case client_at s p of None \<Rightarrow> s | Some cl \<Rightarrow> set_client p (cl\<lparr>cc_running := True\<rparr>) s)
      else (None, s))"

definition accept_turn :: "accept_env \<Rightarrow> cbuf \<Rightarrow> socket_t \<Rightarrow> server_state \<Rightarrow> (server_state \<times> conn \<times> nat option) outcome" where
  "accept_turn env auth_token server_socket s =
     (case tcp_server_accept_timeout (ac_os env) server_socket (Some (ac_ip_buf env)) 64 (Some 0) 1000 of
        (client_sock, client_ip, client_port, tr) \<Rightarrow>
          let s = s\<lparr>ss_net := ss_net s @ tr\<rparr>;
              rejected = s\<lparr>ss_net := ss_net s @ socket_close client_sock\<rparr>
          in if \<not> socket_is_valid client_sock then Returns (s, ac_conn env, None)
             else after_recv (if auth_is_enabled (Some auth_token) then auth_server_handshake (Some auth_token) (ac_conn env)
                              else Some (ERR_SUCCESS, ac_conn env)) (\<lambda>(auth_err, c).
               if auth_err \<noteq> ERR_SUCCESS then Returns (rejected, c, None)
               else case client_manager_add (ac_calloc env) (ac_now env) client_sock client_ip (the client_port)
                           (ss_manager s) of
                 (err, conn, m) \<Rightarrow>
                   if err = ERR_SUCCESS \<and> conn \<noteq> None then
                     (case start_handler env (the conn) (s\<lparr>ss_manager := m\<rparr>) of (t, s) \<Rightarrow> Returns (s, c, t))
                   else Returns (rejected\<lparr>ss_manager := m\<rparr>, c, None)))"

text \<open>
  The accept thread: for each turn whether the server still runs, what the other threads did before
  it, and the answers of the turn. The clients for which threads were created are collected.
\<close>

fun server_accept_thread :: "(bool \<times> (server_state \<Rightarrow> server_state) \<times> accept_env) list \<Rightarrow> cbuf \<Rightarrow> socket_t \<Rightarrow> nat list \<Rightarrow> server_state
    \<Rightarrow> (server_state \<times> nat list) outcome" where
  "server_accept_thread [] auth_token server_socket threads s = Waits"
| "server_accept_thread ((server_running, others, env) # turns) auth_token server_socket threads s =
     (if \<not> server_running then Returns (others s, threads)
      else after_call (accept_turn env auth_token server_socket (others s)) (\<lambda>(s, c, t).
        server_accept_thread turns auth_token server_socket (threads @ (case t of None \<Rightarrow> [] | Some p \<Rightarrow> [p])) s))"

section \<open>Start and stop\<close>

record start_env =
  sn_token :: cbuf
  sn_tcp :: winsock
  sn_udp :: winsock
  sn_accept_thread :: "nat option"
  sn_discovery_thread :: "nat option"

abbreviation (input) AUTH_TOKEN_MAX_LEN :: nat where "AUTH_TOKEN_MAX_LEN \<equiv> 64"

definition net :: "sys_call list \<Rightarrow> server_gui \<Rightarrow> server_gui" where
  "net tr g = g\<lparr>sg_state := (sg_state g)\<lparr>ss_net := ss_net (sg_state g) @ tr\<rparr>\<rparr>"

text \<open>\<open>sn_token\<close> is the buffer after \<^verbatim>\<open>GetWindowTextA\<close> on the token field.\<close>

definition server_gui_start_server :: "start_env \<Rightarrow> server_gui \<Rightarrow> bool \<times> server_gui" where
  "server_gui_start_server env g =
     (let g = g\<lparr>sg_auth_token := str_copy (sg_auth_token g) (sn_token env) AUTH_TOKEN_MAX_LEN\<rparr>
      in case tcp_server_create (sn_tcp env) None 3240 of (sock, tr) \<Rightarrow>
           let g = net tr (g\<lparr>sg_server_socket := sock\<rparr>)
           in if \<not> socket_is_valid sock then (False, g)
              else
                let g = g\<lparr>sg_discovery_socket := udp_socket_create (sn_udp env)\<rparr>;
                    g = (if socket_is_valid (sg_discovery_socket g) then
                           (case udp_socket_bind (sn_udp env) (sg_discovery_socket g) (Some (ascii ''0.0.0.0'')) DISCOVERY_PORT of
                              (err, tr) \<Rightarrow>
                                if err \<noteq> ERR_SUCCESS
                                then net (tr @ socket_close (sg_discovery_socket g)) (g\<lparr>sg_discovery_socket := INVALID_SOCKET_VAL\<rparr>)
                                else net tr g)
                         else g);
                    g = g\<lparr>sg_server_running := True, sg_server_thread := sn_accept_thread env\<rparr>
                in if sg_server_thread g = None then
                     let g = net (socket_close (sg_server_socket g)) g;
                         g = (if socket_is_valid (sg_discovery_socket g) then net (socket_close (sg_discovery_socket g)) g else g)
                     in (False, g\<lparr>sg_server_running := False\<rparr>)
                   else (True, if socket_is_valid (sg_discovery_socket g)
                               then g\<lparr>sg_discovery_thread := sn_discovery_thread env\<rparr> else g))"

definition server_gui_stop_server :: "server_gui \<Rightarrow> server_gui" where
  "server_gui_stop_server g =
     (let g = g\<lparr>sg_server_running := False\<rparr>;
          g = (if socket_is_valid (sg_server_socket g)
               then net (socket_close (sg_server_socket g)) g\<lparr>sg_server_socket := INVALID_SOCKET_VAL\<rparr> else g);
          g = (if socket_is_valid (sg_discovery_socket g)
               then net (socket_close (sg_discovery_socket g)) g\<lparr>sg_discovery_socket := INVALID_SOCKET_VAL\<rparr> else g);
          g = (if sg_server_thread g \<noteq> None then g\<lparr>sg_server_thread := None\<rparr> else g)
      in if sg_discovery_thread g \<noteq> None then g\<lparr>sg_discovery_thread := None\<rparr> else g)"

text \<open>
  Start of the program's window: what Windows answers when the class and the window are made,
  whether the mutexes of the two lists are made, and what the first population reads.
\<close>

record window_env =
  we_desktop :: desktop
  we_layout :: layout_env
  we_list_mutex :: bool
  we_manager_mutex :: bool
  we_start :: start_env
  we_utf8 :: "16 word list \<Rightarrow> nat \<Rightarrow> cbuf option"
  we_nodes :: "device_node list option"
  we_allocs :: "nat option list"

definition zero_server_gui :: server_gui where
  "zero_server_gui =
     \<lparr>sg_state = \<lparr>ss_manager = \<lparr>cm_clients = [], cm_client_count = 0, cm_next_client_id = 0, cm_initialized = False\<rparr>,
        ss_list = \<lparr>dl_head = [], dl_count = 0, dl_locks = 0, dl_initialized = False\<rparr>,
        ss_heap = Map.empty, ss_usb = [], ss_net = []\<rparr>,
      sg_server_running = False, sg_server_socket = 0, sg_server_thread = None, sg_auth_token = replicate 64 0,
      sg_discovery_socket = 0, sg_discovery_thread = None, sg_minimized = False, sg_updating_checkbox = False,
      sg_hMainWnd = 0, sg_hFont = 0, sg_nid = zero_nid, sg_ui = []\<rparr>"

definition register_server_class :: "desktop \<Rightarrow> bool" where
  "register_server_class d = register_class d (L ''USBNetworkServer'')"

definition create_server_window :: "desktop \<Rightarrow> server_gui \<Rightarrow> bool \<times> server_gui" where
  "create_server_window d g =
     (let w = dk_create d (L ''USBNetworkServer'') (L ''USB Over Network Server - CTK Technologies'')
                (centred d SERVER_WINDOW_WIDTH SERVER_WINDOW_HEIGHT)
      in (w \<noteq> 0, g\<lparr>sg_hMainWnd := w\<rparr>))"

definition server_tip :: wide where
  "server_tip = L ''USB Over Network - Server'' @ [10] @ L ''CTK Technologies''"

text \<open>
  The first half of \<^verbatim>\<open>server_gui_init\<close>: the window with its controls, menu and icon. The second half
  ignores the results of the two list inits; \<open>host_up\<close> is the host subsystem as left by \<open>usb_host_init\<close>.
\<close>

definition open_window :: "window_env \<Rightarrow> bool \<times> server_gui" where
  "open_window env =
     (let d = we_desktop env;
          (font, calls) = gui_create_font d 9 (L ''Segoe UI'');
          g = ui (gui_init_common_controls @ calls) (zero_server_gui\<lparr>sg_hFont := font\<rparr>)
      in if \<not> register_server_class d then (False, g)
         else case create_server_window d g of (made, g) \<Rightarrow>
           if \<not> made then (False, g)
           else
             let g = ui (create_server_controls @ gui_layout_server (we_layout env) @ create_tray_menu) g;
                 (ok, nid, calls) = gui_tray_add d (sg_hMainWnd g) 1 (Some server_tip)
             in (True, ui calls (g\<lparr>sg_nid := nid\<rparr>)))"

definition server_gui_init :: "gui_os \<Rightarrow> bool \<Rightarrow> window_env \<Rightarrow> bool \<times> server_gui" where
  "server_gui_init os host_up env =
     (case open_window env of (made, g) \<Rightarrow>
        if \<not> made then (False, g)
        else
          let g = with_devices (snd (device_list_init (we_list_mutex env))) g;
              g = g\<lparr>sg_state := (sg_state g)\<lparr>ss_manager := snd (client_manager_init (we_manager_mutex env))\<rparr>\<rparr>;
              g = snd (server_gui_start_server (we_start env) g);
              g = populate_device_list os (we_utf8 env) host_up (we_nodes env) (we_allocs env) g
          in (True, ui [SetTimer] g))"

text \<open>The popup menu is always made, so it is destroyed here.\<close>

definition server_gui_cleanup :: "worker_acts \<Rightarrow> server_gui \<Rightarrow> server_gui option" where
  "server_gui_cleanup joined g = do {
     let g = server_gui_stop_server g;
     let g = ui (gui_tray_remove (sg_nid g)) g;
     s \<leftarrow> client_manager_cleanup joined (sg_state g);
     let (l, tr) = device_list_cleanup (ss_list s);
     let g = g\<lparr>sg_state := s\<lparr>ss_list := l, ss_usb := ss_usb s @ tr\<rparr>\<rparr>;
     Some (ui (DestroyMenu # (if sg_hFont g \<noteq> 0 then [DeleteFont (sg_hFont g)] else [])) g)
   }"

section \<open>Messages\<close>

text \<open>
  The messages the window procedure looks at, with what it reads while it handles them; every
  other message goes to the default procedure, which does not touch the state.
\<close>

datatype server_msg =
  CmdRefresh "16 word list \<Rightarrow> nat \<Rightarrow> cbuf option" "device_node list option" "nat option list"
| CmdHide | CmdTrayShow | CmdTrayExit
| MsgNotify item_change
| MsgTimer uint64_t "nat \<Rightarrow> uint64_t"
| MsgSize bool layout_env
| MsgTrayRight "int \<times> int" | MsgTrayDouble
| MsgClientUpdate "nat \<Rightarrow> uint64_t"
| MsgClose bool
| MsgDestroy
| MsgOther

definition server_gui_refresh_devices :: "gui_os \<Rightarrow> bool \<Rightarrow> (16 word list \<Rightarrow> nat \<Rightarrow> cbuf option) \<Rightarrow> device_node list option
    \<Rightarrow> nat option list \<Rightarrow> server_gui \<Rightarrow> server_gui" where
  "server_gui_refresh_devices os host_up utf8 nodes allocs g = populate_device_list os utf8 host_up nodes allocs g"

definition on_refresh_clicked :: "gui_os \<Rightarrow> bool \<Rightarrow> (16 word list \<Rightarrow> nat \<Rightarrow> cbuf option) \<Rightarrow> device_node list option
    \<Rightarrow> nat option list \<Rightarrow> server_gui \<Rightarrow> server_gui" where
  "on_refresh_clicked os host_up utf8 nodes allocs g = populate_device_list os utf8 host_up nodes allocs g"

definition on_hide_clicked :: "server_gui \<Rightarrow> server_gui" where
  "on_hide_clicked g = (ui [ShowWindow False] g)\<lparr>sg_minimized := True\<rparr>"

definition server_mark_changed :: "item_change \<Rightarrow> bool" where
  "server_mark_changed n \<longleftrightarrow> ic_uChanged n AND LVIF_STATE \<noteq> 0 \<and> (ic_uNewState n XOR ic_uOldState n) AND LVIS_STATEIMAGEMASK \<noteq> 0"

fun ServerWndProc :: "gui_os \<Rightarrow> bool \<Rightarrow> server_msg \<Rightarrow> server_gui \<Rightarrow> server_gui" where
  "ServerWndProc os host_up (CmdRefresh utf8 nodes allocs) g = on_refresh_clicked os host_up utf8 nodes allocs g"
| "ServerWndProc os host_up CmdHide g = on_hide_clicked g"
| "ServerWndProc os host_up CmdTrayShow g = (ui [ShowWindow True, SetForeground] g)\<lparr>sg_minimized := False\<rparr>"
| "ServerWndProc os host_up CmdTrayExit g = ui [PostQuit] g"
| "ServerWndProc os host_up (MsgNotify n) g =
     (if ic_idFrom n = 1001 \<and> ic_code n = LVN_ITEMCHANGED \<and> server_mark_changed n
      then on_device_checkbox_changed os (ic_text n) (ic_checked n) (ic_iItem n) g else g)"
| "ServerWndProc os host_up (MsgTimer wParam now) g = (if wParam = 3001 then server_gui_update_clients os now g else g)"
| "ServerWndProc os host_up (MsgSize minimized layout) g = (if minimized then g else ui (gui_layout_server layout) g)"
| "ServerWndProc os host_up (MsgTrayRight pt) g = ui (gui_tray_show_menu pt) g"
| "ServerWndProc os host_up MsgTrayDouble g = (ui [ShowWindow True, SetForeground] g)\<lparr>sg_minimized := False\<rparr>"
| "ServerWndProc os host_up (MsgClientUpdate now) g = server_gui_update_clients os now g"
| "ServerWndProc os host_up (MsgClose yes) g = ui (gui_show_confirm (L ''Stop server and exit?'') # (if yes then [Destroy] else [])) g"
| "ServerWndProc os host_up MsgDestroy g = ui [KillTimer, PostQuit] g"
| "ServerWndProc os host_up MsgOther g = g"

section \<open>The program\<close>

text \<open>
  The message loop: messages in the order they are dispatched; between them the other threads
  act on the shared lists. The exit code comes with the quit message.
\<close>

datatype server_event = Dispatch server_msg | Threads "server_state \<Rightarrow> server_state"

fun server_event_step :: "gui_os \<Rightarrow> bool \<Rightarrow> server_event \<Rightarrow> server_gui \<Rightarrow> server_gui" where
  "server_event_step os host_up (Dispatch m) g = ServerWndProc os host_up m g"
| "server_event_step os host_up (Threads act) g = g\<lparr>sg_state := act (sg_state g)\<rparr>"

definition server_gui_run :: "gui_os \<Rightarrow> bool \<Rightarrow> server_event list \<Rightarrow> server_gui \<Rightarrow> server_gui" where
  "server_gui_run os host_up events g = fold (server_event_step os host_up) events (ui [ShowWindow True] g)"

text \<open>Exit code, whether network and host are left initialised, and the state.\<close>

definition server_gui_main :: "gui_os \<Rightarrow> winsock \<Rightarrow> window_env \<Rightarrow> server_event list \<Rightarrow> int \<Rightarrow> worker_acts \<Rightarrow> bool \<times> g_usb_host
    \<Rightarrow> (int \<times> bool \<times> g_usb_host \<times> server_gui) option" where
  "server_gui_main os wsock env events wParam joined up =
     (let network_up = snd (network_init wsock (fst up)); (err, host) = usb_host_init (snd up)
      in if err \<noteq> ERR_SUCCESS then Some (1, network_up, host, ui [gui_show_error (L ''Failed to initialize USB host subsystem'')] zero_server_gui)
         else case server_gui_init os (uh_initialized host) env of (ok, g) \<Rightarrow>
           if \<not> ok then Some (1, network_up, usb_host_cleanup host, ui [gui_show_error (L ''Failed to initialize server GUI'')] g)
           else do {
             g \<leftarrow> server_gui_cleanup joined (server_gui_run os (uh_initialized host) events g);
             Some (wParam, network_cleanup network_up, usb_host_cleanup host, g)
           })"

section \<open>The token\<close>

lemma ui_simps [simp]:
  "sg_state (ui cs g) = sg_state g" "sg_auth_token (ui cs g) = sg_auth_token g" "sg_devices (ui cs g) = sg_devices g"
  "sg_updating_checkbox (ui cs g) = sg_updating_checkbox g" "sg_ui (ui cs g) = sg_ui g @ cs"
  "sg_server_running (ui cs g) = sg_server_running g"
  by (simp_all add: ui_def sg_devices_def)

lemma with_devices_simps [simp]:
  "sg_auth_token (with_devices l g) = sg_auth_token g" "sg_devices (with_devices l g) = l"
  "sg_updating_checkbox (with_devices l g) = sg_updating_checkbox g" "sg_ui (with_devices l g) = sg_ui g"
  by (simp_all add: with_devices_def sg_devices_def)

lemma net_simps [simp]: "sg_auth_token (net tr g) = sg_auth_token g" "sg_devices (net tr g) = sg_devices g"
  "sg_ui (net tr g) = sg_ui g" "sg_server_socket (net tr g) = sg_server_socket g"
  by (simp_all add: net_def sg_devices_def)

lemma callback_token [simp]: "sg_auth_token (snd (snd (enum_device_callback os st d))) = sg_auth_token (snd (snd st))"
  by (simp add: enum_device_callback_def Let_def split: prod.splits)

lemma foldl_keeps: "(\<And>s x. f (g s x) = f s) \<Longrightarrow> f (foldl g s xs) = f s"
  by (induction xs arbitrary: s) simp_all

lemma populate_token [simp]: "sg_auth_token (populate_device_list os utf8 up nodes allocs g) = sg_auth_token g"
proof -
  have "sg_auth_token (snd (snd (foldl (enum_device_callback os) st ds))) = sg_auth_token (snd (snd st))" for st ds
    by (rule foldl_keeps[where f = "\<lambda>st. sg_auth_token (snd (snd st))"]) simp
  then show ?thesis
    by (simp add: populate_device_list_def usb_enumerate_devices_def enumerate_loop_eq Let_def case_prod_unfold
        split: option.split)
qed

lemma checkbox_token [simp]: "sg_auth_token (on_device_checkbox_changed os item checked i g) = sg_auth_token g"
  by (simp add: on_device_checkbox_changed_def Let_def)

lemma client_rows_token [simp]: "sg_auth_token (snd (client_rows os now i cls g)) = sg_auth_token g"
  by (induction os now i cls g rule: client_rows.induct) (simp_all add: Let_def)

lemma update_clients_token [simp]: "sg_auth_token (server_gui_update_clients os now g) = sg_auth_token g"
  by (simp add: server_gui_update_clients_def case_prod_unfold)

lemma wnd_proc_token: "sg_auth_token (ServerWndProc os up m g) = sg_auth_token g"
  by (cases m) (simp_all add: on_refresh_clicked_def on_hide_clicked_def)

lemma run_token: "sg_auth_token (server_gui_run os up events g) = sg_auth_token g"
proof -
  have e: "sg_auth_token (server_event_step os up e g) = sg_auth_token g" for e g
    by (cases e) (simp_all add: wnd_proc_token)
  have "sg_auth_token (fold (server_event_step os up) events g) = sg_auth_token g" for g
    by (induction events arbitrary: g) (simp_all add: e)
  then show ?thesis by (simp add: server_gui_run_def)
qed

lemma start_server_token:
  "sg_auth_token (snd (server_gui_start_server env g)) = str_copy (sg_auth_token g) (sn_token env) AUTH_TOKEN_MAX_LEN"
  by (simp add: server_gui_start_server_def Let_def split: prod.splits)

lemma open_window_fields:
  assumes "open_window env = (True, g)"
  shows "sg_auth_token g = replicate 64 0"
    and "\<exists>d. sg_ui g = gui_init_common_controls @ [GetDC] @ create_server_controls @ gui_layout_server (we_layout env) @
           create_tray_menu @ [NIM_ADD d]"
  using assms
  by (auto simp: open_window_def create_server_window_def gui_create_font_def gui_tray_add_def Let_def zero_server_gui_def
      split: if_splits)

lemma init_opens:
  assumes "server_gui_init os up env = (True, g)"
  obtains g0 where "open_window env = (True, g0)"
    and "sg_auth_token g = str_copy (replicate 64 0) (sn_token (we_start env)) AUTH_TOKEN_MAX_LEN"
proof -
  obtain g0 where w: "open_window env = (True, g0)"
    using assms by (auto simp: server_gui_init_def Let_def split: prod.splits if_splits)
  then show thesis
    using assms by (intro that[OF w]) (auto simp: server_gui_init_def Let_def start_server_token open_window_fields)
qed

lemma layout_sets_no_text: "control_text c (gui_layout_server e) = None"
  by (simp add: gui_layout_server_def Let_def gui_move_def)

lemma token_field_empty:
  assumes "open_window env = (True, g)"
  shows "control_text EditToken (sg_ui g) = Some []"
proof -
  have "control_text EditToken create_server_controls = Some []" "control_text EditToken create_tray_menu = None" by code_simp+
  then show ?thesis using open_window_fields(2)[OF assms] by (auto simp: control_text_append layout_sets_no_text)
qed

text \<open>
  C30: The token typed into the server window is never used: the field is read only while the
  window is set up, when it is empty, and no message and no thread changes the token afterwards.
  So authentication is off and every connection is taken without a byte of handshake.
\<close>

theorem gui_token_ignored:
  assumes "server_gui_init os up env = (True, g)"
    and "reads_text EditToken (sn_token (we_start env)) (sg_ui (snd (open_window env)))"
  shows "\<not> auth_is_enabled (Some (sg_auth_token (server_gui_run os up events g))) \<and>
    (\<exists>s' t. accept_turn aenv (sg_auth_token (server_gui_run os up events g)) server_socket s = Returns (s', ac_conn aenv, t))"
proof -
  obtain g0 where w: "open_window env = (True, g0)"
    and t: "sg_auth_token g = str_copy (replicate 64 0) (sn_token (we_start env)) AUTH_TOKEN_MAX_LEN"
    using init_opens[OF assms(1)] .
  have "cstr (sn_token (we_start env)) = []" using assms(2) by (simp add: reads_text_def w token_field_empty[OF w])
  then have off: "\<not> auth_is_enabled (Some (sg_auth_token (server_gui_run os up events g)))"
    by (simp add: run_token t auth_is_enabled_def cstr_str_copy flip: cstr_eq_Nil_iff)
  then show ?thesis
    by (auto simp: accept_turn_def after_recv_def Let_def split: prod.splits)
qed

section \<open>The rows of the devices\<close>

text \<open>A call that does not show a device as shared: the status column says so and the mark is clear.\<close>

definition local_row :: "ui_call \<Rightarrow> bool" where
  "local_row call \<longleftrightarrow>
     (case call of
        LvSetItem c row col t \<Rightarrow> c = DeviceList \<and> col = 3 \<longrightarrow> t = L ''Local''
      | LvSetCheck c row checked \<Rightarrow> c = DeviceList \<longrightarrow> \<not> checked
      | _ \<Rightarrow> True)"

lemma callback_new:
  assumes "dl_inv (sg_devices g)" and "enough_memory as (Suc n) (sg_devices g)" and "strlen (dv_busid d) < 32"
    and "dl_lookup (sg_devices g) (dv_busid d) = None" and "enum_device_callback os (as, i, g) d = (as', i', g')"
  obtains calls where "sg_ui g' = sg_ui g @ calls" and "list_all local_row calls" and "i' = i + 1"
    and "enum_callback (as, sg_devices g) d = (as', sg_devices g')"
proof -
  have f: "device_list_find (sg_devices g) (dv_busid d) = None" using assms(4) by (simp add: dl_lookup_None_iff)
  then have n: "found_entry (sg_devices g) (dv_busid d) = None" by (simp add: found_entry_None)
  have m: "enum_callback (as, sg_devices g) d = (as', sg_devices g') \<and> i' = i + 1"
    using assms(5) f n by (auto simp: enum_device_callback_def enum_callback_def Let_def)
  show thesis
    by (rule that[of "drop (length (sg_ui g)) (sg_ui g')"])
      (use assms(5) m n in \<open>auto simp: enum_device_callback_def Let_def local_row_def shared_text_def L_def\<close>)
qed

lemma callbacks_new:
  assumes "dl_inv (sg_devices g)" and "enough_memory as (length ds) (sg_devices g)" and "\<forall>d\<in>set ds. strlen (dv_busid d) < 32"
    and "distinct (map (\<lambda>d. cstr (dv_busid d)) ds)" and "\<forall>d\<in>set ds. dl_lookup (sg_devices g) (dv_busid d) = None"
    and "foldl (enum_device_callback os) (as, i, g) ds = (as', i', g')"
  shows "(\<exists>calls. sg_ui g' = sg_ui g @ calls \<and> list_all local_row calls) \<and> i' = i + int (length ds) \<and>
    (\<exists>as2. foldl enum_callback (as, sg_devices g) ds = (as2, sg_devices g'))"
  using assms
proof (induction ds arbitrary: as i g)
  case (Cons d ds)
  obtain as1 i1 g1 where c: "enum_device_callback os (as, i, g) d = (as1, i1, g1)" by (metis prod_cases3)
  obtain calls where c1: "sg_ui g1 = sg_ui g @ calls" "list_all local_row calls" "i1 = i + 1"
    "enum_callback (as, sg_devices g) d = (as1, sg_devices g1)"
    by (rule callback_new[OF Cons.prems(1) _ _ _ c, of "length ds"]) (use Cons.prems in simp_all)
  note st = enum_callback_step[OF Cons.prems(1) _ _ c1(4), of "length ds"]
  have l1: "dl_inv (sg_devices g1)" "enough_memory as1 (length ds) (sg_devices g1)"
    and lk: "dl_lookup (sg_devices g1) b = (if streq (dv_busid d) b then
        Some (case dl_lookup (sg_devices g) b of Some e \<Rightarrow> e\<lparr>de_device := d\<rparr> | None \<Rightarrow> new_entry d)
        else dl_lookup (sg_devices g) b)" for b
    using st(1,2) st(5)[of b] Cons.prems(2,3) by simp_all
  have "(\<exists>calls. sg_ui g' = sg_ui g1 @ calls \<and> list_all local_row calls) \<and> i' = i1 + int (length ds) \<and>
      (\<exists>as2. foldl enum_callback (as1, sg_devices g1) ds = (as2, sg_devices g'))"
    by (rule Cons.IH[OF l1]) (use Cons.prems c in \<open>auto simp: lk streq_def\<close>)
  then show ?case using c1 by auto
qed simp

text \<open>
  The window shows every new device as not shared although it is offered to every client.
  Populating an empty list shows each row as \<open>Local\<close> with a clear mark, because the entry is
  looked up before it is added; the entry added is shared and available, so it can be imported.
\<close>

lemma gui_local_but_shared:
  assumes "dl_inv (sg_devices g)" and "dl_head (sg_devices g) = []"
    and "ds = map (node_device utf8) (filter (\<lambda>d. \<not> node_skipped d) nodes)"
    and "distinct (map (\<lambda>d. cstr (dv_busid d)) ds)"
    and "length ds \<le> length allocs" and "distinct allocs" and "None \<notin> set allocs"
    and "g' = populate_device_list os utf8 True (Some nodes) allocs g"
  shows "(\<exists>calls. sg_ui g' = sg_ui g @ calls \<and> list_all local_row calls) \<and>
    (\<forall>d\<in>set ds. device_list_is_available (sg_devices g') (dv_busid d))"
proof -
  define g0 where "g0 = ui [LvClear DeviceList] (g\<lparr>sg_updating_checkbox := True\<rparr>)"
  have d0: "sg_devices g0 = sg_devices g" "sg_ui g0 = sg_ui g @ [LvClear DeviceList]" by (simp_all add: g0_def sg_devices_def)
  obtain as1 i1 g1 where f: "foldl (enum_device_callback os) (allocs, 0, g0) ds = (as1, i1, g1)" by (metis prod_cases3)
  have fits: "\<forall>d\<in>set ds. strlen (dv_busid d) < 32"
    by (auto simp: assms(3) node_device_def parse_busid_from_path_def zero_usb_device_def Let_def strlen_def)
  have "\<forall>a\<in>set allocs. a \<noteq> None" using assms(7) by metis
  then have mem: "enough_memory allocs (length ds) (sg_devices g)"
    using assms(2,5,6) by (simp add: enough_memory_def fresh_in_def)
  have new: "\<forall>d\<in>set ds. dl_lookup (sg_devices g) (dv_busid d) = None" by (simp add: dl_lookup_def assms(2))
  obtain calls as2 where c: "sg_ui g1 = sg_ui g0 @ calls" "list_all local_row calls"
    "foldl enum_callback (allocs, sg_devices g) ds = (as2, sg_devices g1)"
    using callbacks_new[OF _ _ fits assms(4) _ f] assms(1) mem new by (auto simp: d0)
  have g': "g' = (ui [SetText LabelDevices (take 63 (L ''USB Devices on This Computer ('' @ L (show_nat (nat i1)) @ L ''):''))] g1)
      \<lparr>sg_updating_checkbox := False\<rparr>"
    using f by (simp add: assms(8) populate_device_list_def usb_enumerate_devices_def enumerate_loop_eq g0_def
        flip: assms(3))
  have rows: "\<exists>calls. sg_ui g' = sg_ui g @ calls \<and> list_all local_row calls"
    by (rule exI[of _ "drop (length (sg_ui g)) (sg_ui g')"]) (use c in \<open>simp add: g' d0 local_row_def\<close>)
  have "device_list_is_available (sg_devices g') (dv_busid d)" if d: "d \<in> set ds" for d
  proof -
    have l: "dl_inv (sg_devices g1)" "dl_lookup (sg_devices g1) (dv_busid d) =
        map_option new_entry (last_device ds (dv_busid d))"
      using enum_callbacks[OF assms(1) mem fits c(3), of "dv_busid d"] new d by (auto split: option.splits)
    have "last_device ds (dv_busid d) \<noteq> None"
      using d by (auto simp: last_device_def find_None_iff streq_def)
    then obtain e where "dl_lookup (sg_devices g1) (dv_busid d) = Some (new_entry e)" using l(2) by auto
    then have "\<exists>p. found_entry (sg_devices g1) (dv_busid d) = Some (p, new_entry e)"
      using found_entry_lookup[of "sg_devices g1" "dv_busid d"] l(1)
      by (cases "found_entry (sg_devices g1) (dv_busid d)") (auto simp: dl_inv_def)
    moreover have "sg_devices g' = sg_devices g1" by (simp add: g' sg_devices_def)
    ultimately show ?thesis by (auto simp: device_list_is_available_def new_entry_def)
  qed
  then show ?thesis using rows by blast
qed

section \<open>Samples\<close>

text \<open>Conversions that copy characters, and a window on a screen of 96 dots per inch.\<close>

definition sample_gui_os :: gui_os where
  "sample_gui_os =
     \<lparr>go_to_wide = (\<lambda>s w n. map ucast (take (nat n - 1) (cstr s)) @ [0]),
      go_to_utf8 = (\<lambda>w b n. map ucast (take (nat n - 1) (takeWhile (\<lambda>x. x \<noteq> 0) w)) @ [0]),
      go_row = (\<lambda>calls. 0), go_wide_buf = (\<lambda>n. replicate n 0), go_buf = (\<lambda>n. replicate n 0)\<rparr>"

definition sample_window :: window_env where
  "sample_window =
     \<lparr>we_desktop = sample_desktop, we_layout = layout_for (\<lambda>a b c. (a * b + c div 2) div c) 96 0 500 400 0 0,
      we_list_mutex = True, we_manager_mutex = True,
      we_start = \<lparr>sn_token = replicate 64 0, sn_tcp = sample_winsock, sn_udp = sample_winsock,
        sn_accept_thread = Some 1, sn_discovery_thread = Some 2\<rparr>,
      we_utf8 = (\<lambda>w n. None), we_nodes = in_nodes sample_init, we_allocs = [Some 60]\<rparr>"

lemma sample_window_opens: "fst (server_gui_init os up sample_window)"
  by (simp add: server_gui_init_def sample_window_def Let_def open_window_def create_server_window_def register_server_class_def
      register_class_def load_icon_def sample_desktop_def split: prod.splits)

theorem gui_token_ignored_witness:
  "\<not> auth_is_enabled (Some (sg_auth_token (server_gui_run sample_gui_os True [Dispatch CmdHide]
      (snd (server_gui_init sample_gui_os True sample_window)))))"
proof (rule gui_token_ignored[THEN conjunct1])
  show "server_gui_init sample_gui_os True sample_window = (True, snd (server_gui_init sample_gui_os True sample_window))"
    using sample_window_opens by (metis (full_types) prod.collapse)
  show "reads_text EditToken (sn_token (we_start sample_window)) (sg_ui (snd (open_window sample_window)))"
    by (simp add: reads_text_def sample_window_def cstr_eq_Nil_iff char_at_def)
qed

lemma gui_local_but_shared_example:
  "device_list_is_available
     (sg_devices (populate_device_list sample_gui_os (\<lambda>w n. None) True (in_nodes sample_init) [Some 60] zero_server_gui))
     (dv_busid (node_device (\<lambda>w n. None) (hd (the (in_nodes sample_init)))))"
proof -
  obtain node where n: "in_nodes sample_init = Some [node]" by (simp add: sample_init_def)
  have "\<not> node_skipped (hd (the (in_nodes sample_init)))" by code_simp
  then have "map (node_device (\<lambda>w n. None)) (filter (\<lambda>d. \<not> node_skipped d) [node]) = [node_device (\<lambda>w n. None) node]"
    by (simp add: n)
  then show ?thesis unfolding n option.sel list.sel
    by (intro gui_local_but_shared[THEN conjunct2, THEN bspec, OF _ _ refl _ _ _ _ refl])
      (simp_all add: zero_server_gui_def sg_devices_def dl_inv_def)
qed

end
