(* ===== verification/Gui_Sessions.thy ===== *)
theory Gui_Sessions
  imports Gui_Server
begin

text \<open>
  What the threads of the graphical server do to the attachments. A thread passes every request
  to \<open>client_handle_request\<close> and never looks at the state of its client, so requests for transfers
  end the session and a second import forgets the first device. The threads share the lists without
  a lock around attaching: \<open>attach_check\<close> and \<open>attach_open\<close> are the two parts between which another
  thread may act.
\<close>

section \<open>Transfers\<close>

lemma wire_header_prefix:
  assumes "hc_command (uh_common u) = USBIP_CMD_SUBMIT \<or> hc_command (uh_common u) = USBIP_CMD_UNLINK"
  shows "\<exists>rest. wire_header u =
    wire_header_basic \<lparr>hb_version = 0, hb_command = ucast (hc_command (uh_common u)), hb_status = hc_seqnum (uh_common u)\<rparr> @ rest"
  using assms by (auto simp: wire_header_def wire_common_def wire_header_basic_def be16_def be32_def byte_at_def)

text \<open>
  C31: The graphical server never carries out a transfer. Its threads read every request as one for
  the list or an import; the header of a submitted or unlinked transfer is neither, so the thread
  sends nothing, leaves the rest of the header unread and removes the client.
\<close>

theorem gui_urb_dropped:
  assumes "hc_command (uh_common u) = USBIP_CMD_SUBMIT \<or> hc_command (uh_common u) = USBIP_CMD_UNLINK"
    and "rx_bytes (rx c) = wire_header u @ rest"
    and "client_at (he_others env s) client = Some cl" and "cc_running cl" and "he_server_running env"
  shows "\<exists>c'. sent c' = sent c \<and> rx_bytes (rx c') = drop 8 (wire_header u) @ rest \<and>
    client_handler_thread (env # envs) joined client s c =
      after_op (client_manager_remove joined client (he_others env s)) (\<lambda>(err, s). Returns (s, c'))"
proof -
  let ?h = "\<lparr>hb_version = 0, hb_command = ucast (hc_command (uh_common u)), hb_status = hc_seqnum (uh_common u)\<rparr>"
  obtain more_bytes where w: "wire_header u = wire_header_basic ?h @ more_bytes" using wire_header_prefix[OF assms(1)] by blast
  then obtain c' where c': "usbip_recv_header_basic c = Some (Inr ?h, c')" "got_from c (wire_header_basic ?h) c'"
    using hb_io.recv_ok[where x = ?h and rest = "more_bytes @ rest", of c] assms(2) by auto
  have k: "hb_command ?h \<noteq> OP_REQ_DEVLIST" "hb_command ?h \<noteq> OP_REQ_IMPORT" using assms(1) by auto
  have "client_handle_request (he_attach env) (he_joined env) client (he_others env s, c) =
      Returns (ERR_PROTOCOL_UNSUPPORTED, he_others env s, c')"
    using c'(1) k by (simp add: client_handle_request_def outcome_simps)
  then have "client_handler_thread (env # envs) joined client s c =
      after_op (client_manager_remove joined client (he_others env s)) (\<lambda>(err, s). Returns (s, c'))"
    using assms(3-5) by (simp add: client_handler_thread_def outcome_simps Let_def)
  moreover have "sent c' = sent c \<and> rx_bytes (rx c') = drop 8 (wire_header u) @ rest"
    using c'(2) assms(2) w by (auto simp: got_from_def wire_header_basic_def)
  ultimately show ?thesis by blast
qed

section \<open>The attachments over a thread\<close>

text \<open>What the other threads may do between two requests: keep the attachments and the manager.\<close>

definition others_ok :: "handler_env \<Rightarrow> bool" where
  "others_ok env \<longleftrightarrow>
     (\<forall>s. attach_inv s \<and> cm_initialized (ss_manager s) \<longrightarrow>
        attach_inv (he_others env s) \<and> cm_initialized (ss_manager (he_others env s)))"

lemma handler_loop_keeps:
  "attach_inv s \<Longrightarrow> cm_initialized (ss_manager s) \<Longrightarrow> \<forall>env\<in>set envs. others_ok env \<Longrightarrow>
   handler_loop envs client s c = Returns (s', c') \<Longrightarrow> attach_inv s' \<and> cm_initialized (ss_manager s')"
proof (induction envs arbitrary: s c)
  case (Cons env envs)
  let ?s = "he_others env s"
  have ok: "attach_inv ?s" "cm_initialized (ss_manager ?s)" using Cons.prems(1-3) by (simp_all add: others_ok_def)
  obtain cl where cl: "client_at ?s client = Some cl"
    using Cons.prems(4) by (auto simp: outcome_simps Let_def split: option.splits)
  show ?case
  proof (cases "cc_running cl \<and> he_server_running env")
    case False
    then show ?thesis using Cons.prems(4) cl ok by (auto simp: outcome_simps Let_def)
  next
    case True
    then obtain err s1 c1 where r: "client_handle_request (he_attach env) (he_joined env) client (?s, c) = Returns (err, s1, c1)"
      "(if err \<noteq> ERR_SUCCESS then Returns (s1, c1) else handler_loop envs client s1 c1) = Returns (s', c')"
      using Cons.prems(4) cl by (auto simp: outcome_simps Let_def split: outcome.splits)
    have "attach_inv s1 \<and> cm_initialized (ss_manager s1)"
      using keeps_request[OF ok(1) cl r(1)] ok(2) by (simp add: keeps_def)
    then show ?thesis using Cons.IH[of s1 c1] Cons.prems(3) r(2) by (auto split: if_splits)
  qed
qed simp

text \<open>
  C28: If every request is handled without another thread acting in its middle, the threads of the
  graphical server keep the attachments consistent: whatever requests a client sends, after its
  thread ends no two clients share a device, every attached client points to the entry exported
  to it, and the client itself is gone.
\<close>

theorem gui_threads_keep:
  assumes "attach_inv s" and "cm_initialized (ss_manager s)" and "\<forall>env\<in>set envs. others_ok env"
    and "client_handler_thread envs joined client s c = Returns (s', c')"
  shows "attach_inv s' \<and> client_at s' client = None"
proof -
  obtain s1 err where r: "handler_loop envs client s c = Returns (s1, c')" "client_manager_remove joined client s1 = Some (err, s')"
    using assms(4) by (auto simp: client_handler_thread_def outcome_simps split: outcome.splits option.splits)
  note k = handler_loop_keeps[OF assms(1-3) r(1)]
  have "client \<notin> set (addrs s')" using client_remove_addrs[OF _ r(2)] k by simp
  then show ?thesis using client_remove_inv[OF _ r(2)] k client_at_addrs[of s' client] by auto
qed

section \<open>A second import\<close>

lemma client_at_list: "client_at (s\<lparr>ss_list := l\<rparr>) = client_at s"
  by (simp add: client_at_def fun_eq_iff)

lemma client_at_set_other:
  assumes "q \<noteq> p"
  shows "client_at (set_client p c s) q = client_at s q"
proof -
  have "map_of (map (\<lambda>(k, d). (k, if k = p then c else d)) ns) q = map_of ns q" for ns
    using assms by (induction ns) auto
  then show ?thesis by (simp add: client_at_def set_client_def)
qed

lemma removed_lookup:
  assumes "attach_inv s" and "client_at s client = Some cl" and "cm_initialized (ss_manager s)"
    and "client_manager_remove joined client s = Some (err, s')"
    and "dl_lookup (ss_list s) b = Some e" and "cstr b \<noteq> cstr (cc_attached_busid cl)"
  shows "dl_lookup (ss_list s') b = Some e"
proof -
  have d: "distinct (map fst (cm_clients (ss_manager s)))" and l: "dl_inv (ss_list s)"
    using assms(1) by (simp_all add: attach_inv_def)
  define s1 where "s1 = s\<lparr>ss_manager := (ss_manager s)\<lparr>cm_clients := filter (\<lambda>n. fst n \<noteq> client) (cm_clients (ss_manager s)),
      cm_client_count := cm_client_count (ss_manager s) - 1\<rparr>,
      ss_list := (if attached cl then snd (device_list_unexport (cc_attached_busid cl) (ss_list s)) else ss_list s)\<rparr>"
  have f: "free_client joined cl s1 = Some s'"
    using assms(2-4) unlink_client_eq[OF d, of client]
    by (auto simp: client_manager_remove_def Let_def client_at_def s1_def attached_def bind_eq_Some_conv)
  have l1: "dl_inv (ss_list s1)" "dl_lookup (ss_list s1) b = Some e"
    using assms(5,6) unexport.keeps_inv[OF l] by (simp_all add: s1_def l unexport.lookup[OF l])
  have ok: "client_ok (ss_list s) cl" by (rule attach_inv_client_ok[OF assms(1,2)])
  show ?thesis
  proof (cases "attached cl")
    case False
    then have "cc_device cl = None" using ok by (simp add: client_ok_def)
    then show ?thesis using f l1
      by (auto simp: free_client_def client_stop_threads_def Let_def split: bind_splits option.splits if_splits)
  next
    case True
    obtain p e0 where e0: "found_entry (ss_list s) (cc_attached_busid cl) = Some (p, e0)" "cc_device cl = Some p"
      by (rule attached_entry[OF ok True])
    have fe: "found_entry (ss_list s1) (cc_attached_busid cl) = Some (p, unexport_change e0)"
      using True e0(1) by (simp add: s1_def unexport.found[OF l])
    then have ea: "entry_at (ss_list s1) p = Some (unexport_change e0)" by (auto simp: found_entry_def split: option.splits)
    obtain d' tr where cd: "usb_close_device (de_device (unexport_change e0)) = (d', tr)" by fastforce
    have "entry_ok (unexport_change e0)" by (rule unexport.found_ok[OF l1(1) fe])
    then have "dl_lookup (set_entry (ss_list s1) p (\<lambda>e. e\<lparr>de_device := d'\<rparr>)) b = Some e"
      using set_found_entry(2)[OF l1(1) fe, where f = "\<lambda>e. e\<lparr>de_device := d'\<rparr>", of b] assms(6) l1(2) usb_device_busid(4)[OF cd]
      by (simp add: busid_of_def entry_ok_def)
    moreover have "ss_list s' = set_entry (ss_list s1) p (\<lambda>e. e\<lparr>de_device := d'\<rparr>)"
      using f e0(2) ea cd
      by (auto simp: free_client_def client_stop_threads_def Let_def set_device_def split: bind_splits option.splits if_splits)
    ultimately show ?thesis by simp
  qed
qed

text \<open>
  C29: A client that imports a second device takes the first one with it when it leaves. The
  attachment overwrites the one before, so when the client is removed only the second device is
  withdrawn: the first stays exported to a client that is gone, and is refused to everyone else.
\<close>

theorem gui_second_import_leaks:
  assumes "attach_inv s" and "client_at s client = Some cl" and "attached cl" and "cm_initialized (ss_manager s)"
    and "client_attach_device env client busid s = Some (ERR_SUCCESS, s1)"
    and "client_manager_remove joined client s1 = Some (err, s2)"
  shows "client_at s2 client = None \<and>
    (\<exists>e. dl_lookup (ss_list s2) (cc_attached_busid cl) = Some e \<and> de_state e = DEVICE_STATE_EXPORTED \<and> de_client_id e = cc_id cl)"
proof -
  have k: "keeps s s1" by (rule keeps_attach[OF assms(1,2,5)])
  then have i1: "attach_inv s1" "cm_initialized (ss_manager s1)" using assms(4) by (simp_all add: keeps_def)
  have "client \<notin> set (addrs s2)" using client_remove_addrs[OF i1(1) assms(6) i1(2)] by simp
  then have gone: "client_at s2 client = None" using client_at_addrs[of s2 client] by auto
  have l: "dl_inv (ss_list s)" using assms(1) by (simp add: attach_inv_def)
  have d: "distinct (map fst (dl_head (ss_list s)))" using l by (simp add: dl_inv_def)
  obtain pa ea where a: "found_entry (ss_list s) (cc_attached_busid cl) = Some (pa, ea)"
    "de_state ea = DEVICE_STATE_EXPORTED" "de_client_id ea = cc_id cl"
    by (rule attached_entry[OF attach_inv_client_ok[OF assms(1,2)] assms(3)])
  from assms(2,5) show ?thesis
  proof (cases rule: client_attach_cases)
    case (success p e d1 tr1 d2 hr c')
    have b: "dv_busid d2 = dv_busid (de_device e)" using success(3,4) by simp
    have ne: "cstr (cc_attached_busid cl) \<noteq> cstr busid"
      using found_entry_cong[of "cc_attached_busid cl" busid "ss_list s"] a(1,2) success(1,2) by auto
    have f0: "found_entry (ss_list (set_device p d2 tr1 s)) (cc_attached_busid cl) = Some (pa, ea)"
      using attach_inv_device(2)[OF assms(1) success(1) b] ne a(1) by simp
    have fb: "found_entry (ss_list (set_device p d2 tr1 s)) busid = Some (p, e\<lparr>de_device := d2\<rparr>)"
      using attach_inv_device(2)[OF assms(1) success(1) b] by simp
    note i0 = attach_inv_device(1)[OF assms(1) success(1) b, of tr1]
    then have l0: "dl_inv (ss_list (set_device p d2 tr1 s))" by (simp add: attach_inv_def)
    have c1: "client_at s1 client = Some c'" using assms(2) by (simp add: success(7) client_at_list)
    have st: "streq (cc_attached_busid c') busid"
      by (rule attach_inv_success(3)[OF i0 _ fb _ success(6) refl]) (use assms(2) success(2) in simp_all)
    have "found_entry (ss_list s1) (cc_attached_busid cl) = Some (pa, ea)"
      using f0 ne by (simp add: success(7) export.found[OF l0])
    then have "dl_lookup (ss_list s1) (cc_attached_busid cl) = Some ea"
      using found_entry_lookup[of "ss_list s1"] i1(1) by (simp add: attach_inv_def dl_inv_def)
    from removed_lookup[OF i1(1) c1 i1(2) assms(6) this] st ne a gone show ?thesis by (simp add: streq_def)
  qed simp_all
qed

section \<open>Two imports of one device\<close>

text \<open>Finding the entry and the checks, then opening and the rest, on the entry whose address was found.\<close>

definition attach_check :: "cbuf \<Rightarrow> device_list \<Rightarrow> error_code + nat" where
  "attach_check busid l =
     (case found_entry l busid of
        None \<Rightarrow> Inl ERR_USB_NOT_FOUND
      | Some (p, e) \<Rightarrow>
          if \<not> de_is_shared e then Inl ERR_USB_NOT_FOUND
          else if de_state e \<noteq> DEVICE_STATE_AVAILABLE then Inl ERR_DEVICE_BUSY else Inr p)"

definition attach_open :: "attach_env \<Rightarrow> nat \<Rightarrow> cbuf \<Rightarrow> nat \<Rightarrow> server_state \<Rightarrow> (error_code \<times> server_state) option" where
  "attach_open env client busid p s = do {
     c \<leftarrow> client_at s client;
     e \<leftarrow> entry_at (ss_list s) p;
     (case usb_open_device (ae_os env) (de_device e) of (err, d1, tr1) \<Rightarrow>
        if err \<noteq> ERR_SUCCESS then Some (err, set_device p d1 tr1 s)
        else (case usb_claim_interface d1 0 of (err, d2) \<Rightarrow>
          if err \<noteq> ERR_SUCCESS then
            (case usb_close_device d2 of (d3, tr2) \<Rightarrow> Some (err, set_device p d3 (tr1 @ tr2) s))
          else if \<not> ae_calloc env then
            Some (ERR_OUT_OF_MEMORY, release_and_close p d2 tr1 (set_client client (c\<lparr>cc_urb_handler := None\<rparr>) s))
          else (case urb_handler_init (ae_objs1 env) (ae_objs2 env) (Some p) zero_handler of (err, hr) \<Rightarrow>
            if err \<noteq> ERR_SUCCESS then
              Some (err, release_and_close p d2 tr1 (set_client client (c\<lparr>cc_urb_handler := None\<rparr>) s))
            else (case urb_handler_start (ae_thread env) hr of (err, hr) \<Rightarrow>
              if err \<noteq> ERR_SUCCESS then do {
                (h, hr) \<leftarrow> urb_handler_cleanup (\<lambda>h hr. Some (h, hr)) (ss_heap s) hr;
                Some (err, release_and_close p d2 tr1
                  (set_client client (c\<lparr>cc_urb_handler := None\<rparr>) (s\<lparr>ss_heap := h\<rparr>)))
              }
              else
                let c = client_set_state (c\<lparr>cc_urb_handler := Some hr, cc_device := Some p,
                          cc_attached_busid := strncpy (cc_attached_busid c) busid 31\<rparr>)
                          CLIENT_STATE_ATTACHED;
                    s = set_client client c (set_device p d2 tr1 s)
                in Some (ERR_SUCCESS, s\<lparr>ss_list := snd (device_list_export (ae_now env) busid (cc_id c)
                                           (Some (cc_ip_address c)) (ss_list s))\<rparr>)))))
   }"

lemma attach_parts:
  "client_attach_device env client busid s =
     (if client_at s client = None then None
      else case attach_check busid (ss_list s) of
             Inl err \<Rightarrow> Some (err, s)
           | Inr p \<Rightarrow> attach_open env client busid p s)"
proof (cases "client_at s client")
  case (Some c)
  show ?thesis
  proof (cases "found_entry (ss_list s) busid")
    case None
    then show ?thesis using Some by (simp add: client_attach_device_def attach_check_def)
  next
    case (Some r)
    obtain p e where r: "r = (p, e)" by fastforce
    then have "entry_at (ss_list s) p = Some e" using Some by (auto simp: found_entry_def split: option.splits)
    then show ?thesis using Some r \<open>client_at s client = Some c\<close>
      by (simp add: client_attach_device_def attach_check_def attach_open_def)
  qed
qed (simp add: client_attach_device_def)


lemma open_claim_again:
  assumes "usb_open_device os d = (ERR_SUCCESS, d1, tr)" and "usb_claim_interface d1 0 = (ERR_SUCCESS, d2)"
  shows "usb_open_device os' d2 = (ERR_SUCCESS, d2, [])" and "usb_claim_interface d2 0 = (ERR_SUCCESS, d2)"
proof -
  have "char_at (dv_path d) 0 \<noteq> 0" using assms(1) by (auto simp: usb_open_device_def)
  then have "char_at (dv_path d1) 0 \<noteq> 0 \<and> dv_is_open d1"
    using assms(1) by (auto simp: usb_open_device_def open_virtual_def split: if_splits option.splits)
  then have "char_at (dv_path d2) 0 \<noteq> 0 \<and> dv_is_open d2 \<and> dv_is_claimed d2 \<and> dv_claimed_interface d2 = uint (0 :: uint8_t)"
    using assms(2) by (auto simp: usb_claim_interface_def split: if_splits)
  then show "usb_open_device os' d2 = (ERR_SUCCESS, d2, [])" "usb_claim_interface d2 0 = (ERR_SUCCESS, d2)"
    by (simp_all add: usb_open_device_def usb_claim_interface_def)
qed

text \<open>Memory, the synchronisation objects and the thread of a handler are all granted.\<close>

definition granted :: "attach_env \<Rightarrow> bool" where
  "granted env \<longleftrightarrow> ae_calloc env \<and> ae_objs1 env = (True, True) \<and> ae_objs2 env = (True, True) \<and> ae_thread env"

lemma attach_open_granted:
  assumes "granted env" and "client_at s client = Some c" and "entry_at (ss_list s) p = Some e"
    and "usb_open_device (ae_os env) (de_device e) = (ERR_SUCCESS, d1, tr1)" and "usb_claim_interface d1 0 = (ERR_SUCCESS, d2)"
  obtains hr c' l' where "attach_open env client busid p s = Some (ERR_SUCCESS, set_client client c' (set_device p d2 tr1 s)\<lparr>ss_list := l'\<rparr>)"
    and "c' = c\<lparr>cc_urb_handler := hr, cc_device := Some p, cc_attached_busid := strncpy (cc_attached_busid c) busid 31,
      cc_state := CLIENT_STATE_ATTACHED\<rparr>"
  using assms
  by (force simp: attach_open_def granted_def urb_handler_init_def urb_handler_start_def queue_init_def zero_handler_def
      client_set_state_def Let_def)

text \<open>
  C8: Two threads of the graphical server can attach one device to two clients. If both have passed
  the check before either has exported the device, the second opening finds the device open and its
  interface claimed, which count as success, and the refusal of the second export is ignored: both
  clients are attached to one entry. Had the second thread made its check after the first was done,
  it would have been refused.
\<close>

theorem gui_attach_race:
  assumes "attach_inv s" and "a \<noteq> b" and "client_at s a = Some ca" and "client_at s b = Some cb"
    and "attach_check busid (ss_list s) = Inr p"
    and "attach_open env a busid p s = Some (ERR_SUCCESS, s1)" and "granted env'"
  shows "\<exists>s2 ca' cb'. attach_open env' b busid p s1 = Some (ERR_SUCCESS, s2) \<and>
      client_at s2 a = Some ca' \<and> cc_device ca' = Some p \<and> client_at s2 b = Some cb' \<and> cc_device cb' = Some p \<and>
      \<not> no_sharing (cm_clients (ss_manager s2)) \<and> client_attach_device env' b busid s1 = Some (ERR_DEVICE_BUSY, s1)"
proof -
  have "client_attach_device env a busid s = Some (ERR_SUCCESS, s1)" using assms(3,5,6) by (simp add: attach_parts)
  from assms(3) this show ?thesis
  proof (cases rule: client_attach_cases)
    case (success q e d1 tr1 d2 hr ca')
    have p: "q = p" "de_is_shared e" using assms(5) success(1) by (auto simp: attach_check_def split: if_splits)
    have bs: "dv_busid d2 = dv_busid (de_device e)" using success(3,4) by simp
    note dv = attach_inv_device[OF assms(1) success(1) bs, of tr1]
    have fb: "found_entry (ss_list (set_device p d2 tr1 s)) busid = Some (p, e\<lparr>de_device := d2\<rparr>)" using dv(2) p(1) by simp
    have l0: "dl_inv (ss_list (set_device p d2 tr1 s))" using dv(1) p(1) by (simp add: attach_inv_def)
    have f1: "found_entry (ss_list s1) busid = Some (p, export_change (ae_now env) (cc_id ca) (Some (cc_ip_address ca)) (e\<lparr>de_device := d2\<rparr>))"
      using fb success(2) p(1) by (simp add: success(7) export.found[OF l0] export_check_def)
    then have e1: "entry_at (ss_list s1) p = Some (export_change (ae_now env) (cc_id ca) (Some (cc_ip_address ca)) (e\<lparr>de_device := d2\<rparr>))"
      by (auto simp: found_entry_def split: option.splits)
    have cb1: "client_at s1 b = Some cb" and ca1: "client_at s1 a = Some ca'"
      using assms(2-4) by (simp_all add: success(7) client_at_list client_at_set_other)
    note again = open_claim_again[OF success(3,4)]
    obtain hr2 cb' l' where o: "attach_open env' b busid p s1 =
        Some (ERR_SUCCESS, set_client b cb' (set_device p d2 [] s1)\<lparr>ss_list := l'\<rparr>)"
      and cb': "cb' = cb\<lparr>cc_urb_handler := hr2, cc_device := Some p, cc_attached_busid := strncpy (cc_attached_busid cb) busid 31,
        cc_state := CLIENT_STATE_ATTACHED\<rparr>"
      by (rule attach_open_granted[OF assms(7) cb1 e1]) (use again in \<open>auto simp: export_change_def\<close>)
    let ?s2 = "set_client b cb' (set_device p d2 [] s1)\<lparr>ss_list := l'\<rparr>"
    have c2: "client_at ?s2 a = Some ca'" "client_at ?s2 b = Some cb'"
      using ca1 cb1 assms(2) by (simp_all add: client_at_list client_at_set_other)
    have "attached ca' \<and> streq (cc_attached_busid ca') busid"
      using attach_inv_success(2,3)[OF assms(1,3) success(1,2,6)] by blast
    moreover have "attached cb' \<and> streq (cc_attached_busid cb') busid"
      using attach_inv_success(2,3)[OF assms(1,4) success(1,2) cb'[folded p(1)]] by blast
    ultimately have "\<not> no_sharing (cm_clients (ss_manager ?s2))"
      using client_at_mem[OF c2(1)] client_at_mem[OF c2(2)] assms(2) unfolding no_sharing_def streq_def by fastforce
    moreover have "client_attach_device env' b busid s1 = Some (ERR_DEVICE_BUSY, s1)"
      using f1 cb1 p(2) by (simp add: client_attach_device_def export_change_def)
    moreover have "cc_device ca' = Some p" "cc_device cb' = Some p" using success(6) p(1) cb' by simp_all
    ultimately show ?thesis using o c2 by blast
  qed simp_all
qed

section \<open>Samples\<close>

definition sample_thread :: "bool \<Rightarrow> handler_env" where
  "sample_thread running = \<lparr>he_others = (\<lambda>s. s), he_server_running = running, he_attach = sample_env, he_joined = (\<lambda>h hr. Some (h, hr))\<rparr>"

definition sample_served :: server_state where
  "sample_served = (case start_handler
     \<lparr>ac_os = sample_winsock, ac_ip_buf = replicate 64 0, ac_conn = sample_conn, ac_calloc = None, ac_now = 0, ac_malloc = True,
      ac_thread = True\<rparr> 100 sample_connected of (t, s) \<Rightarrow> s)"

definition sample_submit :: usbip_header where
  "sample_submit = \<lparr>uh_common = \<lparr>hc_command = USBIP_CMD_SUBMIT, hc_seqnum = 7, hc_devid = 1, hc_direction = 0, hc_ep = 2\<rparr>,
     uh_u = replicate 28 0\<rparr>"

theorem gui_urb_dropped_witness:
  "\<exists>s' c'. client_handler_thread [sample_thread True] (\<lambda>h hr. Some (h, hr)) 100 sample_served
      (sample_conn\<lparr>rx := [RxData (wire_header sample_submit)]\<rparr>) = Returns (s', c') \<and> sent c' = []"
proof -
  let ?c = "sample_conn\<lparr>rx := [RxData (wire_header sample_submit)]\<rparr>"
  have "map_option cc_running (client_at sample_served 100) = Some True" by code_simp
  then obtain cl where cl: "client_at sample_served 100 = Some cl" "cc_running cl" by auto
  have h: "hc_command (uh_common sample_submit) = USBIP_CMD_SUBMIT" by (simp add: sample_submit_def)
  have r: "rx_bytes (rx ?c) = wire_header sample_submit @ []" by simp
  obtain c' where c': "sent c' = sent ?c" "client_handler_thread [sample_thread True] (\<lambda>h hr. Some (h, hr)) 100 sample_served ?c =
      after_op (client_manager_remove (\<lambda>h hr. Some (h, hr)) 100 sample_served) (\<lambda>(err, s). Returns (s, c'))"
    using gui_urb_dropped[of sample_submit ?c "[]" "sample_thread True" sample_served 100 cl "[]" "\<lambda>h hr. Some (h, hr)"] cl h r
    by (auto simp: sample_thread_def)
  have "client_manager_remove (\<lambda>h hr. Some (h, hr)) 100 sample_served \<noteq> None" by code_simp
  moreover have "sent ?c = []" by (simp add: sample_conn_def)
  ultimately show ?thesis using c' by (auto simp: after_op_def)
qed

theorem gui_threads_keep_witness:
  "\<exists>s' c'. client_handler_thread [sample_thread False] (\<lambda>h hr. Some (h, hr)) 100 sample_connected sample_conn = Returns (s', c') \<and>
     attach_inv s' \<and> client_at s' 100 = None"
proof -
  have "case client_handler_thread [sample_thread False] (\<lambda>h hr. Some (h, hr)) 100 sample_connected sample_conn of
      Returns x \<Rightarrow> True | _ \<Rightarrow> False" by code_simp
  then obtain s' c' where r:
    "client_handler_thread [sample_thread False] (\<lambda>h hr. Some (h, hr)) 100 sample_connected sample_conn = Returns (s', c')"
    by (auto split: outcome.splits)
  have "cm_initialized (ss_manager sample_connected)" by code_simp
  then have "attach_inv s' \<and> client_at s' 100 = None"
    using gui_threads_keep[OF sample_connected_inv _ _ r] by (simp add: others_ok_def sample_thread_def)
  then show ?thesis using r by blast
qed

theorem gui_second_import_leaks_witness:
  "\<exists>s1 s2 e. client_attach_device sample_env 100 (ascii ''1-2'') sample_attached = Some (ERR_SUCCESS, s1) \<and>
     client_manager_remove (\<lambda>h hr. Some (h, hr)) 100 s1 = Some (ERR_SUCCESS, s2) \<and> client_at s2 100 = None \<and>
     dl_lookup (ss_list s2) (ascii ''1-1'') = Some e \<and> de_state e = DEVICE_STATE_EXPORTED"
proof -
  let ?r = "client_attach_device sample_env 100 (ascii ''1-2'') sample_attached"
  let ?q = "client_manager_remove (\<lambda>h hr. Some (h, hr)) 100 (snd (the ?r))"
  have "map_option fst ?r = Some ERR_SUCCESS" "map_option fst ?q = Some ERR_SUCCESS"
    "cm_initialized (ss_manager sample_attached)"
    "map_option (\<lambda>c. (cstr (cc_attached_busid c), attached c)) (client_at sample_attached 100) = Some (ascii ''1-1'', True)" by code_simp+
  then obtain s1 s2 cl where r: "?r = Some (ERR_SUCCESS, s1)" "client_manager_remove (\<lambda>h hr. Some (h, hr)) 100 s1 = Some (ERR_SUCCESS, s2)"
    "client_at sample_attached 100 = Some cl" "attached cl" "cstr (cc_attached_busid cl) = ascii ''1-1''"
    "cm_initialized (ss_manager sample_attached)" by auto
  have inv: "attach_inv sample_attached"
    using client_attach_inv[OF sample_connected_inv] sample_attached_eval(1,2) by (auto simp: sample_attached_def)
  have "cstr (cc_attached_busid cl) = cstr (ascii ''1-1'')" unfolding r(5) by code_simp
  then have "dl_lookup (ss_list s2) (cc_attached_busid cl) = dl_lookup (ss_list s2) (ascii ''1-1'')" by (rule dl_lookup_cong)
  then show ?thesis using gui_second_import_leaks[OF inv r(3,4,6,1,2)] r(1,2) by auto
qed

definition sample_two :: server_state where
  "sample_two = sample_connected\<lparr>ss_manager := snd (snd (client_manager_add (Some 200) 0 6 None 2 (ss_manager sample_connected)))\<rparr>"

theorem gui_attach_race_witness:
  "\<exists>s1 s2. attach_open sample_env 100 (ascii ''1-1'') 9 sample_two = Some (ERR_SUCCESS, s1) \<and>
     attach_open sample_env 200 (ascii ''1-1'') 9 s1 = Some (ERR_SUCCESS, s2) \<and> \<not> no_sharing (cm_clients (ss_manager s2))"
proof -
  have "map_option fst (attach_open sample_env 100 (ascii ''1-1'') 9 sample_two) = Some ERR_SUCCESS"
    "attach_check (ascii ''1-1'') (ss_list sample_two) = Inr 9" "granted sample_env"
    "client_at sample_two 100 \<noteq> None" "client_at sample_two 200 \<noteq> None" by code_simp+
  then obtain s1 ca cb where r: "attach_open sample_env 100 (ascii ''1-1'') 9 sample_two = Some (ERR_SUCCESS, s1)"
    "attach_check (ascii ''1-1'') (ss_list sample_two) = Inr 9" "granted sample_env"
    "client_at sample_two 100 = Some ca" "client_at sample_two 200 = Some cb" by auto
  let ?r = "client_manager_add (Some 200) 0 6 None 2 (ss_manager sample_connected)"
  have "client_at sample_connected 200 = None" by code_simp
  then have "attach_inv sample_two" unfolding sample_two_def
    by (intro client_add_inv[OF sample_connected_inv, of "Some 200" 0 6 None 2 "fst ?r" "fst (snd ?r)"]) auto
  from gui_attach_race[OF this _ r(4,5,2,1,3)] show ?thesis using r(1) by auto
qed

end
