(* ===== verification/Vhci.thy ===== *)
theory Vhci
  imports Usb_Host
begin

text \<open>
  The virtual host controller of the client, \<^verbatim>\<open>client/vhci.h\<close> and
  \<^verbatim>\<open>client/vhci_win32.c\<close>: a table of eight ports in front of the usbip-win kernel driver.
  The driver is an argument: \<open>vd_open\<close> answers \<^verbatim>\<open>CreateFileA\<close> on its device path and
  \<open>vd_ioctl\<close> answers \<^verbatim>\<open>DeviceIoControl\<close>, both given the calls made so far. The record
  \<open>vhci_world\<close> holds the two static variables of the file and the trace of those calls.
\<close>

section \<open>Data\<close>

datatype vhci_port_state =
  VHCI_PORT_FREE | VHCI_PORT_CONNECTING | VHCI_PORT_CONNECTED | VHCI_PORT_DISCONNECTING | VHCI_PORT_ERROR

record vhci_port_info =
  vp_port_number :: int
  vp_state :: vhci_port_state
  vp_busid :: cbuf
  vp_server_ip :: cbuf
  vp_server_port :: uint16_t
  vp_devid :: uint32_t
  vp_speed :: uint32_t

record vhci_context =
  vc_max_ports :: int
  vc_ports :: "vhci_port_info list"
  vc_initialized :: bool
  vc_driver_handle :: handle

datatype vhci_call =
  VhciOpen | VhciClose nat | VhciPlug nat socket_t uint32_t | VhciUnplug nat uint32_t

record vhci_driver =
  vd_open :: "vhci_call list \<Rightarrow> handle"
  vd_ioctl :: "vhci_call list \<Rightarrow> vhci_call \<Rightarrow> bool"

record vhci_world =
  vw_driver_available :: bool
  vw_checked_driver :: bool
  vw_calls :: "vhci_call list"

abbreviation (input) VHCI_MAX_PORTS :: int where "VHCI_MAX_PORTS \<equiv> 8"

definition zero_port :: vhci_port_info where
  "zero_port =
     \<lparr>vp_port_number = 0, vp_state = VHCI_PORT_FREE, vp_busid = replicate 32 0,
      vp_server_ip = replicate 64 0, vp_server_port = 0, vp_devid = 0, vp_speed = 0\<rparr>"

definition zero_context :: vhci_context where
  "zero_context = \<lparr>vc_max_ports = 0, vc_ports = [], vc_initialized = False, vc_driver_handle = None\<rparr>"

text \<open>\<open>ctx->ports[port]\<close> of a port number that was checked.\<close>

definition port_at :: "vhci_context \<Rightarrow> int \<Rightarrow> vhci_port_info" where
  "port_at ctx port = vc_ports ctx ! nat port"

definition set_port :: "vhci_context \<Rightarrow> int \<Rightarrow> vhci_port_info \<Rightarrow> vhci_context" where
  "set_port ctx port p = ctx\<lparr>vc_ports := (vc_ports ctx)[nat port := p]\<rparr>"

definition called :: "vhci_world \<Rightarrow> vhci_call \<Rightarrow> vhci_world" where
  "called w call = w\<lparr>vw_calls := vw_calls w @ [call]\<rparr>"

section \<open>Initialization\<close>

definition check_vhci_driver :: "vhci_driver \<Rightarrow> vhci_world \<Rightarrow> bool \<times> vhci_world" where
  "check_vhci_driver drv w =
     (if vw_checked_driver w then (vw_driver_available w, w)
      else
        let w = w\<lparr>vw_checked_driver := True\<rparr>;
            handle = vd_open drv (vw_calls w);
            w = called w VhciOpen
        in case handle of
             Some h \<Rightarrow> (True, (called w (VhciClose h))\<lparr>vw_driver_available := True\<rparr>)
           | None \<Rightarrow> (False, w\<lparr>vw_driver_available := False\<rparr>))"

definition vhci_init :: "vhci_driver \<Rightarrow> bool \<Rightarrow> vhci_world \<Rightarrow> error_code \<times> vhci_context \<times> vhci_world" where
  "vhci_init drv calloc w =
     (case check_vhci_driver drv w of (driver_available, w) \<Rightarrow>
        let ctx = zero_context\<lparr>vc_max_ports := VHCI_MAX_PORTS\<rparr>
        in if \<not> calloc then (ERR_OUT_OF_MEMORY, ctx, w)
           else
             let ctx = ctx\<lparr>vc_ports := map (\<lambda>i. zero_port\<lparr>vp_port_number := int i, vp_state := VHCI_PORT_FREE\<rparr>)
                                        [0..<nat (vc_max_ports ctx)]\<rparr>;
                 (ctx, w) = (if driver_available
                             then (ctx\<lparr>vc_driver_handle := vd_open drv (vw_calls w)\<rparr>, called w VhciOpen)
                             else (ctx, w))
             in (ERR_SUCCESS, ctx\<lparr>vc_initialized := True\<rparr>, w))"

definition vhci_is_available :: "vhci_driver \<Rightarrow> vhci_world \<Rightarrow> bool \<times> vhci_world" where
  "vhci_is_available drv w = check_vhci_driver drv w"

section \<open>Ports\<close>

definition vhci_get_port_count :: "vhci_context \<Rightarrow> int" where
  "vhci_get_port_count ctx = (if \<not> vc_initialized ctx then 0 else vc_max_ports ctx)"

text \<open>The search loop from port \<open>i\<close> on.\<close>

fun free_port_loop :: "int \<Rightarrow> vhci_port_info list \<Rightarrow> int" where
  "free_port_loop i [] = -1"
| "free_port_loop i (p # ps) = (if vp_state p = VHCI_PORT_FREE then i else free_port_loop (i + 1) ps)"

definition vhci_find_free_port :: "vhci_context \<Rightarrow> int" where
  "vhci_find_free_port ctx =
     (if \<not> vc_initialized ctx then -1 else free_port_loop 0 (take (nat (vc_max_ports ctx)) (vc_ports ctx)))"

definition vhci_get_port_info :: "vhci_context \<Rightarrow> int \<Rightarrow> error_code + vhci_port_info" where
  "vhci_get_port_info ctx port =
     (if \<not> vc_initialized ctx then Inl ERR_INVALID_PARAM
      else if port < 0 \<or> port \<ge> vc_max_ports ctx then Inl ERR_VHCI_INVALID_PORT
      else Inr (port_at ctx port))"

definition vhci_get_status :: "vhci_context \<Rightarrow> error_code" where
  "vhci_get_status ctx = (if \<not> vc_initialized ctx then ERR_INVALID_PARAM else ERR_SUCCESS)"

definition vhci_is_port_connected :: "vhci_context \<Rightarrow> int \<Rightarrow> bool" where
  "vhci_is_port_connected ctx port =
     (if \<not> vc_initialized ctx then False
      else if port < 0 \<or> port \<ge> vc_max_ports ctx then False
      else vp_state (port_at ctx port) = VHCI_PORT_CONNECTED)"

definition vhci_port_state_string :: "vhci_port_state \<Rightarrow> string" where
  "vhci_port_state_string state =
     (case state of
        VHCI_PORT_FREE \<Rightarrow> ''Free''
      | VHCI_PORT_CONNECTING \<Rightarrow> ''Connecting''
      | VHCI_PORT_CONNECTED \<Rightarrow> ''Connected''
      | VHCI_PORT_DISCONNECTING \<Rightarrow> ''Disconnecting''
      | VHCI_PORT_ERROR \<Rightarrow> ''Error'')"

section \<open>Attaching and detaching\<close>

text \<open>The fields written before the driver is asked.\<close>

definition connecting_port :: "usbip_usb_device \<Rightarrow> cbuf option \<Rightarrow> uint16_t \<Rightarrow> vhci_port_info \<Rightarrow> vhci_port_info" where
  "connecting_port device server_ip server_port p =
     p\<lparr>vp_state := VHCI_PORT_CONNECTING,
       vp_busid := str_copy (vp_busid p) (ud_busid device) 32,
       vp_server_ip := (case server_ip of None \<Rightarrow> vp_server_ip p | Some ip \<Rightarrow> str_copy (vp_server_ip p) ip 64),
       vp_server_port := server_port,
       vp_devid := push_bit 16 (ud_busnum device) OR ud_devnum device,
       vp_speed := ud_speed device\<rparr>"

definition vhci_attach :: "vhci_driver \<Rightarrow> int \<Rightarrow> socket_t \<Rightarrow> usbip_usb_device \<Rightarrow> cbuf option \<Rightarrow> uint16_t
    \<Rightarrow> vhci_context \<Rightarrow> vhci_world \<Rightarrow> error_code \<times> vhci_context \<times> vhci_world" where
  "vhci_attach drv port socket device server_ip server_port ctx w =
     (if \<not> vc_initialized ctx then (ERR_INVALID_PARAM, ctx, w)
      else if port < 0 \<or> port \<ge> vc_max_ports ctx then (ERR_VHCI_INVALID_PORT, ctx, w)
      else if vp_state (port_at ctx port) \<noteq> VHCI_PORT_FREE then (ERR_DEVICE_BUSY, ctx, w)
      else
        let p = connecting_port device server_ip server_port (port_at ctx port);
            ctx = set_port ctx port p
        in case vc_driver_handle ctx of
             None \<Rightarrow> (ERR_VHCI_NOT_FOUND, set_port ctx port (p\<lparr>vp_state := VHCI_PORT_ERROR\<rparr>), w)
           | Some h \<Rightarrow>
               let plug = VhciPlug h socket (vp_devid p);
                   ok = vd_ioctl drv (vw_calls w) plug;
                   w = called w plug
               in if \<not> ok then (ERR_VHCI_ATTACH_FAILED, set_port ctx port (p\<lparr>vp_state := VHCI_PORT_ERROR\<rparr>), w)
                  else (ERR_SUCCESS, set_port ctx port (p\<lparr>vp_state := VHCI_PORT_CONNECTED\<rparr>), w))"

definition clear_port :: "vhci_port_info \<Rightarrow> vhci_port_info" where
  "clear_port p =
     p\<lparr>vp_state := VHCI_PORT_FREE, vp_busid := (vp_busid p)[0 := 0],
       vp_server_ip := (vp_server_ip p)[0 := 0], vp_server_port := 0, vp_devid := 0, vp_speed := 0\<rparr>"

text \<open>The outcome of the unplug request is only logged.\<close>

definition vhci_detach :: "int \<Rightarrow> vhci_context \<Rightarrow> vhci_world \<Rightarrow> error_code \<times> vhci_context \<times> vhci_world" where
  "vhci_detach port ctx w =
     (if \<not> vc_initialized ctx then (ERR_INVALID_PARAM, ctx, w)
      else if port < 0 \<or> port \<ge> vc_max_ports ctx then (ERR_VHCI_INVALID_PORT, ctx, w)
      else if vp_state (port_at ctx port) = VHCI_PORT_FREE then (ERR_SUCCESS, ctx, w)
      else
        let p = (port_at ctx port)\<lparr>vp_state := VHCI_PORT_DISCONNECTING\<rparr>;
            w = (case vc_driver_handle ctx of
                   None \<Rightarrow> w
                 | Some h \<Rightarrow> called w (VhciUnplug h (word_of_int port)))
        in (ERR_SUCCESS, set_port ctx port (clear_port p), w))"

text \<open>The loop over the ports from \<open>i\<close>, \<open>n\<close> of them left.\<close>

fun detach_loop :: "nat \<Rightarrow> int \<Rightarrow> vhci_context \<Rightarrow> vhci_world \<Rightarrow> vhci_context \<times> vhci_world" where
  "detach_loop 0 i ctx w = (ctx, w)"
| "detach_loop (Suc n) i ctx w =
     (case (if vp_state (port_at ctx i) \<noteq> VHCI_PORT_FREE then snd (vhci_detach i ctx w) else (ctx, w)) of
        (ctx, w) \<Rightarrow> detach_loop n (i + 1) ctx w)"

definition vhci_detach_all :: "vhci_context \<Rightarrow> vhci_world \<Rightarrow> vhci_context \<times> vhci_world" where
  "vhci_detach_all ctx w =
     (if \<not> vc_initialized ctx then (ctx, w) else detach_loop (nat (vc_max_ports ctx)) 0 ctx w)"

definition vhci_cleanup :: "vhci_context \<Rightarrow> vhci_world \<Rightarrow> vhci_context \<times> vhci_world" where
  "vhci_cleanup ctx w =
     (if \<not> vc_initialized ctx then (ctx, w)
      else case vhci_detach_all ctx w of (ctx, w) \<Rightarrow>
        let (ctx, w) = (case vc_driver_handle ctx of
                          None \<Rightarrow> (ctx, w)
                        | Some h \<Rightarrow> (ctx\<lparr>vc_driver_handle := None\<rparr>, called w (VhciClose h)))
        in (ctx\<lparr>vc_ports := [], vc_initialized := False\<rparr>, w))"

section \<open>Well-formed contexts\<close>

text \<open>
  Between two calls a port is free, connected or in error; a free port holds empty names and
  zeroes; only a driver connects ports.
\<close>

definition port_ok :: "handle \<Rightarrow> nat \<Rightarrow> vhci_port_info \<Rightarrow> bool" where
  "port_ok drv i p \<longleftrightarrow>
     vp_port_number p = int i \<and> length (vp_busid p) = 32 \<and> length (vp_server_ip p) = 64 \<and>
     vp_state p \<in> {VHCI_PORT_FREE, VHCI_PORT_CONNECTED, VHCI_PORT_ERROR} \<and>
     (vp_state p = VHCI_PORT_FREE \<longrightarrow>
        cstr (vp_busid p) = [] \<and> cstr (vp_server_ip p) = [] \<and> vp_server_port p = 0 \<and> vp_devid p = 0 \<and> vp_speed p = 0) \<and>
     (vp_state p = VHCI_PORT_CONNECTED \<longrightarrow> drv \<noteq> None)"

definition vhci_inv :: "vhci_context \<Rightarrow> bool" where
  "vhci_inv ctx \<longleftrightarrow>
     (if vc_initialized ctx
      then vc_max_ports ctx = 8 \<and> length (vc_ports ctx) = 8 \<and>
           (\<forall>i < 8. port_ok (vc_driver_handle ctx) i (vc_ports ctx ! i))
      else vc_ports ctx = [] \<and> vc_driver_handle ctx = None)"

lemma port_ok_zero: "port_ok d i (zero_port\<lparr>vp_port_number := int i, vp_state := VHCI_PORT_FREE\<rparr>)"
  by (simp add: port_ok_def zero_port_def)

lemma port_ok_attached:
  assumes "port_ok d i p" and "st = VHCI_PORT_ERROR \<or> st = VHCI_PORT_CONNECTED \<and> d \<noteq> None"
  shows "port_ok d i (connecting_port device ip port p\<lparr>vp_state := st\<rparr>)"
  using assms by (auto simp: port_ok_def connecting_port_def split: option.splits)

lemma port_ok_clear: "port_ok d i p \<Longrightarrow> port_ok d i (clear_port (p\<lparr>vp_state := st\<rparr>))"
  by (simp add: port_ok_def clear_port_def)

lemma vhci_inv_set_port:
  assumes "vhci_inv ctx" and "vc_initialized ctx" and "0 \<le> port" and "port_ok (vc_driver_handle ctx) (nat port) p"
  shows "vhci_inv (set_port ctx port p)"
  using assms by (auto simp: vhci_inv_def set_port_def nth_update)

lemma set_port_twice [simp]: "set_port (set_port ctx port p) port q = set_port ctx port q"
  by (simp add: set_port_def)

lemma set_port_fields [simp]:
  "vc_max_ports (set_port ctx port p) = vc_max_ports ctx"
  "vc_initialized (set_port ctx port p) = vc_initialized ctx"
  "vc_driver_handle (set_port ctx port p) = vc_driver_handle ctx"
  "length (vc_ports (set_port ctx port p)) = length (vc_ports ctx)"
  by (simp_all add: set_port_def)

lemma vhci_inv_port_ok:
  assumes "vhci_inv ctx" and "vc_initialized ctx" and "0 \<le> port" and "port < vc_max_ports ctx"
  shows "port_ok (vc_driver_handle ctx) (nat port) (port_at ctx port)"
  using assms by (auto simp: vhci_inv_def port_at_def)

lemma vhci_init_inv:
  assumes "vhci_init drv calloc w = (err, ctx, w')"
  shows "vhci_inv ctx" and "vc_initialized ctx \<longleftrightarrow> err = ERR_SUCCESS"
  using assms port_ok_zero
  by (auto simp: vhci_init_def vhci_inv_def zero_context_def Let_def split: prod.splits if_splits)

lemma vhci_attach_inv:
  assumes "vhci_inv ctx" and "vhci_attach drv port socket device ip sport ctx w = (err, ctx', w')"
  shows "vhci_inv ctx'"
proof (cases "err \<in> {ERR_INVALID_PARAM, ERR_VHCI_INVALID_PORT, ERR_DEVICE_BUSY}")
  case True
  then show ?thesis using assms
    by (auto simp: vhci_attach_def Let_def split: if_splits option.splits)
next
  case False
  then have g: "vc_initialized ctx" "0 \<le> port" "port < vc_max_ports ctx"
    using assms(2) by (auto simp: vhci_attach_def Let_def split: if_splits)
  have "\<exists>st. ctx' = set_port ctx port (connecting_port device ip sport (port_at ctx port)\<lparr>vp_state := st\<rparr>) \<and>
          (st = VHCI_PORT_ERROR \<or> st = VHCI_PORT_CONNECTED \<and> vc_driver_handle ctx \<noteq> None)"
    using assms(2) False by (auto simp: vhci_attach_def Let_def split: if_splits option.splits)
  then show ?thesis
    using vhci_inv_set_port[OF assms(1) g(1,2)] port_ok_attached[OF vhci_inv_port_ok[OF assms(1) g]] by auto
qed

lemma vhci_detach_inv:
  assumes "vhci_inv ctx"
  shows "vhci_inv (fst (snd (vhci_detach port ctx w)))"
  using vhci_inv_set_port[OF assms, of port] port_ok_clear[OF vhci_inv_port_ok[OF assms, of port]] assms
  by (auto simp: vhci_detach_def Let_def)

lemma vhci_detach_fields [simp]:
  "vc_max_ports (fst (snd (vhci_detach port ctx w))) = vc_max_ports ctx"
  "vc_initialized (fst (snd (vhci_detach port ctx w))) = vc_initialized ctx"
  "vc_driver_handle (fst (snd (vhci_detach port ctx w))) = vc_driver_handle ctx"
  "length (vc_ports (fst (snd (vhci_detach port ctx w)))) = length (vc_ports ctx)"
  by (auto simp: vhci_detach_def Let_def)

section \<open>Detaching every port\<close>

definition free_again :: "vhci_port_info \<Rightarrow> vhci_port_info" where
  "free_again p = (if vp_state p = VHCI_PORT_FREE then p else clear_port p)"

text \<open>The unplug requests for the ports of \<open>is\<close> that are in use.\<close>

definition unplugs :: "vhci_context \<Rightarrow> nat list \<Rightarrow> vhci_call list" where
  "unplugs ctx is =
     (case vc_driver_handle ctx of
        None \<Rightarrow> []
      | Some h \<Rightarrow> map (\<lambda>i. VhciUnplug h (word_of_nat i)) (filter (\<lambda>i. vp_state (vc_ports ctx ! i) \<noteq> VHCI_PORT_FREE) is))"

lemma clear_port_state [simp]:
  "vp_state (clear_port p) = VHCI_PORT_FREE" "clear_port (p\<lparr>vp_state := st\<rparr>) = clear_port p"
  by (simp_all add: clear_port_def)

lemma free_again_free [simp]: "vp_state (free_again p) = VHCI_PORT_FREE"
  by (simp add: free_again_def)

lemma word_of_int_nat: "0 \<le> i \<Longrightarrow> (word_of_int i :: 'a::len word) = word_of_nat (nat i)"
  by simp

lemma unplugs_Cons: "unplugs ctx (i # is) = unplugs ctx [i] @ unplugs ctx is"
  by (simp add: unplugs_def split: option.splits)

lemma unplugs_update:
  "i \<notin> set is \<Longrightarrow> unplugs (ctx\<lparr>vc_ports := (vc_ports ctx)[i := p]\<rparr>) is = unplugs ctx is"
  by (auto simp: unplugs_def nth_update split: option.splits intro!: arg_cong[where f = "map _"] filter_cong)

lemma detach_step:
  assumes "vc_initialized ctx" and "int i < vc_max_ports ctx" and "i < length (vc_ports ctx)"
  shows "(if vp_state (port_at ctx (int i)) \<noteq> VHCI_PORT_FREE then snd (vhci_detach (int i) ctx w) else (ctx, w)) =
    (ctx\<lparr>vc_ports := (vc_ports ctx)[i := free_again (vc_ports ctx ! i)]\<rparr>,
     w\<lparr>vw_calls := vw_calls w @ unplugs ctx [i]\<rparr>)"
  using assms
  by (auto simp: vhci_detach_def Let_def port_at_def set_port_def free_again_def unplugs_def called_def
    split: option.splits)

lemma detach_loop_eq:
  assumes "vc_initialized ctx" and "int (i + n) \<le> vc_max_ports ctx" and "length (vc_ports ctx) = i + n"
  shows "detach_loop n (int i) ctx w =
    (ctx\<lparr>vc_ports := take i (vc_ports ctx) @ map free_again (drop i (vc_ports ctx))\<rparr>,
     w\<lparr>vw_calls := vw_calls w @ unplugs ctx [i..<i + n]\<rparr>)"
  using assms
proof (induction n arbitrary: i ctx w)
  case 0
  then show ?case by (simp add: unplugs_def split: option.splits)
next
  case (Suc n)
  let ?c = "ctx\<lparr>vc_ports := (vc_ports ctx)[i := free_again (vc_ports ctx ! i)]\<rparr>"
  let ?w = "w\<lparr>vw_calls := vw_calls w @ unplugs ctx [i]\<rparr>"
  have len: "i < length (vc_ports ctx)" using Suc.prems by simp
  have u: "unplugs ctx [i] @ unplugs ?c [Suc i..<Suc i + n] = unplugs ctx [i..<i + Suc n]"
    using unplugs_Cons[of ctx i "[Suc i..<Suc i + n]"] unplugs_update[of i "[Suc i..<Suc i + n]" ctx]
    by (simp add: upt_conv_Cons del: upt_Suc)
  have p: "take (Suc i) (vc_ports ?c) @ map free_again (drop (Suc i) (vc_ports ?c)) =
      take i (vc_ports ctx) @ map free_again (drop i (vc_ports ctx))"
    using len by (simp add: take_Suc_conv_app_nth Cons_nth_drop_Suc[symmetric])
  have "detach_loop (Suc n) (int i) ctx w = detach_loop n (int (Suc i)) ?c ?w"
    using detach_step[of ctx i w] Suc.prems by (simp add: add.commute)
  also have "\<dots> = (?c\<lparr>vc_ports := take (Suc i) (vc_ports ?c) @ map free_again (drop (Suc i) (vc_ports ?c))\<rparr>,
      ?w\<lparr>vw_calls := vw_calls ?w @ unplugs ?c [Suc i..<Suc i + n]\<rparr>)"
    by (rule Suc.IH) (use Suc.prems in simp_all)
  also have "\<dots> = (ctx\<lparr>vc_ports := take i (vc_ports ctx) @ map free_again (drop i (vc_ports ctx))\<rparr>,
      w\<lparr>vw_calls := vw_calls w @ unplugs ctx [i..<i + Suc n]\<rparr>)"
    using p u by simp
  finally show ?case .
qed

lemma vhci_detach_all_eq:
  assumes "vhci_inv ctx" and "vc_initialized ctx"
  shows "vhci_detach_all ctx w =
    (ctx\<lparr>vc_ports := map free_again (vc_ports ctx)\<rparr>, w\<lparr>vw_calls := vw_calls w @ unplugs ctx [0..<8]\<rparr>)"
  using detach_loop_eq[of ctx 0 8 w] assms by (simp add: vhci_detach_all_def vhci_inv_def)

lemma port_ok_free_again: "port_ok d i p \<Longrightarrow> port_ok d i (free_again p)"
  using port_ok_clear[of d i p "vp_state p"] by (simp add: free_again_def)

lemma vhci_detach_all_inv: "vhci_inv ctx \<Longrightarrow> vhci_inv (fst (vhci_detach_all ctx w))"
  using vhci_detach_all_eq[of ctx w]
  by (cases "vc_initialized ctx") (auto simp: vhci_detach_all_def[of ctx] vhci_inv_def port_ok_free_again)

lemma vhci_cleanup_inv: "vhci_inv ctx \<Longrightarrow> vhci_inv (fst (vhci_cleanup ctx w))"
  by (cases "vc_initialized ctx") (auto simp: vhci_cleanup_def vhci_inv_def split: prod.splits option.splits)

section \<open>Runs of the controller\<close>

inductive vhci_step :: "vhci_driver \<Rightarrow> vhci_context \<times> vhci_world \<Rightarrow> vhci_context \<times> vhci_world \<Rightarrow> bool"
  for drv :: vhci_driver where
  attach: "vhci_attach drv port socket device ip sport ctx w = (err, ctx', w')
    \<Longrightarrow> vhci_step drv (ctx, w) (ctx', w')"
| detach: "vhci_detach port ctx w = (err, ctx', w') \<Longrightarrow> vhci_step drv (ctx, w) (ctx', w')"
| detach_all: "vhci_detach_all ctx w = (ctx', w') \<Longrightarrow> vhci_step drv (ctx, w) (ctx', w')"
| cleanup: "vhci_cleanup ctx w = (ctx', w') \<Longrightarrow> vhci_step drv (ctx, w) (ctx', w')"

inductive vhci_reachable :: "vhci_driver \<Rightarrow> vhci_context \<Rightarrow> vhci_world \<Rightarrow> bool" for drv :: vhci_driver where
  init: "vhci_init drv calloc w = (err, ctx, w') \<Longrightarrow> vhci_reachable drv ctx w'"
| step: "vhci_reachable drv ctx w \<Longrightarrow> vhci_step drv (ctx, w) (ctx', w') \<Longrightarrow> vhci_reachable drv ctx' w'"

inductive_cases vhci_stepE: "vhci_step drv (ctx, w) (ctx', w')"

lemma vhci_step_inv:
  assumes "vhci_step drv (ctx, w) (ctx', w')" and "vhci_inv ctx"
  shows "vhci_inv ctx'"
  using assms(1)
proof cases
  case attach
  then show ?thesis using vhci_attach_inv[OF assms(2)] by blast
next
  case (detach port err)
  then show ?thesis using vhci_detach_inv[OF assms(2), of port w] by simp
next
  case detach_all
  then show ?thesis using vhci_detach_all_inv[OF assms(2), of w] by simp
next
  case cleanup
  then show ?thesis using vhci_cleanup_inv[OF assms(2), of w] by simp
qed

lemma vhci_reachable_inv: "vhci_reachable drv ctx w \<Longrightarrow> vhci_inv ctx"
  by (induction rule: vhci_reachable.induct) (auto dest: vhci_init_inv(1) vhci_step_inv)

section \<open>Finding a port\<close>

lemma free_port_loop_spec:
  "free_port_loop i ps = -1 \<and> (\<forall>p \<in> set ps. vp_state p \<noteq> VHCI_PORT_FREE) \<or>
   (\<exists>k < length ps. free_port_loop i ps = i + int k \<and> vp_state (ps ! k) = VHCI_PORT_FREE \<and>
      (\<forall>p \<in> set (take k ps). vp_state p \<noteq> VHCI_PORT_FREE))"
proof (induction ps arbitrary: i)
  case (Cons p ps)
  show ?case
  proof (cases "vp_state p = VHCI_PORT_FREE")
    case True
    then show ?thesis by (intro disjI2 exI[of _ 0]) simp
  next
    case p: False
    from Cons.IH[of "i + 1"] show ?thesis
    proof
      assume "\<exists>k < length ps. free_port_loop (i + 1) ps = i + 1 + int k \<and> vp_state (ps ! k) = VHCI_PORT_FREE \<and>
        (\<forall>p \<in> set (take k ps). vp_state p \<noteq> VHCI_PORT_FREE)"
      then obtain k where "k < length ps" "free_port_loop (i + 1) ps = i + 1 + int k"
        "vp_state (ps ! k) = VHCI_PORT_FREE" "\<forall>p \<in> set (take k ps). vp_state p \<noteq> VHCI_PORT_FREE" by blast
      then show ?thesis using p by (intro disjI2 exI[of _ "Suc k"]) simp
    qed (use p in simp)
  qed
qed simp

lemma vhci_find_free_port_cases:
  assumes "vhci_inv ctx" and "vc_initialized ctx"
  obtains "vhci_find_free_port ctx = -1" and "\<forall>p \<in> set (vc_ports ctx). vp_state p \<noteq> VHCI_PORT_FREE"
  | k where "vhci_find_free_port ctx = int k" and "k < 8" and "vp_state (vc_ports ctx ! k) = VHCI_PORT_FREE"
    and "\<forall>j < k. vp_state (vc_ports ctx ! j) \<noteq> VHCI_PORT_FREE"
proof -
  have len: "length (vc_ports ctx) = 8" "vc_max_ports ctx = 8" using assms by (auto simp: vhci_inv_def)
  then have f: "vhci_find_free_port ctx = free_port_loop 0 (vc_ports ctx)"
    using assms(2) by (simp add: vhci_find_free_port_def)
  from free_port_loop_spec[of 0 "vc_ports ctx"] show ?thesis
  proof
    assume "free_port_loop 0 (vc_ports ctx) = -1 \<and> (\<forall>p \<in> set (vc_ports ctx). vp_state p \<noteq> VHCI_PORT_FREE)"
    then show ?thesis using f that(1) by simp
  next
    assume "\<exists>k < length (vc_ports ctx). free_port_loop 0 (vc_ports ctx) = 0 + int k \<and>
      vp_state (vc_ports ctx ! k) = VHCI_PORT_FREE \<and>
      (\<forall>p \<in> set (take k (vc_ports ctx)). vp_state p \<noteq> VHCI_PORT_FREE)"
    then obtain k where k: "k < 8" "free_port_loop 0 (vc_ports ctx) = int k"
      "vp_state (vc_ports ctx ! k) = VHCI_PORT_FREE"
      "\<forall>p \<in> set (take k (vc_ports ctx)). vp_state p \<noteq> VHCI_PORT_FREE" using len by auto
    have "\<forall>j < k. vp_state (vc_ports ctx ! j) \<noteq> VHCI_PORT_FREE"
    proof (intro allI impI)
      fix j assume "j < k"
      then have "take k (vc_ports ctx) ! j \<in> set (take k (vc_ports ctx))"
        using k(1) len by (intro nth_mem) simp
      then show "vp_state (vc_ports ctx ! j) \<noteq> VHCI_PORT_FREE" using k(4) \<open>j < k\<close> by simp
    qed
    then show ?thesis using that(2)[of k] k f by simp
  qed
qed

text \<open>What attaching to a free port does, by the presence and the answer of the driver.\<close>

definition attach_error :: "vhci_driver \<Rightarrow> socket_t \<Rightarrow> uint32_t \<Rightarrow> vhci_context \<Rightarrow> vhci_world \<Rightarrow> error_code" where
  "attach_error drv socket devid ctx w =
     (case vc_driver_handle ctx of
        None \<Rightarrow> ERR_VHCI_NOT_FOUND
      | Some h \<Rightarrow> if vd_ioctl drv (vw_calls w) (VhciPlug h socket devid) then ERR_SUCCESS else ERR_VHCI_ATTACH_FAILED)"

definition plugs :: "vhci_context \<Rightarrow> socket_t \<Rightarrow> uint32_t \<Rightarrow> vhci_call list" where
  "plugs ctx socket devid = (case vc_driver_handle ctx of None \<Rightarrow> [] | Some h \<Rightarrow> [VhciPlug h socket devid])"

lemma vhci_attach_free:
  fixes device :: usbip_usb_device and drv :: vhci_driver and socket :: socket_t and w :: vhci_world
  assumes "vhci_inv ctx" and "vc_initialized ctx" and "k < 8" and "vp_state (vc_ports ctx ! k) = VHCI_PORT_FREE"
  defines "devid \<equiv> push_bit 16 (ud_busnum device) OR ud_devnum device"
  defines "e \<equiv> attach_error drv socket devid ctx w"
  shows "vhci_attach drv (int k) socket device ip sport ctx w =
    (e, ctx\<lparr>vc_ports := (vc_ports ctx)[k := connecting_port device ip sport (vc_ports ctx ! k)
          \<lparr>vp_state := (if e = ERR_SUCCESS then VHCI_PORT_CONNECTED else VHCI_PORT_ERROR)\<rparr>]\<rparr>,
     w\<lparr>vw_calls := vw_calls w @ plugs ctx socket devid\<rparr>)"
proof -
  have "vc_max_ports ctx = 8" using assms(1,2) by (simp add: vhci_inv_def)
  moreover have "vp_devid (connecting_port device ip sport p) = devid" for p
    by (simp add: connecting_port_def devid_def)
  ultimately show ?thesis using assms(2-4)
    by (auto simp: vhci_attach_def e_def attach_error_def plugs_def port_at_def set_port_def called_def Let_def
      split: option.splits)
qed

section \<open>Properties\<close>

definition sample_driver :: vhci_driver where
  "sample_driver = \<lparr>vd_open = (\<lambda>_. Some 7), vd_ioctl = (\<lambda>_ _. True)\<rparr>"

definition fresh_world :: vhci_world where
  "fresh_world = \<lparr>vw_driver_available = False, vw_checked_driver = False, vw_calls = []\<rparr>"

definition sample_vhci :: "vhci_context \<times> vhci_world" where
  "sample_vhci = snd (vhci_init sample_driver True fresh_world)"

definition sample_vhci_used :: "vhci_context \<times> vhci_world" where
  "sample_vhci_used =
     (case sample_vhci of (ctx, w) \<Rightarrow>
        snd (vhci_attach sample_driver 0 21 zero_device (Some [49, 0]) 3240 ctx w))"

lemma sample_vhci_reachable: "vhci_reachable sample_driver (fst sample_vhci) (snd sample_vhci)"
  by (rule vhci_reachable.init[of _ True fresh_world "fst (vhci_init sample_driver True fresh_world)"])
    (simp add: sample_vhci_def)

lemma sample_vhci_used_reachable: "vhci_reachable sample_driver (fst sample_vhci_used) (snd sample_vhci_used)"
proof (rule vhci_reachable.step[OF sample_vhci_reachable], rule vhci_step.attach)
  show "vhci_attach sample_driver 0 21 zero_device (Some [49, 0]) 3240 (fst sample_vhci) (snd sample_vhci) =
    (fst (vhci_attach sample_driver 0 21 zero_device (Some [49, 0]) 3240 (fst sample_vhci) (snd sample_vhci)),
     fst sample_vhci_used, snd sample_vhci_used)"
    by (simp add: sample_vhci_used_def case_prod_unfold)
qed

text \<open>
  In every state the client can bring the controller into (initialization, then any
  sequence of attach, detach, detach-all and cleanup, whatever the driver answers), the table
  has eight ports, each with its own number, in state free, connected or error, with empty
  names and zero identifiers when free, and connected only with an open driver. In such a
  state \<^verbatim>\<open>Vhci_find_free_port\<close> returns the lowest free port, and -1 only when no port is free.
\<close>

lemma vhci_ports_invariant:
  assumes "vhci_reachable drv ctx w" and "vc_initialized ctx"
  shows "length (vc_ports ctx) = 8 \<and> (\<forall>i < 8. port_ok (vc_driver_handle ctx) i (vc_ports ctx ! i)) \<and>
    (vhci_find_free_port ctx = -1 \<and> (\<forall>p \<in> set (vc_ports ctx). vp_state p \<noteq> VHCI_PORT_FREE) \<or>
     (\<exists>k < 8. vhci_find_free_port ctx = int k \<and> vp_state (vc_ports ctx ! k) = VHCI_PORT_FREE \<and>
        (\<forall>j < k. vp_state (vc_ports ctx ! j) \<noteq> VHCI_PORT_FREE)))"
proof -
  have inv: "vhci_inv ctx" by (rule vhci_reachable_inv[OF assms(1)])
  then have "length (vc_ports ctx) = 8" "\<forall>i < 8. port_ok (vc_driver_handle ctx) i (vc_ports ctx ! i)"
    using assms(2) by (simp_all add: vhci_inv_def)
  then show ?thesis by (cases rule: vhci_find_free_port_cases[OF inv assms(2)]) blast+
qed

lemma vhci_ports_invariant_example:
  "vc_initialized (fst sample_vhci_used) \<and>
   (\<exists>k < 8. vhci_find_free_port (fst sample_vhci_used) = int k \<and> k = 1)"
proof -
  have i: "vc_initialized (fst sample_vhci_used)" by code_simp
  moreover have "vhci_find_free_port (fst sample_vhci_used) = 1" by code_simp
  ultimately show ?thesis using vhci_ports_invariant[OF sample_vhci_used_reachable i] by auto
qed

text \<open>
  \<^verbatim>\<open>vhci_detach_all\<close> frees every port, whatever the driver answers, and asks the driver to
  unplug exactly the ports that were in use, once each and in ascending order (none without a
  driver); a port that was free is left untouched.
\<close>

lemma vhci_detach_all_exact:
  assumes "vhci_reachable drv ctx w" and "vc_initialized ctx" and "vhci_detach_all ctx w = (ctx', w')"
  shows "(\<forall>p \<in> set (vc_ports ctx'). vp_state p = VHCI_PORT_FREE) \<and>
    (\<forall>i < 8. vp_state (vc_ports ctx ! i) = VHCI_PORT_FREE \<longrightarrow> vc_ports ctx' ! i = vc_ports ctx ! i) \<and>
    vw_calls w' = vw_calls w @
      (case vc_driver_handle ctx of None \<Rightarrow> []
       | Some h \<Rightarrow> map (\<lambda>i. VhciUnplug h (word_of_nat i))
                     (filter (\<lambda>i. vp_state (vc_ports ctx ! i) \<noteq> VHCI_PORT_FREE) [0..<8]))"
proof -
  have inv: "vhci_inv ctx" by (rule vhci_reachable_inv[OF assms(1)])
  have r: "ctx' = ctx\<lparr>vc_ports := map free_again (vc_ports ctx)\<rparr>"
    "w' = w\<lparr>vw_calls := vw_calls w @ unplugs ctx [0..<8]\<rparr>"
    using vhci_detach_all_eq[OF inv assms(2), of w] assms(3) by simp_all
  have "length (vc_ports ctx) = 8" using inv assms(2) by (simp add: vhci_inv_def)
  then show ?thesis using r by (auto simp: unplugs_def free_again_def split: option.splits)
qed

lemma vhci_detach_all_exact_example:
  "vc_initialized (fst sample_vhci_used) \<and>
   vw_calls (snd (vhci_detach_all (fst sample_vhci_used) (snd sample_vhci_used))) =
     [VhciOpen, VhciClose 7, VhciOpen, VhciPlug 7 21 0, VhciUnplug 7 0]"
proof -
  have i: "vc_initialized (fst sample_vhci_used)" by code_simp
  have c: "vw_calls (snd sample_vhci_used) = [VhciOpen, VhciClose 7, VhciOpen, VhciPlug 7 21 0]"
    "vc_driver_handle (fst sample_vhci_used) = Some 7"
    "filter (\<lambda>i. vp_state (vc_ports (fst sample_vhci_used) ! i) \<noteq> VHCI_PORT_FREE) [0..<8] = [0]" by code_simp+
  show ?thesis
    using vhci_detach_all_exact[OF sample_vhci_used_reachable i prod.collapse[symmetric]] i
    unfolding c by simp
qed

end
