(* ===== verification/Remote_Device.thy ===== *)
theory Remote_Device
  imports Vhci Auth Socket_Setup
begin

text \<open>
  Devices attached by the client, \<^verbatim>\<open>client/remote_device.h\<close> and \<^verbatim>\<open>client/remote_device.c\<close>:
  connecting to a server, presenting the token, importing a device and handing the connection
  to the virtual host controller, and the device-list request. \<open>client_sys\<close> holds the list of
  attached devices (nodes from the head, with their addresses), the controller, the trace of
  the driver and the trace of socket calls. The connection that a connect establishes is the
  argument \<open>conn\<close>; a function that waits for the peer for ever returns \<open>None\<close>. The program has
  one controller, so a pointer to it is a truth value, \<open>False\<close> for a null pointer.
\<close>

section \<open>Data\<close>

datatype remote_device_state =
  REMOTE_DEV_STATE_DISCONNECTED | REMOTE_DEV_STATE_CONNECTING | REMOTE_DEV_STATE_CONNECTED
  | REMOTE_DEV_STATE_ACTIVE | REMOTE_DEV_STATE_ERROR

record remote_device =
  rd_server_ip :: cbuf
  rd_server_port :: uint16_t
  rd_socket :: socket_t
  rd_device_info :: usbip_usb_device
  rd_busid :: cbuf
  rd_vhci :: bool
  rd_vhci_port :: int
  rd_state :: remote_device_state
  rd_running :: bool
  rd_urbs_sent :: uint64_t
  rd_urbs_received :: uint64_t
  rd_bytes_sent :: uint64_t
  rd_bytes_received :: uint64_t
  rd_seqnum :: uint32_t

record remote_device_list =
  rl_head :: "(nat \<times> remote_device) list"
  rl_count :: int
  rl_initialized :: bool

record client_sys =
  cl_list :: remote_device_list
  cl_vhci :: vhci_context
  cl_world :: vhci_world
  cl_net :: "sys_call list"

abbreviation (input) CONNECTION_TIMEOUT_MS :: uint32_t where "CONNECTION_TIMEOUT_MS \<equiv> 30000"

definition remote_device_state_string :: "remote_device_state \<Rightarrow> string" where
  "remote_device_state_string state =
     (case state of
        REMOTE_DEV_STATE_DISCONNECTED \<Rightarrow> ''Disconnected''
      | REMOTE_DEV_STATE_CONNECTING \<Rightarrow> ''Connecting''
      | REMOTE_DEV_STATE_CONNECTED \<Rightarrow> ''Connected''
      | REMOTE_DEV_STATE_ACTIVE \<Rightarrow> ''Active''
      | REMOTE_DEV_STATE_ERROR \<Rightarrow> ''Error'')"

section \<open>Life of a device structure\<close>

definition new_remote_device :: remote_device where
  "new_remote_device =
     \<lparr>rd_server_ip = replicate 64 0, rd_server_port = 0, rd_socket = INVALID_SOCKET_VAL,
      rd_device_info = zero_device, rd_busid = replicate 32 0, rd_vhci = False, rd_vhci_port = -1,
      rd_state = REMOTE_DEV_STATE_DISCONNECTED, rd_running = False, rd_urbs_sent = 0, rd_urbs_received = 0,
      rd_bytes_sent = 0, rd_bytes_received = 0, rd_seqnum = 1\<rparr>"

definition create_remote_device :: "nat option \<Rightarrow> (nat \<times> remote_device) option" where
  "create_remote_device calloc = map_option (\<lambda>p. (p, new_remote_device)) calloc"

text \<open>
  The forwarding thread only waits: \<open>reads\<close> are the values of \<open>device->running\<close> it reads, one
  per turn; \<open>None\<close> when none of them is false.
\<close>

definition forward_thread_func :: "bool list \<Rightarrow> remote_device \<Rightarrow> remote_device option" where
  "forward_thread_func reads device =
     (if False \<in> set reads then Some (device\<lparr>rd_state := REMOTE_DEV_STATE_ACTIVE\<rparr>) else None)"

definition remote_device_start_forwarding :: "bool \<Rightarrow> remote_device \<Rightarrow> error_code \<times> remote_device" where
  "remote_device_start_forwarding thread_ok device =
     (if rd_running device then (ERR_INVALID_PARAM, device)
      else
        let device = device\<lparr>rd_running := True\<rparr>
        in if \<not> thread_ok then (ERR_THREAD_CREATE, device\<lparr>rd_running := False\<rparr>) else (ERR_SUCCESS, device))"

definition remote_device_stop_forwarding :: "remote_device \<Rightarrow> remote_device" where
  "remote_device_stop_forwarding device =
     (if \<not> rd_running device then device else device\<lparr>rd_running := False\<rparr>)"

definition free_remote_device :: "remote_device \<Rightarrow> client_sys \<Rightarrow> client_sys" where
  "free_remote_device device s =
     (let device = remote_device_stop_forwarding device;
          s = (if socket_is_valid (rd_socket device)
               then s\<lparr>cl_net := cl_net s @ socket_close (rd_socket device)\<rparr> else s)
      in if rd_vhci device \<and> rd_vhci_port device \<ge> 0 then
           (case vhci_detach (rd_vhci_port device) (cl_vhci s) (cl_world s) of
              (err, ctx, w) \<Rightarrow> s\<lparr>cl_vhci := ctx, cl_world := w\<rparr>)
         else s)"

section \<open>The list\<close>

definition remote_device_list_init :: "bool \<Rightarrow> error_code \<times> remote_device_list" where
  "remote_device_list_init mutex_ok =
     (let l = \<lparr>rl_head = [], rl_count = 0, rl_initialized = False\<rparr>
      in if \<not> mutex_ok then (ERR_MUTEX_INIT, l) else (ERR_SUCCESS, l\<lparr>rl_initialized := True\<rparr>))"

fun find_remote :: "(remote_device \<Rightarrow> bool) \<Rightarrow> (nat \<times> remote_device) list \<Rightarrow> nat option" where
  "find_remote P [] = None"
| "find_remote P ((p, d) # ns) = (if P d then Some p else find_remote P ns)"

definition remote_device_find_by_port :: "remote_device_list \<Rightarrow> int \<Rightarrow> nat option" where
  "remote_device_find_by_port l port =
     (if \<not> rl_initialized l then None else find_remote (\<lambda>d. rd_vhci_port d = port) (rl_head l))"

definition remote_device_find_by_busid :: "remote_device_list \<Rightarrow> cbuf \<Rightarrow> nat option" where
  "remote_device_find_by_busid l busid =
     (if \<not> rl_initialized l then None else find_remote (\<lambda>d. streq (rd_busid d) busid) (rl_head l))"

definition remote_device_count :: "remote_device_list \<Rightarrow> int" where
  "remote_device_count l = rl_count l"

fun unlink_remote :: "nat \<Rightarrow> (nat \<times> remote_device) list \<Rightarrow> (nat \<times> remote_device) list \<times> remote_device option" where
  "unlink_remote device [] = ([], None)"
| "unlink_remote device ((p, d) # ns) =
     (if p = device then (ns, Some d)
      else case unlink_remote device ns of (ns', r) \<Rightarrow> ((p, d) # ns', r))"

definition remote_device_disconnect :: "nat \<Rightarrow> client_sys \<Rightarrow> error_code \<times> client_sys" where
  "remote_device_disconnect device s =
     (case unlink_remote device (rl_head (cl_list s)) of
        (ns, Some d) \<Rightarrow>
          (ERR_SUCCESS, free_remote_device d
             (s\<lparr>cl_list := (cl_list s)\<lparr>rl_head := ns, rl_count := rl_count (cl_list s) - 1\<rparr>\<rparr>))
      | (ns, None) \<Rightarrow> (ERR_NOT_FOUND, s))"

definition remote_device_disconnect_port :: "int \<Rightarrow> client_sys \<Rightarrow> error_code \<times> client_sys" where
  "remote_device_disconnect_port port s =
     (case remote_device_find_by_port (cl_list s) port of
        None \<Rightarrow> (ERR_NOT_FOUND, s)
      | Some p \<Rightarrow> remote_device_disconnect p s)"

lemma unlink_remote_hd: "unlink_remote p ((p, d) # ns) = (ns, Some d)" by simp

lemma free_remote_device_list [simp]: "cl_list (free_remote_device d s) = cl_list s"
  by (simp add: free_remote_device_def Let_def split: prod.splits)

text \<open>The loop ends because each turn unlinks the head.\<close>

function disconnect_remotes :: "client_sys \<Rightarrow> client_sys" where
  "disconnect_remotes s =
     (if rl_head (cl_list s) = [] then s
      else disconnect_remotes (snd (remote_device_disconnect (fst (hd (rl_head (cl_list s)))) s)))"
  by pat_completeness auto
termination
proof (relation "measure (\<lambda>s. length (rl_head (cl_list s)))")
  fix s :: client_sys assume "rl_head (cl_list s) \<noteq> []"
  then obtain p d ns where "rl_head (cl_list s) = (p, d) # ns" by (metis list.exhaust surj_pair)
  then show "(snd (remote_device_disconnect (fst (hd (rl_head (cl_list s)))) s), s)
      \<in> measure (\<lambda>s. length (rl_head (cl_list s)))"
    by (simp add: remote_device_disconnect_def)
qed simp

declare disconnect_remotes.simps [simp del]

definition remote_device_disconnect_all :: "client_sys \<Rightarrow> client_sys" where
  "remote_device_disconnect_all s = (if \<not> rl_initialized (cl_list s) then s else disconnect_remotes s)"

definition remote_device_list_cleanup :: "client_sys \<Rightarrow> client_sys" where
  "remote_device_list_cleanup s =
     (if \<not> rl_initialized (cl_list s) then s
      else let s = remote_device_disconnect_all s
           in s\<lparr>cl_list := (cl_list s)\<lparr>rl_initialized := False\<rparr>\<rparr>)"

section \<open>Connecting\<close>

text \<open>\<open>remote_device_set_token\<close> stores the pointer; the value then is the argument \<open>token\<close>.\<close>

definition remote_device_set_token :: "cbuf option \<Rightarrow> cbuf option \<Rightarrow> cbuf option" where
  "remote_device_set_token token g_auth_token = token"

definition connected_device :: "cbuf \<Rightarrow> uint16_t \<Rightarrow> cbuf \<Rightarrow> bool \<Rightarrow> remote_device \<Rightarrow> remote_device" where
  "connected_device server_ip server_port busid vhci device =
     device\<lparr>rd_server_ip := str_copy (rd_server_ip device) server_ip 64, rd_server_port := server_port,
       rd_busid := str_copy (rd_busid device) busid 32, rd_vhci := vhci,
       rd_state := REMOTE_DEV_STATE_CONNECTING\<rparr>"

definition link_remote :: "nat \<Rightarrow> remote_device \<Rightarrow> client_sys \<Rightarrow> client_sys" where
  "link_remote p device s =
     s\<lparr>cl_list := (cl_list s)\<lparr>rl_head := (p, device\<lparr>rd_state := REMOTE_DEV_STATE_CONNECTED\<rparr>) # rl_head (cl_list s),
                  rl_count := rl_count (cl_list s) + 1\<rparr>\<rparr>"

text \<open>The end of \<open>remote_device_connect\<close>, from the search for a port on.\<close>

definition attach_remote :: "vhci_driver \<Rightarrow> cbuf \<Rightarrow> uint16_t \<Rightarrow> nat \<Rightarrow> remote_device \<Rightarrow> client_sys
    \<Rightarrow> error_code \<times> nat option \<times> client_sys" where
  "attach_remote drv server_ip server_port p device s =
     (if rd_vhci device then
        let device = device\<lparr>rd_vhci_port := vhci_find_free_port (cl_vhci s)\<rparr>
        in if rd_vhci_port device < 0 then (ERR_VHCI_NO_FREE_PORT, None, free_remote_device device s)
           else case vhci_attach drv (rd_vhci_port device) (rd_socket device) (rd_device_info device)
                       (Some server_ip) server_port (cl_vhci s) (cl_world s) of
             (err, ctx, w) \<Rightarrow>
               let s = s\<lparr>cl_vhci := ctx, cl_world := w\<rparr>
               in if err \<noteq> ERR_SUCCESS then (err, None, free_remote_device device s)
                  else (ERR_SUCCESS, Some p, link_remote p device s)
      else (ERR_SUCCESS, Some p, link_remote p device s))"

text \<open>The exchange with the server once it is connected.\<close>

definition import_remote :: "cbuf option \<Rightarrow> vhci_driver \<Rightarrow> cbuf \<Rightarrow> uint16_t \<Rightarrow> cbuf \<Rightarrow> nat \<Rightarrow> remote_device
    \<Rightarrow> client_sys \<Rightarrow> conn \<Rightarrow> (error_code \<times> nat option \<times> client_sys \<times> conn) option" where
  "import_remote token drv server_ip server_port busid p device s c =
     (case (if auth_is_enabled token then auth_client_handshake token c else (ERR_SUCCESS, c)) of (auth_err, c) \<Rightarrow>
        if auth_err \<noteq> ERR_SUCCESS then
          Some (auth_err, None, free_remote_device device (s\<lparr>cl_net := cl_net s @ socket_close (rd_socket device)\<rparr>), c)
        else
          let import_req = usbip_create_import_request (Some busid)
          in case send_mem 8 (mem_header_basic (usbip_pack_header_basic (iq_header import_req))) c of (e1, c) \<Rightarrow>
             if e1 \<noteq> ERR_SUCCESS then Some (ERR_SOCKET_SEND, None, free_remote_device device s, c)
             else case send_mem 32 (iq_busid import_req) c of (e2, c) \<Rightarrow>
               if e2 \<noteq> ERR_SUCCESS then Some (ERR_SOCKET_SEND, None, free_remote_device device s, c)
               else do {
                 (r, c) \<leftarrow> usbip_recv_header_basic c;
                 (case r of
                    Inl err \<Rightarrow> Some (ERR_SOCKET_RECV, None, free_remote_device device s, c)
                  | Inr reply_header \<Rightarrow>
                      if hb_status reply_header \<noteq> USBIP_ST_OK then
                        Some (if hb_status reply_header = USBIP_ST_DEV_BUSY then ERR_DEVICE_BUSY else ERR_USB_NOT_FOUND,
                              None, free_remote_device device s, c)
                      else do {
                        (r, c) \<leftarrow> usbip_recv_device c;
                        (case r of
                           Inl err \<Rightarrow> Some (ERR_SOCKET_RECV, None, free_remote_device device s, c)
                         | Inr d \<Rightarrow>
                             (case attach_remote drv server_ip server_port p (device\<lparr>rd_device_info := d\<rparr>) s of
                                (err, out, s) \<Rightarrow> Some (err, out, s, c)))
                      })
               })"

definition remote_device_connect :: "winsock \<Rightarrow> vhci_driver \<Rightarrow> cbuf option \<Rightarrow> nat option \<Rightarrow> bool \<Rightarrow> cbuf \<Rightarrow> uint16_t
    \<Rightarrow> cbuf \<Rightarrow> client_sys \<Rightarrow> conn \<Rightarrow> (error_code \<times> nat option \<times> client_sys \<times> conn) option" where
  "remote_device_connect os drv token calloc vhci server_ip server_port busid s c =
     (case create_remote_device calloc of
        None \<Rightarrow> Some (ERR_OUT_OF_MEMORY, None, s, c)
      | Some (p, device) \<Rightarrow>
          let device = connected_device server_ip server_port busid vhci device;
              (sock, tr) = tcp_client_connect_timeout os server_ip server_port CONNECTION_TIMEOUT_MS;
              device = device\<lparr>rd_socket := sock\<rparr>;
              s = s\<lparr>cl_net := cl_net s @ tr\<rparr>
          in if \<not> socket_is_valid (rd_socket device) then Some (ERR_SOCKET_CONNECT, None, free_remote_device device s, c)
             else import_remote token drv server_ip server_port busid p device s c)"

section \<open>The device-list request\<close>

text \<open>
  Reading past \<open>n\<close> interface records; a failed read ends the loop. Then the loop over the
  announced devices: \<open>n\<close> announced ones are left, \<open>devices\<close> is the filled part of the array.
\<close>

fun skip_interfaces :: "nat \<Rightarrow> conn \<Rightarrow> conn option" where
  "skip_interfaces 0 c = Some c"
| "skip_interfaces (Suc n) c = do {
     (r, c) \<leftarrow> usbip_recv_interface c;
     (case r of Inl err \<Rightarrow> Some c | Inr iface \<Rightarrow> skip_interfaces n c)
   }"

fun recv_devices_loop :: "nat \<Rightarrow> int \<Rightarrow> usbip_usb_device list \<Rightarrow> conn \<Rightarrow> (usbip_usb_device list \<times> conn) option" where
  "recv_devices_loop 0 max_devices devices c = Some (devices, c)"
| "recv_devices_loop (Suc n) max_devices devices c =
     (if int (length devices) < max_devices then do {
        (r, c) \<leftarrow> usbip_recv_device c;
        (case r of
           Inl err \<Rightarrow> Some (devices, c)
         | Inr dev \<Rightarrow> do {
             c \<leftarrow> skip_interfaces (unat (ud_bNumInterfaces dev)) c;
             recv_devices_loop n max_devices (devices @ [dev]) c
           })
      }
      else Some (devices, c))"

text \<open>The result is the error code, the devices received, the socket calls and the connection.\<close>

definition request_devices :: "cbuf option \<Rightarrow> int \<Rightarrow> conn \<Rightarrow> (error_code \<times> usbip_usb_device list \<times> conn) option" where
  "request_devices token max_devices c =
     (case (if auth_is_enabled token then auth_client_handshake token c else (ERR_SUCCESS, c)) of (auth_err, c) \<Rightarrow>
        if auth_err \<noteq> ERR_SUCCESS then Some (auth_err, [], c)
        else case send_mem 8 (mem_header_basic (usbip_pack_header_basic usbip_create_devlist_request)) c of (e1, c) \<Rightarrow>
          if e1 \<noteq> ERR_SUCCESS then Some (ERR_SOCKET_SEND, [], c)
          else do {
            (r, c) \<leftarrow> usbip_recv_header_basic c;
            (case r of
               Inl err \<Rightarrow> Some (ERR_SOCKET_RECV, [], c)
             | Inr reply_header \<Rightarrow>
                 if hb_status reply_header \<noteq> USBIP_ST_OK then Some (ERR_PROTOCOL_INVALID, [], c)
                 else do {
                   (ret, bs, c) \<leftarrow> net_recv_all 4 c;
                   if ret \<noteq> 4 then Some (ERR_SOCKET_RECV, [], c)
                   else do {
                     let ndev = be32toh (load32 bs 0);
                     (devices, c) \<leftarrow> recv_devices_loop (unat ndev) max_devices [] c;
                     Some (ERR_SUCCESS, devices, c)
                   }
                 })
          })"

definition remote_server_list_devices :: "winsock \<Rightarrow> cbuf option \<Rightarrow> cbuf \<Rightarrow> uint16_t \<Rightarrow> int \<Rightarrow> conn
    \<Rightarrow> (error_code \<times> usbip_usb_device list \<times> sys_call list \<times> conn) option" where
  "remote_server_list_devices os token server_ip server_port max_devices c =
     (case tcp_client_connect_timeout os server_ip server_port CONNECTION_TIMEOUT_MS of (sock, tr) \<Rightarrow>
        if \<not> socket_is_valid sock then Some (ERR_SOCKET_CONNECT, [], tr, c)
        else do {
          (err, devices, c) \<leftarrow> request_devices token max_devices c;
          Some (err, devices, tr @ socket_close sock, c)
        })"

section \<open>Outcomes of a connect\<close>

lemma free_remote_device_net [simp]:
  "cl_net (free_remote_device d s) = cl_net s @ socket_close (rd_socket d)"
  by (auto simp: free_remote_device_def remote_device_stop_forwarding_def socket_is_valid_def socket_close_def Let_def
      split: prod.splits)

lemma free_remote_device_no_port:
  "rd_vhci_port d < 0 \<or> \<not> rd_vhci d \<Longrightarrow>
   free_remote_device d s = s\<lparr>cl_net := cl_net s @ socket_close (rd_socket d)\<rparr>"
  by (auto simp: free_remote_device_def remote_device_stop_forwarding_def socket_is_valid_def socket_close_def Let_def)

lemma vhci_detach_used:
  assumes "vhci_inv ctx" and "vc_initialized ctx" and "k < 8" and "vp_state (vc_ports ctx ! k) \<noteq> VHCI_PORT_FREE"
  shows "vhci_detach (int k) ctx w =
    (ERR_SUCCESS, ctx\<lparr>vc_ports := (vc_ports ctx)[k := clear_port (vc_ports ctx ! k)]\<rparr>,
     w\<lparr>vw_calls := vw_calls w @ unplugs ctx [k]\<rparr>)"
  using assms
  by (auto simp: vhci_detach_def vhci_inv_def Let_def port_at_def set_port_def unplugs_def called_def split: option.splits)

lemma free_remote_device_port:
  assumes "vhci_inv (cl_vhci s)" and "vc_initialized (cl_vhci s)" and "k < 8"
    and "vp_state (vc_ports (cl_vhci s) ! k) \<noteq> VHCI_PORT_FREE" and "rd_vhci d" and "rd_vhci_port d = int k"
  shows "free_remote_device d s =
    s\<lparr>cl_net := cl_net s @ socket_close (rd_socket d),
      cl_vhci := (cl_vhci s)\<lparr>vc_ports := (vc_ports (cl_vhci s))[k := clear_port (vc_ports (cl_vhci s) ! k)]\<rparr>,
      cl_world := (cl_world s)\<lparr>vw_calls := vw_calls (cl_world s) @ unplugs (cl_vhci s) [k]\<rparr>\<rparr>"
  using vhci_detach_used[OF assms(1-4)] assms(5,6)
  by (auto simp: free_remote_device_def remote_device_stop_forwarding_def socket_is_valid_def socket_close_def Let_def)

text \<open>The port of an attached device, and a context whose port \<open>k\<close> was replaced.\<close>

definition with_port :: "nat \<Rightarrow> vhci_port_info \<Rightarrow> vhci_context \<Rightarrow> vhci_context" where
  "with_port k q ctx = ctx\<lparr>vc_ports := (vc_ports ctx)[k := q]\<rparr>"

lemma with_port_fields [simp]:
  "vc_initialized (with_port k q ctx) = vc_initialized ctx"
  "vc_driver_handle (with_port k q ctx) = vc_driver_handle ctx"
  "length (vc_ports (with_port k q ctx)) = length (vc_ports ctx)"
  by (simp_all add: with_port_def)

lemma with_port_inv:
  "vhci_inv ctx \<Longrightarrow> vc_initialized ctx \<Longrightarrow> port_ok (vc_driver_handle ctx) k q \<Longrightarrow> vhci_inv (with_port k q ctx)"
  by (auto simp: vhci_inv_def with_port_def nth_update)

lemma with_port_nth:
  "k < length (vc_ports ctx) \<Longrightarrow> vc_ports (with_port k q ctx) ! i = (if i = k then q else vc_ports ctx ! i)"
  by (simp add: with_port_def nth_list_update)

lemma connecting_clear_ok:
  assumes "port_ok d k p"
  shows "port_ok d k (clear_port (connecting_port device ip sport p))"
  using port_ok_clear[OF port_ok_attached[OF assms, of VHCI_PORT_ERROR device ip sport], of VHCI_PORT_ERROR] by simp

lemma attach_remote_cases:
  assumes inv: "vhci_inv (cl_vhci s)" "vc_initialized (cl_vhci s)" and v: "rd_vhci device"
    and r: "attach_remote drv server_ip server_port p device s = (err, out, s')"
  obtains (no_port) "err = ERR_VHCI_NO_FREE_PORT" and "out = None"
      and "s' = s\<lparr>cl_net := cl_net s @ socket_close (rd_socket device)\<rparr>"
      and "\<forall>q \<in> set (vc_ports (cl_vhci s)). vp_state q \<noteq> VHCI_PORT_FREE"
  | (failed) k q w where "err \<noteq> ERR_SUCCESS" and "out = None" and "k < 8"
      and "vp_state (vc_ports (cl_vhci s) ! k) = VHCI_PORT_FREE"
      and "vp_state q = VHCI_PORT_FREE" and "port_ok (vc_driver_handle (cl_vhci s)) k q"
      and "s' = s\<lparr>cl_net := cl_net s @ socket_close (rd_socket device), cl_vhci := with_port k q (cl_vhci s), cl_world := w\<rparr>"
  | (attached) k q w where "err = ERR_SUCCESS" and "out = Some p" and "k < 8"
      and "vp_state (vc_ports (cl_vhci s) ! k) = VHCI_PORT_FREE"
      and "\<forall>j < k. vp_state (vc_ports (cl_vhci s) ! j) \<noteq> VHCI_PORT_FREE"
      and "vp_state q = VHCI_PORT_CONNECTED" and "port_ok (vc_driver_handle (cl_vhci s)) k q"
      and "q = connecting_port (rd_device_info device) (Some server_ip) server_port (vc_ports (cl_vhci s) ! k)
                 \<lparr>vp_state := VHCI_PORT_CONNECTED\<rparr>"
      and "w = (cl_world s)\<lparr>vw_calls := vw_calls (cl_world s) @ plugs (cl_vhci s) (rd_socket device)
                 (push_bit 16 (ud_busnum (rd_device_info device)) OR ud_devnum (rd_device_info device))\<rparr>"
      and "s' = link_remote p (device\<lparr>rd_vhci_port := int k\<rparr>) (s\<lparr>cl_vhci := with_port k q (cl_vhci s), cl_world := w\<rparr>)"
  using inv
proof (cases rule: vhci_find_free_port_cases)
  case 1
  then have "err = ERR_VHCI_NO_FREE_PORT" "out = None" "s' = s\<lparr>cl_net := cl_net s @ socket_close (rd_socket device)\<rparr>"
    using r v by (auto simp: attach_remote_def free_remote_device_no_port Let_def)
  then show ?thesis using 1(2) no_port by blast
next
  case (2 k)
  let ?c = "cl_vhci s"
  let ?d = "rd_device_info device"
  let ?devid = "push_bit 16 (ud_busnum ?d) OR ud_devnum ?d"
  let ?e = "attach_error drv (rd_socket device) ?devid ?c (cl_world s)"
  let ?q = "connecting_port ?d (Some server_ip) server_port (vc_ports ?c ! k)"
  let ?w = "(cl_world s)\<lparr>vw_calls := vw_calls (cl_world s) @ plugs ?c (rd_socket device) ?devid\<rparr>"
  let ?st = "if ?e = ERR_SUCCESS then VHCI_PORT_CONNECTED else VHCI_PORT_ERROR"
  have len: "length (vc_ports ?c) = 8" and ok: "port_ok (vc_driver_handle ?c) k (vc_ports ?c ! k)"
    using inv 2(2) by (auto simp: vhci_inv_def)
  have a: "vhci_attach drv (int k) (rd_socket device) ?d (Some server_ip) server_port ?c (cl_world s) =
      (?e, with_port k (?q\<lparr>vp_state := ?st\<rparr>) ?c, ?w)"
    unfolding with_port_def by (rule vhci_attach_free[OF inv 2(2,3)])
  show ?thesis
  proof (cases "?e = ERR_SUCCESS")
    case True
    then have "vc_driver_handle ?c \<noteq> None" by (auto simp: attach_error_def split: option.splits)
    then have "port_ok (vc_driver_handle ?c) k (?q\<lparr>vp_state := VHCI_PORT_CONNECTED\<rparr>)"
      by (intro port_ok_attached[OF ok]) simp
    moreover have "err = ERR_SUCCESS \<and> out = Some p \<and> s' = link_remote p (device\<lparr>rd_vhci_port := int k\<rparr>)
        (s\<lparr>cl_vhci := with_port k (?q\<lparr>vp_state := VHCI_PORT_CONNECTED\<rparr>) ?c, cl_world := ?w\<rparr>)"
      using r v a True 2(1) by (simp add: attach_remote_def Let_def)
    ultimately show ?thesis using attached[of k "?q\<lparr>vp_state := VHCI_PORT_CONNECTED\<rparr>" ?w] 2 by simp
  next
    case False
    let ?s = "s\<lparr>cl_vhci := with_port k (?q\<lparr>vp_state := VHCI_PORT_ERROR\<rparr>) ?c, cl_world := ?w\<rparr>"
    let ?dv = "device\<lparr>rd_vhci_port := int k\<rparr>"
    have i: "vhci_inv (cl_vhci ?s)" "vc_initialized (cl_vhci ?s)"
      using with_port_inv[OF inv] port_ok_attached[OF ok] inv(2) by simp_all
    have u: "vp_state (vc_ports (cl_vhci ?s) ! k) \<noteq> VHCI_PORT_FREE" "rd_vhci ?dv" "rd_vhci_port ?dv = int k"
      using len 2(2) v by (simp_all add: with_port_nth)
    have "err = ?e \<and> out = None \<and> s' = free_remote_device ?dv ?s"
      using r v a False 2(1) by (simp add: attach_remote_def Let_def)
    then show ?thesis
      using failed[of k "clear_port ?q" "(cl_world ?s)\<lparr>vw_calls := vw_calls (cl_world ?s) @ unplugs (cl_vhci ?s) [k]\<rparr>"]
        connecting_clear_ok[OF ok] False 2(2,3) len
      unfolding free_remote_device_port[OF i 2(2) u] by (simp add: with_port_def)
  qed
qed

text \<open>Whether the client could present its token.\<close>

definition auth_failed :: "cbuf option \<Rightarrow> conn \<Rightarrow> bool" where
  "auth_failed token c \<longleftrightarrow> auth_is_enabled token \<and> fst (auth_client_handshake token c) \<noteq> ERR_SUCCESS"

lemma import_remote_cases:
  assumes "import_remote token drv server_ip server_port busid p device s c = Some (err, out, s', c')"
  obtains (auth) "auth_failed token c" and "err = fst (auth_client_handshake token c)" and "out = None"
      and "s' = free_remote_device device (s\<lparr>cl_net := cl_net s @ socket_close (rd_socket device)\<rparr>)"
  | (refused) "\<not> auth_failed token c" and "err \<noteq> ERR_SUCCESS" and "out = None" and "s' = free_remote_device device s"
  | (imported) d where "\<not> auth_failed token c"
      and "attach_remote drv server_ip server_port p (device\<lparr>rd_device_info := d\<rparr>) s = (err, out, s')"
proof -
  have "auth_failed token c \<and> err = fst (auth_client_handshake token c) \<and> out = None \<and>
      s' = free_remote_device device (s\<lparr>cl_net := cl_net s @ socket_close (rd_socket device)\<rparr>) \<or>
    \<not> auth_failed token c \<and> err \<noteq> ERR_SUCCESS \<and> out = None \<and> s' = free_remote_device device s \<or>
    \<not> auth_failed token c \<and>
      (\<exists>d. attach_remote drv server_ip server_port p (device\<lparr>rd_device_info := d\<rparr>) s = (err, out, s'))"
    using assms
    by (auto simp: import_remote_def auth_failed_def Let_def split: prod.splits if_splits sum.splits bind_splits)
  then show ?thesis using auth refused imported by blast
qed

lemma auth_client_handshake_error: "fst (auth_client_handshake token c) \<noteq> ERR_SOCKET_CONNECT"
  by (simp add: auth_client_handshake_def Let_def split: prod.splits)

lemma connect_timeout_cases:
  assumes "tcp_client_connect_timeout os host port ms = (sock, tr)"
  shows "sock = INVALID_SOCKET_VAL \<and> (ws_socket os = INVALID_SOCKET_VAL \<and> tr = [] \<or>
           ws_socket os \<noteq> INVALID_SOCKET_VAL \<and> count_list tr (SysClose (ws_socket os)) = 1) \<or>
    sock = ws_socket os \<and> ws_socket os \<noteq> INVALID_SOCKET_VAL \<and> count_list tr (SysClose (ws_socket os)) = 0"
  using assms
  by (auto simp: tcp_client_connect_timeout_def setup_defs Let_def
      split: option.splits io_answer.splits prod.splits if_splits)

section \<open>Attached devices and their ports\<close>

definition device_devid :: "usbip_usb_device \<Rightarrow> uint32_t" where
  "device_devid d = push_bit 16 (ud_busnum d) OR ud_devnum d"

text \<open>The device holds the connected port \<open>k\<close>, which shows its identifier.\<close>

definition holds_port :: "vhci_context \<Rightarrow> remote_device \<Rightarrow> nat \<Rightarrow> bool" where
  "holds_port ctx d k \<longleftrightarrow> k < 8 \<and> rd_vhci_port d = int k \<and>
     vp_state (vc_ports ctx ! k) = VHCI_PORT_CONNECTED \<and> vp_devid (vc_ports ctx ! k) = device_devid (rd_device_info d)"

definition used_ports :: "(nat \<times> remote_device) list \<Rightarrow> int list" where
  "used_ports ns = map (\<lambda>n. rd_vhci_port (snd n)) (filter (\<lambda>n. rd_vhci (snd n)) ns)"

lemma used_ports_simps [simp]:
  "used_ports [] = []"
  "used_ports (n # ns) = (if rd_vhci (snd n) then [rd_vhci_port (snd n)] else []) @ used_ports ns"
  "used_ports (ms @ ns) = used_ports ms @ used_ports ns"
  by (simp_all add: used_ports_def)

definition remotes_ok :: "vhci_context \<Rightarrow> (nat \<times> remote_device) list \<Rightarrow> bool" where
  "remotes_ok ctx ns \<longleftrightarrow> distinct (map fst ns) \<and> distinct (used_ports ns) \<and>
     (\<forall>n \<in> set ns. rd_vhci (snd n) \<longrightarrow> (\<exists>k. holds_port ctx (snd n) k))"

definition remote_inv :: "client_sys \<Rightarrow> bool" where
  "remote_inv s \<longleftrightarrow> vhci_inv (cl_vhci s) \<and> vc_initialized (cl_vhci s) \<and>
     rl_count (cl_list s) = int (length (rl_head (cl_list s))) \<and> remotes_ok (cl_vhci s) (rl_head (cl_list s))"

text \<open>Changing a port that no device of the list uses keeps the devices well attached.\<close>

lemma remotes_ok_with_port:
  assumes "remotes_ok ctx ns" and "length (vc_ports ctx) = 8" and "int k \<notin> set (used_ports ns)"
  shows "remotes_ok (with_port k q ctx) ns"
proof -
  have "holds_port (with_port k q ctx) (snd n) j"
    if "n \<in> set ns" "rd_vhci (snd n)" "holds_port ctx (snd n) j" for n j
  proof -
    have "int j \<in> set (used_ports ns)" using that by (force simp: used_ports_def holds_port_def)
    then have "j \<noteq> k" using assms(3) by auto
    then show ?thesis using that(3) by (simp add: holds_port_def with_port_def)
  qed
  then show ?thesis using assms(1) by (meson remotes_ok_def)
qed

lemma free_port_unused:
  assumes "remotes_ok ctx ns" and "vp_state (vc_ports ctx ! k) \<noteq> VHCI_PORT_CONNECTED"
  shows "int k \<notin> set (used_ports ns)"
proof
  assume "int k \<in> set (used_ports ns)"
  then obtain n where "n \<in> set ns" "rd_vhci (snd n)" "rd_vhci_port (snd n) = int k"
    by (auto simp: used_ports_def)
  with assms show False unfolding remotes_ok_def holds_port_def by (metis of_nat_eq_iff)
qed

lemma remotes_ok_Cons:
  assumes "remotes_ok ctx ns" and "p \<notin> set (map fst ns)"
    and "rd_vhci d \<Longrightarrow> holds_port ctx d k" and "rd_vhci d \<Longrightarrow> int k \<notin> set (used_ports ns)"
  shows "remotes_ok ctx ((p, d) # ns)"
  using assms by (auto simp: remotes_ok_def used_ports_def holds_port_def)

lemma unlink_remote_None: "unlink_remote p ns = (ns', None) \<Longrightarrow> ns' = ns"
  by (induction ns arbitrary: ns') (auto split: if_splits prod.splits)

lemma unlink_remote_Some:
  "unlink_remote p ns = (ns', Some d) \<Longrightarrow> \<exists>us vs. ns = us @ (p, d) # vs \<and> ns' = us @ vs"
proof (induction ns arbitrary: ns')
  case (Cons n ns)
  obtain a b where n: "n = (a, b)" by fastforce
  show ?case
  proof (cases "a = p")
    case True
    then show ?thesis using Cons.prems n by (auto intro: exI[of _ "[]"])
  next
    case False
    then obtain m where m: "unlink_remote p ns = (m, Some d)" "ns' = (a, b) # m"
      using Cons.prems n by (auto split: prod.splits)
    from Cons.IH[OF m(1)] obtain us vs where "ns = us @ (p, d) # vs" "m = us @ vs" by blast
    then have "n # ns = ((a, b) # us) @ (p, d) # vs \<and> ns' = ((a, b) # us) @ vs" using m n by simp
    then show ?thesis by blast
  qed
qed simp

lemma remotes_ok_unlink:
  assumes "remotes_ok ctx (us @ (p, d) # vs)"
  shows "remotes_ok ctx (us @ vs)" and "rd_vhci d \<Longrightarrow> rd_vhci_port d \<notin> set (used_ports (us @ vs))"
    and "rd_vhci d \<Longrightarrow> \<exists>k. holds_port ctx d k"
  using assms by (auto simp: remotes_ok_def split: if_splits)

lemma remote_device_disconnect_inv:
  assumes "remote_inv s"
  shows "remote_inv (snd (remote_device_disconnect p s))"
proof -
  let ?ns = "rl_head (cl_list s)"
  have i: "vhci_inv (cl_vhci s)" "vc_initialized (cl_vhci s)" "rl_count (cl_list s) = int (length ?ns)"
    "remotes_ok (cl_vhci s) ?ns" using assms by (auto simp: remote_inv_def)
  have len: "length (vc_ports (cl_vhci s)) = 8" using i by (simp add: vhci_inv_def)
  obtain ns' r where u: "unlink_remote p ?ns = (ns', r)" by fastforce
  show ?thesis
  proof (cases r)
    case None
    then show ?thesis using u assms by (simp add: remote_device_disconnect_def)
  next
    case (Some d)
    let ?s = "s\<lparr>cl_list := (cl_list s)\<lparr>rl_head := ns', rl_count := rl_count (cl_list s) - 1\<rparr>\<rparr>"
    obtain us vs where ns: "?ns = us @ (p, d) # vs" "ns' = us @ vs"
      using unlink_remote_Some u Some by blast
    note ok = remotes_ok_unlink[OF i(4)[unfolded ns(1)], folded ns(2)]
    have e: "snd (remote_device_disconnect p s) = free_remote_device d ?s"
      using u Some by (simp add: remote_device_disconnect_def)
    show ?thesis
    proof (cases "rd_vhci d")
      case False
      then show ?thesis unfolding e using i ok(1) ns
        by (simp add: free_remote_device_no_port remote_inv_def)
    next
      case True
      obtain k where k: "holds_port (cl_vhci s) d k" using ok(3)[OF True] by blast
      let ?q = "clear_port (vc_ports (cl_vhci s) ! k)"
      have p: "k < 8" "rd_vhci_port d = int k" "vp_state (vc_ports (cl_vhci ?s) ! k) \<noteq> VHCI_PORT_FREE"
        using k by (simp_all add: holds_port_def)
      have "port_ok (vc_driver_handle (cl_vhci s)) k (vc_ports (cl_vhci s) ! k)"
        using i p(1) by (simp add: vhci_inv_def)
      then have "vhci_inv (with_port k ?q (cl_vhci s))"
        using with_port_inv[OF i(1,2)] port_ok_clear[where st = "vp_state (vc_ports (cl_vhci s) ! k)"] by simp
      moreover have "remotes_ok (with_port k ?q (cl_vhci s)) ns'"
        using remotes_ok_with_port[OF ok(1) len] ok(2)[OF True] p(2) ns by simp
      moreover have "free_remote_device d ?s = ?s\<lparr>cl_net := cl_net s @ socket_close (rd_socket d),
          cl_vhci := with_port k ?q (cl_vhci s),
          cl_world := (cl_world s)\<lparr>vw_calls := vw_calls (cl_world s) @ unplugs (cl_vhci s) [k]\<rparr>\<rparr>"
        using free_remote_device_port[of ?s k d] i(1,2) p True by (simp add: with_port_def)
      ultimately show ?thesis unfolding e remote_inv_def using i ns by simp
    qed
  qed
qed

lemma disconnect_remotes_inv: "remote_inv s \<Longrightarrow> remote_inv (disconnect_remotes s)"
proof (induction s rule: disconnect_remotes.induct)
  case (1 s)
  then show ?case by (subst disconnect_remotes.simps) (simp add: remote_device_disconnect_inv)
qed

lemma attach_remote_inv:
  assumes "remote_inv s" and "p \<notin> set (map fst (rl_head (cl_list s)))"
    and r: "attach_remote drv server_ip server_port p device s = (err, out, s')"
  shows "remote_inv s'"
proof (cases "rd_vhci device")
  case False
  then have "remotes_ok (cl_vhci s) ((p, device\<lparr>rd_state := REMOTE_DEV_STATE_CONNECTED\<rparr>) # rl_head (cl_list s))"
    using assms(1,2) by (intro remotes_ok_Cons) (simp_all add: remote_inv_def)
  then show ?thesis using False assms by (auto simp: attach_remote_def link_remote_def remote_inv_def)
next
  case True
  have i: "vhci_inv (cl_vhci s)" "vc_initialized (cl_vhci s)" "remotes_ok (cl_vhci s) (rl_head (cl_list s))"
    "rl_count (cl_list s) = int (length (rl_head (cl_list s)))" using assms(1) by (auto simp: remote_inv_def)
  have len: "length (vc_ports (cl_vhci s)) = 8" using i by (simp add: vhci_inv_def)
  from i(1,2) True r show ?thesis
  proof (cases rule: attach_remote_cases)
    case no_port
    then show ?thesis using assms(1) by (simp add: remote_inv_def)
  next
    case (failed k q w)
    then have "int k \<notin> set (used_ports (rl_head (cl_list s)))" using free_port_unused[OF i(3), of k] by simp
    then show ?thesis
      using remotes_ok_with_port[OF i(3) len, of k q] with_port_inv[OF i(1,2) failed(6)] i failed(7)
      by (simp add: remote_inv_def)
  next
    case (attached k q w)
    let ?d = "device\<lparr>rd_vhci_port := int k, rd_state := REMOTE_DEV_STATE_CONNECTED\<rparr>"
    have u: "int k \<notin> set (used_ports (rl_head (cl_list s)))" using attached(4) free_port_unused[OF i(3), of k] by simp
    have "vp_devid q = device_devid (rd_device_info device)"
      unfolding attached(8) by (simp add: connecting_port_def device_devid_def)
    then have "holds_port (with_port k q (cl_vhci s)) ?d k"
      using attached(3,6) len by (simp add: holds_port_def with_port_nth)
    then have "remotes_ok (with_port k q (cl_vhci s)) ((p, ?d) # rl_head (cl_list s))"
      using remotes_ok_Cons[OF remotes_ok_with_port[OF i(3) len u] assms(2)] u by blast
    then show ?thesis
      using with_port_inv[OF i(1,2) attached(7)] i attached(10) by (simp add: remote_inv_def link_remote_def)
  qed
qed

lemma remote_device_connect_inv:
  assumes inv: "remote_inv s" and fresh: "\<And>p. calloc = Some p \<Longrightarrow> p \<notin> set (map fst (rl_head (cl_list s)))"
    and r: "remote_device_connect os drv token calloc vhci server_ip server_port busid s c = Some (err, out, s', c')"
  shows "remote_inv s'"
proof (cases calloc)
  case None
  then show ?thesis using r inv by (simp add: remote_device_connect_def create_remote_device_def)
next
  case (Some p)
  obtain sock tr where t: "tcp_client_connect_timeout os server_ip server_port CONNECTION_TIMEOUT_MS = (sock, tr)"
    by fastforce
  let ?d = "connected_device server_ip server_port busid vhci new_remote_device\<lparr>rd_socket := sock\<rparr>"
  let ?s = "s\<lparr>cl_net := cl_net s @ tr\<rparr>"
  have np: "rd_vhci_port ?d < 0" by (simp add: connected_device_def new_remote_device_def)
  have i: "remote_inv (s\<lparr>cl_net := n\<rparr>)" for n using inv by (simp add: remote_inv_def)
  show ?thesis
  proof (cases "socket_is_valid sock")
    case False
    then have "s' = free_remote_device ?d ?s"
      using r Some t by (simp add: remote_device_connect_def create_remote_device_def)
    then show ?thesis using np i by (simp add: free_remote_device_no_port)
  next
    case True
    then have "import_remote token drv server_ip server_port busid p ?d ?s c = Some (err, out, s', c')"
      using r Some t by (simp add: remote_device_connect_def create_remote_device_def)
    then show ?thesis
    proof (cases rule: import_remote_cases)
      case auth
      then show ?thesis using np i by (simp add: free_remote_device_no_port)
    next
      case refused
      then show ?thesis using np i by (simp add: free_remote_device_no_port)
    next
      case (imported d)
      show ?thesis by (rule attach_remote_inv[OF i[of "cl_net s @ tr"] _ imported(2)]) (use fresh Some in simp)
    qed
  qed
qed

inductive remote_step :: "client_sys \<Rightarrow> client_sys \<Rightarrow> bool" where
  connect: "remote_device_connect os drv token calloc vhci server_ip server_port busid s c = Some (err, out, s', c')
    \<Longrightarrow> (\<And>p. calloc = Some p \<Longrightarrow> p \<notin> set (map fst (rl_head (cl_list s)))) \<Longrightarrow> remote_step s s'"
| disconnect: "remote_device_disconnect p s = (err, s') \<Longrightarrow> remote_step s s'"
| disconnect_port: "remote_device_disconnect_port port s = (err, s') \<Longrightarrow> remote_step s s'"
| disconnect_all: "remote_step s (remote_device_disconnect_all s)"

inductive remote_run :: "client_sys \<Rightarrow> client_sys \<Rightarrow> bool" where
  run_refl: "remote_run s s"
| run_step: "remote_run s s1 \<Longrightarrow> remote_step s1 s2 \<Longrightarrow> remote_run s s2"

lemma remote_step_inv:
  assumes "remote_step s s'" and "remote_inv s"
  shows "remote_inv s'"
  using assms(1)
proof cases
  case connect
  then show ?thesis using remote_device_connect_inv[OF assms(2)] by blast
next
  case (disconnect p err)
  then show ?thesis using remote_device_disconnect_inv[OF assms(2), of p] by simp
next
  case (disconnect_port port err)
  then show ?thesis using remote_device_disconnect_inv[OF assms(2)] assms(2)
    by (auto simp: remote_device_disconnect_port_def split: option.splits) (metis snd_conv)
next
  case disconnect_all
  then show ?thesis using disconnect_remotes_inv[OF assms(2)] assms(2) by (simp add: remote_device_disconnect_all_def)
qed

lemma remote_run_inv: "remote_run s s' \<Longrightarrow> remote_inv s \<Longrightarrow> remote_inv s'"
  by (induction rule: remote_run.induct) (auto dest: remote_step_inv)

text \<open>The client after its start: an empty list and a fresh controller.\<close>

definition start_sys :: "vhci_driver \<Rightarrow> vhci_world \<Rightarrow> client_sys" where
  "start_sys drv w =
     (case vhci_init drv True w of (err, ctx, w) \<Rightarrow>
        \<lparr>cl_list = snd (remote_device_list_init True), cl_vhci = ctx, cl_world = w, cl_net = []\<rparr>)"

lemma start_sys_inv: "remote_inv (start_sys drv w)"
proof -
  obtain err ctx w' where i: "vhci_init drv True w = (err, ctx, w')" by (metis prod_cases3)
  then have "err = ERR_SUCCESS" by (auto simp: vhci_init_def Let_def split: prod.splits if_splits)
  then show ?thesis using vhci_init_inv[OF i] i
    by (simp add: start_sys_def remote_inv_def remotes_ok_def remote_device_list_init_def Let_def)
qed

section \<open>The exchange with a server that answers\<close>

definition auth_bytes :: "cbuf option \<Rightarrow> byte list" where
  "auth_bytes token = (if auth_is_enabled token then auth_frame (cstr (the token)) else [])"

definition token_fits :: "cbuf option \<Rightarrow> bool" where
  "token_fits token \<longleftrightarrow> (auth_is_enabled token \<longrightarrow> strlen (the token) \<le> 64)"

definition import_request_wire :: "cbuf \<Rightarrow> byte list" where
  "import_request_wire busid =
     wire_header_basic (iq_header (usbip_create_import_request (Some busid))) @
     iq_busid (usbip_create_import_request (Some busid))"

lemma present_token_ok:
  assumes "tx_ok (txs c)" and "token_fits token"
  shows "\<exists>c'. (if auth_is_enabled token then auth_client_handshake token c else (ERR_SUCCESS, c)) = (ERR_SUCCESS, c') \<and>
    sent_to c (auth_bytes token) c'"
proof (cases "auth_is_enabled token")
  case True
  then obtain t where t: "token = Some t" "cstr t \<noteq> []"
    by (auto simp: auth_is_enabled_def cstr_eq_Nil_iff split: option.splits)
  from auth_client_handshake_ok[OF t(2) _ assms(1)] True t assms(2) show ?thesis
    by (auto simp: token_fits_def auth_bytes_def)
next
  case False
  then show ?thesis using sent_to_refl[OF assms(1)] by (simp add: auth_bytes_def)
qed

lemma sent_got: "sent_to c bs c' \<Longrightarrow> rx_bytes (rx c) = xs \<Longrightarrow> rx_bytes (rx c') = xs" by auto

text \<open>The request is sent, then the reply is read.\<close>

lemma import_request_sent:
  assumes tx: "tx_ok (txs c)" and tok: "token_fits token"
  obtains c1 c2 c3 where
    "(if auth_is_enabled token then auth_client_handshake token c else (ERR_SUCCESS, c)) = (ERR_SUCCESS, c1)"
    and "send_mem 8 (mem_header_basic (usbip_pack_header_basic (iq_header (usbip_create_import_request (Some busid))))) c1 =
      (ERR_SUCCESS, c2)"
    and "send_mem 32 (iq_busid (usbip_create_import_request (Some busid))) c2 = (ERR_SUCCESS, c3)"
    and "sent_to c (auth_bytes token @ import_request_wire busid) c3"
proof -
  let ?q = "usbip_create_import_request (Some busid)"
  have l: "length (iq_busid ?q) = 32" by (simp add: usbip_create_import_request_def)
  obtain c1 where c1: "(if auth_is_enabled token then auth_client_handshake token c else (ERR_SUCCESS, c)) = (ERR_SUCCESS, c1)"
    "sent_to c (auth_bytes token) c1" using present_token_ok[OF tx tok] by blast
  obtain c2 where c2: "send_mem 8 (mem_header_basic (usbip_pack_header_basic (iq_header ?q))) c1 = (ERR_SUCCESS, c2)"
    "sent_to c1 (wire_header_basic (iq_header ?q)) c2"
    using hb_io.send_ok[OF _ sent_toD(2)[OF c1(2)], of "iq_header ?q"] by (auto simp: usbip_send_header_basic_def)
  obtain c3 where c3: "send_mem 32 (iq_busid ?q) c2 = (ERR_SUCCESS, c3)" "sent_to c2 (iq_busid ?q) c3"
    using send_mem_ok[OF sent_toD(2)[OF c2(2)] l] by blast
  show thesis
    using sent_to_trans[OF c1(2) sent_to_trans[OF c2(2) c3(2)]] c1(1) c2(1) c3(1)
    by (intro that) (simp_all add: import_request_wire_def)
qed

text \<open>The server accepts the import and describes device \<open>d\<close>, or refuses it.\<close>

lemma import_remote_ok:
  assumes tx: "tx_ok (txs c)" and tok: "token_fits token" and wf: "device_wf d" and st: "hb_status h = USBIP_ST_OK"
    and rx: "rx_bytes (rx c) = wire_header_basic h @ wire_device d @ rest"
  shows "\<exists>c'. import_remote token drv server_ip server_port busid p device s c =
      (case attach_remote drv server_ip server_port p (device\<lparr>rd_device_info := d\<rparr>) s of
         (err, out, s') \<Rightarrow> Some (err, out, s', c')) \<and>
    sent c' = sent c @ auth_bytes token @ import_request_wire busid \<and> rx_bytes (rx c') = rest"
proof -
  obtain c1 c2 c3 where r: "(if auth_is_enabled token then auth_client_handshake token c else (ERR_SUCCESS, c)) = (ERR_SUCCESS, c1)"
    "send_mem 8 (mem_header_basic (usbip_pack_header_basic (iq_header (usbip_create_import_request (Some busid))))) c1 =
      (ERR_SUCCESS, c2)"
    "send_mem 32 (iq_busid (usbip_create_import_request (Some busid))) c2 = (ERR_SUCCESS, c3)"
    "sent_to c (auth_bytes token @ import_request_wire busid) c3" by (rule import_request_sent[OF tx tok])
  note r3 = sent_got[OF r(4) rx]
  obtain c4 where c4: "usbip_recv_header_basic c3 = Some (Inr h, c4)" "got_from c3 (wire_header_basic h) c4"
    using hb_io.recv_ok[OF _ r3] by blast
  have r4: "rx_bytes (rx c4) = wire_device d @ rest" using got_fromD(1)[OF c4(2)] r3 by simp
  obtain c5 where c5: "usbip_recv_device c4 = Some (Inr d, c5)" "got_from c4 (wire_device d) c5"
    using ud_io.recv_ok[OF wf r4] by blast
  have "rx_bytes (rx c5) = rest" using got_fromD(1)[OF c5(2)] r4 by simp
  moreover have "sent c5 = sent c @ auth_bytes token @ import_request_wire busid"
    using got_fromD(4)[OF c5(2)] got_fromD(4)[OF c4(2)] sent_toD(1)[OF r(4)] by simp
  ultimately show ?thesis using r(1-3) c4(1) c5(1) st
    by (intro exI[of _ c5]) (simp add: import_remote_def Let_def split: prod.splits)
qed

lemma import_remote_refused:
  assumes tx: "tx_ok (txs c)" and tok: "token_fits token" and st: "hb_status h \<noteq> USBIP_ST_OK"
    and rx: "rx_bytes (rx c) = wire_header_basic h @ rest"
  shows "\<exists>c'. import_remote token drv server_ip server_port busid p device s c =
      Some (if hb_status h = USBIP_ST_DEV_BUSY then ERR_DEVICE_BUSY else ERR_USB_NOT_FOUND, None,
            free_remote_device device s, c') \<and>
    sent c' = sent c @ auth_bytes token @ import_request_wire busid"
proof -
  obtain c1 c2 c3 where r: "(if auth_is_enabled token then auth_client_handshake token c else (ERR_SUCCESS, c)) = (ERR_SUCCESS, c1)"
    "send_mem 8 (mem_header_basic (usbip_pack_header_basic (iq_header (usbip_create_import_request (Some busid))))) c1 =
      (ERR_SUCCESS, c2)"
    "send_mem 32 (iq_busid (usbip_create_import_request (Some busid))) c2 = (ERR_SUCCESS, c3)"
    "sent_to c (auth_bytes token @ import_request_wire busid) c3" by (rule import_request_sent[OF tx tok])
  obtain c4 where c4: "usbip_recv_header_basic c3 = Some (Inr h, c4)" "got_from c3 (wire_header_basic h) c4"
    using hb_io.recv_ok[OF _ sent_got[OF r(4) rx]] by blast
  have "sent c4 = sent c @ auth_bytes token @ import_request_wire busid"
    using got_fromD(4)[OF c4(2)] sent_toD(1)[OF r(4)] by simp
  then show ?thesis using r(1-3) c4(1) st by (intro exI[of _ c4]) (simp add: import_remote_def Let_def)
qed

lemma skip_interfaces_ok:
  "rx_bytes (rx c) = concat (map mem_interface is) @ rest \<Longrightarrow>
   \<exists>c'. skip_interfaces (length is) c = Some c' \<and> got_from c (concat (map mem_interface is)) c'"
proof (induction "is" arbitrary: c)
  case Nil
  then show ?case by (auto intro: got_from_refl)
next
  case (Cons i "is")
  then have "rx_bytes (rx c) = mem_interface i @ concat (map mem_interface is) @ rest" by simp
  from ui_io.recv_ok[OF _ this] obtain c1 where c1: "usbip_recv_interface c = Some (Inr i, c1)"
    "got_from c (mem_interface i) c1" by blast
  have "rx_bytes (rx c1) = concat (map mem_interface is) @ rest" using got_fromD(1)[OF c1(2)] Cons.prems by simp
  from Cons.IH[OF this] c1 show ?case by (auto intro: got_from_trans)
qed

text \<open>A device record as it travels: the device and as many interfaces as it announces.\<close>

definition record_wire :: "usbip_usb_device \<times> usbip_usb_interface list \<Rightarrow> byte list" where
  "record_wire r = wire_device (fst r) @ concat (map mem_interface (snd r))"

definition record_ok :: "usbip_usb_device \<times> usbip_usb_interface list \<Rightarrow> bool" where
  "record_ok r \<longleftrightarrow> device_wf (fst r) \<and> length (snd r) = unat (ud_bNumInterfaces (fst r))"

lemma recv_devices_loop_ok:
  assumes "list_all record_ok rs" and "rx_bytes (rx c) = concat (map record_wire rs) @ rest" and "n \<le> length rs"
  shows "\<exists>c'. recv_devices_loop n max_devices devices c =
      Some (devices @ map fst (take (min n (nat (max_devices - int (length devices)))) rs), c') \<and> sent c' = sent c"
  using assms
proof (induction n arbitrary: devices c rs)
  case 0
  then show ?case by simp
next
  case (Suc n)
  show ?case
  proof (cases "int (length devices) < max_devices")
    case False
    then show ?thesis by simp
  next
    case True
    from Suc.prems(3) obtain r rs' where rs: "rs = r # rs'" by (cases rs) auto
    then have ok: "device_wf (fst r)" "length (snd r) = unat (ud_bNumInterfaces (fst r))" "list_all record_ok rs'"
      using Suc.prems(1) by (auto simp: record_ok_def[of r])
    let ?t = "concat (map record_wire rs') @ rest"
    have b: "rx_bytes (rx c) = wire_device (fst r) @ concat (map mem_interface (snd r)) @ ?t"
      using Suc.prems(2) rs by (simp add: record_wire_def[of r])
    obtain c1 where c1: "usbip_recv_device c = Some (Inr (fst r), c1)" "got_from c (wire_device (fst r)) c1"
      using ud_io.recv_ok[OF ok(1) b] by blast
    have b1: "rx_bytes (rx c1) = concat (map mem_interface (snd r)) @ ?t" using got_fromD(1)[OF c1(2)] b by simp
    obtain c2 where c2: "skip_interfaces (length (snd r)) c1 = Some c2" "got_from c1 (concat (map mem_interface (snd r))) c2"
      using skip_interfaces_ok[OF b1] by blast
    have b2: "rx_bytes (rx c2) = ?t" using got_fromD(1)[OF c2(2)] b1 by simp
    have "n \<le> length rs'" using Suc.prems(3) rs by simp
    from Suc.IH[OF ok(3) b2 this, of "devices @ [fst r]"] obtain c3 where
      c3: "recv_devices_loop n max_devices (devices @ [fst r]) c2 =
        Some ((devices @ [fst r]) @ map fst (take (min n (nat (max_devices - int (length (devices @ [fst r]))))) rs'), c3)"
      "sent c3 = sent c2" by blast
    have "min (Suc n) (nat (max_devices - int (length devices))) =
        Suc (min n (nat (max_devices - int (length (devices @ [fst r])))))" using True by auto
    then have "recv_devices_loop (Suc n) max_devices devices c =
        Some (devices @ map fst (take (min (Suc n) (nat (max_devices - int (length devices)))) rs), c3)"
      using True c1(1) c2(1) c3(1) ok(2) rs by simp
    moreover have "sent c3 = sent c" using c3(2) got_fromD(4)[OF c1(2)] got_fromD(4)[OF c2(2)] by simp
    ultimately show ?thesis by blast
  qed
qed

lemma net_recv_all_got:
  assumes "rx_bytes (rx c) = bs @ rest" and "length bs = n"
  shows "\<exists>c'. net_recv_all n c = Some (int n, bs, c') \<and> got_from c bs c'"
proof -
  obtain r where "net_recv_all n c = Some (int n, bs, c\<lparr>rx := r\<rparr>)" "rx_bytes r = rest" "rx_end r = rx_end (rx c)"
    using net_recv_all_ok[of n c] assms by auto
  then show ?thesis using assms(1) by (intro exI[of _ "c\<lparr>rx := r\<rparr>"]) (auto simp: got_from_def)
qed

lemma request_devices_ok:
  assumes tx: "tx_ok (txs c)" and tok: "token_fits token" and st: "hb_status h = USBIP_ST_OK"
    and rx: "rx_bytes (rx c) = wire_header_basic h @ be32 n @ concat (map record_wire rs) @ rest"
    and rs: "list_all record_ok rs" "unat n \<le> length rs"
  shows "\<exists>c'. request_devices token max_devices c =
      Some (ERR_SUCCESS, map fst (take (min (unat n) (nat max_devices)) rs), c') \<and>
    sent c' = sent c @ auth_bytes token @ wire_header_basic usbip_create_devlist_request"
proof -
  obtain c1 where c1: "(if auth_is_enabled token then auth_client_handshake token c else (ERR_SUCCESS, c)) = (ERR_SUCCESS, c1)"
    "sent_to c (auth_bytes token) c1" using present_token_ok[OF tx tok] by blast
  obtain c2 where c2: "send_mem 8 (mem_header_basic (usbip_pack_header_basic usbip_create_devlist_request)) c1 = (ERR_SUCCESS, c2)"
    "sent_to c1 (wire_header_basic usbip_create_devlist_request) c2"
    using hb_io.send_ok[OF _ sent_toD(2)[OF c1(2)], of usbip_create_devlist_request] by (auto simp: usbip_send_header_basic_def)
  have r2: "rx_bytes (rx c2) = wire_header_basic h @ be32 n @ concat (map record_wire rs) @ rest"
    by (rule sent_got[OF c2(2) sent_got[OF c1(2) rx]])
  obtain c3 where c3: "usbip_recv_header_basic c2 = Some (Inr h, c3)" "got_from c2 (wire_header_basic h) c3"
    using hb_io.recv_ok[OF _ r2] by blast
  have r3: "rx_bytes (rx c3) = be32 n @ concat (map record_wire rs) @ rest" using got_fromD(1)[OF c3(2)] r2 by simp
  obtain c4 where c4: "net_recv_all 4 c3 = Some (4, be32 n, c4)" "got_from c3 (be32 n) c4"
    using net_recv_all_got[OF r3, of 4] by auto
  have r4: "rx_bytes (rx c4) = concat (map record_wire rs) @ rest" using got_fromD(1)[OF c4(2)] r3 by simp
  obtain c5 where c5: "recv_devices_loop (unat n) max_devices [] c4 =
      Some (map fst (take (min (unat n) (nat max_devices)) rs), c5)" "sent c5 = sent c4"
    using recv_devices_loop_ok[OF rs(1) r4 rs(2), of max_devices "[]"] by auto
  have "be32toh (load32 (be32 n) 0) = n"
    using load32_mem32[of "htobe32 n" "[]"] by (simp add: mem32_htobe32)
  then have "request_devices token max_devices c =
      Some (ERR_SUCCESS, map fst (take (min (unat n) (nat max_devices)) rs), c5)"
    using c1(1) c2(1) c3(1) c4(1) c5(1) st by (simp add: request_devices_def)
  moreover have "sent c5 = sent c @ auth_bytes token @ wire_header_basic usbip_create_devlist_request"
    using c5(2) got_fromD(4)[OF c4(2)] got_fromD(4)[OF c3(2)] sent_toD(1)[OF sent_to_trans[OF c1(2) c2(2)]] by simp
  ultimately show ?thesis by blast
qed

section \<open>Properties\<close>

text \<open>
  C17: attached devices never share a port. Starting from an initialized client, after any
  sequence of connects (successful or not, against any server and any driver) and disconnects,
  the count is the number of attached devices, every device attached through the controller
  holds a connected port showing its device identifier, and no two of them hold the same port.
\<close>

theorem remote_ports_exclusive:
  assumes "remote_run (start_sys drv w) s"
  shows "rl_count (cl_list s) = int (length (rl_head (cl_list s))) \<and>
    (\<forall>(p, d) \<in> set (rl_head (cl_list s)). rd_vhci d \<longrightarrow> (\<exists>k. holds_port (cl_vhci s) d k)) \<and>
    distinct (used_ports (rl_head (cl_list s)))"
  using remote_run_inv[OF assms start_sys_inv] by (force simp: remote_inv_def remotes_ok_def)

definition sample_remote_device :: usbip_usb_device where
  "sample_remote_device = zero_device\<lparr>ud_busnum := 1, ud_devnum := 2\<rparr>"

definition import_answer :: "rx_event list" where
  "import_answer =
     [RxData (wire_header_basic (zero_header_basic\<lparr>hb_command := OP_REP_IMPORT\<rparr>)), RxWouldBlock,
      RxData (wire_device sample_remote_device)]"

definition sample_connect :: "client_sys \<Rightarrow> (error_code \<times> nat option \<times> client_sys \<times> conn) option" where
  "sample_connect s =
     remote_device_connect sample_winsock sample_driver None (Some 40) True (ascii ''10.0.0.1'') 3240 (ascii ''1-2'')
       s (sample_conn\<lparr>rx := import_answer\<rparr>)"

definition sample_client :: client_sys where
  "sample_client = fst (snd (snd (the (sample_connect (start_sys sample_driver fresh_world)))))"

lemma sample_client_eval:
  "map_option fst (sample_connect (start_sys sample_driver fresh_world)) = Some ERR_SUCCESS"
  "map (\<lambda>n. (fst n, rd_vhci (snd n), rd_vhci_port (snd n))) (rl_head (cl_list sample_client)) = [(40, True, 0)]"
  by code_simp+

lemma sample_client_run: "remote_run (start_sys sample_driver fresh_world) sample_client"
proof (rule run_step[OF run_refl])
  obtain out s c where "sample_connect (start_sys sample_driver fresh_world) = Some (ERR_SUCCESS, out, s, c)"
    using sample_client_eval(1) by auto
  moreover from this have "s = sample_client" by (simp add: sample_client_def)
  moreover have "rl_head (cl_list (start_sys sample_driver fresh_world)) = []" by code_simp
  ultimately show "remote_step (start_sys sample_driver fresh_world) sample_client"
    unfolding sample_connect_def by (intro remote_step.connect) auto
qed

theorem remote_ports_exclusive_witness:
  "\<exists>p d. rl_head (cl_list sample_client) = [(p, d)] \<and> rd_vhci d \<and> (\<exists>k. holds_port (cl_vhci sample_client) d k)"
proof -
  obtain p d where "rl_head (cl_list sample_client) = [(p, d)]" "rd_vhci d"
    using sample_client_eval(2) by auto
  then show ?thesis using remote_ports_exclusive[OF sample_client_run] by auto
qed

text \<open>
  C16: a connect that fails leaves nothing behind. The list is unchanged and no device is
  returned; every port that was in use is untouched and every free port is free again,
  although an attempted attach passes through an error state; the socket that was opened is
  closed, exactly once, except that a failing token handshake closes it twice.
\<close>

theorem connect_failure_clean:
  assumes "remote_inv s" and "ws_socket os \<noteq> INVALID_SOCKET_VAL" and "calloc = Some p"
    and "remote_device_connect os drv token calloc True server_ip server_port busid s c = Some (err, out, s', c')"
    and "err \<noteq> ERR_SUCCESS"
  shows "out = None \<and> cl_list s' = cl_list s \<and>
    (\<forall>i < 8. vp_state (vc_ports (cl_vhci s') ! i) = vp_state (vc_ports (cl_vhci s) ! i) \<and>
      (vp_state (vc_ports (cl_vhci s) ! i) \<noteq> VHCI_PORT_FREE \<longrightarrow> vc_ports (cl_vhci s') ! i = vc_ports (cl_vhci s) ! i)) \<and>
    (\<exists>tr. cl_net s' = cl_net s @ tr \<and>
      count_list tr (SysClose (ws_socket os)) = (if err \<noteq> ERR_SOCKET_CONNECT \<and> auth_failed token c then 2 else 1))"
proof -
  have inv: "vhci_inv (cl_vhci s)" "vc_initialized (cl_vhci s)" and len: "length (vc_ports (cl_vhci s)) = 8"
    using assms(1) by (auto simp: remote_inv_def vhci_inv_def)
  obtain sock tr where t: "tcp_client_connect_timeout os server_ip server_port CONNECTION_TIMEOUT_MS = (sock, tr)"
    by fastforce
  let ?d = "connected_device server_ip server_port busid True new_remote_device\<lparr>rd_socket := sock\<rparr>"
  let ?s = "s\<lparr>cl_net := cl_net s @ tr\<rparr>"
  have np: "rd_vhci_port ?d < 0" and v: "rd_vhci ?d" by (simp_all add: connected_device_def new_remote_device_def)
  have sc: "count_list (socket_close sock) (SysClose sock) = (if sock = INVALID_SOCKET_VAL then 0 else 1)"
    by (simp add: socket_close_def)
  show ?thesis
  proof (cases "socket_is_valid sock")
    case False
    then have "s' = free_remote_device ?d ?s" "out = None" "err = ERR_SOCKET_CONNECT"
      using assms(3,4) t by (auto simp: remote_device_connect_def create_remote_device_def)
    then show ?thesis using connect_timeout_cases[OF t] assms(2) False np
      by (simp add: free_remote_device_no_port socket_is_valid_def socket_close_def)
  next
    case True
    then have so: "sock = ws_socket os" "count_list tr (SysClose sock) = 0" "sock \<noteq> INVALID_SOCKET_VAL"
      using connect_timeout_cases[OF t] by (auto simp: socket_is_valid_def)
    from True have "import_remote token drv server_ip server_port busid p ?d ?s c = Some (err, out, s', c')"
      using assms(3,4) t by (simp add: remote_device_connect_def create_remote_device_def)
    then show ?thesis
    proof (cases rule: import_remote_cases)
      case auth
      then show ?thesis using np so sc auth_client_handshake_error[of token c]
        by (simp add: free_remote_device_no_port)
    next
      case refused
      then show ?thesis using np so sc by (simp add: free_remote_device_no_port)
    next
      case (imported d)
      have "vhci_inv (cl_vhci ?s)" "vc_initialized (cl_vhci ?s)" "rd_vhci (?d\<lparr>rd_device_info := d\<rparr>)"
        using inv v by simp_all
      from this imported(2) show ?thesis
        by (cases rule: attach_remote_cases)
          (use imported(1) so sc len assms(5) in \<open>auto simp: with_port_nth\<close>)
    qed
  qed
qed


theorem connect_failure_clean_witness:
  "\<exists>out s' c' tr. remote_device_connect sample_winsock sample_driver (Some (replicate 65 65)) (Some 41) True
      (ascii ''10.0.0.1'') 3240 (ascii ''1-2'') sample_client sample_conn = Some (ERR_INVALID_PARAM, out, s', c') \<and>
    cl_list s' = cl_list sample_client \<and> cl_net s' = cl_net sample_client @ tr \<and> count_list tr (SysClose 5) = 2"
proof -
  let ?t = "Some (replicate 65 65) :: cbuf option"
  let ?r = "remote_device_connect sample_winsock sample_driver ?t (Some 41) True
      (ascii ''10.0.0.1'') 3240 (ascii ''1-2'') sample_client sample_conn"
  have "map_option fst ?r = Some ERR_INVALID_PARAM" by code_simp
  then obtain out s' c' where r: "?r = Some (ERR_INVALID_PARAM, out, s', c')" by auto
  have w: "ws_socket sample_winsock = 5" "(5 :: socket_t) \<noteq> INVALID_SOCKET_VAL" by (simp_all add: sample_winsock_def)
  have a: "auth_failed ?t sample_conn" by code_simp
  have "cl_list s' = cl_list sample_client \<and>
      (\<exists>tr. cl_net s' = cl_net sample_client @ tr \<and> count_list tr (SysClose (5 :: socket_t)) = 2)"
    using connect_failure_clean[OF remote_run_inv[OF sample_client_run start_sys_inv] _ refl r] w a by simp
  with r show ?thesis by blast
qed

end
