(* ===== verification/Client_Main.thy ===== *)
theory Client_Main
  imports Remote_Device Discovery
begin

text \<open>
  The client program, \<^verbatim>\<open>client/main.c\<close>: the command line, the five commands, start-up and
  shutdown. What the system answers is the record \<open>client_env\<close>; the wait for the interrupt in
  the attach command reads the values \<open>ce_reads\<close> of \<open>g_client.running\<close> and does not end when
  none of them is false. The listed devices and servers are results; the texts printed are in
  \<open>Printing\<close>.
\<close>

section \<open>State\<close>

datatype command_type = CMD_NONE | CMD_DISCOVER | CMD_LIST | CMD_ATTACH | CMD_DETACH | CMD_STATUS | CMD_HELP

record g_client =
  cg_running :: bool
  cg_command :: command_type
  cg_server_ip :: cbuf
  cg_server_port :: uint16_t
  cg_busid :: cbuf
  cg_port :: int
  cg_verbose :: bool
  cg_auth_token :: "cbuf option"
  cg_sys :: client_sys
  cg_remote_token :: "cbuf option"
  cg_network_up :: bool

text \<open>The static initializer; \<open>cg_remote_token\<close> is the token \<^verbatim>\<open>remote_device.c\<close> holds.\<close>

definition default_client :: "vhci_world \<Rightarrow> g_client" where
  "default_client w =
     \<lparr>cg_running = False, cg_command = CMD_NONE, cg_server_ip = replicate 64 0, cg_server_port = 3240,
      cg_busid = replicate 32 0, cg_port = -1, cg_verbose = False, cg_auth_token = None,
      cg_sys = \<lparr>cl_list = \<lparr>rl_head = [], rl_count = 0, rl_initialized = False\<rparr>, cl_vhci = zero_context,
                cl_world = w, cl_net = []\<rparr>,
      cg_remote_token = None, cg_network_up = False\<rparr>"

record client_env =
  ce_log :: error_code
  ce_os :: winsock
  ce_token_env :: "cbuf option"
  ce_driver :: vhci_driver
  ce_ports_alloc :: bool
  ce_list_mutex :: bool
  ce_device_alloc :: "nat option"
  ce_reads :: "bool list"
  ce_broadcast :: broadcast_env
  ce_turns :: "discovery_turn list"

section \<open>Command line\<close>

definition is_opt :: "cbuf \<Rightarrow> string \<Rightarrow> string \<Rightarrow> bool" where
  "is_opt arg short long \<longleftrightarrow> streq arg (ascii short) \<or> streq arg (ascii long)"

text \<open>The loop over the options: the arguments that are left, or \<open>None\<close> when it returns -1.\<close>

fun parse_options :: "cbuf list \<Rightarrow> g_client \<Rightarrow> cbuf list option \<times> g_client" where
  "parse_options [] g = (Some [], g)"
| "parse_options (arg # args) g =
     (if char_at arg 0 \<noteq> 45 then (Some (arg # args), g)
      else if is_opt arg ''-h'' ''--help'' then (None, g)
      else if is_opt arg ''-v'' ''--verbose'' then parse_options args (g\<lparr>cg_verbose := True\<rparr>)
      else case args of
        [] \<Rightarrow> (None, g)
      | val # args \<Rightarrow>
          if is_opt arg ''-p'' ''--port'' then parse_options args (g\<lparr>cg_server_port := word_of_int (atoi val)\<rparr>)
          else if is_opt arg ''-k'' ''--auth-token'' then parse_options args (g\<lparr>cg_auth_token := Some val\<rparr>)
          else (None, g))"

definition parse_command :: "cbuf list \<Rightarrow> g_client \<Rightarrow> int \<times> g_client" where
  "parse_command args g =
     (case args of
        [] \<Rightarrow> (-1, g)
      | cmd # args \<Rightarrow>
          if streq cmd (ascii ''discover'') then (0, g\<lparr>cg_command := CMD_DISCOVER\<rparr>)
          else if streq cmd (ascii ''list'') then
            let g = g\<lparr>cg_command := CMD_LIST\<rparr>
            in (case args of [] \<Rightarrow> (-1, g)
                | ip # _ \<Rightarrow> (0, g\<lparr>cg_server_ip := str_copy (cg_server_ip g) ip 64\<rparr>))
          else if streq cmd (ascii ''attach'') then
            let g = g\<lparr>cg_command := CMD_ATTACH\<rparr>
            in (case args of
                  ip # busid # _ \<Rightarrow> (0, g\<lparr>cg_server_ip := str_copy (cg_server_ip g) ip 64,
                                         cg_busid := str_copy (cg_busid g) busid 32\<rparr>)
                | _ \<Rightarrow> (-1, g))
          else if streq cmd (ascii ''detach'') then
            let g = g\<lparr>cg_command := CMD_DETACH\<rparr>
            in (case args of [] \<Rightarrow> (-1, g) | port # _ \<Rightarrow> (0, g\<lparr>cg_port := atoi port\<rparr>))
          else if streq cmd (ascii ''status'') then (0, g\<lparr>cg_command := CMD_STATUS\<rparr>)
          else (-1, g))"

definition client_parse_args :: "cbuf list \<Rightarrow> g_client \<Rightarrow> int \<times> g_client" where
  "client_parse_args args g =
     (case parse_options args g of
        (None, g) \<Rightarrow> (-1, g)
      | (Some args, g) \<Rightarrow> parse_command args g)"

section \<open>Commands\<close>

text \<open>The exit code and the servers printed.\<close>

definition cmd_discover :: "client_env \<Rightarrow> g_client \<Rightarrow> (int \<times> discovered_server list \<times> g_client) option" where
  "cmd_discover env g = do {
     (err, servers, out, tr) \<leftarrow> discovery_broadcast (ce_broadcast env) 3000 (ce_turns env) (Some []);
     let g = g\<lparr>cg_sys := (cg_sys g)\<lparr>cl_net := cl_net (cg_sys g) @ tr\<rparr>\<rparr>;
     Some (if err \<noteq> ERR_SUCCESS then (1, [], g) else (0, servers, g))
   }"

abbreviation (input) MAX_DEVICES :: int where "MAX_DEVICES \<equiv> 32"

definition cmd_list :: "client_env \<Rightarrow> g_client \<Rightarrow> conn \<Rightarrow> (int \<times> usbip_usb_device list \<times> g_client \<times> conn) option" where
  "cmd_list env g c = do {
     (err, devices, tr, c) \<leftarrow> remote_server_list_devices (ce_os env) (cg_remote_token g) (cg_server_ip g) (cg_server_port g) MAX_DEVICES c;
     let g = g\<lparr>cg_sys := (cg_sys g)\<lparr>cl_net := cl_net (cg_sys g) @ tr\<rparr>\<rparr>;
     Some (if err \<noteq> ERR_SUCCESS then (1, [], g, c) else (0, devices, g, c))
   }"

text \<open>\<open>vhci_init\<close> and \<open>vhci_cleanup\<close> on the controller of the globals.\<close>

definition init_vhci :: "client_env \<Rightarrow> client_sys \<Rightarrow> error_code \<times> client_sys" where
  "init_vhci env s =
     (case vhci_init (ce_driver env) (ce_ports_alloc env) (cl_world s) of
        (err, ctx, w) \<Rightarrow> (err, s\<lparr>cl_vhci := ctx, cl_world := w\<rparr>))"

definition cleanup_vhci :: "client_sys \<Rightarrow> client_sys" where
  "cleanup_vhci s = (case vhci_cleanup (cl_vhci s) (cl_world s) of (ctx, w) \<Rightarrow> s\<lparr>cl_vhci := ctx, cl_world := w\<rparr>)"

definition cmd_attach :: "client_env \<Rightarrow> g_client \<Rightarrow> conn \<Rightarrow> (int \<times> g_client \<times> conn) option" where
  "cmd_attach env g c =
     (case init_vhci env (cg_sys g) of (err, s) \<Rightarrow>
        if err \<noteq> ERR_SUCCESS then Some (1, g\<lparr>cg_sys := s\<rparr>, c)
        else case remote_device_list_init (ce_list_mutex env) of (err, l) \<Rightarrow>
          let s = s\<lparr>cl_list := l\<rparr>
          in if err \<noteq> ERR_SUCCESS then Some (1, g\<lparr>cg_sys := cleanup_vhci s\<rparr>, c)
             else do {
               (err, device, s, c) \<leftarrow> remote_device_connect (ce_os env) (ce_driver env) (cg_remote_token g)
                  (ce_device_alloc env) True (cg_server_ip g) (cg_server_port g) (cg_busid g) s c;
               if err \<noteq> ERR_SUCCESS then Some (1, g\<lparr>cg_sys := cleanup_vhci (remote_device_list_cleanup s)\<rparr>, c)
               else if False \<notin> set (ce_reads env) then None
               else
                 let s = snd (remote_device_disconnect (the device) s)
                 in Some (0, g\<lparr>cg_running := False, cg_sys := cleanup_vhci (remote_device_list_cleanup s)\<rparr>, c)
             })"

definition cmd_detach :: "client_env \<Rightarrow> g_client \<Rightarrow> int \<times> g_client" where
  "cmd_detach env g =
     (case init_vhci env (cg_sys g) of (err, s) \<Rightarrow>
        if err \<noteq> ERR_SUCCESS then (1, g\<lparr>cg_sys := s\<rparr>)
        else if cg_port g < 0 \<or> cg_port g \<ge> vc_max_ports (cl_vhci s) then (1, g\<lparr>cg_sys := cleanup_vhci s\<rparr>)
        else case vhci_detach (cg_port g) (cl_vhci s) (cl_world s) of (err, ctx, w) \<Rightarrow>
          let s = s\<lparr>cl_vhci := ctx, cl_world := w\<rparr>
          in if err \<noteq> ERR_SUCCESS then (1, g\<lparr>cg_sys := cleanup_vhci s\<rparr>)
             else (0, g\<lparr>cg_sys := cleanup_vhci s\<rparr>))"

text \<open>The exit code, and whether the driver is reported as available.\<close>

definition cmd_status :: "client_env \<Rightarrow> g_client \<Rightarrow> int \<times> bool \<times> g_client" where
  "cmd_status env g =
     (case init_vhci env (cg_sys g) of (err, s) \<Rightarrow>
        if err \<noteq> ERR_SUCCESS then (1, False, g\<lparr>cg_sys := s\<rparr>)
        else case vhci_is_available (ce_driver env) (cl_world s) of (available, w) \<Rightarrow>
          (0, available, g\<lparr>cg_sys := cleanup_vhci (s\<lparr>cl_world := w\<rparr>)\<rparr>))"

section \<open>Start and shutdown\<close>

definition client_signal_handler :: "g_client \<Rightarrow> g_client" where
  "client_signal_handler g = g\<lparr>cg_running := False\<rparr>"


definition client_init :: "client_env \<Rightarrow> g_client \<Rightarrow> error_code \<times> g_client" where
  "client_init env g =
     (if ce_log env \<noteq> ERR_SUCCESS then (ce_log env, g)
      else case network_init (ce_os env) (cg_network_up g) of (err, up) \<Rightarrow>
        let g = g\<lparr>cg_network_up := up\<rparr>
        in if err \<noteq> ERR_SUCCESS then (err, g)
           else
             let g = g\<lparr>cg_auth_token := Some (auth_get_token (cg_auth_token g) (ce_token_env env))\<rparr>
             in (ERR_SUCCESS, g\<lparr>cg_remote_token := remote_device_set_token (cg_auth_token g) (cg_remote_token g)\<rparr>))"

definition client_cleanup :: "g_client \<Rightarrow> g_client" where
  "client_cleanup g = g\<lparr>cg_network_up := network_cleanup (cg_network_up g)\<rparr>"

text \<open>The switch over the commands.\<close>

definition run_command :: "client_env \<Rightarrow> g_client \<Rightarrow> conn \<Rightarrow> (int \<times> g_client \<times> conn) option" where
  "run_command env g c =
     (case cg_command g of
        CMD_DISCOVER \<Rightarrow> map_option (\<lambda>(code, servers, g). (code, g, c)) (cmd_discover env g)
      | CMD_LIST \<Rightarrow> map_option (\<lambda>(code, devices, g, c). (code, g, c)) (cmd_list env g c)
      | CMD_ATTACH \<Rightarrow> cmd_attach env g c
      | CMD_DETACH \<Rightarrow> (case cmd_detach env g of (code, g) \<Rightarrow> Some (code, g, c))
      | CMD_STATUS \<Rightarrow> (case cmd_status env g of (code, available, g) \<Rightarrow> Some (code, g, c))
      | _ \<Rightarrow> Some (1, g, c))"

definition client_main :: "cbuf list \<Rightarrow> client_env \<Rightarrow> g_client \<Rightarrow> conn \<Rightarrow> (int \<times> g_client \<times> conn) option" where
  "client_main args env g c =
     (case client_parse_args args g of (ret, g) \<Rightarrow>
        if ret \<noteq> 0 then Some (1, g, c)
        else case client_init env g of (err, g) \<Rightarrow>
          if err \<noteq> ERR_SUCCESS then Some (1, g, c)
          else do {
            (exit_code, g, c) \<leftarrow> run_command env g c;
            Some (exit_code, client_cleanup g, c)
          })"

section \<open>The attach command\<close>

definition client_clean :: "client_sys \<Rightarrow> bool" where
  "client_clean s \<longleftrightarrow> \<not> vc_initialized (cl_vhci s) \<and> vc_ports (cl_vhci s) = [] \<and> vc_driver_handle (cl_vhci s) = None \<and>
     rl_head (cl_list s) = [] \<and> rl_count (cl_list s) = 0 \<and> \<not> rl_initialized (cl_list s)"

definition all_free :: "vhci_context \<Rightarrow> bool" where
  "all_free ctx \<longleftrightarrow> (\<forall>i < 8. vp_state (vc_ports ctx ! i) = VHCI_PORT_FREE)"

lemma vhci_init_free: "vhci_init drv calloc w = (ERR_SUCCESS, ctx, w') \<Longrightarrow> all_free ctx"
  by (auto simp: vhci_init_def all_free_def Let_def split: prod.splits if_splits)

lemma vhci_init_failed:
  "vhci_init drv calloc w = (err, ctx, w') \<Longrightarrow> err \<noteq> ERR_SUCCESS \<Longrightarrow>
     \<not> vc_initialized ctx \<and> vc_ports ctx = [] \<and> vc_driver_handle ctx = None"
  by (auto simp: vhci_init_def zero_context_def Let_def split: prod.splits if_splits)

lemma vhci_cleanup_eq:
  assumes "vhci_inv ctx" and "vc_initialized ctx"
  shows "vhci_cleanup ctx w =
    (ctx\<lparr>vc_ports := [], vc_driver_handle := None, vc_initialized := False\<rparr>,
     w\<lparr>vw_calls := vw_calls w @ unplugs ctx [0..<8] @ (case vc_driver_handle ctx of None \<Rightarrow> [] | Some h \<Rightarrow> [VhciClose h])\<rparr>)"
  using assms(2) vhci_detach_all_eq[OF assms, of w]
  by (simp add: vhci_cleanup_def called_def split: option.split)

lemma unplugs_all_free: "all_free ctx \<Longrightarrow> unplugs ctx [0..<8] = []"
  by (auto simp: unplugs_def all_free_def filter_empty_conv split: option.splits)

lemma cleanup_vhci_clean:
  assumes "remote_inv s" and "rl_head (cl_list s) = []" and "\<not> rl_initialized (cl_list s)"
  shows "client_clean (cleanup_vhci s)"
  using assms vhci_cleanup_eq[of "cl_vhci s" "cl_world s"]
  by (simp add: client_clean_def cleanup_vhci_def remote_inv_def)

lemma disconnect_remotes_empty: "rl_head (cl_list (disconnect_remotes s)) = []"
proof (induction s rule: disconnect_remotes.induct)
  case (1 s)
  then show ?case by (cases "rl_head (cl_list s) = []") (simp_all add: disconnect_remotes.simps[of s])
qed

lemma list_cleanup_inv:
  assumes "remote_inv s" and "rl_initialized (cl_list s)"
  shows "remote_inv (remote_device_list_cleanup s)" and "rl_head (cl_list (remote_device_list_cleanup s)) = []"
    and "\<not> rl_initialized (cl_list (remote_device_list_cleanup s))"
  using assms(2) disconnect_remotes_inv[OF assms(1)] disconnect_remotes_empty[of s]
  by (simp_all add: remote_device_list_cleanup_def remote_device_disconnect_all_def remote_inv_def Let_def)

lemma connect_imported:
  assumes "remote_device_connect os drv token calloc vhci ip port busid s c = Some (err, out, s', c')"
  obtains (failed) "err \<noteq> ERR_SUCCESS" and "cl_list s' = cl_list s"
  | (imported) p dev s1 where "calloc = Some p" and "attach_remote drv ip port p dev s1 = (err, out, s')"
      and "rd_vhci dev = vhci" and "cl_list s1 = cl_list s" and "cl_vhci s1 = cl_vhci s" and "cl_world s1 = cl_world s"
      and "rd_busid dev = str_copy (replicate 32 0) busid 32"
proof (cases calloc)
  case None
  then show ?thesis using assms failed by (auto simp: remote_device_connect_def create_remote_device_def)
next
  case (Some p)
  obtain sock tr where t: "tcp_client_connect_timeout os ip port CONNECTION_TIMEOUT_MS = (sock, tr)" by fastforce
  let ?d = "connected_device ip port busid vhci new_remote_device\<lparr>rd_socket := sock\<rparr>"
  let ?s = "s\<lparr>cl_net := cl_net s @ tr\<rparr>"
  show ?thesis
  proof (cases "socket_is_valid sock")
    case False
    then have "err = ERR_SOCKET_CONNECT" "s' = free_remote_device ?d ?s"
      using assms Some t by (simp_all add: remote_device_connect_def create_remote_device_def)
    then show ?thesis using failed by simp
  next
    case True
    then have "import_remote token drv ip port busid p ?d ?s c = Some (err, out, s', c')"
      using assms Some t by (simp add: remote_device_connect_def create_remote_device_def)
    then show ?thesis
    proof (cases rule: import_remote_cases)
      case auth
      then show ?thesis using failed by (simp add: auth_failed_def)
    next
      case refused
      then show ?thesis using failed by simp
    next
      case (imported d)
      show ?thesis by (rule that(2)[OF Some imported(2)]) (simp_all add: connected_device_def new_remote_device_def)
    qed
  qed
qed

lemma attach_remote_initialized:
  "attach_remote drv ip port p dev s = (err, out, s') \<Longrightarrow> rl_initialized (cl_list s') = rl_initialized (cl_list s)"
  by (auto simp: attach_remote_def link_remote_def Let_def split: if_splits prod.splits)

lemma connect_keeps_initialized:
  assumes "remote_device_connect os drv token calloc vhci ip port busid s c = Some (err, out, s', c')"
  shows "rl_initialized (cl_list s') = rl_initialized (cl_list s)"
  using assms by (cases rule: connect_imported) (auto dest: attach_remote_initialized)

text \<open>
  Connecting and disconnecting again on an empty list and a controller with free ports: the
  driver gets the plug request and the unplug request of the same port, and all ports are free.
\<close>

lemma connect_disconnect:
  assumes inv: "remote_inv s" and free: "all_free (cl_vhci s)" and nil: "rl_head (cl_list s) = []"
    and r: "remote_device_connect os drv token calloc True ip port busid s c = Some (ERR_SUCCESS, out, s', c')"
  shows "\<exists>h sock devid. vc_driver_handle (cl_vhci s) = Some h \<and>
     vw_calls (cl_world (snd (remote_device_disconnect (the out) s'))) =
       vw_calls (cl_world s) @ [VhciPlug h sock devid, VhciUnplug h 0] \<and>
     all_free (cl_vhci (snd (remote_device_disconnect (the out) s'))) \<and>
     vc_driver_handle (cl_vhci (snd (remote_device_disconnect (the out) s'))) = Some h \<and>
     rl_head (cl_list (snd (remote_device_disconnect (the out) s'))) = []"
proof -
  have v: "vhci_inv (cl_vhci s)" "vc_initialized (cl_vhci s)" using inv by (simp_all add: remote_inv_def)
  obtain p dev s1 where a: "attach_remote drv ip port p dev s1 = (ERR_SUCCESS, out, s')" "rd_vhci dev"
    "cl_list s1 = cl_list s" "cl_vhci s1 = cl_vhci s" "cl_world s1 = cl_world s"
    using r by (cases rule: connect_imported) auto
  have v1: "vhci_inv (cl_vhci s1)" "vc_initialized (cl_vhci s1)" using v a(4) by simp_all
  show ?thesis using v1 a(2,1)
  proof (cases rule: attach_remote_cases)
    case (attached k q w)
    have k: "k = 0" using attached(3,5) free a(4) by (auto simp: all_free_def)
    have len: "length (vc_ports (cl_vhci s)) = 8" using v by (simp add: vhci_inv_def)
    let ?c = "with_port 0 q (cl_vhci s)"
    let ?s = "s1\<lparr>cl_vhci := ?c, cl_world := w, cl_list := (cl_list s)\<lparr>rl_head := []\<rparr>\<rparr>"
    let ?d = "dev\<lparr>rd_vhci_port := 0, rd_state := REMOTE_DEV_STATE_CONNECTED\<rparr>"
    have i: "vhci_inv (cl_vhci ?s)" "vc_initialized (cl_vhci ?s)" "(0::nat) < 8"
      "vp_state (vc_ports (cl_vhci ?s) ! 0) \<noteq> VHCI_PORT_FREE" "rd_vhci ?d" "rd_vhci_port ?d = int 0"
      using with_port_inv[OF v] attached(6,7) a(2,4) v(2) len k by (simp_all add: with_port_nth)
    have d: "snd (remote_device_disconnect p s') = free_remote_device ?d ?s"
      using attached(10) nil a(3,4) k by (simp add: remote_device_disconnect_def link_remote_def)
    obtain h where h: "vc_driver_handle (cl_vhci s) = Some h"
      using attached(6,7) a(4) by (cases "vc_driver_handle (cl_vhci s)") (auto simp: port_ok_def)
    show ?thesis
      unfolding attached(2) option.sel d free_remote_device_port[OF i]
      using h len free attached(6,9) a(3-5) nil k
      by (auto simp: plugs_def unplugs_def all_free_def with_port_def nth_list_update clear_port_def)
  qed (use a in auto)
qed

lemma list_cleanup_empty:
  "rl_head (cl_list s) = [] \<Longrightarrow> rl_initialized (cl_list s) \<Longrightarrow>
     remote_device_list_cleanup s = s\<lparr>cl_list := (cl_list s)\<lparr>rl_initialized := False\<rparr>\<rparr>"
  by (simp add: remote_device_list_cleanup_def remote_device_disconnect_all_def disconnect_remotes.simps)

lemma disconnect_initialized:
  "rl_initialized (cl_list (snd (remote_device_disconnect p s))) = rl_initialized (cl_list s)"
  by (simp add: remote_device_disconnect_def split: prod.split option.split)

lemma connected_cleanup:
  assumes "remote_inv s" and "all_free (cl_vhci s)" and "rl_head (cl_list s) = []"
    and r: "remote_device_connect os drv token calloc True ip port busid s c = Some (ERR_SUCCESS, out, s', c')"
    and "rl_initialized (cl_list s')" and fin: "fin = cleanup_vhci (remote_device_list_cleanup (snd (remote_device_disconnect (the out) s')))"
  shows "client_clean fin \<and>
    (\<exists>h sock devid. vw_calls (cl_world fin) = vw_calls (cl_world s) @ [VhciPlug h sock devid, VhciUnplug h 0, VhciClose h])"
proof -
  let ?s = "snd (remote_device_disconnect (the out) s')"
  have "remote_inv s'" by (rule remote_device_connect_inv[OF assms(1) _ r]) (simp add: assms(3))
  then have inv: "remote_inv ?s" and ini: "rl_initialized (cl_list ?s)"
    using remote_device_disconnect_inv disconnect_initialized[of "the out" s'] assms(5) by simp_all
  obtain h sock devid where cd: "vw_calls (cl_world ?s) = vw_calls (cl_world s) @ [VhciPlug h sock devid, VhciUnplug h 0]"
    "all_free (cl_vhci ?s)" "vc_driver_handle (cl_vhci ?s) = Some h" "rl_head (cl_list ?s) = []"
    using connect_disconnect[OF assms(1-3) r] by auto
  have "vw_calls (cl_world fin) = vw_calls (cl_world ?s) @ [VhciClose h]"
    using vhci_cleanup_eq[of "cl_vhci ?s" "cl_world ?s"] inv cd(3) unplugs_all_free[OF cd(2)]
    by (simp add: fin list_cleanup_empty[OF cd(4) ini] cleanup_vhci_def remote_inv_def)
  moreover have "client_clean fin" unfolding fin using cleanup_vhci_clean list_cleanup_inv[OF inv ini] by blast
  ultimately show ?thesis using cd(1) by auto
qed

text \<open>The state after \<open>vhci_init\<close> and \<open>remote_device_list_init\<close>.\<close>

lemma attach_start:
  assumes "init_vhci env s0 = (ERR_SUCCESS, s)"
  shows "remote_inv (s\<lparr>cl_list := snd (remote_device_list_init ok)\<rparr>)" and "all_free (cl_vhci s)"
    and "cl_list s = cl_list s0"
proof -
  obtain ctx w where i: "vhci_init (ce_driver env) (ce_ports_alloc env) (cl_world s0) = (ERR_SUCCESS, ctx, w)"
    "s = s0\<lparr>cl_vhci := ctx, cl_world := w\<rparr>" using assms by (auto simp: init_vhci_def split: prod.splits)
  show "remote_inv (s\<lparr>cl_list := snd (remote_device_list_init ok)\<rparr>)"
    using vhci_init_inv[OF i(1)] i(2) by (simp add: remote_inv_def remotes_ok_def remote_device_list_init_def Let_def)
  show "all_free (cl_vhci s)" "cl_list s = cl_list s0" using vhci_init_free[OF i(1)] i(2) by simp_all
qed

section \<open>Properties\<close>

text \<open>
  C18: the attach command leaves nothing behind. Whatever the driver, the network and the server
  answer, when the command returns its exit code is 0 or 1, the controller is closed with no
  port left and the device list is empty. On success the driver received, after the opening of
  the controller, exactly the plug request, the unplug request of the port and the closing of
  its handle.
\<close>

theorem attach_command_clean:
  assumes "cmd_attach env g c = Some (code, g', c')"
    and "rl_head (cl_list (cg_sys g)) = []" and "rl_count (cl_list (cg_sys g)) = 0" and "\<not> rl_initialized (cl_list (cg_sys g))"
  shows "(code = 0 \<or> code = 1) \<and> client_clean (cg_sys g') \<and>
    (code = 0 \<longrightarrow> (\<exists>h sock devid. vw_calls (cl_world (cg_sys g')) =
       vw_calls (cl_world (snd (init_vhci env (cg_sys g)))) @ [VhciPlug h sock devid, VhciUnplug h 0, VhciClose h]))"
proof -
  obtain err s where i: "init_vhci env (cg_sys g) = (err, s)" by fastforce
  show ?thesis
  proof (cases "err = ERR_SUCCESS")
    case False
    have "\<not> vc_initialized (cl_vhci s) \<and> vc_ports (cl_vhci s) = [] \<and> vc_driver_handle (cl_vhci s) = None \<and> cl_list s = cl_list (cg_sys g)"
      using i False vhci_init_failed by (fastforce simp: init_vhci_def split: prod.splits)
    then show ?thesis using assms i False by (auto simp: cmd_attach_def client_clean_def)
  next
    case True
    let ?s = "s\<lparr>cl_list := snd (remote_device_list_init (ce_list_mutex env))\<rparr>"
    note st = attach_start(1)[OF i[unfolded True], of "ce_list_mutex env"] attach_start(2)[OF i[unfolded True]]
    have l: "rl_head (cl_list ?s) = []" "rl_initialized (cl_list ?s) = ce_list_mutex env"
      by (simp_all add: remote_device_list_init_def Let_def)
    show ?thesis
    proof (cases "ce_list_mutex env")
      case False
      then have "code = 1 \<and> g' = g\<lparr>cg_sys := cleanup_vhci ?s\<rparr>"
        using assms(1) i True by (simp add: cmd_attach_def remote_device_list_init_def Let_def)
      then show ?thesis using cleanup_vhci_clean[OF st(1) l(1)] l(2) False by simp
    next
      case mutex: True
      obtain e out s' where r: "remote_device_connect (ce_os env) (ce_driver env) (cg_remote_token g) (ce_device_alloc env) True
          (cg_server_ip g) (cg_server_port g) (cg_busid g) ?s c = Some (e, out, s', c')"
        and g': "e \<noteq> ERR_SUCCESS \<and> code = 1 \<and> g' = g\<lparr>cg_sys := cleanup_vhci (remote_device_list_cleanup s')\<rparr> \<or>
          e = ERR_SUCCESS \<and> code = 0 \<and> g' = g\<lparr>cg_running := False,
            cg_sys := cleanup_vhci (remote_device_list_cleanup (snd (remote_device_disconnect (the out) s')))\<rparr>"
        using assms(1) i True mutex
        by (auto simp: cmd_attach_def remote_device_list_init_def Let_def split: bind_splits if_splits)
      have inv: "remote_inv s'" by (rule remote_device_connect_inv[OF st(1) _ r]) (simp add: l(1)[simplified])
      have ini: "rl_initialized (cl_list s')" using connect_keeps_initialized[OF r] mutex l(2) by simp
      show ?thesis
      proof (cases "e = ERR_SUCCESS")
        case False
        then show ?thesis using g' cleanup_vhci_clean list_cleanup_inv[OF inv ini] by auto
      next
        case e: True
        from connected_cleanup[OF st(1) _ l(1) r[unfolded e] ini] st(2) g' e i show ?thesis by auto
      qed
    qed
  qed
qed

text \<open>
  C39: the detach command detaches nothing. Every run of the client starts from a controller with
  free ports, so for each port from 0 to 7 the command reports success without any unplug
  request to the driver: the driver sees the controller opened and closed only.
\<close>

theorem detach_command_noop:
  assumes "fst (init_vhci env (cg_sys g)) = ERR_SUCCESS" and "0 \<le> cg_port g" and "cg_port g < 8"
  shows "fst (cmd_detach env g) = 0 \<and>
    vw_calls (cl_world (cg_sys (snd (cmd_detach env g)))) =
      vw_calls (cl_world (snd (init_vhci env (cg_sys g)))) @
      (case vc_driver_handle (cl_vhci (snd (init_vhci env (cg_sys g)))) of None \<Rightarrow> [] | Some h \<Rightarrow> [VhciClose h])"
proof -
  obtain s where i: "init_vhci env (cg_sys g) = (ERR_SUCCESS, s)" using assms(1) by (metis prod.collapse)
  have v: "vhci_inv (cl_vhci s)" "vc_initialized (cl_vhci s)" "all_free (cl_vhci s)"
    using attach_start(1)[OF i, of True] attach_start(2)[OF i] by (simp_all add: remote_inv_def)
  then have "vc_max_ports (cl_vhci s) = 8" "vp_state (port_at (cl_vhci s) (cg_port g)) = VHCI_PORT_FREE"
    using assms(2,3) by (auto simp: vhci_inv_def all_free_def port_at_def)
  then show ?thesis using assms(2,3) v(2) vhci_cleanup_eq[OF v(1,2)] unplugs_all_free[OF v(3)]
    by (simp add: cmd_detach_def i vhci_detach_def cleanup_vhci_def)
qed

definition sample_client_env :: client_env where
  "sample_client_env =
     \<lparr>ce_log = ERR_SUCCESS, ce_os = sample_winsock, ce_token_env = None, ce_driver = sample_driver, ce_ports_alloc = True,
      ce_list_mutex = True, ce_device_alloc = Some 40, ce_reads = [True, False], ce_broadcast = sample_broadcast, ce_turns = []\<rparr>"

definition attach_args :: g_client where
  "attach_args = snd (client_parse_args [ascii ''-v'', ascii ''attach'', ascii ''10.0.0.1'', ascii ''1-2''] (default_client fresh_world))"

theorem attach_command_clean_witness:
  "\<exists>g' c'. cmd_attach sample_client_env attach_args (sample_conn\<lparr>rx := import_answer\<rparr>) = Some (0, g', c') \<and> client_clean (cg_sys g')"
proof -
  let ?r = "cmd_attach sample_client_env attach_args (sample_conn\<lparr>rx := import_answer\<rparr>)"
  have "map_option fst ?r = Some 0" by code_simp
  then obtain g' c' where r: "?r = Some (0, g', c')" by auto
  have l: "rl_head (cl_list (cg_sys attach_args)) = []" "rl_count (cl_list (cg_sys attach_args)) = 0"
    "\<not> rl_initialized (cl_list (cg_sys attach_args))" by code_simp+
  from attach_command_clean[OF r l] r show ?thesis by blast
qed

theorem detach_command_noop_witness:
  "fst (cmd_detach sample_client_env ((default_client fresh_world)\<lparr>cg_port := 3\<rparr>)) = 0"
proof -
  let ?g = "(default_client fresh_world)\<lparr>cg_port := 3\<rparr>"
  have i: "fst (init_vhci sample_client_env (cg_sys ?g)) = ERR_SUCCESS" by code_simp
  from detach_command_noop[OF i] show ?thesis by simp
qed

end
