(* ===== verification/Gui_Client.thy ===== *)
theory Gui_Client
  imports Client_Main Gui_Common
begin

text \<open>
  The graphical client, \<^verbatim>\<open>gui/client_gui.c\<close>: discovery, connecting, the list of remote devices,
  attaching and detaching by check box. What Windows and the network answer are arguments; \<open>None\<close>
  as a result is a call that does not return or, in \<open>show_discovery_results\<close>, a message longer than
  its buffer. The token is kept as a pointer to a local buffer of \<^verbatim>\<open>on_connect_clicked\<close>, so what it
  shows later is whatever that memory holds then (\<open>kn_token_mem\<close>).
\<close>

section \<open>State\<close>

record client_gui =
  kg_sys :: client_sys
  kg_current_server :: cbuf
  kg_current_port :: uint16_t
  kg_connected :: bool
  kg_token_set :: bool
  kg_discovery_thread :: "nat option"
  kg_discovery_result :: discovery_result
  kg_updating_checkbox :: bool
  kg_hMainWnd :: nat
  kg_hFont :: nat
  kg_ui :: "ui_call list"

record gui_net =
  kn_os :: winsock
  kn_driver :: vhci_driver
  kn_token_mem :: cbuf
  kn_alloc :: "nat option"
  kn_conn1 :: conn
  kn_conn2 :: conn

definition kui :: "ui_call list \<Rightarrow> client_gui \<Rightarrow> client_gui" where
  "kui calls g = g\<lparr>kg_ui := kg_ui g @ calls\<rparr>"

definition token_now :: "gui_net \<Rightarrow> client_gui \<Rightarrow> cbuf option" where
  "token_now net g = (if kg_token_set g then Some (kn_token_mem net) else None)"

section \<open>The window\<close>

abbreviation (input) CLIENT_WINDOW_WIDTH :: int where "CLIENT_WINDOW_WIDTH \<equiv> 480"
abbreviation (input) CLIENT_WINDOW_HEIGHT :: int where "CLIENT_WINDOW_HEIGHT \<equiv> 400"

definition client_device_columns :: "gui_control \<Rightarrow> ui_call list" where
  "client_device_columns hList =
     [AddColumn hList 0 (L ''Bus ID'') 45, AddColumn hList 1 (L ''VID:PID'') 70,
      AddColumn hList 2 (L ''Description'') 250, AddColumn hList 3 (L ''Status'') 55]"

definition create_client_controls :: "ui_call list" where
  "create_client_controls =
     (let y0 = MARGIN; editWidth = 200; btnSmall = 80; btnX = MARGIN + 55 + editWidth + PADDING;
          y1 = y0 + (BUTTON_HEIGHT + MARGIN); y2 = y1 + (EDIT_HEIGHT + MARGIN); y3 = y2 + (LABEL_HEIGHT + PADDING);
          y4 = y3 + (140 + MARGIN)
      in gui_create_label LabelServer (L ''Server:'') MARGIN (y0 + 4) 50 LABEL_HEIGHT @
         gui_create_edit EditServer (MARGIN + 55) y0 editWidth EDIT_HEIGHT @
         [SetText EditServer (L ''192.168.1.100'')] @
         gui_create_button BtnDiscover (L ''Discover'') btnX y0 btnSmall BUTTON_HEIGHT @
         gui_create_button BtnConnect (L ''Connect'') (btnX + (btnSmall + PADDING)) y0 btnSmall BUTTON_HEIGHT @
         gui_create_label LabelToken (L ''Token:'') MARGIN (y1 + 4) 50 LABEL_HEIGHT @
         gui_create_edit EditToken (MARGIN + 55) y1 editWidth EDIT_HEIGHT @
         [PasswordChar EditToken] @
         gui_create_label LabelDevices (L ''Remote Devices:'') MARGIN y2 200 LABEL_HEIGHT @
         gui_create_listview DeviceList MARGIN y3 (CLIENT_WINDOW_WIDTH - 2 * MARGIN - 16) 140 @
         client_device_columns DeviceList @
         [ExtStyle DeviceList (LVS_EX_FULLROWSELECT OR LVS_EX_GRIDLINES OR LVS_EX_CHECKBOXES)] @
         gui_create_button BtnRefresh (L ''Refresh'') MARGIN y4 BUTTON_WIDTH BUTTON_HEIGHT @
         gui_create_statusbar StatusBar @
         [SetText StatusBar (L ''Not connected'')] @
         map SetFont [LabelServer, EditServer, LabelToken, EditToken, BtnDiscover, BtnConnect, LabelDevices, DeviceList, BtnRefresh] @
         [Enable BtnRefresh False])"

section \<open>The list of devices\<close>

definition gui_list_devices :: "gui_net \<Rightarrow> conn \<Rightarrow> int \<Rightarrow> client_gui
    \<Rightarrow> (error_code \<times> usbip_usb_device list \<times> client_gui) option" where
  "gui_list_devices net c max_devices g = do {
     (err, devices, tr, c) \<leftarrow> remote_server_list_devices (kn_os net) (token_now net g) (kg_current_server g) (kg_current_port g)
        max_devices c;
     Some (err, devices, g\<lparr>kg_sys := (kg_sys g)\<lparr>cl_net := cl_net (kg_sys g) @ tr\<rparr>\<rparr>)
   }"

fun device_rows :: "gui_os \<Rightarrow> nat \<Rightarrow> usbip_usb_device list \<Rightarrow> client_gui \<Rightarrow> client_gui" where
  "device_rows os i [] g = g"
| "device_rows os i (d # ds) g =
     (let busidW = gui_utf8_to_wide (go_to_wide os) (Some (ud_busid d)) (go_wide_buf os 32) 32;
          vidpidW = vidpid_text (ud_idVendor d) (ud_idProduct d);
          descW = gui_utf8_to_wide (go_to_wide os)
                    (Some (if char_at (ud_path d) 0 \<noteq> 0 then ud_path d else ascii (usb_class_string (ud_bDeviceClass d))))
                    (go_wide_buf os 128) 128;
          attached = remote_device_find_by_busid (cl_list (kg_sys g)) (ud_busid d) \<noteq> None;
          statusW = (if attached then L ''Attached'' else L ''Available'');
          g = kui [LvInsert DeviceList (int i) busidW] g;
          row = go_row os (kg_ui g);
          g = kui ([LvSetItem DeviceList row 1 vidpidW, LvSetItem DeviceList row 2 descW, LvSetItem DeviceList row 3 statusW] @
                   (if attached then [LvSetCheck DeviceList row True] else [])) g
      in device_rows os (Suc i) ds g)"

text \<open>The function \<^verbatim>\<open>populate_device_list\<close> of the client; \<open>c\<close> is the connection of its request.\<close>

definition client_populate :: "gui_os \<Rightarrow> gui_net \<Rightarrow> conn \<Rightarrow> client_gui \<Rightarrow> client_gui option" where
  "client_populate os net c g =
     (let g = kui [LvClear DeviceList] (g\<lparr>kg_updating_checkbox := True\<rparr>)
      in if \<not> kg_connected g then Some (g\<lparr>kg_updating_checkbox := False\<rparr>)
         else do {
           (err, devices, g) \<leftarrow> gui_list_devices net c 32 g;
           if err \<noteq> ERR_SUCCESS then
             Some (kui [gui_show_error (L ''Failed to get device list from server'')] (g\<lparr>kg_updating_checkbox := False\<rparr>))
           else
             Some (kui [SetText LabelDevices (take 63 (L ''Remote Devices ('' @ L (show_nat (length devices)) @ L ''):''))]
                     (device_rows os 0 devices g)\<lparr>kg_updating_checkbox := False\<rparr>)
         })"

definition client_gui_refresh_devices :: "gui_os \<Rightarrow> gui_net \<Rightarrow> conn \<Rightarrow> client_gui \<Rightarrow> client_gui option" where
  "client_gui_refresh_devices os net c g = client_populate os net c g"

section \<open>Discovery\<close>

text \<open>The characters before the terminator.\<close>

definition wstr :: "wide \<Rightarrow> wide" where
  "wstr w = takeWhile (\<lambda>x. x \<noteq> 0) w"

text \<open>\<^verbatim>\<open>wcscat\<close> to a buffer of \<open>size_of\<close> characters, the terminator included; \<open>None\<close> writes past it.\<close>

definition wcscat :: "nat \<Rightarrow> wide \<Rightarrow> wide \<Rightarrow> wide option" where
  "wcscat size_of msg text = (if length msg + length text < size_of then Some (msg @ text) else None)"

definition server_line :: "gui_os \<Rightarrow> nat \<Rightarrow> discovered_server \<Rightarrow> wide" where
  "server_line os i server =
     (let ipW = gui_utf8_to_wide (go_to_wide os) (Some (ds_ip_address server)) (go_wide_buf os 32) 32
      in take 63 (L (show_nat (i + 1)) @ L ''. '' @ wstr ipW @ [10]))"

fun server_lines :: "gui_os \<Rightarrow> nat \<Rightarrow> discovered_server list \<Rightarrow> wide \<Rightarrow> wide option" where
  "server_lines os i [] msg = Some msg"
| "server_lines os i (server # servers) msg = do {
     msg \<leftarrow> wcscat 512 msg (server_line os i server);
     server_lines os (Suc i) servers msg
   }"

definition show_discovery_results :: "gui_os \<Rightarrow> client_gui \<Rightarrow> client_gui option" where
  "show_discovery_results os g =
     (let servers = kg_discovery_result g
      in if length servers = 0 then
           Some (kui [gui_show_info (L ''No servers found on LAN.'' @ [10] @ L ''Try entering IP address manually.'')] g)
         else if length servers = 1 then
           Some (kui [SetTextA EditServer (ds_ip_address (servers ! 0)), gui_show_info (L ''Found 1 server. Address filled in.'')] g)
         else do {
           msg \<leftarrow> server_lines os 0 servers (L ''Found servers:'' @ [10, 10]);
           msg \<leftarrow> wcscat 512 msg ([10] @ L ''Using first server.'');
           Some (kui [SetTextA EditServer (ds_ip_address (servers ! 0)), gui_show_info msg] g)
         })"

definition discovery_thread_func :: "broadcast_env \<Rightarrow> discovery_turn list \<Rightarrow> client_gui \<Rightarrow> client_gui option" where
  "discovery_thread_func env turns g = do {
     (err, servers, out, tr) \<leftarrow> discovery_broadcast env 3000 turns (Some (kg_discovery_result g));
     Some (kui [PostUpdate] (g\<lparr>kg_discovery_result := servers, kg_sys := (kg_sys g)\<lparr>cl_net := cl_net (kg_sys g) @ tr\<rparr>\<rparr>))
   }"

definition on_discover_clicked :: "nat option \<Rightarrow> client_gui \<Rightarrow> client_gui" where
  "on_discover_clicked thread g =
     (kui [SetText StatusBar (L ''Discovering servers...''), Enable BtnDiscover False] g)
       \<lparr>kg_discovery_result := [], kg_discovery_thread := thread\<rparr>"

definition client_gui_start_discovery :: "nat option \<Rightarrow> client_gui \<Rightarrow> client_gui" where
  "client_gui_start_discovery thread g = on_discover_clicked thread g"

section \<open>Connecting\<close>

definition client_gui_set_server :: "cbuf \<Rightarrow> client_gui \<Rightarrow> client_gui" where
  "client_gui_set_server ip g = g\<lparr>kg_current_server := str_copy (kg_current_server g) ip 64\<rparr>"

definition client_gui_connect :: "gui_os \<Rightarrow> gui_net \<Rightarrow> client_gui \<Rightarrow> (bool \<times> client_gui) option" where
  "client_gui_connect os net g =
     (let ipW = wstr (gui_utf8_to_wide (go_to_wide os) (Some (kg_current_server g)) (go_wide_buf os 64) 64);
          g = kui [SetText StatusBar (take 127 (L ''Connecting to '' @ ipW @ L ''...''))] g
      in do {
        (err, devices, g) \<leftarrow> gui_list_devices net (kn_conn1 net) 1 g;
        if err \<noteq> ERR_SUCCESS then
          Some (False, kui [SetText StatusBar (L ''Connection failed''), gui_show_error (L ''Failed to connect to server'')] g)
        else do {
          let g = kui [SetText BtnConnect (L ''Disconnect''), Enable BtnRefresh True,
                       SetText StatusBar (take 127 (L ''Connected to '' @ ipW))] (g\<lparr>kg_connected := True\<rparr>);
          g \<leftarrow> client_gui_refresh_devices os net (kn_conn2 net) g;
          Some (True, g)
        }
      })"

definition client_gui_disconnect :: "client_gui \<Rightarrow> client_gui" where
  "client_gui_disconnect g =
     kui [SetText BtnConnect (L ''Connect''), Enable BtnRefresh False, LvClear DeviceList, SetText StatusBar (L ''Disconnected'')]
       (g\<lparr>kg_sys := remote_device_disconnect_all (kg_sys g), kg_connected := False\<rparr>)"

text \<open>\<open>server\<close> and \<open>token\<close> are the local buffers after \<^verbatim>\<open>GetWindowTextA\<close>; both die with the call.\<close>

definition on_connect_clicked :: "gui_os \<Rightarrow> gui_net \<Rightarrow> cbuf \<Rightarrow> cbuf \<Rightarrow> client_gui \<Rightarrow> client_gui option" where
  "on_connect_clicked os net server token g =
     (if kg_connected g then Some (client_gui_disconnect g)
      else if char_at server 0 = 0 then Some (kui [gui_show_error (L ''Please enter server IP address'')] g)
      else
        let g = client_gui_set_server server (g\<lparr>kg_token_set := char_at token 0 \<noteq> 0\<rparr>)
        in map_option snd (client_gui_connect os (net\<lparr>kn_token_mem := token\<rparr>) g))"

section \<open>Attaching and detaching\<close>

text \<open>The pointer to the controller is never null here.\<close>

definition client_gui_attach_device :: "gui_net \<Rightarrow> cbuf \<Rightarrow> client_gui \<Rightarrow> (error_code \<times> nat option \<times> client_gui) option" where
  "client_gui_attach_device net busid g =
     (if remote_device_find_by_busid (cl_list (kg_sys g)) busid \<noteq> None then Some (ERR_ALREADY_EXISTS, None, g)
      else do {
        (err, device, s, c) \<leftarrow> remote_device_connect (kn_os net) (kn_driver net) (token_now net g) (kn_alloc net) True
           (kg_current_server g) (kg_current_port g) busid (kg_sys g) (kn_conn1 net);
        Some (err, device, g\<lparr>kg_sys := s\<rparr>)
      })"

definition client_gui_detach_device :: "cbuf \<Rightarrow> client_gui \<Rightarrow> error_code \<times> client_gui" where
  "client_gui_detach_device busid g =
     (case remote_device_find_by_busid (cl_list (kg_sys g)) busid of
        None \<Rightarrow> (ERR_NOT_FOUND, g)
      | Some device \<Rightarrow> (ERR_SUCCESS, g\<lparr>kg_sys := snd (remote_device_disconnect device (kg_sys g))\<rparr>))"

text \<open>The handler of a check mark, \<^verbatim>\<open>on_device_checkbox_changed\<close> of the client.\<close>

definition client_checkbox_changed :: "gui_os \<Rightarrow> gui_net \<Rightarrow> wide \<Rightarrow> bool \<Rightarrow> int \<Rightarrow> client_gui \<Rightarrow> client_gui option" where
  "client_checkbox_changed os net item checked index g =
     (if kg_updating_checkbox g then Some g
      else
        let busid = gui_wide_to_utf8 (go_to_utf8 os) (Some item) (go_buf os 32) 32
        in if char_at busid 0 = 0 then Some g
           else if checked then do {
             (err, device, g) \<leftarrow> client_gui_attach_device net busid (kui [SetText StatusBar (L ''Attaching device...'')] g);
             Some (if err = ERR_SUCCESS
                   then kui [LvSetItem DeviceList index 3 (L ''Attached''), SetText StatusBar (L ''Device attached'')] g
                   else kui [LvSetCheck DeviceList index False, SetText StatusBar (L ''Failed to attach device''),
                             gui_show_error (L ''Failed to attach device'')] (g\<lparr>kg_updating_checkbox := False\<rparr>))
           }
           else
             case client_gui_detach_device busid (kui [SetText StatusBar (L ''Detaching device...'')] g) of (err, g) \<Rightarrow>
               Some (if err = ERR_SUCCESS
                     then kui [LvSetItem DeviceList index 3 (L ''Available''), SetText StatusBar (L ''Device detached'')] g
                     else kui [LvSetCheck DeviceList index True, SetText StatusBar (L ''Failed to detach device'')]
                            (g\<lparr>kg_updating_checkbox := False\<rparr>)))"

text \<open>\<open>selected\<close> is the selected row and \<open>item\<close> its first column.\<close>

definition client_gui_attach_selected :: "gui_os \<Rightarrow> gui_net \<Rightarrow> int \<Rightarrow> wide \<Rightarrow> client_gui \<Rightarrow> (bool \<times> client_gui) option" where
  "client_gui_attach_selected os net selected item g =
     (if selected < 0 then Some (False, kui [gui_show_error (L ''Please select a device to attach'')] g)
      else
        let busid = gui_wide_to_utf8 (go_to_utf8 os) (Some item) (go_buf os 32) 32
        in if remote_device_find_by_busid (cl_list (kg_sys g)) busid \<noteq> None then
             Some (False, kui [gui_show_error (L ''Device is already attached'')] g)
           else do {
             (err, device, s, c) \<leftarrow> remote_device_connect (kn_os net) (kn_driver net) (token_now net g) (kn_alloc net) True
                (kg_current_server g) (kg_current_port g) busid (kg_sys g) (kn_conn1 net);
             let g = (kui [SetText StatusBar (L ''Attaching device...'')] g)\<lparr>kg_sys := s\<rparr>;
             if err \<noteq> ERR_SUCCESS then
               let errW = wstr (gui_utf8_to_wide (go_to_wide os) (Some (ascii (error_string err))) (go_wide_buf os 64) 64)
               in Some (False, kui [gui_show_error (take 127 (L ''Failed to attach device: '' @ errW)), SetText StatusBar (L ''Attach failed'')] g)
             else do {
               g \<leftarrow> client_gui_refresh_devices os net (kn_conn2 net) g;
               d \<leftarrow> map_of (rl_head (cl_list (kg_sys g))) (the device);
               Some (True, kui [SetText StatusBar (take 63 (L ''Device '' @ wstr item @ L '' attached to port '' @
                                  L (show_nat (nat (rd_vhci_port d)))))] g)
             }
           })"

definition client_gui_detach_selected :: "gui_os \<Rightarrow> gui_net \<Rightarrow> int \<Rightarrow> wide \<Rightarrow> client_gui \<Rightarrow> client_gui option" where
  "client_gui_detach_selected os net selected item g =
     (if selected < 0 then Some (kui [gui_show_error (L ''Please select a device to detach'')] g)
      else
        let busid = gui_wide_to_utf8 (go_to_utf8 os) (Some item) (go_buf os 32) 32
        in case remote_device_find_by_busid (cl_list (kg_sys g)) busid of
             None \<Rightarrow> Some (kui [gui_show_error (L ''Device is not attached'')] g)
           | Some device \<Rightarrow> do {
               g \<leftarrow> client_gui_refresh_devices os net (kn_conn1 net)
                      (g\<lparr>kg_sys := snd (remote_device_disconnect device (kg_sys g))\<rparr>);
               Some (kui [SetText StatusBar (L ''Device detached'')] g)
             })"

section \<open>Start, messages and end\<close>

record client_window =
  cw_desktop :: desktop
  cw_layout :: layout_env
  cw_driver :: vhci_driver
  cw_ports_alloc :: bool
  cw_list_mutex :: bool
  cw_world :: vhci_world

definition zero_client_gui :: "vhci_world \<Rightarrow> client_gui" where
  "zero_client_gui w =
     \<lparr>kg_sys = \<lparr>cl_list = \<lparr>rl_head = [], rl_count = 0, rl_initialized = False\<rparr>, cl_vhci = zero_context, cl_world = w, cl_net = []\<rparr>,
      kg_current_server = replicate 64 0, kg_current_port = 0, kg_connected = False, kg_token_set = False,
      kg_discovery_thread = None, kg_discovery_result = [], kg_updating_checkbox = False,
      kg_hMainWnd = 0, kg_hFont = 0, kg_ui = []\<rparr>"

definition register_client_class :: "desktop \<Rightarrow> bool" where
  "register_client_class d = register_class d (L ''USBNetworkClient'')"

definition create_client_window :: "desktop \<Rightarrow> client_gui \<Rightarrow> bool \<times> client_gui" where
  "create_client_window d g =
     (let w = dk_create d (L ''USBNetworkClient'') (L ''USB Over Network Client - CTK Technologies'')
                (centred d CLIENT_WINDOW_WIDTH CLIENT_WINDOW_HEIGHT)
      in (w \<noteq> 0, g\<lparr>kg_hMainWnd := w\<rparr>))"

text \<open>A controller that is not available is only logged, and the result for the list is not looked at.\<close>

definition client_gui_init :: "client_window \<Rightarrow> bool \<times> client_gui" where
  "client_gui_init env =
     (let d = cw_desktop env;
          (font, calls) = gui_create_font d 9 (L ''Segoe UI'');
          g = kui (gui_init_common_controls @ calls) ((zero_client_gui (cw_world env))\<lparr>kg_current_port := 3240, kg_hFont := font\<rparr>)
      in if \<not> register_client_class d then (False, g)
         else case create_client_window d g of (made, g) \<Rightarrow>
         if \<not> made then (False, g)
         else
           let g = kui (create_client_controls @ gui_layout_client (cw_layout env)) g;
               (err, ctx, w) = vhci_init (cw_driver env) (cw_ports_alloc env) (cl_world (kg_sys g));
               (err2, l) = remote_device_list_init (cw_list_mutex env)
           in (True, g\<lparr>kg_sys := (kg_sys g)\<lparr>cl_vhci := ctx, cl_world := w, cl_list := l\<rparr>\<rparr>))"

definition client_gui_cleanup :: "client_gui \<Rightarrow> client_gui" where
  "client_gui_cleanup g =
     kui (if kg_hFont g \<noteq> 0 then [DeleteFont (kg_hFont g)] else [])
       (g\<lparr>kg_sys := cleanup_vhci (remote_device_list_cleanup (remote_device_disconnect_all (kg_sys g)))\<rparr>)"

datatype client_msg =
  CmdDiscover "nat option" | CmdConnect gui_net cbuf cbuf | CmdClientRefresh gui_net
| MsgItemChanged item_change gui_net
| MsgDiscoveryDone
| MsgClientSize bool layout_env
| MsgClientClose bool
| MsgClientDestroy
| MsgClientOther

definition client_on_refresh_clicked :: "gui_os \<Rightarrow> gui_net \<Rightarrow> client_gui \<Rightarrow> client_gui option" where
  "client_on_refresh_clicked os net g = client_gui_refresh_devices os net (kn_conn1 net) g"

definition client_mark_changed :: "item_change \<Rightarrow> bool" where
  "client_mark_changed n \<longleftrightarrow> ic_uChanged n AND LVIF_STATE \<noteq> 0 \<and>
     ic_uOldState n AND LVIS_STATEIMAGEMASK \<noteq> ic_uNewState n AND LVIS_STATEIMAGEMASK"

fun ClientWndProc :: "gui_os \<Rightarrow> client_msg \<Rightarrow> client_gui \<Rightarrow> client_gui option" where
  "ClientWndProc os (CmdDiscover thread) g = Some (on_discover_clicked thread g)"
| "ClientWndProc os (CmdConnect net server token) g = on_connect_clicked os net server token g"
| "ClientWndProc os (CmdClientRefresh net) g = client_on_refresh_clicked os net g"
| "ClientWndProc os (MsgItemChanged n net) g =
     (if ic_idFrom n = 1104 \<and> ic_code n = LVN_ITEMCHANGED \<and> client_mark_changed n
      then client_checkbox_changed os net (ic_text n) (ic_checked n) (ic_iItem n) g else Some g)"
| "ClientWndProc os MsgDiscoveryDone g =
     map_option (\<lambda>g. g\<lparr>kg_discovery_thread := None\<rparr>)
       (show_discovery_results os
         (kui [Enable BtnDiscover True,
               SetText StatusBar (if length (kg_discovery_result g) > 0 then L ''Discovery complete'' else L ''No servers found'')] g))"
| "ClientWndProc os (MsgClientSize minimized layout) g = Some (if minimized then g else kui (gui_layout_client layout) g)"
| "ClientWndProc os (MsgClientClose yes) g =
     Some (if rl_count (cl_list (kg_sys g)) > 0 then
             kui (gui_show_confirm (L ''Detach all devices and exit?'') # (if yes then [Destroy] else [])) g
           else kui [Destroy] g)"
| "ClientWndProc os MsgClientDestroy g = Some (kui [PostQuit] g)"
| "ClientWndProc os MsgClientOther g = Some g"

text \<open>The message loop, with the discovery thread between messages; then the program.\<close>

datatype client_event = ClientDispatch client_msg | Discovers broadcast_env "discovery_turn list"

fun client_gui_run :: "gui_os \<Rightarrow> client_event list \<Rightarrow> client_gui \<Rightarrow> client_gui option" where
  "client_gui_run os [] g = Some g"
| "client_gui_run os (ClientDispatch m # es) g = ClientWndProc os m g \<bind> client_gui_run os es"
| "client_gui_run os (Discovers env turns # es) g = discovery_thread_func env turns g \<bind> client_gui_run os es"

definition client_gui_main :: "gui_os \<Rightarrow> winsock \<Rightarrow> client_window \<Rightarrow> client_event list \<Rightarrow> int \<Rightarrow> bool
    \<Rightarrow> (int \<times> bool \<times> client_gui) option" where
  "client_gui_main os wsock env events wParam up =
     (let network_up = snd (network_init wsock up)
      in case client_gui_init env of (ok, g) \<Rightarrow>
           if \<not> ok then Some (1, network_up, kui [gui_show_error (L ''Failed to initialize client GUI'')] g)
           else do {
             g \<leftarrow> client_gui_run os events (kui [ShowWindow True] g);
             Some (wParam, network_cleanup network_up, client_gui_cleanup g)
           })"

section \<open>The message of discovery\<close>

definition box_lines :: "gui_os \<Rightarrow> nat \<Rightarrow> discovered_server list \<Rightarrow> wide" where
  "box_lines os i servers = concat (map (\<lambda>(k, server). server_line os k server) (List.enumerate i servers))"

lemma box_lines_simps [simp]:
  "box_lines os i [] = []"
  "box_lines os i (server # servers) = server_line os i server @ box_lines os (Suc i) servers"
  "box_lines os i (ss @ [server]) = box_lines os i ss @ server_line os (i + length ss) server"
  by (simp_all add: box_lines_def enumerate_append_eq)

lemma server_lines_eq:
  "length msg < 512 \<Longrightarrow>
   server_lines os i servers msg = wcscat 512 msg (box_lines os i servers)"
proof (induction servers arbitrary: i msg)
  case (Cons server servers)
  then show ?case by (simp add: wcscat_def)
qed (simp add: wcscat_def)

lemma L_length [simp]: "length (L s) = length s"
  by (simp add: L_def ascii_def)

lemma results_box:
  assumes "2 \<le> length (kg_discovery_result g)"
  shows "show_discovery_results os g = None \<longleftrightarrow> 512 \<le> 36 + length (box_lines os 0 (kg_discovery_result g))"
  using assms by (simp add: show_discovery_results_def server_lines_eq wcscat_def Let_def)

text \<open>The address of a server as it is shown.\<close>

definition ip_text :: "gui_os \<Rightarrow> discovered_server \<Rightarrow> wide" where
  "ip_text os server = wstr (gui_utf8_to_wide (go_to_wide os) (Some (ds_ip_address server)) (go_wide_buf os 32) 32)"

lemma show_nat_digits_2: "10 \<le> n \<Longrightarrow> n < 100 \<Longrightarrow> length (show_nat n) = 2"
  by (subst show_nat.simps) (simp add: show_nat_small)

lemma server_line_length:
  assumes "i < 32" and "length (ip_text os server) \<le> 31"
  shows "length (server_line os i server) = length (ip_text os server) + (if i < 9 then 4 else 5)"
proof -
  have "length (show_nat (i + 1)) = (if i < 9 then 1 else 2)"
    using assms(1) show_nat_digits_2[of "i + 1"] by (simp add: show_nat_small)
  then show ?thesis using assms(2) by (simp add: server_line_def ip_text_def Let_def)
qed

lemma box_lines_bound:
  "length servers \<le> 32 \<Longrightarrow> \<forall>s\<in>set servers. length (ip_text os s) \<le> 31 \<Longrightarrow>
   length (box_lines os 0 servers) \<le> 36 * length servers"
proof (induction servers rule: rev_induct)
  case (snoc s ss)
  then show ?case using server_line_length[of "length ss" os s] by (auto split: if_splits)
qed simp

lemma box_lines_full:
  "length servers \<le> 32 \<Longrightarrow> \<forall>s\<in>set servers. length (ip_text os s) = 15 \<Longrightarrow>
   length (box_lines os 0 servers) = 19 * length servers + (length servers - 9)"
proof (induction servers rule: rev_induct)
  case (snoc s ss)
  then show ?case using server_line_length[of "length ss" os s] by (auto split: if_splits)
qed simp

text \<open>
  C34: The message that lists the servers found can be longer than its buffer of 512 characters.
  Up to 13 servers always fit, whatever their addresses; but discovery collects up to 32, and
  with addresses of 15 characters the message is written past the buffer from 25 servers on.
\<close>

theorem gui_discovery_overrun:
  assumes "2 \<le> length (kg_discovery_result g)" and "length (kg_discovery_result g) \<le> 32"
  shows "((\<forall>s\<in>set (kg_discovery_result g). length (ip_text os s) \<le> 31) \<and> length (kg_discovery_result g) \<le> 13 \<longrightarrow>
      show_discovery_results os g \<noteq> None) \<and>
    ((\<forall>s\<in>set (kg_discovery_result g). length (ip_text os s) = 15) \<longrightarrow>
      (show_discovery_results os g = None \<longleftrightarrow> 25 \<le> length (kg_discovery_result g)))"
proof -
  note box = results_box[OF assms(1)]
  have "show_discovery_results os g \<noteq> None"
    if "\<forall>s\<in>set (kg_discovery_result g). length (ip_text os s) \<le> 31" "length (kg_discovery_result g) \<le> 13"
    using box_lines_bound[OF assms(2) that(1)] that(2) unfolding box by linarith
  moreover have "show_discovery_results os g = None \<longleftrightarrow> 25 \<le> length (kg_discovery_result g)"
    if "\<forall>s\<in>set (kg_discovery_result g). length (ip_text os s) = 15"
    using assms(2) unfolding box box_lines_full[OF assms(2) that] by auto
  ultimately show ?thesis by blast
qed

section \<open>The attached devices\<close>

definition busids :: "client_sys \<Rightarrow> byte list list" where
  "busids s = map (\<lambda>n. cstr (rd_busid (snd n))) (rl_head (cl_list s))"

text \<open>Consistent ports and list, as in \<open>remote_inv\<close>, and no identifier twice.\<close>

definition kg_inv :: "client_gui \<Rightarrow> bool" where
  "kg_inv g \<longleftrightarrow> remote_inv (kg_sys g) \<and> rl_initialized (cl_list (kg_sys g)) \<and> distinct (busids (kg_sys g))"

lemma kui_simps [simp]:
  "kg_sys (kui cs g) = kg_sys g" "kg_ui (kui cs g) = kg_ui g @ cs" "kg_connected (kui cs g) = kg_connected g"
  "kg_discovery_result (kui cs g) = kg_discovery_result g" "token_now net (kui cs g) = token_now net g"
  "kg_current_server (kui cs g) = kg_current_server g" "kg_current_port (kui cs g) = kg_current_port g"
  by (simp_all add: kui_def token_now_def)

lemma remote_inv_net [simp]: "remote_inv (s\<lparr>cl_net := n\<rparr>) = remote_inv s" "busids (s\<lparr>cl_net := n\<rparr>) = busids s"
  by (simp_all add: remote_inv_def busids_def)

lemma find_remote_iff: "find_remote P ns = None \<longleftrightarrow> (\<forall>n\<in>set ns. \<not> P (snd n))"
  by (induction P ns rule: find_remote.induct) auto

lemma find_busid_iff:
  "rl_initialized (cl_list s) \<Longrightarrow> remote_device_find_by_busid (cl_list s) b = None \<longleftrightarrow> cstr b \<notin> set (busids s)"
  by (force simp: remote_device_find_by_busid_def find_remote_iff busids_def streq_def)

lemma find_remote_Some:
  "find_remote P ns = Some p \<Longrightarrow> \<exists>us d vs. ns = us @ (p, d) # vs \<and> P d"
proof (induction P ns rule: find_remote.induct)
  case (2 P q d ns)
  show ?case
  proof (cases "P d")
    case True
    then show ?thesis using 2(2) by (auto intro: exI[of _ "[]"])
  next
    case False
    then obtain us d' vs where "ns = us @ (p, d') # vs" "P d'" using 2 by auto
    then show ?thesis by (intro exI[of _ "(q, d) # us"]) auto
  qed
qed simp

lemma attach_remote_list:
  assumes "attach_remote drv ip port p dev s = (err, out, s')"
  shows "if err = ERR_SUCCESS then busids s' = cstr (rd_busid dev) # busids s else busids s' = busids s"
    and "rl_initialized (cl_list s') = rl_initialized (cl_list s)"
  using assms by (auto simp: attach_remote_def link_remote_def busids_def Let_def split: if_splits prod.splits)

lemma connect_busids:
  assumes "remote_device_connect os drv token calloc vhci ip port b s c = Some (err, out, s', c')" and "strlen b < 32"
  shows "busids s' = (if err = ERR_SUCCESS then cstr b # busids s else busids s)"
  using assms(1)
proof (cases rule: connect_imported)
  case failed
  then show ?thesis by (simp add: busids_def)
next
  case (imported p dev s1)
  have "cstr (rd_busid dev) = cstr b" using imported(7) assms(2) by (simp add: strlen_def)
  then show ?thesis using attach_remote_list(1)[OF imported(2)] imported(4) by (auto simp: busids_def split: if_splits)
qed

lemma unlink_remote_split:
  "p \<notin> fst ` set us \<Longrightarrow> unlink_remote p (us @ (p, d) # vs) = (us @ vs, Some d)"
  by (induction us) auto

lemma disconnect_busids:
  assumes "kg_inv g" and "remote_device_find_by_busid (cl_list (kg_sys g)) b = Some p"
  shows "busids (snd (remote_device_disconnect p (kg_sys g))) = remove1 (cstr b) (busids (kg_sys g))"
    and "rl_initialized (cl_list (snd (remote_device_disconnect p (kg_sys g))))"
proof -
  let ?s = "kg_sys g"
  have i: "rl_initialized (cl_list ?s)" "distinct (busids ?s)" "distinct (map fst (rl_head (cl_list ?s)))"
    using assms(1) by (simp_all add: kg_inv_def remote_inv_def remotes_ok_def)
  have "find_remote (\<lambda>d. streq (rd_busid d) b) (rl_head (cl_list ?s)) = Some p"
    using assms(2) i(1) by (simp add: remote_device_find_by_busid_def)
  then obtain us d vs where n: "rl_head (cl_list ?s) = us @ (p, d) # vs" "streq (rd_busid d) b"
    using find_remote_Some by blast
  then have "p \<notin> fst ` set us" using i(3) by auto
  note u = unlink_remote_split[OF this, of d vs]
  have "cstr b \<notin> (\<lambda>n. cstr (rd_busid (snd n))) ` set us" using i(2) n by (auto simp: busids_def streq_def)
  then show "busids (snd (remote_device_disconnect p ?s)) = remove1 (cstr b) (busids ?s)"
    using n by (simp add: remote_device_disconnect_def u busids_def remove1_append streq_def)
  show "rl_initialized (cl_list (snd (remote_device_disconnect p ?s)))"
    by (simp add: remote_device_disconnect_def i(1) split: prod.splits option.splits)
qed

text \<open>The conversion of an item's text terminates the string in the buffer.\<close>

definition utf8_fits :: "gui_os \<Rightarrow> bool" where
  "utf8_fits os \<longleftrightarrow> (\<forall>w buf. strlen (go_to_utf8 os w buf 32) < 32)"

definition item_busid :: "gui_os \<Rightarrow> wide \<Rightarrow> cbuf" where
  "item_busid os item = gui_wide_to_utf8 (go_to_utf8 os) (Some item) (go_buf os 32) 32"

lemma item_busid_fits: "utf8_fits os \<Longrightarrow> strlen (item_busid os item) < 32"
  by (simp add: utf8_fits_def item_busid_def gui_wide_to_utf8_def)

definition fresh_alloc :: "gui_net \<Rightarrow> client_gui \<Rightarrow> bool" where
  "fresh_alloc net g \<longleftrightarrow> (\<forall>p. kn_alloc net = Some p \<longrightarrow> p \<notin> set (map fst (rl_head (cl_list (kg_sys g)))))"

lemma attach_device_spec:
  assumes "kg_inv g" and "fresh_alloc net g" and "strlen b < 32" and "client_gui_attach_device net b g = Some (err, out, g')"
  shows "kg_inv g'" and "err \<noteq> ERR_SUCCESS \<Longrightarrow> busids (kg_sys g') = busids (kg_sys g)"
    and "err = ERR_SUCCESS \<Longrightarrow> busids (kg_sys g') = cstr b # busids (kg_sys g) \<and> cstr b \<notin> set (busids (kg_sys g))"
    and "kg_ui g' = kg_ui g"
proof -
  have init: "rl_initialized (cl_list (kg_sys g))" using assms(1) by (simp add: kg_inv_def)
  have "kg_inv g' \<and> (err \<noteq> ERR_SUCCESS \<longrightarrow> busids (kg_sys g') = busids (kg_sys g)) \<and>
    (err = ERR_SUCCESS \<longrightarrow> busids (kg_sys g') = cstr b # busids (kg_sys g) \<and> cstr b \<notin> set (busids (kg_sys g))) \<and> kg_ui g' = kg_ui g"
  proof (cases "remote_device_find_by_busid (cl_list (kg_sys g)) b = None")
    case False
    then show ?thesis using assms(1,4) by (auto simp: client_gui_attach_device_def)
  next
    case True
    then have new: "cstr b \<notin> set (busids (kg_sys g))" by (simp add: find_busid_iff[OF init])
    obtain s c where r: "remote_device_connect (kn_os net) (kn_driver net) (token_now net g) (kn_alloc net) True
        (kg_current_server g) (kg_current_port g) b (kg_sys g) (kn_conn1 net) = Some (err, out, s, c)" "g' = g\<lparr>kg_sys := s\<rparr>"
      using assms(4) True by (auto simp: client_gui_attach_device_def bind_eq_Some_conv)
    have "remote_inv s" by (rule remote_device_connect_inv[OF _ _ r(1)]) (use assms(1,2) in \<open>auto simp: kg_inv_def fresh_alloc_def\<close>)
    moreover have "rl_initialized (cl_list s)" using connect_keeps_initialized[OF r(1)] init by simp
    ultimately show ?thesis using connect_busids[OF r(1) assms(3)] new assms(1) r(2) by (auto simp: kg_inv_def)
  qed
  then show "kg_inv g'" "err \<noteq> ERR_SUCCESS \<Longrightarrow> busids (kg_sys g') = busids (kg_sys g)"
    "err = ERR_SUCCESS \<Longrightarrow> busids (kg_sys g') = cstr b # busids (kg_sys g) \<and> cstr b \<notin> set (busids (kg_sys g))"
    "kg_ui g' = kg_ui g" by blast+
qed

lemma detach_device_spec:
  assumes "kg_inv g" and "client_gui_detach_device b g = (err, g')"
  shows "kg_inv g' \<and> kg_ui g' = kg_ui g \<and> cstr b \<notin> set (busids (kg_sys g')) \<and>
    (err = ERR_SUCCESS \<longleftrightarrow> cstr b \<in> set (busids (kg_sys g)))"
proof -
  have init: "rl_initialized (cl_list (kg_sys g))" and d: "distinct (busids (kg_sys g))" and r: "remote_inv (kg_sys g)"
    using assms(1) by (simp_all add: kg_inv_def)
  show ?thesis
  proof (cases "remote_device_find_by_busid (cl_list (kg_sys g)) b")
    case None
    then show ?thesis using assms find_busid_iff[OF init, of b] by (auto simp: client_gui_detach_device_def)
  next
    case (Some p)
    then have "cstr b \<in> set (busids (kg_sys g))" using find_busid_iff[OF init, of b] by auto
    then show ?thesis using Some assms disconnect_busids[OF assms(1) Some] remote_device_disconnect_inv[OF r, of p] d
      by (auto simp: client_gui_detach_device_def kg_inv_def)
  qed
qed

section \<open>The attachments over messages\<close>

lemma list_devices_keeps:
  "gui_list_devices net c n g = Some (err, ds, g') \<Longrightarrow> kg_inv g \<Longrightarrow> kg_inv g'"
  by (auto simp: gui_list_devices_def bind_eq_Some_conv kg_inv_def)

lemma device_rows_sys [simp]: "kg_sys (device_rows os i ds g) = kg_sys g"
  by (induction os i ds g rule: device_rows.induct) (simp_all add: Let_def)

lemma kg_inv_frame [simp]:
  "kg_inv (kui cs g) = kg_inv g" "kg_inv (device_rows os i ds g) = kg_inv g" "kg_inv (g\<lparr>kg_updating_checkbox := u\<rparr>) = kg_inv g"
  "kg_inv (g\<lparr>kg_connected := b\<rparr>) = kg_inv g" "kg_inv (g\<lparr>kg_token_set := b\<rparr>) = kg_inv g"
  "kg_inv (g\<lparr>kg_discovery_result := r\<rparr>) = kg_inv g" "kg_inv (g\<lparr>kg_discovery_thread := t\<rparr>) = kg_inv g"
  "kg_inv (g\<lparr>kg_current_server := b'\<rparr>) = kg_inv g"
  by (simp_all add: kg_inv_def)

lemma populate_keeps:
  "client_populate os net c g = Some g' \<Longrightarrow> kg_inv g \<Longrightarrow> kg_inv g'"
  by (auto simp: client_populate_def Let_def bind_eq_Some_conv dest!: list_devices_keeps split: if_splits)

lemma connect_keeps:
  "client_gui_connect os net g = Some (ok, g') \<Longrightarrow> kg_inv g \<Longrightarrow> kg_inv g'"
  by (auto simp: client_gui_connect_def client_gui_refresh_devices_def Let_def bind_eq_Some_conv
      dest!: list_devices_keeps populate_keeps split: if_splits)

lemma disconnect_remotes_initialized: "rl_initialized (cl_list (disconnect_remotes s)) = rl_initialized (cl_list s)"
proof (induction s rule: disconnect_remotes.induct)
  case (1 s)
  then show ?case
    by (cases "rl_head (cl_list s) = []") (simp_all add: disconnect_remotes.simps[of s] disconnect_initialized)
qed

lemma disconnect_all_keeps:
  "kg_inv g \<Longrightarrow> kg_inv (g\<lparr>kg_sys := remote_device_disconnect_all (kg_sys g)\<rparr>)"
  using disconnect_remotes_inv[of "kg_sys g"] disconnect_remotes_empty[of "kg_sys g"] disconnect_remotes_initialized[of "kg_sys g"]
  by (simp add: kg_inv_def remote_device_disconnect_all_def busids_def)

lemma disconnect_keeps: "kg_inv g \<Longrightarrow> kg_inv (client_gui_disconnect g)"
  using disconnect_all_keeps[of g] by (simp add: client_gui_disconnect_def kg_inv_def)

lemma checkbox_keeps:
  assumes "utf8_fits os" and "fresh_alloc net g" and "client_checkbox_changed os net item checked i g = Some g'" and "kg_inv g"
  shows "kg_inv g'"
proof -
  let ?g = "kui [SetText StatusBar (L ''Attaching device...'')] g"
  have f: "fresh_alloc net ?g" "kg_inv ?g" using assms(2,4) by (simp_all add: fresh_alloc_def)
  note at = attach_device_spec(1)[OF f(2,1) item_busid_fits[OF assms(1)]]
  obtain err g1 where d: "client_gui_detach_device (item_busid os item) (kui [SetText StatusBar (L ''Detaching device...'')] g) = (err, g1)"
    by fastforce
  have "kg_inv g1" using detach_device_spec[OF _ d] assms(4) by simp
  then show ?thesis using assms(3,4) at d
    by (auto simp: client_checkbox_changed_def bind_eq_Some_conv Let_def simp flip: item_busid_def split: if_splits)
qed

text \<open>The memory a message may allocate is not in use.\<close>

fun msg_fresh :: "client_msg \<Rightarrow> client_gui \<Rightarrow> bool" where
  "msg_fresh (MsgItemChanged n net) g \<longleftrightarrow> fresh_alloc net g"
| "msg_fresh _ g \<longleftrightarrow> True"

lemma results_keeps: "show_discovery_results os g = Some g' \<Longrightarrow> kg_inv g \<Longrightarrow> kg_inv g'"
  by (auto simp: show_discovery_results_def Let_def bind_eq_Some_conv split: if_splits)

lemma wnd_proc_keeps:
  assumes "utf8_fits os" and "msg_fresh m g" and "ClientWndProc os m g = Some g'" and "kg_inv g"
  shows "kg_inv g'"
  using assms
proof (cases m)
  case (CmdConnect net server token)
  then show ?thesis using assms(3,4)
    by (auto simp: on_connect_clicked_def client_gui_set_server_def Let_def disconnect_keeps dest!: connect_keeps split: if_splits)
next
  case (MsgItemChanged n net)
  then show ?thesis using assms checkbox_keeps by (auto split: if_splits)
next
  case MsgDiscoveryDone
  then show ?thesis using assms(3,4) by (auto dest!: results_keeps)
qed (auto simp: on_discover_clicked_def client_on_refresh_clicked_def client_gui_refresh_devices_def dest: populate_keeps split: if_splits)

lemma discovery_keeps: "discovery_thread_func env turns g = Some g' \<Longrightarrow> kg_inv g \<Longrightarrow> kg_inv g'"
  by (auto simp: discovery_thread_func_def bind_eq_Some_conv kg_inv_def)

inductive client_steps :: "gui_os \<Rightarrow> client_gui \<Rightarrow> client_gui \<Rightarrow> bool" where
  client_start: "client_steps os g g"
| client_message: "client_steps os g g1 \<Longrightarrow> msg_fresh m g1 \<Longrightarrow> ClientWndProc os m g1 = Some g2 \<Longrightarrow> client_steps os g g2"
| client_discovery: "client_steps os g g1 \<Longrightarrow> discovery_thread_func env turns g1 = Some g2 \<Longrightarrow> client_steps os g g2"

lemma client_steps_inv: "client_steps os g g' \<Longrightarrow> utf8_fits os \<Longrightarrow> kg_inv g \<Longrightarrow> kg_inv g'"
  by (induction rule: client_steps.induct) (auto dest: wnd_proc_keeps discovery_keeps)

lemma client_gui_init_inv:
  assumes "client_gui_init env = (True, g)" and "cw_ports_alloc env" and "cw_list_mutex env"
  shows "kg_inv g"
proof -
  have s: "kg_sys g = (start_sys (cw_driver env) (cw_world env))"
    using assms by (auto simp: client_gui_init_def create_client_window_def start_sys_def zero_client_gui_def kui_def Let_def split: if_splits prod.splits)
  show ?thesis using start_sys_inv[of "cw_driver env" "cw_world env"]
    by (simp add: kg_inv_def s busids_def) (simp add: start_sys_def remote_device_list_init_def Let_def split: prod.splits)
qed

text \<open>
  C9: The attachments of the graphical client stay consistent over any sequence of messages and
  discoveries: every attached device holds a connected port of its own that shows its identifier,
  no bus identifier is attached twice, and leaving the program frees every port and empties the list.
\<close>

theorem gui_client_consistent:
  assumes "client_gui_init env = (True, g0)" and "cw_ports_alloc env" and "cw_list_mutex env"
    and "utf8_fits os" and "client_steps os g0 g"
  shows "remotes_ok (cl_vhci (kg_sys g)) (rl_head (cl_list (kg_sys g))) \<and> distinct (busids (kg_sys g)) \<and>
    client_clean (kg_sys (client_gui_cleanup g))"
proof -
  have i: "kg_inv g" using client_steps_inv[OF assms(5,4) client_gui_init_inv[OF assms(1-3)]] .
  then have "remotes_ok (cl_vhci (kg_sys g)) (rl_head (cl_list (kg_sys g)))" "distinct (busids (kg_sys g))"
    by (simp_all add: kg_inv_def remote_inv_def)
  moreover have "kg_inv (g\<lparr>kg_sys := remote_device_disconnect_all (kg_sys g)\<rparr>)" by (rule disconnect_all_keeps[OF i])
  ultimately show ?thesis
    by (simp add: client_gui_cleanup_def kg_inv_def list_cleanup_inv cleanup_vhci_clean)
qed

section \<open>The check marks\<close>

text \<open>The mark of a row after some calls.\<close>

definition mark_after :: "int \<Rightarrow> ui_call list \<Rightarrow> bool \<Rightarrow> bool" where
  "mark_after index calls checked =
     fold (\<lambda>call m. case call of LvSetCheck c row b \<Rightarrow> if c = DeviceList \<and> row = index then b else m | _ \<Rightarrow> m) calls checked"

text \<open>
  C33: A check mark tells whether its device is attached. When the mark of a row agreed with the
  attachment before the user changed it, it agrees again after the change was handled, whether
  attaching succeeded (the device is in the list) or failed (the mark is cleared again).
\<close>

theorem gui_checkbox_agrees:
  assumes "kg_inv g" and "utf8_fits os" and "fresh_alloc net g" and "\<not> kg_updating_checkbox g"
    and "char_at (item_busid os item) 0 \<noteq> 0"
    and "checked \<longleftrightarrow> cstr (item_busid os item) \<notin> set (busids (kg_sys g))"
    and "client_checkbox_changed os net item checked index g = Some g'"
  shows "\<exists>calls. kg_ui g' = kg_ui g @ calls \<and>
    (mark_after index calls checked \<longleftrightarrow> cstr (item_busid os item) \<in> set (busids (kg_sys g')))"
proof (cases checked)
  case True
  let ?b = "item_busid os item" and ?g = "kui [SetText StatusBar (L ''Attaching device...'')] g"
  have f: "fresh_alloc net ?g" "kg_inv ?g" using assms(1,3) by (simp_all add: fresh_alloc_def)
  obtain err device g1 where a: "client_gui_attach_device net ?b ?g = Some (err, device, g1)"
    and g': "g' = (if err = ERR_SUCCESS
      then kui [LvSetItem DeviceList index 3 (L ''Attached''), SetText StatusBar (L ''Device attached'')] g1
      else kui [LvSetCheck DeviceList index False, SetText StatusBar (L ''Failed to attach device''),
                gui_show_error (L ''Failed to attach device'')] (g1\<lparr>kg_updating_checkbox := False\<rparr>))"
    using assms(4,5,7) True
    by (auto simp: client_checkbox_changed_def bind_eq_Some_conv Let_def simp flip: item_busid_def)
  note s = attach_device_spec[OF f(2,1) item_busid_fits[OF assms(2)] a]
  show ?thesis
    by (rule exI[of _ "drop (length (kg_ui g)) (kg_ui g')"])
      (use s(2,3,4) True assms(6) in \<open>auto simp: g' mark_after_def\<close>)
next
  case False
  let ?b = "item_busid os item"
  obtain err g1 where d: "client_gui_detach_device ?b (kui [SetText StatusBar (L ''Detaching device...'')] g) = (err, g1)" by fastforce
  have s: "cstr ?b \<notin> set (busids (kg_sys g1))" "err = ERR_SUCCESS" "kg_ui g1 = kg_ui g @ [SetText StatusBar (L ''Detaching device...'')]"
    using detach_device_spec[OF _ d] assms(1,6) False by auto
  have "g' = kui [LvSetItem DeviceList index 3 (L ''Available''), SetText StatusBar (L ''Device detached'')] g1"
    using assms(4,5,7) False d s(2) by (simp add: client_checkbox_changed_def Let_def flip: item_busid_def)
  then show ?thesis using s(1,3) False by (simp add: mark_after_def)
qed

section \<open>Samples\<close>

definition plain_gui_os :: gui_os where
  "plain_gui_os =
     \<lparr>go_to_wide = (\<lambda>s w n. map ucast (take (nat n - 1) (cstr s)) @ [0]),
      go_to_utf8 = (\<lambda>w b n. map ucast (take (nat n - 1) (wstr w)) @ [0]),
      go_row = (\<lambda>calls. 0), go_wide_buf = (\<lambda>n. replicate n 0), go_buf = (\<lambda>n. replicate n 0)\<rparr>"

lemma plain_fits: "utf8_fits plain_gui_os"
proof -
  have "length (takeWhile (\<lambda>x. x \<noteq> 0) (xs @ [0])) \<le> length xs" for xs :: "byte list"
    by (induction xs) auto
  then have "length (cstr (map ucast (take 31 (wstr w)) @ [0 :: byte])) < 32" for w
    unfolding cstr_def by (rule le_less_trans) simp
  then show ?thesis by (simp add: utf8_fits_def plain_gui_os_def strlen_def)
qed

definition sample_client_window :: client_window where
  "sample_client_window =
     \<lparr>cw_desktop = sample_desktop, cw_layout = layout_for (\<lambda>a b c. (a * b + c div 2) div c) 96 0 460 360 0 20,
      cw_driver = sample_driver, cw_ports_alloc = True, cw_list_mutex = True, cw_world = fresh_world\<rparr>"

definition sample_net :: gui_net where
  "sample_net = \<lparr>kn_os = sample_winsock, kn_driver = sample_driver, kn_token_mem = replicate 64 0, kn_alloc = None,
     kn_conn1 = sample_conn, kn_conn2 = sample_conn\<rparr>"

definition sample_client_gui :: client_gui where
  "sample_client_gui = snd (client_gui_init sample_client_window)"

lemma sample_client_gui_init: "client_gui_init sample_client_window = (True, sample_client_gui)"
  by (simp add: sample_client_gui_def client_gui_init_def sample_client_window_def Let_def create_client_window_def
      register_client_class_def register_class_def sample_desktop_def load_icon_def split: prod.splits)

text \<open>A client whose user has checked one device, which the server grants.\<close>

definition sample_check :: client_msg where
  "sample_check = MsgItemChanged
     \<lparr>ic_idFrom = 1104, ic_code = LVN_ITEMCHANGED, ic_uChanged = LVIF_STATE, ic_uNewState = 0x2000, ic_uOldState = 0x1000,
      ic_iItem = 0, ic_text = L ''1-2'', ic_checked = True\<rparr>
     (sample_net\<lparr>kn_alloc := Some 40, kn_conn1 := sample_conn\<lparr>rx := import_answer\<rparr>\<rparr>)"

theorem gui_client_consistent_witness:
  "\<exists>g. ClientWndProc plain_gui_os sample_check sample_client_gui = Some g \<and> length (rl_head (cl_list (kg_sys g))) = 1 \<and>
     remotes_ok (cl_vhci (kg_sys g)) (rl_head (cl_list (kg_sys g))) \<and> client_clean (kg_sys (client_gui_cleanup g))"
proof -
  have "map_option (\<lambda>g. length (rl_head (cl_list (kg_sys g)))) (ClientWndProc plain_gui_os sample_check sample_client_gui) = Some 1"
    by code_simp
  then obtain g where g: "ClientWndProc plain_gui_os sample_check sample_client_gui = Some g" "length (rl_head (cl_list (kg_sys g))) = 1"
    by auto
  have "rl_head (cl_list (kg_sys sample_client_gui)) = []" by code_simp
  then have "msg_fresh sample_check sample_client_gui" by (simp add: sample_check_def fresh_alloc_def)
  then have st: "client_steps plain_gui_os sample_client_gui g" using client_message[OF client_start _ g(1)] by blast
  have w: "cw_ports_alloc sample_client_window" "cw_list_mutex sample_client_window" by (simp_all add: sample_client_window_def)
  show ?thesis using gui_client_consistent[OF sample_client_gui_init w plain_fits st] g by blast
qed

definition many_servers :: "nat \<Rightarrow> client_gui" where
  "many_servers n = sample_client_gui\<lparr>kg_discovery_result := replicate n (zero_server\<lparr>ds_ip_address := ascii ''192.168.100.200'' @ [0]\<rparr>)\<rparr>"

theorem gui_discovery_overrun_witness:
  "show_discovery_results plain_gui_os (many_servers 25) = None \<and> show_discovery_results plain_gui_os (many_servers 3) \<noteq> None"
proof -
  have ip: "length (ip_text plain_gui_os (zero_server\<lparr>ds_ip_address := ascii ''192.168.100.200'' @ [0]\<rparr>)) = 15" by code_simp
  then show ?thesis
    using gui_discovery_overrun[of "many_servers 25" plain_gui_os] gui_discovery_overrun[of "many_servers 3" plain_gui_os]
    by (simp add: many_servers_def)
qed

theorem gui_checkbox_agrees_witness:
  "\<exists>g' calls. client_checkbox_changed plain_gui_os sample_net (L ''1-1'') True 0 sample_client_gui = Some g' \<and>
     kg_ui g' = kg_ui sample_client_gui @ calls \<and> \<not> mark_after 0 calls True"
proof -
  have inv: "kg_inv sample_client_gui"
    by (rule client_gui_init_inv[OF sample_client_gui_init]) (simp_all add: sample_client_window_def)
  have b: "char_at (item_busid plain_gui_os (L ''1-1'')) 0 \<noteq> 0" "\<not> kg_updating_checkbox sample_client_gui"
    "busids (kg_sys sample_client_gui) = []"
    "map_option (\<lambda>g. busids (kg_sys g)) (client_checkbox_changed plain_gui_os sample_net (L ''1-1'') True 0 sample_client_gui) = Some []"
    by code_simp+
  then obtain g' where g': "client_checkbox_changed plain_gui_os sample_net (L ''1-1'') True 0 sample_client_gui = Some g'"
    "busids (kg_sys g') = []" by auto
  have "fresh_alloc sample_net sample_client_gui" by (simp add: fresh_alloc_def sample_net_def)
  from gui_checkbox_agrees[OF inv plain_fits this b(2,1) _ g'(1)] show ?thesis using g' b(3) by auto
qed

end
