(* ===== verification/Printing.thy ===== *)
theory Printing
  imports Client_Main Server_Main Log
begin

text \<open>
  What the two command-line programs print: the printers of every component and the texts of
  the commands of \<^verbatim>\<open>client/main.c\<close> and \<^verbatim>\<open>server/main.c\<close>. A printer gives one \<open>printed\<close> for each
  call of \<^verbatim>\<open>printf\<close> or of a log macro, in order. The conversion \<open>%s\<close> of a character array that has no
  zero byte reads behind the array; such a call is \<open>None\<close>.
\<close>

section \<open>Formats\<close>

type_synonym printed = "byte list option"

datatype console = Stdout printed | Stderr printed

definition lit :: "string \<Rightarrow> printed" where
  "lit s = Some (ascii s)"

text \<open>\<open>%s\<close> of an array, and of a string argument that is terminated behind the list.\<close>

definition arr :: "cbuf \<Rightarrow> printed" where
  "arr buf = (if 0 \<in> set buf then Some (cstr buf) else None)"

definition argv :: "cbuf \<Rightarrow> printed" where
  "argv s = Some (cstr s)"

definition dec :: "'a::len word \<Rightarrow> printed" where
  "dec n = lit (show_nat (unat n))"

definition dec_int :: "int \<Rightarrow> printed" where
  "dec_int n = lit (if n < 0 then ''-'' @ show_nat (nat (- n)) else show_nat (nat n))"

text \<open>Upper-case hexadecimal, padded with zeros to \<open>w\<close> digits.\<close>

definition hex_pad :: "nat \<Rightarrow> nat \<Rightarrow> byte list" where
  "hex_pad w n = (let h = show_hex n in replicate (w - length h) 48 @ h)"

definition hexw :: "nat \<Rightarrow> 'a::len word \<Rightarrow> printed" where
  "hexw w n = Some (hex_pad w (unat n))"

definition fmt :: "printed list \<Rightarrow> printed" where
  "fmt ps = map_option concat (those ps)"

text \<open>A format that ends in a newline.\<close>

definition line :: "printed list \<Rightarrow> printed" where
  "line ps = fmt (ps @ [Some [10]])"

definition text_line :: "string \<Rightarrow> printed" where
  "text_line s = line [lit s]"

abbreviation (input) nl :: printed where "nl \<equiv> Some [10]"

text \<open>A list of such calls to \<^verbatim>\<open>log_write\<close>; \<open>at\<close> gives place and time of each.\<close>

fun log_all :: "(nat \<Rightarrow> log_site \<times> system_time) \<Rightarrow> (log_level \<times> printed) list \<Rightarrow> g_log \<Rightarrow> g_log option" where
  "log_all at [] g = Some g"
| "log_all at ((level, p) # ls) g = do {
     txt \<leftarrow> p;
     g \<leftarrow> log_write level (fst (at 0)) (snd (at 0)) txt g;
     log_all (\<lambda>i. at (Suc i)) ls g
   }"

definition info :: "printed list \<Rightarrow> (log_level \<times> printed) list" where
  "info ps = map (Pair LOG_LEVEL_INFO) ps"

section \<open>Printers of the server\<close>

definition usb_print_device_info :: "usb_device \<Rightarrow> (log_level \<times> printed) list" where
  "usb_print_device_info d = info
     [fmt [lit ''USB Device: '', arr (dv_busid d)],
      fmt [lit ''  Path: '', arr (dv_path d)],
      fmt [lit ''  VID/PID: '', hexw 4 (dv_vendor_id d), lit '':'', hexw 4 (dv_product_id d)],
      fmt [lit ''  Class: '', hexw 2 (dv_device_class d), lit ''/'', hexw 2 (dv_device_subclass d), lit ''/'',
           hexw 2 (dv_device_protocol d)],
      fmt [lit ''  Speed: '', lit (usb_speed_string (dv_speed d))],
      fmt [lit ''  Manufacturer: '', arr (dv_manufacturer d)],
      fmt [lit ''  Product: '', arr (dv_product d)],
      fmt [lit ''  Serial: '', arr (dv_serial d)],
      fmt [lit ''  Interfaces: '', dec (dv_num_interfaces d)]]"

abbreviation (input) rule_line :: printed where
  "rule_line \<equiv> lit ''----------------------------------------''"

text \<open>The loop of \<^verbatim>\<open>device_list_print\<close>; \<open>index\<close> counts the entries.\<close>

fun device_list_lines :: "int \<Rightarrow> (nat \<times> device_entry) list \<Rightarrow> printed list" where
  "device_list_lines index [] = []"
| "device_list_lines index ((p, e) # es) =
     [fmt [lit ''['', dec_int index, lit ''] '', arr (dv_busid (de_device e)), lit '' - '',
           hexw 4 (dv_vendor_id (de_device e)), lit '':'', hexw 4 (dv_product_id (de_device e)), lit '' ('',
           lit (device_state_string (de_state e)), lit '')''],
      fmt [lit ''    Product: '', arr (dv_product (de_device e))],
      fmt [lit ''    Shared: '', lit (if de_is_shared e then ''Yes'' else ''No'')]] @
     (if de_state e = DEVICE_STATE_EXPORTED
      then [fmt [lit ''    Client: '', dec (de_client_id e), lit '' ('', arr (de_client_ip e), lit '')'']] else []) @
     device_list_lines (index + 1) es"

definition device_list_print :: "device_list \<Rightarrow> (log_level \<times> printed) list" where
  "device_list_print l = info
     ([fmt [lit ''Device List ('', dec_int (dl_count l), lit '' devices):''], rule_line] @
      device_list_lines 0 (dl_head l) @ [rule_line])"

definition client_print_info :: "client_connection \<Rightarrow> (log_level \<times> printed) list" where
  "client_print_info c = info
     ([fmt [lit ''Client '', dec (cc_id c), lit '':''],
       fmt [lit ''  Address: '', arr (cc_ip_address c), lit '':'', dec (cc_port c)],
       fmt [lit ''  State: '', lit (client_state_string (cc_state c))]] @
      (if char_at (cc_attached_busid c) 0 \<noteq> 0 then [fmt [lit ''  Device: '', arr (cc_attached_busid c)]] else []) @
      [fmt [lit ''  URBs: '', dec (cc_urbs_processed c)],
       fmt [lit ''  Sent: '', dec (cc_bytes_sent c), lit '' bytes''],
       fmt [lit ''  Received: '', dec (cc_bytes_received c), lit '' bytes'']])"

definition client_manager_print :: "client_manager \<Rightarrow> (log_level \<times> printed) list" where
  "client_manager_print m =
     (if \<not> cm_initialized m then []
      else info [fmt [lit ''Client Manager ('', dec_int (cm_client_count m), lit '' clients):''], rule_line] @
           concat (map (\<lambda>(p, c). client_print_info c) (cm_clients m)) @ info [rule_line])"

definition urb_handler_print_urb :: "urb_entry \<Rightarrow> (log_level \<times> printed) list" where
  "urb_handler_print_urb e = map (Pair LOG_LEVEL_DEBUG)
     [lit ''URB Entry:'',
      fmt [lit ''  Seqnum: '', dec (ue_seqnum e)],
      fmt [lit ''  DevID: 0x'', hexw 8 (ue_devid e)],
      fmt [lit ''  Endpoint: 0x'', hexw 2 (ub_endpoint (ue_urb e))],
      fmt [lit ''  Direction: '', lit (if ub_direction (ue_urb e) = ucast USBIP_DIR_IN then ''IN'' else ''OUT'')],
      fmt [lit ''  Buffer Length: '', dec (ub_buffer_length (ue_urb e))],
      fmt [lit ''  Actual Length: '', dec (ub_actual_length (ue_urb e))],
      fmt [lit ''  Status: '', dec_int (ub_status (ue_urb e))],
      fmt [lit ''  Completed: '', lit (if ue_completed e then ''Yes'' else ''No'')]]"

definition print_device_callback :: "printed list \<Rightarrow> usb_device \<Rightarrow> printed list" where
  "print_device_callback out d = out @
     [line [lit ''  '', arr (dv_busid d), lit '': '', hexw 4 (dv_vendor_id d), lit '':'', hexw 4 (dv_product_id d)],
      line [lit ''    Path: '', arr (dv_path d)],
      line [lit ''    Class: '', lit (usb_class_string (dv_device_class d)), lit '' ('', hexw 2 (dv_device_class d), lit ''/'',
            hexw 2 (dv_device_subclass d), lit ''/'', hexw 2 (dv_device_protocol d), lit '')''],
      line [lit ''    Speed: '', lit (usb_speed_string (dv_speed d))]] @
     (if char_at (dv_manufacturer d) 0 \<noteq> 0 then [line [lit ''    Manufacturer: '', arr (dv_manufacturer d)]] else []) @
     (if char_at (dv_product d) 0 \<noteq> 0 then [line [lit ''    Product: '', arr (dv_product d)]] else []) @
     (if char_at (dv_serial d) 0 \<noteq> 0 then [line [lit ''    Serial: '', arr (dv_serial d)]] else []) @ [nl]"

text \<open>The list option of the server: what it prints and its exit code.\<close>

definition list_devices_output :: "init_env \<Rightarrow> bool \<Rightarrow> int \<times> console list" where
  "list_devices_output env initialized =
     (case usb_enumerate_devices (in_utf8 env) initialized (in_nodes env) print_device_callback [] of
        (err, ps) \<Rightarrow>
          let out = map Stdout ([line [lit ''Available USB devices:'', nl]] @ ps)
          in if err \<noteq> ERR_SUCCESS
             then (1, out @ [Stderr (line [lit ''Error enumerating devices: '', lit (error_string err)])])
             else (0, out))"

abbreviation (input) APP_NAME :: string where "APP_NAME \<equiv> ''USB Over Network''"
abbreviation (input) CLIENT_APP_NAME :: string where "CLIENT_APP_NAME \<equiv> ''USB Over Network - Client''"

definition server_print_usage :: "cbuf \<Rightarrow> printed list" where
  "server_print_usage prog_name =
     [line [lit APP_NAME, lit '' v'', lit ''1.0.0'', lit '' - USB/IP Server''],
      line [nl, lit ''Usage: '', argv prog_name, lit '' [OPTIONS]''],
      line [nl, lit ''Options:''],
      line [lit ''  -p, --port PORT       Listen port (default: '', lit (show_nat 3240), lit '')''],
      text_line ''  -b, --bind ADDR       Bind address (default: 0.0.0.0)'',
      text_line ''  -d, --device BUSID    Share only specific device'',
      text_line ''  -k, --auth-token T    Preshared token clients must present'',
      text_line ''                        (default: $USBIP_AUTH_TOKEN env, empty=off)'',
      text_line ''  -l, --list            List available USB devices and exit'',
      text_line ''  -v, --verbose         Verbose output'',
      text_line ''  -h, --help            Show this help'',
      line [nl, lit ''Examples:''],
      line [lit ''  '', argv prog_name, lit ''                    Share all USB devices on port '', lit (show_nat 3240)],
      line [lit ''  '', argv prog_name, lit '' -d 1-2             Share only device 1-2''],
      line [lit ''  '', argv prog_name, lit '' -p 5000 -v         Use port 5000 with verbose logging'']]"

text \<open>What the loop over the arguments of the server prints before it gives up.\<close>

fun parse_args_output :: "cbuf \<Rightarrow> cbuf list \<Rightarrow> console list" where
  "parse_args_output prog [] = []"
| "parse_args_output prog (arg # args) =
     (if opt arg ''-h'' ''--help'' then map Stdout (server_print_usage prog)
      else if opt arg ''-l'' ''--list'' \<or> opt arg ''-v'' ''--verbose'' then parse_args_output prog args
      else case args of
        [] \<Rightarrow> Stderr (line [lit ''Unknown option: '', argv arg]) # map Stdout (server_print_usage prog)
      | val # args \<Rightarrow>
          if opt arg ''-p'' ''--port'' \<or> opt arg ''-b'' ''--bind'' \<or> opt arg ''-d'' ''--device'' \<or> opt arg ''-k'' ''--auth-token''
          then parse_args_output prog args
          else Stderr (line [lit ''Unknown option: '', argv arg]) # map Stdout (server_print_usage prog))"

section \<open>Printers of the client\<close>

definition remote_device_print :: "remote_device \<Rightarrow> printed list" where
  "remote_device_print d =
     [line [lit ''  Port '', dec_int (rd_vhci_port d), lit '': '', arr (rd_busid d)],
      line [lit ''    VID:PID: '', hexw 4 (ud_idVendor (rd_device_info d)), lit '':'', hexw 4 (ud_idProduct (rd_device_info d))],
      line [lit ''    Server: '', arr (rd_server_ip d), lit '':'', dec (rd_server_port d)],
      line [lit ''    State: '', lit (remote_device_state_string (rd_state d))],
      line [lit ''    URBs: sent='', dec (rd_urbs_sent d), lit '' recv='', dec (rd_urbs_received d)]]"

definition remote_device_list_print :: "remote_device_list \<Rightarrow> printed list" where
  "remote_device_list_print l =
     (if \<not> rl_initialized l then [text_line ''Remote device list not initialized'']
      else [line [nl, lit ''Attached Devices ('', dec_int (rl_count l), lit ''):''], text_line ''---------------------''] @
           (if rl_count l = 0 then [text_line ''  No devices attached'']
            else concat (map (\<lambda>(p, d). remote_device_print d) (rl_head l))) @ [nl])"

fun remote_server_lines :: "int \<Rightarrow> usbip_usb_device list \<Rightarrow> printed list" where
  "remote_server_lines i [] = []"
| "remote_server_lines i (d # ds) =
     [line [lit ''['', dec_int (i + 1), lit ''] '', arr (ud_busid d), lit '': '', hexw 4 (ud_idVendor d), lit '':'',
            hexw 4 (ud_idProduct d)],
      line [lit ''    Path: '', arr (ud_path d)],
      line [lit ''    Class: '', lit (usb_class_string (ud_bDeviceClass d)), lit '' ('', hexw 2 (ud_bDeviceClass d), lit ''/'',
            hexw 2 (ud_bDeviceSubClass d), lit ''/'', hexw 2 (ud_bDeviceProtocol d), lit '')''],
      line [lit ''    Speed: '', lit (usb_speed_string (ud_speed d))],
      line [lit ''    Interfaces: '', dec (ud_bNumInterfaces d)],
      nl] @ remote_server_lines (i + 1) ds"

definition remote_server_print_devices :: "usbip_usb_device list \<Rightarrow> printed list" where
  "remote_server_print_devices devices =
     (if devices = [] then [text_line ''No devices available.'']
      else [line [nl, lit ''Available devices on server:''], text_line ''----------------------------''] @
           remote_server_lines 0 devices)"

fun port_lines :: "int \<Rightarrow> vhci_port_info list \<Rightarrow> printed list" where
  "port_lines i [] = []"
| "port_lines i (p # ps) =
     (if vp_state p \<noteq> VHCI_PORT_FREE
      then [line [lit ''  Port '', dec_int i, lit '': '', lit (vhci_port_state_string (vp_state p))],
            line [lit ''    Device: '', arr (vp_busid p)],
            line [lit ''    Server: '', arr (vp_server_ip p), lit '':'', dec (vp_server_port p)]]
      else []) @ port_lines (i + 1) ps"

definition vhci_print_status :: "vhci_context \<Rightarrow> printed list" where
  "vhci_print_status ctx =
     (if \<not> vc_initialized ctx then [text_line ''VHCI not initialized'']
      else
        let ports = take (nat (vc_max_ports ctx)) (vc_ports ctx);
            any_connected = list_ex (\<lambda>p. vp_state p \<noteq> VHCI_PORT_FREE) ports
        in [line [nl, lit ''VHCI Status:''], text_line ''------------'',
            line [lit ''Max ports: '', dec_int (vc_max_ports ctx)],
            line [lit ''Driver: '', lit (if vc_driver_handle ctx \<noteq> None then ''Available'' else ''Not available'')],
            line [nl, lit ''Ports:'']] @ port_lines 0 ports @
           (if \<not> any_connected then [text_line ''  No devices attached''] else []) @ [nl])"

fun discovery_lines :: "int \<Rightarrow> discovered_server list \<Rightarrow> printed list" where
  "discovery_lines i [] = []"
| "discovery_lines i (v # vs) =
     [fmt [lit ''['', dec_int (i + 1), lit ''] '', arr (ds_ip_address v)]] @
     (if char_at (ds_hostname v) 0 \<noteq> 0 then [fmt [lit '' ('', arr (ds_hostname v), lit '')'']] else []) @
     [fmt [lit '' - '', dec_int (ds_device_count v), lit '' device(s)''],
      line [lit '' ['', dec (ds_response_time_ms v), lit '' ms]'']] @ discovery_lines (i + 1) vs"

definition discovery_print_results :: "discovery_result \<Rightarrow> printed list" where
  "discovery_print_results result =
     (if result = [] then [text_line ''No servers found.'']
      else [line [nl, lit ''Discovered servers:''], text_line ''-------------------''] @ discovery_lines 0 result @ [nl])"

definition client_print_usage :: "cbuf \<Rightarrow> printed list" where
  "client_print_usage prog_name =
     [line [lit APP_NAME, lit '' v'', lit ''1.0.0'', lit '' - USB/IP Client''],
      line [nl, lit ''Usage: '', argv prog_name, lit '' [OPTIONS] <command> [args]''],
      line [nl, lit ''Commands:''],
      text_line ''  discover                    Discover USB/IP servers on LAN'',
      text_line ''  list <server_ip>            List devices on server'',
      text_line ''  attach <server_ip> <busid>  Attach remote device'',
      text_line ''  detach <port>               Detach device from local port'',
      text_line ''  status                      Show attached devices'',
      line [nl, lit ''Options:''],
      line [lit ''  -p, --port PORT       Server port (default: '', lit (show_nat 3240), lit '')''],
      text_line ''  -k, --auth-token T    Preshared token (default: $USBIP_AUTH_TOKEN)'',
      text_line ''  -v, --verbose         Verbose output'',
      text_line ''  -h, --help            Show this help'',
      line [nl, lit ''Examples:''],
      line [lit ''  '', argv prog_name, lit '' discover''],
      line [lit ''  '', argv prog_name, lit '' list 192.168.1.100''],
      line [lit ''  '', argv prog_name, lit '' attach 192.168.1.100 1-2''],
      line [lit ''  '', argv prog_name, lit '' detach 0'']]"

section \<open>Commands of the client\<close>

definition usage :: "cbuf \<Rightarrow> console list" where
  "usage prog = map Stdout (client_print_usage prog)"

definition failed :: "string \<Rightarrow> error_code \<Rightarrow> console" where
  "failed what err = Stderr (line [lit what, lit (error_string err)])"

text \<open>What the loop over the options prints when it returns -1, and the reading of the command.\<close>

fun parse_options_output :: "cbuf \<Rightarrow> cbuf list \<Rightarrow> console list" where
  "parse_options_output prog [] = []"
| "parse_options_output prog (arg # args) =
     (if char_at arg 0 \<noteq> 45 then []
      else if is_opt arg ''-h'' ''--help'' then usage prog
      else if is_opt arg ''-v'' ''--verbose'' then parse_options_output prog args
      else case args of
        [] \<Rightarrow> Stderr (line [lit ''Unknown option: '', argv arg]) # usage prog
      | val # args \<Rightarrow>
          if is_opt arg ''-p'' ''--port'' \<or> is_opt arg ''-k'' ''--auth-token'' then parse_options_output prog args
          else Stderr (line [lit ''Unknown option: '', argv arg]) # usage prog)"

definition parse_command_output :: "cbuf \<Rightarrow> cbuf list \<Rightarrow> console list" where
  "parse_command_output prog args =
     (case args of
        [] \<Rightarrow> Stderr (text_line ''No command specified'') # usage prog
      | cmd # args \<Rightarrow>
          if streq cmd (ascii ''discover'') then []
          else if streq cmd (ascii ''list'') then
            (if args = [] then [Stderr (text_line ''Missing server IP address'')] else [])
          else if streq cmd (ascii ''attach'') then
            (case args of ip # busid # _ \<Rightarrow> [] | _ \<Rightarrow> [Stderr (text_line ''Missing server IP or bus ID'')])
          else if streq cmd (ascii ''detach'') then
            (if args = [] then [Stderr (text_line ''Missing port number'')] else [])
          else if streq cmd (ascii ''status'') then []
          else if streq cmd (ascii ''help'') then usage prog
          else Stderr (line [lit ''Unknown command: '', argv cmd]) # usage prog)"

definition client_parse_args_output :: "cbuf \<Rightarrow> cbuf list \<Rightarrow> g_client \<Rightarrow> console list" where
  "client_parse_args_output prog args g =
     (case parse_options args g of
        (None, _) \<Rightarrow> parse_options_output prog args
      | (Some args, _) \<Rightarrow> parse_command_output prog args)"

text \<open>The texts of the commands, with the branches of the commands; \<open>None\<close> when a request is never answered.\<close>

definition cmd_discover_output :: "client_env \<Rightarrow> console list option" where
  "cmd_discover_output env = do {
     (err, result, out, tr) \<leftarrow> discovery_broadcast (ce_broadcast env) 3000 (ce_turns env) (Some []);
     Some (Stdout (line [lit ''Discovering USB/IP servers on LAN...'', nl]) #
       (if err \<noteq> ERR_SUCCESS then [failed ''Discovery failed: '' err]
        else map Stdout (discovery_print_results result @
          (if result = [] then
             [text_line ''No servers responded. You can try direct connection with:'',
              line [lit ''  '', lit CLIENT_APP_NAME, lit '' list <server_ip>'']]
           else []))))
   }"

definition cmd_list_output :: "client_env \<Rightarrow> g_client \<Rightarrow> conn \<Rightarrow> console list option" where
  "cmd_list_output env g c = do {
     (err, devices, tr, c) \<leftarrow> remote_server_list_devices (ce_os env) (cg_remote_token g) (cg_server_ip g) (cg_server_port g) MAX_DEVICES c;
     Some (Stdout (line [lit ''Listing devices on '', arr (cg_server_ip g), lit '':'', dec (cg_server_port g), lit ''...'', nl]) #
       (if err \<noteq> ERR_SUCCESS then [failed ''Failed to get device list: '' err]
        else map Stdout (remote_server_print_devices devices @
          (if devices \<noteq> [] then
             [text_line ''To attach a device, use:'',
              line [lit ''  '', lit CLIENT_APP_NAME, lit '' attach '', arr (cg_server_ip g), lit '' <busid>'']]
           else []))))
   }"

definition attached_lines :: "remote_device \<Rightarrow> printed list" where
  "attached_lines d =
     [line [nl, lit ''Device attached successfully!''],
      line [lit ''  Port: '', dec_int (rd_vhci_port d)],
      line [lit ''  Device: '', arr (rd_busid d), lit '' ('', hexw 4 (ud_idVendor (rd_device_info d)), lit '':'',
            hexw 4 (ud_idProduct (rd_device_info d)), lit '')''],
      line [nl, lit ''Press Ctrl+C to detach and exit...'']]"

definition cmd_attach_output :: "client_env \<Rightarrow> g_client \<Rightarrow> conn \<Rightarrow> console list option" where
  "cmd_attach_output env g c =
     (let start = Stdout (line [lit ''Attaching device '', arr (cg_busid g), lit '' from '', arr (cg_server_ip g), lit '':'',
                                dec (cg_server_port g), lit ''...''])
      in case init_vhci env (cg_sys g) of (err, s) \<Rightarrow>
        if err \<noteq> ERR_SUCCESS then Some [start, failed ''Failed to initialize VHCI: '' err]
        else case remote_device_list_init (ce_list_mutex env) of (err, l) \<Rightarrow>
          if err \<noteq> ERR_SUCCESS then Some [start, failed ''Failed to initialize device list: '' err]
          else do {
            (err, device, s, c) \<leftarrow> remote_device_connect (ce_os env) (ce_driver env) (cg_remote_token g)
               (ce_device_alloc env) True (cg_server_ip g) (cg_server_port g) (cg_busid g) (s\<lparr>cl_list := l\<rparr>) c;
            if err \<noteq> ERR_SUCCESS then Some [start, failed ''Failed to attach device: '' err]
            else do {
              p \<leftarrow> device;
              d \<leftarrow> map_of (rl_head (cl_list s)) p;
              Some (start # map Stdout (attached_lines d @
                (if False \<in> set (ce_reads env)
                 then [line [nl, lit ''Detaching device...''], text_line ''Device detached.''] else [])))
            }
          })"

definition cmd_detach_output :: "client_env \<Rightarrow> g_client \<Rightarrow> console list" where
  "cmd_detach_output env g =
     Stdout (line [lit ''Detaching device from port '', dec_int (cg_port g), lit ''...'']) #
     (case init_vhci env (cg_sys g) of (err, s) \<Rightarrow>
        if err \<noteq> ERR_SUCCESS then [failed ''Failed to initialize VHCI: '' err]
        else if cg_port g < 0 \<or> cg_port g \<ge> vc_max_ports (cl_vhci s) then
          [Stderr (line [lit ''Invalid port number: '', dec_int (cg_port g), lit '' (valid: 0-'',
                         dec_int (vc_max_ports (cl_vhci s) - 1), lit '')''])]
        else case vhci_detach (cg_port g) (cl_vhci s) (cl_world s) of (err, ctx, w) \<Rightarrow>
          if err \<noteq> ERR_SUCCESS then [failed ''Failed to detach: '' err]
          else [Stdout (line [lit ''Device detached from port '', dec_int (cg_port g), lit ''.''])])"

definition cmd_status_output :: "client_env \<Rightarrow> g_client \<Rightarrow> console list" where
  "cmd_status_output env g =
     map Stdout [text_line ''USB/IP Client Status'', line [lit ''===================='', nl]] @
     (case init_vhci env (cg_sys g) of (err, s) \<Rightarrow>
        if err \<noteq> ERR_SUCCESS then [failed ''Failed to initialize VHCI: '' err]
        else case vhci_is_available (ce_driver env) (cl_world s) of (available, w) \<Rightarrow>
          map Stdout (line [lit ''VHCI Driver: '', lit (if available then ''Available'' else ''Not installed'')] #
            vhci_print_status (cl_vhci s)))"

definition run_command_output :: "client_env \<Rightarrow> g_client \<Rightarrow> conn \<Rightarrow> console list option" where
  "run_command_output env g c =
     (case cg_command g of
        CMD_DISCOVER \<Rightarrow> cmd_discover_output env
      | CMD_LIST \<Rightarrow> cmd_list_output env g c
      | CMD_ATTACH \<Rightarrow> cmd_attach_output env g c
      | CMD_DETACH \<Rightarrow> Some (cmd_detach_output env g)
      | CMD_STATUS \<Rightarrow> Some (cmd_status_output env g)
      | _ \<Rightarrow> Some [Stderr (text_line ''No command specified'')])"

definition client_main_output :: "cbuf \<Rightarrow> cbuf list \<Rightarrow> client_env \<Rightarrow> g_client \<Rightarrow> conn \<Rightarrow> console list option" where
  "client_main_output prog args env g c =
     (case client_parse_args args g of (ret, g') \<Rightarrow>
        if ret \<noteq> 0 then Some (client_parse_args_output prog args g)
        else case client_init env g' of (err, g') \<Rightarrow>
          if err \<noteq> ERR_SUCCESS then
            Some ((if ce_log env \<noteq> ERR_SUCCESS then [Stderr (text_line ''Failed to initialize logging'')] else []) @
                  [failed ''Initialization failed: '' err])
          else run_command_output env g' c)"

section \<open>Facts about formats\<close>

lemma fmt_defined: "fmt ps = None \<longleftrightarrow> None \<in> set ps"
  by (induction ps) (auto simp: fmt_def split: option.splits)

lemma line_defined: "line ps = None \<longleftrightarrow> None \<in> set ps"
  by (auto simp: line_def fmt_defined)

lemma printed_defined [simp]:
  "lit s \<noteq> None" "argv b \<noteq> None" "dec n \<noteq> None" "dec_int i \<noteq> None" "hexw w n \<noteq> None"
  "arr b = None \<longleftrightarrow> 0 \<notin> set b" "text_line s \<noteq> None"
  by (auto simp: lit_def argv_def dec_def dec_int_def hexw_def arr_def text_line_def line_defined)

lemmas defined_simps = fmt_defined line_defined eq_commute[of None]

text \<open>Hexadecimal numbers of four digits, and reading them as the enumeration reads identifiers.\<close>

lemma hex_digit_scan:
  assumes "d < 16"
  shows "hex_value (hex_digit d) = Some d \<and> hex_digit d \<noteq> 32 \<and> \<not> (9 \<le> hex_digit d \<and> hex_digit d \<le> 13) \<and>
    hex_digit d \<noteq> 45 \<and> hex_digit d \<noteq> 43 \<and> hex_digit d \<noteq> 120 \<and> hex_digit d \<noteq> 88"
proof -
  have "list_all (\<lambda>d. hex_value (hex_digit d) = Some d \<and> hex_digit d \<noteq> 32 \<and> \<not> (9 \<le> hex_digit d \<and> hex_digit d \<le> 13) \<and>
    hex_digit d \<noteq> 45 \<and> hex_digit d \<noteq> 43 \<and> hex_digit d \<noteq> 120 \<and> hex_digit d \<noteq> 88) [0 ..< 16]" by code_simp
  then show ?thesis using assms by (simp add: list_all_iff)
qed

lemma hex_digit_0 [simp]: "hex_digit 0 = 48"
  by (simp add: hex_digit_def)

lemma hex_pad_4:
  assumes "n < 65536"
  shows "hex_pad 4 n = [hex_digit (n div 4096), hex_digit (n div 256 mod 16), hex_digit (n div 16 mod 16), hex_digit (n mod 16)]"
proof -
  have r: "replicate 3 x = [x, x, x]" "replicate 2 x = [x, x]" for x :: byte by (simp_all add: numeral_2_eq_2 numeral_3_eq_3)
  consider "n < 16" | "16 \<le> n" "n < 256" | "256 \<le> n" "n < 4096" | "4096 \<le> n" by linarith
  then show ?thesis
  proof cases
    case 1
    then have "n div 16 = 0" "n div 256 = 0" "n div 4096 = 0" by auto
    then show ?thesis using 1 by (simp add: hex_pad_def show_hex.simps[of n] r)
  next
    case 2
    then have "n div 16 < 16" "n div 256 = 0" "n div 4096 = 0" by auto
    then show ?thesis using 2 by (simp add: hex_pad_def show_hex.simps[of n] show_hex.simps[of "n div 16"] r)
  next
    case 3
    then have "\<not> n div 16 < 16" "n div 16 div 16 = n div 256" "n div 256 < 16" "n div 4096 = 0"
      by (auto simp: div_mult2_eq[symmetric])
    then show ?thesis using 3
      by (simp add: hex_pad_def show_hex.simps[of n] show_hex.simps[of "n div 16"] show_hex.simps[of "n div 256"])
  next
    case 4
    then have "\<not> n div 16 < 16" "n div 16 div 16 = n div 256" "\<not> n div 256 < 16" "n div 256 div 16 = n div 4096"
      "n div 4096 < 16" using assms by (auto simp: div_mult2_eq[symmetric])
    then show ?thesis using 4
      by (simp add: hex_pad_def show_hex.simps[of n] show_hex.simps[of "n div 16"] show_hex.simps[of "n div 256"]
          show_hex.simps[of "n div 4096"])
  qed
qed

lemma four_digits: "16 * (16 * (16 * (n div 4096) + n div 256 mod 16) + n div 16 mod 16) + n mod 16 = (n :: nat)"
proof -
  have "n div 256 div 16 = n div 4096" "n div 16 div 16 = n div 256" by (simp_all add: div_mult2_eq[symmetric])
  then show ?thesis
    using mult_div_mod_eq[of 16 "n div 256"] mult_div_mod_eq[of 16 "n div 16"] mult_div_mod_eq[of 16 n] by simp
qed

lemma scan_four_digits:
  assumes "a < 16" and "b < 16" and "c < 16" and "d < 16"
  shows "scan_hX4 ([hex_digit a, hex_digit b, hex_digit c, hex_digit d] @ rest) old =
    word_of_nat (16 * (16 * (16 * a + b) + c) + d)"
proof -
  let ?s = "[hex_digit a, hex_digit b, hex_digit c, hex_digit d]"
  note h = assms[THEN hex_digit_scan]
  have "dropWhile (\<lambda>c. c = 32 \<or> 9 \<le> c \<and> c \<le> 13) (?s @ rest) = ?s @ rest" using h(1) by auto
  then have f: "take 4 (dropWhile (\<lambda>c. c = 32 \<or> 9 \<le> c \<and> c \<le> 13) (?s @ rest)) = ?s" by simp
  show ?thesis unfolding scan_hX4_def f using h by (simp add: Let_def del: of_nat_add of_nat_mult)
qed

lemma scan_hex_pad: "scan_hX4 (hex_pad 4 (unat v) @ rest) old = v"
proof -
  have n: "unat v < 65536" using unsigned_less[of v] by simp
  have "unat v div 4096 < 16" using n by auto
  then have "scan_hX4 (hex_pad 4 (unat v) @ rest) old =
      word_of_nat (16 * (16 * (16 * (unat v div 4096) + unat v div 256 mod 16) + unat v div 16 mod 16) + unat v mod 16)"
    unfolding hex_pad_4[OF n] by (rule scan_four_digits) simp_all
  then show ?thesis unfolding four_digits by simp
qed

section \<open>What the printers read\<close>

definition strings_end :: "usbip_usb_device \<Rightarrow> bool" where
  "strings_end d \<longleftrightarrow> 0 \<in> set (ud_busid d) \<and> 0 \<in> set (ud_path d)"

lemma remote_server_lines_None: "None \<in> set (remote_server_lines i ds) \<longleftrightarrow> (\<exists>d \<in> set ds. \<not> strings_end d)"
  by (induction i ds rule: remote_server_lines.induct) (auto simp: defined_simps strings_end_def)

lemma remote_server_print_None: "None \<in> set (remote_server_print_devices ds) \<longleftrightarrow> (\<exists>d \<in> set ds. \<not> strings_end d)"
  by (auto simp: remote_server_print_devices_def remote_server_lines_None defined_simps)

lemma str_copy_ends: "0 < n \<Longrightarrow> n \<le> length dst \<Longrightarrow> 0 \<in> set (str_copy dst src n)"
  by (simp add: str_copy_eq)

lemma own_strings_end: "strings_end (usb_device_to_usbip d)"
  by (simp add: strings_end_def usb_device_to_usbip_def str_copy_ends zero_device_def)

text \<open>An address reported by a discovery, a port and the entries of the lists are always terminated.\<close>

lemma discovery_lines_None: "None \<in> set (discovery_lines i vs) \<longleftrightarrow>
    (\<exists>v \<in> set vs. 0 \<notin> set (ds_ip_address v) \<or> char_at (ds_hostname v) 0 \<noteq> 0 \<and> 0 \<notin> set (ds_hostname v))"
  by (induction i vs rule: discovery_lines.induct) (auto simp: defined_simps)

lemma port_lines_free: "\<forall>p \<in> set ps. vp_state p = VHCI_PORT_FREE \<Longrightarrow> port_lines i ps = []"
  by (induction i ps rule: port_lines.induct) auto

text \<open>Logging a list of lines never fails when every line can be formatted and the places are short.\<close>

lemma log_write_some:
  assumes "level \<noteq> LOG_LEVEL_NONE" and "length (location_part site) \<le> 198"
  shows "\<exists>es. log_write level site now txt g = Some (logged es g)"
proof (cases "level_value level < level_value (lc_level (lg_config g)) \<or> lc_targets (lg_config g) = LOG_TARGET_NONE")
  case True
  then show ?thesis by (intro exI[of _ "[]"]) (simp add: log_write_def logged_def)
next
  case False
  have "\<exists>es. emit_line g level full = Some es" for full
    using level_value_less[OF assms(1)] by (simp add: emit_line_def Let_def)
  then obtain es where "emit_line g level (line_prefix (lg_config g) level site now @ take 1023 txt) = Some es" by blast
  then show ?thesis using False build_line_complete[OF assms, of "take 1023 txt" "lg_config g" now]
    by (auto simp: log_write_def)
qed

lemma log_all_some:
  assumes "\<forall>(level, p) \<in> set ls. level \<noteq> LOG_LEVEL_NONE \<and> p \<noteq> None" and "\<forall>i. length (location_part (fst (at i))) \<le> 198"
  shows "\<exists>es. log_all at ls g = Some (logged es g)"
  using assms
proof (induction at ls g rule: log_all.induct)
  case (1 at g)
  show ?case by (intro exI[of _ "[]"]) (simp add: logged_def)
next
  case (2 at level p ls g)
  then obtain msg where p: "p = Some msg" "level \<noteq> LOG_LEVEL_NONE" by auto
  obtain es where es: "log_write level (fst (at 0)) (snd (at 0)) msg g = Some (logged es g)"
    using log_write_some[OF p(2)] 2(3) by blast
  obtain later where "log_all (\<lambda>i. at (Suc i)) ls (logged es g) = Some (logged later (logged es g))"
    using 2(1)[OF p(1) es] 2(2,3) by auto
  then show ?case using p(1) es by (auto simp: logged_logged)
qed

lemma device_list_lines_None: "None \<in> set (device_list_lines i es) \<longleftrightarrow>
    (\<exists>(p, e) \<in> set es. 0 \<notin> set (dv_busid (de_device e)) \<or> 0 \<notin> set (dv_product (de_device e)) \<or>
      de_state e = DEVICE_STATE_EXPORTED \<and> 0 \<notin> set (de_client_ip e))"
  by (induction i es rule: device_list_lines.induct) (auto simp: defined_simps)

lemma device_list_print_logged:
  assumes "\<forall>(p, e) \<in> set (dl_head l). 0 \<in> set (dv_busid (de_device e)) \<and> 0 \<in> set (dv_product (de_device e)) \<and>
      0 \<in> set (de_client_ip e)"
    and "\<forall>i. length (location_part (fst (at i))) \<le> 198"
  shows "\<exists>es. log_all at (device_list_print l) g = Some (logged es g)"
proof (rule log_all_some[OF _ assms(2)])
  have "None \<notin> set (device_list_lines 0 (dl_head l))" using assms(1) by (fastforce simp: device_list_lines_None)
  then show "\<forall>(level, p) \<in> set (device_list_print l). level \<noteq> LOG_LEVEL_NONE \<and> p \<noteq> None"
    by (auto simp: device_list_print_def info_def defined_simps simp del: not_None_eq) (metis option.exhaust)
qed

section \<open>Printing and results agree\<close>

text \<open>The listing of the server shows the devices \<^verbatim>\<open>list_devices\<close> enumerates, and has its exit code.\<close>

lemma foldl_append: "foldl (\<lambda>out d. out @ f d) ps ds = ps @ concat (map f ds)"
  by (induction ds arbitrary: ps) simp_all

lemma collect_foldl: "foldl (\<lambda>ds d. ds @ [d]) xs ds = xs @ ds"
  by (induction ds arbitrary: xs) simp_all

lemma print_devices_foldl: "foldl print_device_callback ps ds = ps @ concat (map (print_device_callback []) ds)"
proof -
  have "print_device_callback = (\<lambda>out d. out @ print_device_callback [] d)" by (intro ext) (simp add: print_device_callback_def)
  then show ?thesis using foldl_append[of "print_device_callback []" ps ds] by simp
qed

lemma list_devices_output_eq:
  "list_devices_output env up =
     (case list_devices env up of (code, ds) \<Rightarrow>
        (code, map Stdout (line [lit ''Available USB devices:'', nl] # concat (map (print_device_callback []) ds)) @
               (if code = 0 then []
                else [failed ''Error enumerating devices: '' (if up then ERR_USB_INIT else ERR_NOT_INITIALIZED)])))"
  by (auto simp: list_devices_output_def list_devices_def usb_enumerate_devices_def enumerate_loop_eq
      print_devices_foldl collect_foldl failed_def Let_def split: option.splits)

lemma parse_args_output_iff: "fst (parse_args args cfg) \<noteq> 0 \<longleftrightarrow> parse_args_output prog args \<noteq> []"
  by (induction args cfg rule: parse_args.induct) (auto simp: server_print_usage_def split: list.splits)

text \<open>An output that tells why the program stops: a line on the error stream, or the usage.\<close>

definition explains :: "cbuf \<Rightarrow> console list \<Rightarrow> bool" where
  "explains prog out \<longleftrightarrow> list_ex (\<lambda>l. case l of Stderr _ \<Rightarrow> True | Stdout _ \<Rightarrow> False) out \<or> out = usage prog"

lemma explains_simps [simp]:
  "explains prog (Stderr p # out)" "explains prog (usage prog)" "\<not> explains prog []"
  "explains prog (out @ [failed what err])" "explains prog [l, failed what err]"
  by (auto simp: explains_def usage_def client_print_usage_def failed_def)

lemma parse_options_explained:
  "explains prog (parse_options_output prog args) \<longleftrightarrow> fst (parse_options args g) = None"
  by (induction args g rule: parse_options.induct) (auto split: list.split)

lemma parse_command_explained:
  "explains prog (parse_command_output prog args) \<longleftrightarrow> fst (parse_command args g) \<noteq> 0"
  by (auto simp: parse_command_output_def parse_command_def Let_def split: list.splits)

lemma parse_args_explained:
  "fst (client_parse_args args g) \<noteq> 0 \<Longrightarrow> explains prog (client_parse_args_output prog args g)"
  using parse_options_explained[of prog args g] parse_command_explained[of prog]
  by (auto simp: client_parse_args_def client_parse_args_output_def split: prod.splits option.splits)

text \<open>A successful connect has put the device it returns into the list.\<close>

lemma connect_device_listed:
  assumes "remote_device_connect os drv token calloc vhci ip port busid s c = Some (ERR_SUCCESS, out, s', c')"
  shows "\<exists>p d. out = Some p \<and> map_of (rl_head (cl_list s')) p = Some d \<and> 0 \<in> set (rd_busid d)"
  using assms
proof (cases rule: connect_imported)
  case (imported p dev s1)
  have "0 \<in> set (rd_busid dev)" using imported(7) by (simp add: str_copy_ends)
  then show ?thesis using imported(2) by (auto simp: attach_remote_def link_remote_def Let_def split: if_splits prod.splits)
qed simp

text \<open>Exit code and output say the same: an error is explained, and a success writes no error.\<close>

definition agrees :: "cbuf \<Rightarrow> int \<Rightarrow> console list \<Rightarrow> bool" where
  "agrees prog code out \<longleftrightarrow> (if code = 0 then \<forall>t. Stderr t \<notin> set out else explains prog out)"

lemma agrees_simps [simp]:
  "agrees prog 0 (map Stdout ps)" "agrees prog 0 (Stdout p # out) \<longleftrightarrow> agrees prog 0 out" "agrees prog 0 []"
  "agrees prog 1 [l, failed what err]" "agrees prog 1 [Stderr p]" "agrees prog 1 [l, Stderr p]"
  "agrees prog 1 (out @ [failed what err])"
  "agrees prog 0 (map Stdout ps @ out) \<longleftrightarrow> agrees prog 0 out"
  by (auto simp: agrees_def explains_def failed_def)

lemma cmd_discover_agrees:
  "cmd_discover env g = Some (code, servers, g') \<Longrightarrow> \<exists>out. cmd_discover_output env = Some out \<and> agrees prog code out"
  by (cases "discovery_broadcast (ce_broadcast env) 3000 (ce_turns env) (Some [])")
    (auto simp: cmd_discover_def cmd_discover_output_def Let_def split: if_splits)

lemma cmd_list_agrees:
  "cmd_list env g c = Some (code, devices, g', c') \<Longrightarrow> \<exists>out. cmd_list_output env g c = Some out \<and> agrees prog code out"
  by (cases "remote_server_list_devices (ce_os env) (cg_remote_token g) (cg_server_ip g) (cg_server_port g) MAX_DEVICES c")
    (auto simp: cmd_list_def cmd_list_output_def Let_def split: if_splits)

lemma cmd_detach_agrees: "agrees prog (fst (cmd_detach env g)) (cmd_detach_output env g)"
  by (auto simp: cmd_detach_def cmd_detach_output_def Let_def split: prod.splits)

lemma cmd_status_agrees: "agrees prog (fst (cmd_status env g)) (cmd_status_output env g)"
  by (auto simp: cmd_status_def cmd_status_output_def Let_def agrees_def explains_def failed_def split: prod.splits)

lemma cmd_attach_agrees:
  assumes "cmd_attach env g c = Some (code, g', c')"
  shows "\<exists>out. cmd_attach_output env g c = Some out \<and> agrees prog code out"
proof -
  obtain err s where i: "init_vhci env (cg_sys g) = (err, s)" by fastforce
  obtain err2 l where r: "remote_device_list_init (ce_list_mutex env) = (err2, l)" by fastforce
  show ?thesis
  proof (cases "err = ERR_SUCCESS \<and> err2 = ERR_SUCCESS")
    case False
    then show ?thesis using assms i r by (auto simp: cmd_attach_def cmd_attach_output_def Let_def split: if_splits)
  next
    case True
    let ?con = "remote_device_connect (ce_os env) (ce_driver env) (cg_remote_token g) (ce_device_alloc env) True
        (cg_server_ip g) (cg_server_port g) (cg_busid g) (s\<lparr>cl_list := l\<rparr>) c"
    obtain e out s' c2 where con: "?con = Some (e, out, s', c2)"
      using assms i r True by (auto simp: cmd_attach_def Let_def bind_eq_Some_conv)
    show ?thesis
    proof (cases "e = ERR_SUCCESS")
      case False
      then show ?thesis using assms i r True con by (auto simp: cmd_attach_def cmd_attach_output_def Let_def)
    next
      case ok: True
      from con ok obtain p d where "out = Some p" "map_of (rl_head (cl_list s')) p = Some d"
        using connect_device_listed by blast
      then show ?thesis using assms i r True con ok
        by (auto simp: cmd_attach_def cmd_attach_output_def Let_def split: if_splits)
    qed
  qed
qed

lemma run_command_agrees:
  assumes "run_command env g c = Some (code, g', c')"
  shows "\<exists>out. run_command_output env g c = Some out \<and> agrees prog code out"
  using assms cmd_discover_agrees[of env g] cmd_list_agrees[of env g c] cmd_attach_agrees[of env g c]
    cmd_detach_agrees[of prog env g] cmd_status_agrees[of prog env g]
  by (auto simp: run_command_def run_command_output_def split: command_type.splits prod.splits)

text \<open>Whatever a server sends, the client holds at most \<open>max_devices\<close> records of the sizes of the structure.\<close>

lemma recv_device_wf:
  assumes "usbip_recv_device c = Some (Inr d, c')"
  shows "device_wf d"
proof -
  obtain ret bs where r: "net_recv_all 312 c = Some (ret, bs, c')" "ret = 312" "d = usbip_unpack_device (device_of_mem bs)"
    using assms by (auto simp: usbip_recv_device_def recv_mem_def split: option.splits if_splits)
  then have "length bs = 312" using net_recv_all_ret(1,2)[OF r(1)] by simp
  then show ?thesis by (simp add: r(3) device_wf_def usbip_unpack_device_def device_of_mem_def)
qed

lemma recv_devices_typed:
  assumes "recv_devices_loop n m ds c = Some (ds', c')" and "list_all device_wf ds" and "int (length ds) \<le> m"
  shows "list_all device_wf ds' \<and> int (length ds') \<le> m"
  using assms
proof (induction n arbitrary: ds c)
  case (Suc n)
  show ?case
  proof (cases "int (length ds) < m")
    case True
    then obtain r c1 where r: "usbip_recv_device c = Some (r, c1)" using Suc.prems(1) by (auto simp: bind_eq_Some_conv)
    then show ?thesis using Suc True recv_device_wf
      by (cases r) (force simp: bind_eq_Some_conv)+
  qed (use Suc.prems in simp)
qed simp

lemma request_devices_loop:
  assumes "request_devices token m c = Some (err, ds, c')"
  shows "ds = [] \<or> (\<exists>n c1. recv_devices_loop n m [] c1 = Some (ds, c'))"
proof (rule ccontr)
  assume no: "\<not> ?thesis"
  show False using assms no unfolding request_devices_def Let_def
    by (auto simp: bind_eq_Some_conv simp del: recv_devices_loop.simps split: prod.splits if_splits sum.splits)
      (metis sum.exhaust)+
qed

lemma list_devices_typed:
  assumes "remote_server_list_devices os token ip port 32 c = Some (err, ds, tr, c')"
  shows "list_all device_wf ds \<and> length ds \<le> 32"
proof -
  have "ds = [] \<or> (\<exists>c'. request_devices token 32 c = Some (err, ds, c'))"
    using assms by (auto simp: remote_server_list_devices_def bind_eq_Some_conv split: prod.splits if_splits)
  then have "ds = [] \<or> (\<exists>n c1 c'. recv_devices_loop n 32 [] c1 = Some (ds, c'))" using request_devices_loop by blast
  then show ?thesis using recv_devices_typed[of _ 32 "[]" _ ds] by auto
qed

lemma client_main_agrees:
  assumes "client_main args env g c = Some (code, g', c')"
  shows "\<exists>out. client_main_output prog args env g c = Some out \<and> agrees prog code out"
proof -
  obtain ret g1 where p: "client_parse_args args g = (ret, g1)" by fastforce
  obtain err g2 where i: "client_init env g1 = (err, g2)" by fastforce
  consider "ret \<noteq> 0" | "ret = 0" "err \<noteq> ERR_SUCCESS" | "ret = 0" "err = ERR_SUCCESS" by blast
  then show ?thesis
  proof cases
    case 1
    then show ?thesis using assms p parse_args_explained[of args g prog]
      by (simp add: client_main_def client_main_output_def agrees_def)
  next
    case 2
    then show ?thesis using assms p i by (auto simp: client_main_def client_main_output_def)
  next
    case 3
    then obtain g3 where "run_command env g2 c = Some (code, g3, c')"
      using assms p i by (auto simp: client_main_def bind_eq_Some_conv)
    from run_command_agrees[OF this, of prog] show ?thesis using 3 p i by (simp add: client_main_output_def)
  qed
qed

lemma explains_stderr: "explains prog out \<longleftrightarrow> (\<exists>t. Stderr t \<in> set out) \<or> out = usage prog"
proof -
  have "list_ex (\<lambda>l. case l of Stderr _ \<Rightarrow> True | Stdout _ \<Rightarrow> False) out \<longleftrightarrow> (\<exists>t. Stderr t \<in> set out)"
    unfolding list_ex_iff by (metis (no_types, lifting) console.exhaust console.simps(5,6))
  then show ?thesis by (simp add: explains_def)
qed

section \<open>Properties\<close>



text \<open>
  C24: the list command and its server. Whatever the server sends, the client holds at most
  32 records of the sizes of the structure; the devices printed are exactly these, and a call of
  \<^verbatim>\<open>printf\<close> reads behind an array exactly if the server sent a bus identifier or a path without a
  terminator, which the client does not check.
\<close>

theorem list_command_reads:
  assumes "cmd_list env g c = Some (0, devices, g', c')" and "0 \<in> set (cg_server_ip g)"
  shows "length devices \<le> 32 \<and> list_all device_wf devices \<and>
    (\<exists>before after. cmd_list_output env g c = Some (map Stdout (before @ remote_server_print_devices devices @ after)) \<and>
      (None \<in> set (before @ remote_server_print_devices devices @ after) \<longleftrightarrow>
        (\<exists>d \<in> set devices. 0 \<notin> set (ud_busid d) \<or> 0 \<notin> set (ud_path d))))"
proof -
  obtain tr where r: "remote_server_list_devices (ce_os env) (cg_remote_token g) (cg_server_ip g) (cg_server_port g) 32 c =
      Some (ERR_SUCCESS, devices, tr, c')"
    using assms(1) by (auto simp: cmd_list_def bind_eq_Some_conv Let_def split: if_splits)
  let ?before = "[line [lit ''Listing devices on '', arr (cg_server_ip g), lit '':'', dec (cg_server_port g), lit ''...'', nl]]"
  let ?after = "if devices \<noteq> [] then
      [text_line ''To attach a device, use:'',
       line [lit ''  '', lit CLIENT_APP_NAME, lit '' attach '', arr (cg_server_ip g), lit '' <busid>'']] else []"
  let ?all = "?before @ remote_server_print_devices devices @ ?after"
  have "cmd_list_output env g c = Some (map Stdout ?all)" using r by (simp add: cmd_list_output_def)
  moreover have "None \<in> set ?all \<longleftrightarrow> (\<exists>d \<in> set devices. 0 \<notin> set (ud_busid d) \<or> 0 \<notin> set (ud_path d))"
    using assms(2) by (auto simp: defined_simps remote_server_print_None strings_end_def)
  ultimately show ?thesis using list_devices_typed[OF r] by blast
qed

text \<open>A server that sends a bus identifier of 32 letters.\<close>

definition long_busid :: usbip_usb_device where
  "long_busid = zero_device\<lparr>ud_busid := replicate 32 65\<rparr>"

definition devlist_answer :: "rx_event list" where
  "devlist_answer =
     [RxData (wire_header_basic (zero_header_basic\<lparr>hb_command := OP_REP_DEVLIST\<rparr>)), RxData (be32 1),
      RxData (wire_device long_busid)]"

definition list_args :: g_client where
  "list_args = snd (client_parse_args [ascii ''list'', ascii ''10.0.0.1''] (default_client fresh_world))"

theorem list_command_reads_witness:
  "\<exists>ps. cmd_list_output sample_client_env list_args (sample_conn\<lparr>rx := devlist_answer\<rparr>) = Some (map Stdout ps) \<and> None \<in> set ps"
proof -
  let ?r = "cmd_list sample_client_env list_args (sample_conn\<lparr>rx := devlist_answer\<rparr>)"
  have e: "map_option fst ?r = Some 0" "map_option (map ud_busid \<circ> fst \<circ> snd) ?r = Some [replicate 32 65]" by code_simp+
  then obtain d g' c' where r: "?r = Some (0, [d], g', c')" "ud_busid d = replicate 32 65" by auto
  have ip: "0 \<in> set (cg_server_ip list_args)" by code_simp
  obtain ps where "cmd_list_output sample_client_env list_args (sample_conn\<lparr>rx := devlist_answer\<rparr>) = Some (map Stdout ps)"
      "None \<in> set ps \<longleftrightarrow> (\<exists>d \<in> set [d]. 0 \<notin> set (ud_busid d) \<or> 0 \<notin> set (ud_path d))"
    using list_command_reads[OF r(1) ip] by blast
  then show ?thesis using r(2) by auto
qed

text \<open>The status command prints a controller it has just created, so it never shows a device.\<close>

definition empty_status :: "bool \<Rightarrow> bool \<Rightarrow> printed list" where
  "empty_status available driver =
     [text_line ''USB/IP Client Status'', line [lit ''===================='', nl],
      line [lit ''VHCI Driver: '', lit (if available then ''Available'' else ''Not installed'')],
      line [nl, lit ''VHCI Status:''], text_line ''------------'', line [lit ''Max ports: '', dec_int 8],
      line [lit ''Driver: '', lit (if driver then ''Available'' else ''Not available'')],
      line [nl, lit ''Ports:''], text_line ''  No devices attached'', nl]"

lemma status_never_shows:
  assumes "fst (cmd_status env g) = 0"
  shows "\<exists>available driver. cmd_status_output env g = map Stdout (empty_status available driver)"
proof -
  obtain s where i: "init_vhci env (cg_sys g) = (ERR_SUCCESS, s)"
    using assms by (auto simp: cmd_status_def split: prod.splits if_splits)
  then have v: "vc_initialized (cl_vhci s)" "vc_max_ports (cl_vhci s) = 8"
      "\<forall>p \<in> set (vc_ports (cl_vhci s)). vp_state p = VHCI_PORT_FREE"
    by (auto simp: init_vhci_def vhci_init_def zero_context_def Let_def split: prod.splits if_splits)
  then have f: "\<forall>p \<in> set (take 8 (vc_ports (cl_vhci s))). vp_state p = VHCI_PORT_FREE" by (meson in_set_takeD)
  then have "vhci_print_status (cl_vhci s) =
      drop 3 (empty_status b (vc_driver_handle (cl_vhci s) \<noteq> None))" for b
    using v port_lines_free[OF f] by (auto simp: vhci_print_status_def empty_status_def Let_def list_ex_iff)
  then show ?thesis using i
    by (intro exI[of _ "fst (vhci_is_available (ce_driver env) (cl_world s))"] exI[of _ "vc_driver_handle (cl_vhci s) \<noteq> None"])
      (simp add: cmd_status_output_def empty_status_def case_prod_unfold)
qed

end
