(* ===== verification/Urb_Session.thy ===== *)
theory Urb_Session
  imports Server_Main
begin

text \<open>
  A request for a data endpoint from the first byte on the connection to the last byte of the
  reply: the session of \<^verbatim>\<open>server/main.c\<close>, the handler and its worker thread of
  \<^verbatim>\<open>server/urb_handler.c\<close> and the transfer of \<^verbatim>\<open>server/usb_host_win32.c\<close> composed. The theory adds
  no code; it follows one request, then any number of them, through the definitions of the
  components.
\<close>

section \<open>One request in the queues\<close>

definition one_queue :: "nat \<Rightarrow> urb_queue" where
  "one_queue a = \<lparr>q_head = Some a, q_tail = Some a, q_count = 1\<rparr>"

definition request_entry :: "uint64_t \<Rightarrow> usbip_header \<Rightarrow> usb_urb \<Rightarrow> urb_entry" where
  "request_entry now header u =
     \<lparr>ue_urb = u, ue_seqnum = hc_seqnum (uh_common header), ue_devid = hc_devid (uh_common header), ue_submit_time = now,
      ue_in_progress = False, ue_completed = False, ue_next = None\<rparr>"

lemma idle_handler:
  "handler_rep h hr [] [] \<longleftrightarrow> hd_pending hr = empty_queue \<and> hd_completed hr = empty_queue"
  by (auto simp: handler_rep_def queue_rep_def empty_queue_def)

lemma submit_idle:
  assumes "hd_pending hr = empty_queue" and "hd_initialized hr"
    and "alloc_buffer malloc data (header_urb header) = Some u"
  shows "urb_handler_submit (Some a) malloc now header data h hr =
    Some (ERR_SUCCESS, h(a \<mapsto> request_entry now header u), hr\<lparr>hd_pending := one_queue a\<rparr>)"
  using assms by (simp add: urb_handler_submit_def queue_push_def empty_queue_def one_queue_def request_entry_def)

lemma worker_turn_one:
  assumes "hd_pending hr = one_queue a" and "hd_completed hr = empty_queue" and "h a = Some e" and "ue_next e = None"
  shows "worker_turn os dev h hr =
    Some (True, h(a \<mapsto> (run_entry os dev (e\<lparr>ue_in_progress := True\<rparr>))\<lparr>ue_next := None\<rparr>),
      hr\<lparr>hd_pending := empty_queue, hd_completed := one_queue a\<rparr>)"
  using assms
  by (cases e) (simp add: worker_turn_def worker_take_def worker_execute_def worker_finish_def queue_pop_def queue_push_def
      one_queue_def empty_queue_def)

text \<open>The reply of the only completed request is sent, its entry is freed and the loop ends.\<close>

lemma drain_one:
  assumes "cc_urb_handler cl = Some hr" and "worker 0 h hr = Some (h1, hr1)" and "\<And>n h hr. worker (Suc n) h hr = Some (h, hr)"
    and "hd_initialized hr1" and "hd_completed hr1 = one_queue a" and "h1 a = Some e" and "ue_next e = None" and "tx_ok (txs c)"
  shows "\<exists>cl' c'. drain_loop worker 0 h cl c = Some (h1(a := None), cl', c') \<and>
    cc_urb_handler cl' = Some (hr1\<lparr>hd_completed := empty_queue\<rparr>) \<and> sent_to c (completion_wire e) c' \<and> cc_state cl' = cc_state cl"
proof -
  let ?hr = "hr1\<lparr>hd_completed := empty_queue\<rparr>" and ?cl = "cl\<lparr>cc_urb_handler := Some (hr1\<lparr>hd_completed := empty_queue\<rparr>)\<rparr>"
  obtain cl2 c2 where s: "client_send_urb_completion e ?cl c = (ERR_SUCCESS, cl2, c2)" "sent_to c (completion_wire e) c2"
    using send_completion_ok[OF assms(8)] by blast
  have cl2: "cc_urb_handler cl2 = Some ?hr" "cc_state cl2 = cc_state cl" by (subst send_completion_frame[OF s(1)], simp)+
  have e: "e\<lparr>ue_next := None\<rparr> = e" using assms(7) by simp
  have g: "urb_handler_get_completed h1 hr1 = Some (Some a, h1, ?hr)"
    using assms(4-7) e by (simp add: urb_handler_get_completed_def queue_pop_def one_queue_def empty_queue_def fun_upd_idem)
  have "urb_handler_get_completed h' ?hr = Some (None, h', ?hr)" for h'
    using assms(4) by (simp add: urb_handler_get_completed_def queue_pop_def empty_queue_def)
  then have last: "drain_loop worker (Suc 0) h' cl2 c2 = Some (h', cl2, c2)" for h'
    using cl2(1) assms(3) by (subst drain_loop.simps) (simp add: worker_moves_def next_completed_def)
  have "drain_loop worker 0 h cl c = drain_loop worker (Suc 0) (h1(a := None)) cl2 c2"
    using assms(1,2,6) g s(1)
    by (subst drain_loop.simps)
      (simp add: worker_moves_def next_completed_def send_completed_def urb_handler_free_entry_def free_urb_entry_def)
  then show ?thesis using last cl2 s(2) by auto
qed

section \<open>The transfer\<close>

text \<open>What a data endpoint is asked, and what its answer means for the reply.\<close>

definition bulk_request :: "usb_device \<Rightarrow> usbip_header \<Rightarrow> byte list \<Rightarrow> usb_request" where
  "bulk_request dev header data =
     (let ep = ucast (hc_ep (uh_common header)) :: uint8_t; handle = dv_interface_handles dev ! 0
      in if hc_direction (uh_common header) = USBIP_DIR_IN
         then ReqRead handle (ep OR USB_DIR_IN) (unat (cs_transfer_buffer_length (u_cmd_submit (uh_u header))))
         else ReqWrite handle ep data)"

fun answer_status :: "usb_answer \<Rightarrow> uint32_t" where
  "answer_status (XferOk k bs) = 0"
| "answer_status _ = -5"

fun answer_count :: "usb_answer \<Rightarrow> uint32_t" where
  "answer_count (XferOk k bs) = k"
| "answer_count (XferTimeout k bs) = k"
| "answer_count XferFailed = 0"

fun answer_data :: "usb_answer \<Rightarrow> byte list" where
  "answer_data (XferOk k bs) = bs"
| "answer_data (XferTimeout k bs) = bs"
| "answer_data XferFailed = []"

text \<open>A device returns as many bytes as it says, and no more than were asked for.\<close>

definition answer_fits :: "nat \<Rightarrow> usb_answer \<Rightarrow> bool" where
  "answer_fits len ans \<longleftrightarrow> length (answer_data ans) = unat (answer_count ans) \<and> unat (answer_count ans) \<le> len"

lemma run_bulk:
  assumes "dv_is_open dev" and "ub_type (ue_urb e) = USB_ENDPOINT_XFER_BULK" and "ub_endpoint (ue_urb e) \<noteq> 0"
    and "ans = wu_transfer os (if ub_endpoint (ue_urb e) AND USB_DIR_IN \<noteq> 0
           then ReqRead (dv_interface_handles dev ! 0) (ub_endpoint (ue_urb e)) (unat (ub_buffer_length (ue_urb e)))
           else ReqWrite (dv_interface_handles dev ! 0) (ub_endpoint (ue_urb e))
                  (take (unat (ub_buffer_length (ue_urb e))) (urb_data (ue_urb e))))"
    and "u = ue_urb (run_entry os dev e)"
  shows "word_of_int (ub_status u) = answer_status ans" and "ub_actual_length u = answer_count ans"
    and "ub_direction u = ub_direction (ue_urb e)" and "ub_endpoint u = ub_endpoint (ue_urb e)"
    and "ub_endpoint (ue_urb e) AND USB_DIR_IN \<noteq> 0 \<Longrightarrow> ans \<noteq> XferFailed \<Longrightarrow>
      ub_buffer u = map_option (\<lambda>b. overlay (take (unat (ub_buffer_length (ue_urb e))) (answer_data ans)) (urb_data (ue_urb e)))
        (ub_buffer (ue_urb e))"
  using assms
  by (auto simp: run_entry_def usb_submit_urb_def usb_bulk_transfer_def Let_def split: usb_answer.splits prod.splits if_splits)

text \<open>The request block made of a command for a data endpoint, with the outgoing data in its buffer.\<close>

lemma in_address: "x OR USB_DIR_IN \<noteq> (0 :: uint8_t)"
proof
  assume "x OR USB_DIR_IN = (0 :: uint8_t)"
  moreover have "bit (x OR USB_DIR_IN :: uint8_t) 7" by (simp add: bit_simps)
  ultimately show False by simp
qed

lemma small_endpoint:
  assumes "hc_ep (uh_common header) \<in> {1..15}"
  shows "(ucast (hc_ep (uh_common header)) :: uint8_t) \<noteq> 0" and "(ucast (hc_ep (uh_common header)) :: uint8_t) AND USB_DIR_IN = 0"
    and "hc_ep (uh_common header) AND 0x0F = hc_ep (uh_common header)"
proof -
  obtain n where n: "hc_ep (uh_common header) = word_of_nat n" "n \<in> {1..15}"
    using assms by (intro that[of "unat (hc_ep (uh_common header))"]) (auto simp: word_le_nat_alt)
  then have "n \<in> set [1..<16]" by auto
  then show "(ucast (hc_ep (uh_common header)) :: uint8_t) \<noteq> 0" "(ucast (hc_ep (uh_common header)) :: uint8_t) AND USB_DIR_IN = 0"
    "hc_ep (uh_common header) AND 0x0F = hc_ep (uh_common header)"
    unfolding n(1) by (auto simp: upt_rec)
qed

lemma bulk_block:
  assumes "hc_ep (uh_common header) \<in> {1..15}" and "hc_direction (uh_common header) \<in> {USBIP_DIR_IN, USBIP_DIR_OUT}"
    and "len = cs_transfer_buffer_length (u_cmd_submit (uh_u header))"
    and "length data = (if hc_direction (uh_common header) = USBIP_DIR_OUT then unat len else 0)"
    and "malloc (unat len) = Some m" and "length m = unat len"
  obtains u where
    "alloc_buffer malloc (if hc_direction (uh_common header) = USBIP_DIR_OUT \<and> len > 0 then Some data else None)
       (header_urb header) = Some u"
    and "ub_type u = USB_ENDPOINT_XFER_BULK" and "ub_endpoint u \<noteq> 0" and "ub_buffer_length u = len"
    and "ub_endpoint u AND USB_DIR_IN \<noteq> 0 \<longleftrightarrow> hc_direction (uh_common header) = USBIP_DIR_IN"
    and "ub_endpoint u = (if hc_direction (uh_common header) = USBIP_DIR_IN then ucast (hc_ep (uh_common header)) OR USB_DIR_IN
           else ucast (hc_ep (uh_common header)))"
    and "ub_direction u = ucast (hc_direction (uh_common header))"
    and "hc_direction (uh_common header) = USBIP_DIR_OUT \<Longrightarrow> urb_data u = data"
    and "length (urb_data u) = unat len" and "len > 0 \<Longrightarrow> ub_buffer u = Some (urb_data u)"
proof -
  let ?data = "if hc_direction (uh_common header) = USBIP_DIR_OUT \<and> len > 0 then Some data else None"
  note ep = small_endpoint[OF assms(1)]
  have l: "ub_buffer_length (header_urb header) = len" "ub_buffer (header_urb header) = None"
    by (simp_all add: header_urb_def Let_def assms(3) zero_urb_def)
  obtain u where u: "alloc_buffer malloc ?data (header_urb header) = Some u"
    using assms(5) l by (cases "alloc_buffer malloc ?data (header_urb header)") (auto simp: alloc_buffer_def split: if_splits)
  have b: "ub_buffer u = (if len > 0 then Some (if hc_direction (uh_common header) = USBIP_DIR_OUT then data else m) else None)"
    using u assms(2,4-6) l
    by (auto simp: alloc_buffer_def overlay_def header_urb_def Let_def unat_gt_0 word_gt_0)
  show thesis
  proof (rule that[OF u])
    show "length (urb_data u) = unat len" "len > 0 \<Longrightarrow> ub_buffer u = Some (urb_data u)"
      "hc_direction (uh_common header) = USBIP_DIR_OUT \<Longrightarrow> urb_data u = data"
      using b assms(4,6) by (auto simp: urb_data_def word_gt_0)
  qed (use alloc_buffer_fields[OF u] l(1) ep assms(2) in \<open>auto simp: header_urb_def Let_def bit.conj_disj_distrib2 in_address\<close>)
qed

section \<open>The turn of the session\<close>

text \<open>
  The worker thread is idle while the header is read, runs one turn of its loop before the session
  looks for completed requests, and then waits for more.
\<close>

definition one_worker_turn :: "winusb \<Rightarrow> usb_device \<Rightarrow> nat \<Rightarrow> worker_acts" where
  "one_worker_turn os dev n h hr = (if n = 1 then map_option snd (worker_turn os dev h hr) else Some (h, hr))"

text \<open>The bytes of the reply to a request block that a data endpoint has answered.\<close>

lemma bulk_reply:
  assumes "dv_is_open dev" and "ub_type u = USB_ENDPOINT_XFER_BULK" and "ub_endpoint u \<noteq> 0"
    and "is_in \<longleftrightarrow> ub_endpoint u AND USB_DIR_IN \<noteq> 0" and "ub_direction u = (if is_in then ucast USBIP_DIR_IN else 0)"
    and "wu_transfer os (if is_in then ReqRead (dv_interface_handles dev ! 0) (ub_endpoint u) (unat (ub_buffer_length u))
           else ReqWrite (dv_interface_handles dev ! 0) (ub_endpoint u) (take (unat (ub_buffer_length u)) (urb_data u))) = ans"
    and "is_in \<longrightarrow> answer_fits (unat (ub_buffer_length u)) ans"
    and "length (urb_data u) = unat (ub_buffer_length u)" and "ub_buffer_length u > 0 \<Longrightarrow> ub_buffer u = Some (urb_data u)"
    and "e = run_entry os dev e0" and "ue_urb e0 = u"
  shows "completion_wire e = wire_header (urb_handler_create_return e) @ (if is_in then answer_data ans else [])"
    and "rs_actual_length (u_ret_submit (uh_u (urb_handler_create_return e))) = answer_count ans"
    and "rs_status (u_ret_submit (uh_u (urb_handler_create_return e))) = answer_status ans"
proof -
  note r = run_bulk[where e = e0 and ans = ans and os = os and dev = dev and u = "ue_urb e", unfolded assms(11), OF assms(1-3) _ arg_cong[OF assms(10), of ue_urb]]
  have q: "ans = wu_transfer os (if ub_endpoint u AND USB_DIR_IN \<noteq> 0
       then ReqRead (dv_interface_handles dev ! 0) (ub_endpoint u) (unat (ub_buffer_length u))
       else ReqWrite (dv_interface_handles dev ! 0) (ub_endpoint u) (take (unat (ub_buffer_length u)) (urb_data u)))"
    using assms(4,6) by simp
  note r = r[OF q]
  show "rs_actual_length (u_ret_submit (uh_u (urb_handler_create_return e))) = answer_count ans"
    "rs_status (u_ret_submit (uh_u (urb_handler_create_return e))) = answer_status ans"
    using r(1,2) by (simp_all add: urb_handler_create_return_def u_ret_submit_def Let_def zero_header_def)
  have "take (unat (answer_count ans)) (urb_data (ue_urb e)) = answer_data ans" if "is_in" "answer_count ans > 0"
  proof -
    have fits: "length (answer_data ans) = unat (answer_count ans)" "unat (answer_count ans) \<le> unat (ub_buffer_length u)"
      using assms(7) that(1) by (simp_all add: answer_fits_def)
    have "0 < unat (answer_count ans)" using that(2) by (simp add: word_less_nat_alt)
    then have pos: "ub_buffer_length u > 0" using fits(2) by (simp add: word_less_nat_alt)
    have "ans \<noteq> XferFailed" using that(2) by auto
    then have "ub_buffer (ue_urb e) = Some (overlay (take (unat (ub_buffer_length u)) (answer_data ans)) (urb_data u))"
      using r(5) that(1) assms(4) assms(9)[OF pos] by simp
    then have "urb_data (ue_urb e) = overlay (take (unat (ub_buffer_length u)) (answer_data ans)) (urb_data u)"
      by (simp add: urb_data_def[of "ue_urb e"])
    then show ?thesis using fits assms(8) by (simp add: overlay_def)
  qed
  moreover have "answer_data ans = []" if "is_in" "\<not> answer_count ans > 0"
    using that assms(7) by (simp add: answer_fits_def word_gt_0)
  ultimately show "completion_wire e = wire_header (urb_handler_create_return e) @ (if is_in then answer_data ans else [])"
    using r(2,3) assms(5) by (cases "is_in"; cases "answer_count ans > 0") (simp_all add: completion_wire_def)
qed

text \<open>The submit branch of a turn, once the header is read and the outgoing data received.\<close>

lemma forward_one:
  assumes "cc_urb_handler cl = Some hr" and "hd_initialized hr" and "handler_rep (ss_heap s) hr [] []"
    and "se_calloc env = Some a" and "se_worker env = one_worker_turn os dev"
    and "alloc_buffer (se_malloc env) data (header_urb header) = Some u" and "tx_ok (txs c)"
    and "e = run_entry os dev ((request_entry (se_now env) header u)\<lparr>ue_in_progress := True\<rparr>)"
  shows "\<exists>cl' c' hr'. forward_and_drain env p header data cl s c =
      Returns (True, set_client p cl' (s\<lparr>ss_heap := (ss_heap s)(a := None)\<rparr>), c') \<and>
    cc_urb_handler cl' = Some hr' \<and> hd_initialized hr' \<and> handler_rep ((ss_heap s)(a := None)) hr' [] [] \<and> sent_to c (completion_wire e) c' \<and>
    cc_state cl' = cc_state cl"
proof -
  have q: "hd_pending hr = empty_queue" "hd_completed hr = empty_queue" using assms(3) by (simp_all add: idle_handler)
  let ?h = "(ss_heap s)(a \<mapsto> request_entry (se_now env) header u)" and ?hr = "hr\<lparr>hd_pending := one_queue a\<rparr>"
  let ?cl = "cl\<lparr>cc_urbs_processed := cc_urbs_processed cl + 1, cc_urb_handler := Some ?hr\<rparr>"
  have f: "client_forward_urb (se_calloc env) (se_malloc env) (se_now env) header data (ss_heap s) cl =
      Some (ERR_SUCCESS, ?h, ?cl)"
    using submit_idle[OF q(1) assms(2,6)] assms(1,4) by (simp add: client_forward_urb_def)
  have n: "ue_next (request_entry (se_now env) header u) = None" by (simp add: request_entry_def)
  have w: "worker_turn os dev ?h ?hr = Some (True, ?h(a \<mapsto> e\<lparr>ue_next := None\<rparr>), ?hr\<lparr>hd_pending := empty_queue, hd_completed := one_queue a\<rparr>)"
    unfolding assms(8) by (rule worker_turn_one) (use q n in simp_all)
  then have "one_worker_turn os dev (Suc 0) ?h ?hr =
      Some (?h(a \<mapsto> e\<lparr>ue_next := None\<rparr>), ?hr\<lparr>hd_pending := empty_queue, hd_completed := one_queue a\<rparr>)"
    by (simp add: one_worker_turn_def)
  note w = this
  have idle: "one_worker_turn os dev (Suc (Suc n)) h hr = Some (h, hr)" for n h hr by (simp add: one_worker_turn_def)
  have "\<exists>cl' c'. drain_loop (\<lambda>n. se_worker env (Suc n)) 0 ?h ?cl c =
      Some ((?h(a \<mapsto> e\<lparr>ue_next := None\<rparr>))(a := None), cl', c') \<and>
    cc_urb_handler cl' = Some (?hr\<lparr>hd_pending := empty_queue, hd_completed := one_queue a\<rparr>\<lparr>hd_completed := empty_queue\<rparr>) \<and>
    sent_to c (completion_wire (e\<lparr>ue_next := None\<rparr>)) c' \<and> cc_state cl' = cc_state ?cl"
    by (rule drain_one) (use w assms(2,5,7) idle in simp_all)
  then obtain cl' c' where d: "drain_loop (\<lambda>n. se_worker env (Suc n)) 0 ?h ?cl c = Some ((ss_heap s)(a := None), cl', c')"
    "cc_urb_handler cl' = Some (hr\<lparr>hd_pending := empty_queue, hd_completed := empty_queue\<rparr>)"
    "sent_to c (completion_wire e) c'" "cc_state cl' = cc_state cl"
    by auto
  have "forward_and_drain env p header data cl s c =
      Returns (True, set_client p cl' (s\<lparr>ss_heap := (ss_heap s)(a := None)\<rparr>), c')"
    using f d(1) by (simp add: forward_and_drain_def after_op_def)
  then show ?thesis using d(2-4) assms(2) by (auto simp: idle_handler)
qed

text \<open>The command and its data are read whole, whatever chunks they come in.\<close>

lemma submit_arrives:
  assumes client: "client_at s p = Some cl" "cc_state cl = CLIENT_STATE_ATTACHED" "cc_urb_handler cl = Some hr"
    and command: "length (uh_u header) = 28" "hc_command (uh_common header) = USBIP_CMD_SUBMIT"
      "hc_direction (uh_common header) \<in> {USBIP_DIR_IN, USBIP_DIR_OUT}"
      "len = cs_transfer_buffer_length (u_cmd_submit (uh_u header))"
      "length data = (if hc_direction (uh_common header) = USBIP_DIR_OUT then unat len else 0)"
    and wire: "rx_bytes (rx c) = wire_header header @ data @ rest"
    and "se_data_malloc env" and "se_worker env = one_worker_turn os dev"
  obtains cl1 c1 where "session_turn env p s c = forward_and_drain env p header
      (if hc_direction (uh_common header) = USBIP_DIR_OUT \<and> len > 0 then Some data else None) cl1 s c1"
    and "cc_urb_handler cl1 = Some hr" and "cc_state cl1 = CLIENT_STATE_ATTACHED"
    and "rx_bytes (rx c1) = rest" and "txs c1 = txs c" and "sent c1 = sent c"
proof -
  let ?out = "hc_direction (uh_common header) = USBIP_DIR_OUT \<and> len > 0"
  have wf: "header_wf header" using command(1) by (simp add: header_wf_def)
  obtain c1 where c1: "usbip_recv_urb_header c = Some (Inr header, c1)" "got_from c (wire_header header) c1"
    using uh_io.recv_ok[OF wf wire] by blast
  then have b1: "rx_bytes (rx c1) = data @ rest" using got_fromD(1)[OF c1(2)] wire by simp
  obtain c2 where c2: "usbip_recv_urb_data (length data) c1 = Some (Inr data, c2)" "got_from c1 data c2"
    using usbip_recv_urb_data_ok[OF b1 refl] by blast
  have "worker_moves (se_worker env 0) (ss_heap s) cl = Some (ss_heap s, cl)"
    using client(3) assms(11) by (cases cl) (simp add: worker_moves_def one_worker_turn_def)
  note step = client c1(1) command this c2(1) assms(10)
  show thesis
  proof (cases ?out)
    case True
    show thesis
      by (rule that[of "cl\<lparr>cc_bytes_received := cc_bytes_received cl + ucast len\<rparr>" c2])
        (use True step got_fromD[OF c1(2)] got_fromD[OF c2(2)] b1 in
          \<open>simp_all add: session_turn_def outcome_simps submit_turn_def Let_def\<close>)
  next
    case False
    then have "data = []" using command(3,5) by (auto simp: word_gt_0)
    show thesis
      by (rule that[of cl c1])
        (use False \<open>data = []\<close> step got_fromD[OF c1(2)] b1 in
          \<open>auto simp: session_turn_def outcome_simps submit_turn_def Let_def\<close>)
  qed
qed

text \<open>A request for a data endpoint from its first byte to the last byte of its reply, in one turn.\<close>

lemma bulk_turn:
  assumes client: "client_at s p = Some cl" "cc_state cl = CLIENT_STATE_ATTACHED" "cc_urb_handler cl = Some hr"
      "hd_initialized hr" "handler_rep (ss_heap s) hr [] []"
    and command: "length (uh_u header) = 28" "hc_command (uh_common header) = USBIP_CMD_SUBMIT"
      "hc_ep (uh_common header) \<in> {1..15}" "hc_direction (uh_common header) \<in> {USBIP_DIR_IN, USBIP_DIR_OUT}"
      "len = unat (cs_transfer_buffer_length (u_cmd_submit (uh_u header)))"
      "length data = (if hc_direction (uh_common header) = USBIP_DIR_OUT then len else 0)"
    and wire: "rx_bytes (rx c) = wire_header header @ data @ rest" "tx_ok (txs c)"
    and memory: "se_calloc env = Some a" "ss_heap s a = None" "se_malloc env len = Some m" "length m = len" "se_data_malloc env"
    and device: "se_worker env = one_worker_turn os dev" "dv_is_open dev"
      "wu_transfer os (bulk_request dev header data) = answer"
      "hc_direction (uh_common header) = USBIP_DIR_IN \<longrightarrow> answer_fits len answer"
  shows "\<exists>s' c' ret. session_turn env p s c = Returns (True, s', c') \<and>
    sent c' = sent c @ wire_header ret @ (if hc_direction (uh_common header) = USBIP_DIR_IN then answer_data answer else []) \<and>
    rx_bytes (rx c') = rest \<and>
    uh_common ret = (uh_common header)\<lparr>hc_command := USBIP_RET_SUBMIT\<rparr> \<and>
    rs_status (u_ret_submit (uh_u ret)) = answer_status answer \<and>
    rs_actual_length (u_ret_submit (uh_u ret)) = answer_count answer \<and>
    rs_setup (u_ret_submit (uh_u ret)) = cs_setup (u_cmd_submit (uh_u header)) \<and>
    ss_heap s' = ss_heap s \<and>
    tx_ok (txs c') \<and>
    (\<exists>cl' hr'. client_at s' p = Some cl' \<and> cc_state cl' = CLIENT_STATE_ATTACHED \<and> cc_urb_handler cl' = Some hr' \<and>
       hd_initialized hr' \<and> handler_rep (ss_heap s') hr' [] [])"
proof -
  let ?dir = "hc_direction (uh_common header)" and ?len = "cs_transfer_buffer_length (u_cmd_submit (uh_u header))"
  let ?data = "if ?dir = USBIP_DIR_OUT \<and> ?len > 0 then Some data else None"
  obtain cl1 c1 where t: "session_turn env p s c = forward_and_drain env p header ?data cl1 s c1"
    "cc_urb_handler cl1 = Some hr" "cc_state cl1 = CLIENT_STATE_ATTACHED"
    "rx_bytes (rx c1) = rest" "txs c1 = txs c" "sent c1 = sent c"
    by (rule submit_arrives[OF client(1-3) command(1,2,4) refl _ wire(1) memory(5) device(1)]) (use command(5,6) in simp)
  obtain u where u: "alloc_buffer (se_malloc env) ?data (header_urb header) = Some u"
    "ub_type u = USB_ENDPOINT_XFER_BULK" "ub_endpoint u \<noteq> 0" "ub_buffer_length u = ?len"
    "ub_endpoint u AND USB_DIR_IN \<noteq> 0 \<longleftrightarrow> ?dir = USBIP_DIR_IN"
    "ub_endpoint u = (if ?dir = USBIP_DIR_IN then ucast (hc_ep (uh_common header)) OR USB_DIR_IN else ucast (hc_ep (uh_common header)))"
    "ub_direction u = ucast ?dir" "?dir = USBIP_DIR_OUT \<Longrightarrow> urb_data u = data" "length (urb_data u) = unat ?len"
    "?len > 0 \<Longrightarrow> ub_buffer u = Some (urb_data u)"
    by (rule bulk_block[OF command(3,4) refl, of data "se_malloc env" m]) (use command(5,6) memory in simp_all)
  define e where "e = run_entry os dev ((request_entry (se_now env) header u)\<lparr>ue_in_progress := True\<rparr>)"
  define ret where "ret = urb_handler_create_return e"
  have req: "wu_transfer os (if ?dir = USBIP_DIR_IN then ReqRead (dv_interface_handles dev ! 0) (ub_endpoint u) (unat (ub_buffer_length u))
      else ReqWrite (dv_interface_handles dev ! 0) (ub_endpoint u) (take (unat (ub_buffer_length u)) (urb_data u))) = answer"
    using device(3) u(4,6,8) command(4-6) by (auto simp: bulk_request_def Let_def)
  have e0: "ue_urb ((request_entry (se_now env) header u)\<lparr>ue_in_progress := True\<rparr>) = u"
    "ue_seqnum ((request_entry (se_now env) header u)\<lparr>ue_in_progress := True\<rparr>) = hc_seqnum (uh_common header)"
    "ue_devid ((request_entry (se_now env) header u)\<lparr>ue_in_progress := True\<rparr>) = hc_devid (uh_common header)"
    by (simp_all add: request_entry_def)
  have reply: "completion_wire e = wire_header ret @ (if ?dir = USBIP_DIR_IN then answer_data answer else [])"
    "rs_actual_length (u_ret_submit (uh_u ret)) = answer_count answer" "rs_status (u_ret_submit (uh_u ret)) = answer_status answer"
    unfolding ret_def
    by (rule bulk_reply[OF device(2) u(2,3) u(5)[symmetric] _ req _ _ _ e_def e0(1)];
        use u(4,7,9,10) command(4,5) device(4) in auto)+
  note matches = urb_reply_matches[of "se_malloc env" ?data header "(request_entry (se_now env) header u)\<lparr>ue_in_progress := True\<rparr>",
      unfolded e0, OF u(1) refl refl command(1) disjI1[OF e_def] ret_def[symmetric]]
  have common: "uh_common ret = (uh_common header)\<lparr>hc_command := USBIP_RET_SUBMIT\<rparr>"
    using matches small_endpoint(3)[OF command(3)] command(4) by (auto intro!: usbip_header_common.equality)
  have "tx_ok (txs c1)" using wire(2) t(5) by simp
  from forward_one[OF t(2) client(4,5) memory(1) device(1) u(1) this e_def, of p] obtain cl' c' hr' where
    f: "forward_and_drain env p header ?data cl1 s c1 = Returns (True, set_client p cl' (s\<lparr>ss_heap := (ss_heap s)(a := None)\<rparr>), c')"
    "cc_urb_handler cl' = Some hr'" "hd_initialized hr'" "handler_rep ((ss_heap s)(a := None)) hr' [] []" "sent_to c1 (completion_wire e) c'"
    "cc_state cl' = cc_state cl1" by blast
  have h: "(ss_heap s)(a := None) = ss_heap s" using memory(2) by (rule fun_upd_idem)
  have "client_at (set_client p cl' s) p = Some cl'" by (rule client_at_set_client[OF client(1)])
  then show ?thesis
    using f h t reply common matches sent_toD[OF f(5)]
    by (intro exI[of _ "set_client p cl' s"] exI[of _ c'] exI[of _ ret]) auto
qed

section \<open>Property\<close>

text \<open>
  A request of a client with everything around it: the script of the turn of the session that serves
  it, the address and contents of the memory it gets, the answers of WinUSB and the open device.
\<close>

record bulk_item =
  bi_env :: session_env
  bi_header :: usbip_header
  bi_data :: "byte list"
  bi_addr :: nat
  bi_mem :: "byte list"
  bi_os :: winusb
  bi_dev :: usb_device

definition bulk_incoming :: "bulk_item \<Rightarrow> bool" where
  "bulk_incoming i \<longleftrightarrow> hc_direction (uh_common (bi_header i)) = USBIP_DIR_IN"

definition bulk_length :: "bulk_item \<Rightarrow> nat" where
  "bulk_length i = unat (cs_transfer_buffer_length (u_cmd_submit (uh_u (bi_header i))))"

definition bulk_answer :: "bulk_item \<Rightarrow> usb_answer" where
  "bulk_answer i = wu_transfer (bi_os i) (bulk_request (bi_dev i) (bi_header i) (bi_data i))"

text \<open>A well-formed submit command for endpoint 1 to 15 with its data, and what the client puts on the wire.\<close>

definition bulk_valid :: "bulk_item \<Rightarrow> bool" where
  "bulk_valid i \<longleftrightarrow> length (uh_u (bi_header i)) = 28 \<and> hc_command (uh_common (bi_header i)) = USBIP_CMD_SUBMIT \<and>
     hc_ep (uh_common (bi_header i)) \<in> {1..15} \<and> hc_direction (uh_common (bi_header i)) \<in> {USBIP_DIR_IN, USBIP_DIR_OUT} \<and>
     length (bi_data i) = (if bulk_incoming i then 0 else bulk_length i)"

definition bulk_wire :: "bulk_item \<Rightarrow> byte list" where
  "bulk_wire i = wire_header (bi_header i) @ bi_data i"

text \<open>
  The program runs, memory is available at an unused address, the worker thread makes one turn of its
  loop while the request waits, the device is open and returns no more than it is asked for.
\<close>

definition bulk_served :: "urb_heap \<Rightarrow> bulk_item \<Rightarrow> bool" where
  "bulk_served h i \<longleftrightarrow> se_running (bi_env i) \<and> se_calloc (bi_env i) = Some (bi_addr i) \<and> h (bi_addr i) = None \<and>
     se_malloc (bi_env i) (bulk_length i) = Some (bi_mem i) \<and> length (bi_mem i) = bulk_length i \<and> se_data_malloc (bi_env i) \<and>
     se_worker (bi_env i) = one_worker_turn (bi_os i) (bi_dev i) \<and> dv_is_open (bi_dev i) \<and>
     (bulk_incoming i \<longrightarrow> answer_fits (bulk_length i) (bulk_answer i))"

text \<open>The reply the client is owed, and the bytes of a reply on the wire.\<close>

definition bulk_replies :: "bulk_item \<Rightarrow> usbip_header \<Rightarrow> bool" where
  "bulk_replies i ret \<longleftrightarrow> uh_common ret = (uh_common (bi_header i))\<lparr>hc_command := USBIP_RET_SUBMIT\<rparr> \<and>
     rs_status (u_ret_submit (uh_u ret)) = answer_status (bulk_answer i) \<and>
     rs_actual_length (u_ret_submit (uh_u ret)) = answer_count (bulk_answer i) \<and>
     rs_setup (u_ret_submit (uh_u ret)) = cs_setup (u_cmd_submit (uh_u (bi_header i)))"

definition reply_wire :: "bulk_item \<Rightarrow> usbip_header \<Rightarrow> byte list" where
  "reply_wire i ret = wire_header ret @ (if bulk_incoming i then answer_data (bulk_answer i) else [])"

text \<open>A client that is attached and has nothing in its queues.\<close>

definition idle_client :: "server_state \<Rightarrow> nat \<Rightarrow> bool" where
  "idle_client s p \<longleftrightarrow> (case client_at s p of
       None \<Rightarrow> False
     | Some cl \<Rightarrow> cc_state cl = CLIENT_STATE_ATTACHED \<and>
         (case cc_urb_handler cl of None \<Rightarrow> False | Some hr \<Rightarrow> hd_initialized hr \<and> handler_rep (ss_heap s) hr [] []))"

lemma bulk_item_turn:
  assumes "idle_client s p" and "bulk_valid i" and "bulk_served (ss_heap s) i"
    and "rx_bytes (rx c) = bulk_wire i @ rest" and "tx_ok (txs c)"
  shows "\<exists>s' c' ret. handle_client_session (bi_env i # envs) p s c = handle_client_session envs p s' c' \<and>
    idle_client s' p \<and> ss_heap s' = ss_heap s \<and> bulk_replies i ret \<and> sent c' = sent c @ reply_wire i ret \<and>
    rx_bytes (rx c') = rest \<and> tx_ok (txs c')"
proof -
  obtain cl hr where c: "client_at s p = Some cl" "cc_state cl = CLIENT_STATE_ATTACHED" "cc_urb_handler cl = Some hr"
    "hd_initialized hr" "handler_rep (ss_heap s) hr [] []"
    using assms(1) by (auto simp: idle_client_def split: option.splits)
  have v: "length (uh_u (bi_header i)) = 28" "hc_command (uh_common (bi_header i)) = USBIP_CMD_SUBMIT"
    "hc_ep (uh_common (bi_header i)) \<in> {1..15}" "hc_direction (uh_common (bi_header i)) \<in> {USBIP_DIR_IN, USBIP_DIR_OUT}"
    "length (bi_data i) = (if bulk_incoming i then 0 else bulk_length i)"
    using assms(2) unfolding bulk_valid_def by blast+
  have m: "se_calloc (bi_env i) = Some (bi_addr i)" "ss_heap s (bi_addr i) = None"
    "se_malloc (bi_env i) (bulk_length i) = Some (bi_mem i)" "length (bi_mem i) = bulk_length i" "se_data_malloc (bi_env i)"
    "se_worker (bi_env i) = one_worker_turn (bi_os i) (bi_dev i)" "dv_is_open (bi_dev i)" "se_running (bi_env i)"
    "hc_direction (uh_common (bi_header i)) = USBIP_DIR_IN \<longrightarrow> answer_fits (bulk_length i) (bulk_answer i)"
    using assms(3) unfolding bulk_served_def bulk_incoming_def by blast+
  have w: "rx_bytes (rx c) = wire_header (bi_header i) @ bi_data i @ rest" using assms(4) by (simp add: bulk_wire_def)
  have d: "length (bi_data i) = (if hc_direction (uh_common (bi_header i)) = USBIP_DIR_OUT then bulk_length i else 0)"
    using v(4,5) by (auto simp: bulk_incoming_def)
  obtain s' c' ret cl' hr' where r: "session_turn (bi_env i) p s c = Returns (True, s', c')"
    "sent c' = sent c @ reply_wire i ret" "rx_bytes (rx c') = rest" "tx_ok (txs c')" "bulk_replies i ret" "ss_heap s' = ss_heap s"
    "client_at s' p = Some cl'" "cc_state cl' = CLIENT_STATE_ATTACHED" "cc_urb_handler cl' = Some hr'" "hd_initialized hr'"
    "handler_rep (ss_heap s') hr' [] []"
    using bulk_turn[OF c v(1-4) bulk_length_def d w assms(5) m(1-7) bulk_answer_def[symmetric] m(9)]
    unfolding bulk_replies_def reply_wire_def bulk_incoming_def by blast
  then show ?thesis using c(1,2) m(8) by (intro exI[of _ s'] exI[of _ c'] exI[of _ ret]) (simp add: idle_client_def outcome_simps)
qed


text \<open>
  A read of four bytes from endpoint 1, of which the device returns two, and a write of two bytes to
  endpoint 2, to a device that accepts no other transfer. Then the server is stopped.
\<close>

definition bulk_winusb :: winusb where
  "bulk_winusb = sample_winusb\<lparr>wu_transfer := (\<lambda>r. case r of
       ReqRead w ep n \<Rightarrow> if ep = 0x81 \<and> n = 4 then XferOk 2 [0xAA, 0xBB] else XferFailed
     | ReqWrite w ep bs \<Rightarrow> if ep = 2 \<and> bs = [1, 2] then XferOk 2 [] else XferFailed
     | _ \<Rightarrow> XferFailed)\<rparr>"

definition bulk_device :: usb_device where
  "bulk_device = zero_usb_device\<lparr>dv_is_open := True\<rparr>"

definition bulk_session :: session_env where
  "bulk_session = sample_session\<lparr>se_worker := one_worker_turn bulk_winusb bulk_device\<rparr>"

definition bulk_read :: bulk_item where
  "bulk_read = \<lparr>bi_env = bulk_session, bi_header = usbip_create_urb_submit 7 0x10002 USBIP_DIR_IN 1 0 4 None, bi_data = [],
     bi_addr = 200, bi_mem = replicate 4 0, bi_os = bulk_winusb, bi_dev = bulk_device\<rparr>"

definition bulk_write :: bulk_item where
  "bulk_write = \<lparr>bi_env = bulk_session, bi_header = usbip_create_urb_submit 8 0x10002 USBIP_DIR_OUT 2 0 2 None, bi_data = [1, 2],
     bi_addr = 200, bi_mem = replicate 2 0, bi_os = bulk_winusb, bi_dev = bulk_device\<rparr>"

definition bulk_conn :: conn where
  "bulk_conn = sample_conn\<lparr>rx := [RxData (take 5 (bulk_wire bulk_read)), RxWouldBlock,
     RxData (drop 5 (bulk_wire bulk_read) @ bulk_wire bulk_write), RxClosed]\<rparr>"

lemma sample_idle: "idle_client sample_attached 100"
proof -
  have "case client_at sample_attached 100 of None \<Rightarrow> False
     | Some cl \<Rightarrow> cc_state cl = CLIENT_STATE_ATTACHED \<and> (case cc_urb_handler cl of None \<Rightarrow> False
       | Some hr \<Rightarrow> hd_initialized hr \<and> hd_pending hr = empty_queue \<and> hd_completed hr = empty_queue)" by code_simp
  then show ?thesis by (simp only: idle_client_def idle_handler)
qed

lemma bulk_samples:
  "bulk_valid bulk_read" "bulk_valid bulk_write" "bulk_answer bulk_read = XferOk 2 [0xAA, 0xBB]" "bulk_answer bulk_write = XferOk 2 []"
  "bulk_length bulk_read = 4" "bulk_length bulk_write = 2" "bulk_incoming bulk_read" "\<not> bulk_incoming bulk_write"
  "hc_seqnum (uh_common (bi_header bulk_read)) = 7" "hc_seqnum (uh_common (bi_header bulk_write)) = 8"
  by code_simp+

lemma bulk_samples_served: "bulk_served (ss_heap sample_attached) bulk_read" "bulk_served (ss_heap sample_attached) bulk_write"
proof -
  have "ss_heap sample_attached 200 = None" by code_simp
  then show "bulk_served (ss_heap sample_attached) bulk_read" "bulk_served (ss_heap sample_attached) bulk_write"
    by (simp_all add: bulk_served_def bulk_samples answer_fits_def)
      (simp_all add: bulk_read_def bulk_write_def bulk_session_def sample_session_def bulk_device_def)
qed


end
