(* ===== verification/Protocol_Tests.thy ===== *)
theory Protocol_Tests
  imports Wire_Protocol Usb_Defs
begin

text \<open>
  The test program \<^verbatim>\<open>tests/test_protocol.c\<close> over the models of the protocol functions. A test
  takes and gives the failures counted so far together with the messages written to the error
  stream; the program is run by the kernel, so the checks of the repository hold of the models.
\<close>

section \<open>The tests\<close>

record test_state =
  ts_failures :: int
  ts_messages :: "string list"

definition CHECK :: "bool \<Rightarrow> string \<Rightarrow> test_state \<Rightarrow> test_state" where
  "CHECK cond msg s =
     (if \<not> cond then s\<lparr>ts_failures := ts_failures s + 1, ts_messages := ts_messages s @ [msg]\<rparr> else s)"

definition test_header_basic_roundtrip :: "test_state \<Rightarrow> test_state" where
  "test_header_basic_roundtrip s =
     (let h = \<lparr>hb_version = USBIP_PROTO_VERSION, hb_command = OP_REP_DEVLIST, hb_status = USBIP_ST_OK\<rparr>;
          expected = h;
          h = usbip_pack_header_basic h;
          s = CHECK (hb_version h \<noteq> hb_version expected \<or> hb_command h \<noteq> hb_command expected)
                ''pack did not swap bytes'' s;
          h = usbip_unpack_header_basic h;
          s = CHECK (hb_version h = hb_version expected) ''version mismatch'' s;
          s = CHECK (hb_command h = hb_command expected) ''command mismatch'' s
      in CHECK (hb_status h = hb_status expected) ''status mismatch'' s)"

definition test_device_roundtrip :: "test_state \<Rightarrow> test_state" where
  "test_device_roundtrip s =
     (let dev = zero_device\<lparr>ud_busnum := 1, ud_devnum := 7, ud_speed := USB_SPEED_HIGH, ud_idVendor := 0x046D,
                  ud_idProduct := 0xC534, ud_bcdDevice := 0x0110\<rparr>;
          dev = dev\<lparr>ud_path := strncpy (ud_path dev) (ascii ''1-7'') 255,
                  ud_busid := strncpy (ud_busid dev) (ascii ''1-7'') 31\<rparr>;
          expected = dev;
          dev = usbip_pack_device dev;
          s = CHECK (ud_busnum dev \<noteq> ud_busnum expected) ''busnum not swapped'' s;
          s = CHECK (streq (ud_path dev) (ud_path expected)) ''path must not be swapped'' s;
          dev = usbip_unpack_device dev;
          s = CHECK (ud_busnum dev = ud_busnum expected) ''busnum mismatch'' s;
          s = CHECK (ud_idVendor dev = ud_idVendor expected) ''idVendor mismatch'' s;
          s = CHECK (ud_idProduct dev = ud_idProduct expected) ''idProduct mismatch'' s
      in CHECK (ud_bcdDevice dev = ud_bcdDevice expected) ''bcdDevice mismatch'' s)"

definition test_urb_submit_roundtrip :: "test_state \<Rightarrow> test_state" where
  "test_urb_submit_roundtrip s =
     (let h = zero_header\<lparr>uh_common := \<lparr>hc_command = USBIP_CMD_SUBMIT, hc_seqnum = 42, hc_devid = usbip_make_devid 1 2,
                hc_direction = USBIP_DIR_IN, hc_ep = 0x81\<rparr>\<rparr>;
          h = h\<lparr>uh_u := (store32 (uh_u h) 4 64)[20 := 0x80]\<rparr>;
          expected = h;
          h = usbip_pack_header h USBIP_CMD_SUBMIT;
          s = CHECK (hc_seqnum (uh_common h) \<noteq> hc_seqnum (uh_common expected)) ''seqnum not swapped'' s;
          h = usbip_unpack_header h;
          s = CHECK (hc_seqnum (uh_common h) = hc_seqnum (uh_common expected)) ''seqnum mismatch'' s;
          s = CHECK (hc_devid (uh_common h) = hc_devid (uh_common expected)) ''devid mismatch'' s;
          s = CHECK (cs_transfer_buffer_length (u_cmd_submit (uh_u h)) =
                     cs_transfer_buffer_length (u_cmd_submit (uh_u expected))) ''len mismatch'' s
      in CHECK (cs_setup (u_cmd_submit (uh_u h)) ! 0 = 0x80) ''setup byte must not be swapped'' s)"

definition test_validation :: "test_state \<Rightarrow> test_state" where
  "test_validation s =
     (let s = CHECK (usbip_validate_version USBIP_PROTO_VERSION) ''valid version rejected'' s;
          s = CHECK (\<not> usbip_validate_version 0x0001) ''invalid version accepted'' s;
          s = CHECK (usbip_validate_command OP_REQ_DEVLIST) ''OP_REQ_DEVLIST rejected'' s;
          s = CHECK (\<not> usbip_validate_command 0xFFFF) ''unknown op accepted'' s;
          s = CHECK (usbip_validate_urb_command USBIP_CMD_SUBMIT) ''CMD_SUBMIT rejected'' s
      in CHECK (\<not> usbip_validate_urb_command 0) ''zero urb command accepted'' s)"

definition test_devid_helpers :: "test_state \<Rightarrow> test_state" where
  "test_devid_helpers s =
     (let devid = usbip_make_devid 3 11;
          s = CHECK (usbip_devid_busnum devid = 3) ''busnum extract wrong'' s;
          s = CHECK (usbip_devid_devnum devid = 11) ''devnum extract wrong'' s;
          s = CHECK (usbip_is_dir_in USBIP_DIR_IN) ''dir IN not detected'' s;
          s = CHECK (\<not> usbip_is_dir_in USBIP_DIR_OUT) ''dir OUT misdetected'' s;
          s = CHECK (usbip_is_control_ep 0) ''ep 0 not control'' s
      in CHECK (\<not> usbip_is_control_ep 1) ''ep 1 misdetected as control'' s)"

definition test_status_strings :: "test_state \<Rightarrow> test_state" where
  "test_status_strings s =
     (let s = CHECK (streq (ascii (usbip_status_string USBIP_ST_OK)) (ascii ''OK'')) ''OK string wrong'' s;
          s = CHECK (streq (ascii (usbip_status_string USBIP_ST_NODEV)) (ascii ''No Device'')) ''NODEV string wrong'' s
      in CHECK (streq (ascii (usbip_urb_command_string USBIP_RET_SUBMIT)) (ascii ''RET_SUBMIT'')) ''RET_SUBMIT string wrong'' s)"

text \<open>The exit code, and the failures with their messages.\<close>

definition test_main :: "int \<times> test_state" where
  "test_main =
     (let s = \<lparr>ts_failures = 0, ts_messages = []\<rparr>;
          s = test_header_basic_roundtrip s;
          s = test_device_roundtrip s;
          s = test_urb_submit_roundtrip s;
          s = test_validation s;
          s = test_devid_helpers s;
          s = test_status_strings s
      in if ts_failures s = 0 then (0, s) else (1, s))"

section \<open>They pass\<close>

text \<open>The program of tests succeeds on the models: no check fails and the exit code is 0.\<close>

lemma test_main_succeeds: "test_main = (0, \<lparr>ts_failures = 0, ts_messages = []\<rparr>)"
  by code_simp

end
