(* ===== verification/Spec2Isabelle.thy ===== *)
theory Spec2Isabelle
  imports Gui_Sessions Gui_Client Printing Urb_Session Protocol_Tests
begin

text \<open>
  \<^bold>\<open>usb-over-network.\<close> The program exports USB devices of one Windows machine to another
  over TCP with the USB/IP protocol. The server (\<^verbatim>\<open>src/server\<close>) enumerates devices, keeps a
  list of those it shares, accepts clients, attaches one client to one device and executes the
  USB request blocks (URBs) the client sends. The client (\<^verbatim>\<open>src/client\<close>) lists the devices of a
  server, imports one and hands the connection to the virtual host controller driver. Both rest
  on \<^verbatim>\<open>src/common\<close>: error codes, wire format, sockets, token authentication.

  \<^bold>\<open>Theories and sources.\<close> The theories follow the files; definitions have the names of the C
  functions, and the loops of a function are definitions of their own next to it.

  \<^item> \<open>Usbip_Prelude\<close>: bytes, C strings in buffers (\<open>cbuf\<close>, \<open>cstr\<close>, \<open>str_copy\<close>, \<open>strncpy\<close>,
    \<open>atoi\<close>), memory images and byte order (\<^verbatim>\<open>common/types.h\<close>, \<^verbatim>\<open>string_utils.h\<close>), and the
    lemma collections of the development.
  \<^item> \<open>Error_Codes\<close>: \<^verbatim>\<open>common/error.h\<close>, \<^verbatim>\<open>error.c\<close>. \<open>Log\<close>: \<^verbatim>\<open>common/log.c\<close>.
  \<^item> \<open>Wire_Protocol\<close>: \<^verbatim>\<open>common/protocol.h\<close> and the packing and constructing functions of
    \<^verbatim>\<open>protocol.c\<close>. The locale \<open>wire_codec\<close> states what a packed structure promises (unpacking
    the memory image of the packed structure gives it back, the image is the big-endian wire
    format); it is interpreted for every message structure.
  \<^item> \<open>Network\<close>: the transfer loops of \<^verbatim>\<open>common/network_win32.c\<close>. A connection (\<open>conn\<close>) is a
    script: what \<^verbatim>\<open>recv\<close>, \<^verbatim>\<open>send\<close>, \<^verbatim>\<open>select\<close> and the clock answer, in order, and the bytes
    sent so far. A stream that is not closed and has no more data makes a receive wait; that is
    the result \<open>None\<close>.
  \<^item> \<open>Socket_Setup\<close>: creation, connection, options, addresses and datagrams of the same file.
    Winsock is the record \<open>winsock\<close> of its answers; every call with an effect is recorded in a
    trace of \<open>sys_call\<close>.
  \<^item> \<open>Protocol_IO\<close>: the sending and receiving functions of \<^verbatim>\<open>protocol.c\<close>. The locale
    \<open>wire_io\<close> extends \<open>wire_codec\<close> and gives once, for every message, that what one side sends
    the other side receives, in chunks of any size.
  \<^item> \<open>Auth\<close>: \<^verbatim>\<open>common/auth.c\<close>.
  \<^item> \<open>Usb_Defs\<close>: \<^verbatim>\<open>common/usb_defs.h\<close>. The locale \<open>packed_layout\<close> states what a packed structure and
    its bytes have to do with each other; it is interpreted for the setup packet and the five
    descriptors.
  \<^item> \<open>Usb_Host\<close>: \<^verbatim>\<open>server/usb_host_win32.c\<close>, over answers of SetupAPI and WinUSB.
  \<^item> \<open>Urb_Queue\<close>, \<open>Urb_Handler\<close>: \<^verbatim>\<open>server/urb_handler.c\<close>. The queues are linked lists in an
    explicit heap of entries with head, tail and next pointers; a bad pointer is an error value.
    The locale \<open>entry_queue\<close> is the contract of the queue as a list of entries. The worker
    thread and the session thread are steps of the relation \<open>urb_step\<close>.
  \<^item> \<open>Device_List\<close>: \<^verbatim>\<open>server/device_list.c\<close>. The locale \<open>entry_operation\<close> is the common
    contract of the operations that look up one entry and change it (export, unexport, busy,
    shared).
  \<^item> \<open>Client_Manager\<close>, \<open>Server_Requests\<close>: \<^verbatim>\<open>server/client_manager.c\<close>, the clients with their
    attachments, and the handling of device-list, import and URB requests.
  \<^item> \<open>Server_Main\<close>: \<^verbatim>\<open>server/main.c\<close>. \<open>Urb_Session\<close> follows requests through the session, the
    handler, the worker and the device.
  \<^item> \<open>Vhci\<close>: \<^verbatim>\<open>client/vhci_win32.c\<close>; the driver is a parameter, its requests a trace.
  \<^item> \<open>Remote_Device\<close>: \<^verbatim>\<open>client/remote_device.c\<close>.
  \<^item> \<open>Discovery\<close>: \<^verbatim>\<open>client/discovery.c\<close> and the responder thread of \<^verbatim>\<open>gui/server_gui.c\<close>.
  \<^item> \<open>Client_Main\<close>: \<^verbatim>\<open>client/main.c\<close>.
  \<^item> \<open>Printing\<close>: the printers of these files, the usage texts and what each command of the two
    command-line programs writes to its output and error streams.
  \<^item> \<open>Gui_Common\<close>: \<^verbatim>\<open>gui/gui_common.c\<close> and the two layouts. What a program does to its window is
    a trace of \<open>ui_call\<close>; texts, check marks, rows and conversions are arguments.
  \<^item> \<open>Gui_Server\<close>, \<open>Gui_Sessions\<close>: \<^verbatim>\<open>gui/server_gui.c\<close>, the window with its messages, the accept
    thread and the client threads, start and stop; then what the threads do to the attachments.
  \<^item> \<open>Gui_Client\<close>: \<^verbatim>\<open>gui/client_gui.c\<close>, over the remote devices and discovery of the client.
  \<^item> \<open>Protocol_Tests\<close>: \<^verbatim>\<open>tests/test_protocol.c\<close>, run on the models.

  \<^bold>\<open>State and effects.\<close> A C structure is a record with the fields the code reads or writes; a
  list linked by pointers whose nodes other code points to is a list of pairs of address and
  node; functions return their results with the updated state. Mutexes are counters of how often
  they are held. An error return is an \<open>error_code\<close>, a pointer that may be null an option. Fixed
  width integers are words, \<open>int\<close> is \<open>int\<close> where it cannot overflow.

  \<^bold>\<open>What varies.\<close> Operating system, driver, allocator, clock and peer are arguments: functions or
  scripts of answers. Nothing is assumed of them except where a theorem states it. Loops whose
  number of turns is decided by them run over the script, one element per turn; a script that
  ends before the loop does gives \<open>None\<close> or \<open>Waits\<close>, never a normal result, so no theorem
  about a result holds because a script was short. Loops decided by the program are \<open>fun\<close> or
  \<open>function\<close> with a proof of termination. No fuel is used.

  \<^bold>\<open>Properties.\<close>

  \<^item> Client and server together (this theory, \<open>Discovery\<close>): the device list and an import
    exchanged by both programs, the discovery exchange.
  \<^item> URBs (\<open>Urb_Queue\<close>, \<open>Urb_Handler\<close>, \<open>Server_Main\<close>): the queues refine lists; no block is
    lost or duplicated in any interleaving of session and worker; replies come in order and match
    their requests; no bad pointer is followed; a session sends everything that is complete; it
    executes and answers every request for a data endpoint (\<open>Urb_Session\<close>).
  \<^item> Exclusive access (\<open>Device_List\<close>, \<open>Client_Manager\<close>, \<open>Server_Requests\<close>, \<open>Server_Main\<close>): a
    device has at most one client through every run of the server; failures and disconnects give
    it back; the accept loop leaves no client behind.
  \<^item> Authentication (\<open>Auth\<close>, \<open>Server_Main\<close>): without the token nothing is sent or changed; the
    one length for which the comparison is too weak.
  \<^item> Wire format and transfers (\<open>Wire_Protocol\<close>, \<open>Protocol_IO\<close>, \<open>Network\<close>, \<open>Socket_Setup\<close>):
    round trips, exact amounts, no leaked sockets.
  \<^item> The client (\<open>Vhci\<close>, \<open>Remote_Device\<close>, \<open>Client_Main\<close>): ports are owned by one device each,
    a failing connect and every end of the attach command clean up.
  \<^item> The graphical programs (\<open>Gui_Common\<close>, \<open>Gui_Server\<close>, \<open>Gui_Sessions\<close>, \<open>Gui_Client\<close>): the layouts
    do not overlap; client threads keep the attachments when requests do not interleave, and what
    goes wrong when they do; the client keeps ports, list and check marks consistent over all
    messages.
  \<^item> What is printed (\<open>Printing\<close>): exit code and output of the client agree; the devices listed are
    the records received, of the right sizes, and when printing them reads behind an array.
  \<^item> Logging (\<open>Log\<close>): lines stay inside their buffer and are complete; dumps can be read back.
  \<^item> Defects the models show: the theorems about the device count of the list reply, control
    transfers with direction IN, long tokens, the mutex of the device list, colliding bus
    identifiers, the missing error message, the detach and status commands, unterminated strings of
    a server; of the graphical server, the
    token that is never read, devices shown as local that are shared, transfers that end the
    session, a second import, and two imports at once; of the graphical client, the message of
    discovery that overruns its buffer.

  \<^bold>\<open>Not modelled.\<close> \<^verbatim>\<open>common/config.h\<close>, which only names constants, and the prototypes, type names and
  wrapping macros of the other headers; \<^verbatim>\<open>WinMain\<close>, which calls the modelled program. Styles and
  identifiers of controls, and what Windows draws. Threads interleave where a theory says so: between the requests of a
  client, between messages, between the two parts of attaching, and between session and worker;
  finer interleavings of the shared lists are not. The log calls inside the other components: none
  of them reads what is logged, and the result of \<^verbatim>\<open>log_init\<close> at start-up is an argument there.
  Memory is not bounded, and a freed address is not reused while a list holds
  it.
\<close>

section \<open>The client and the server together\<close>

text \<open>A record of the reply as the client takes it apart.\<close>

definition entry_record :: "device_entry \<Rightarrow> usbip_usb_device \<times> usbip_usb_interface list" where
  "entry_record e =
     (usb_device_to_usbip (de_device e),
      map usb_interface_to_usbip
        (take (min (unat (dv_num_interfaces (de_device e))) USB_MAX_INTERFACES) (dv_interfaces (de_device e))))"

definition interfaces_complete :: "device_entry \<Rightarrow> bool" where
  "interfaces_complete e \<longleftrightarrow> unat (dv_num_interfaces (de_device e)) \<le> 32 \<and> length (dv_interfaces (de_device e)) = 32"

lemma record_wire_entry: "record_wire (entry_record e) = entry_wire e"
  by (simp add: record_wire_def entry_record_def entry_wire_def comp_def)

lemma record_ok_entry: "interfaces_complete e \<Longrightarrow> record_ok (entry_record e)"
  by (simp add: record_ok_def entry_record_def interfaces_complete_def)
    (simp add: usb_device_to_usbip_def)

lemma announced_le: "announced l \<le> length (shared_entries l)" "length (shared_entries l) \<le> length (dl_head l)"
  unfolding announced_def by (rule length_filter_le) (metis shared_entries_def length_filter_le length_map)

lemma handle_devlist_request:
  assumes "tx_ok (txs d)" and "rx_bytes (rx d) = wire_header_basic usbip_create_devlist_request @ tl_bytes"
  shows "\<exists>d'. client_handle_request env joined p (s, d) = Returns (ERR_SUCCESS, s, d') \<and>
    sent d' = sent d @ devlist_wire (ss_list s)"
proof -
  obtain d1 where d1: "usbip_recv_header_basic d = Some (Inr usbip_create_devlist_request, d1)"
    "got_from d (wire_header_basic usbip_create_devlist_request) d1" using hb_io.recv_ok[OF _ assms(2)] by blast
  have "tx_ok (txs d1)" using assms(1) got_fromD(3)[OF d1(2)] by simp
  then obtain d2 where d2: "client_send_device_list s d1 = (ERR_SUCCESS, d2)" "sent_to d1 (devlist_wire (ss_list s)) d2"
    using client_send_device_list_ok by blast
  have "hb_command usbip_create_devlist_request = OP_REQ_DEVLIST" by (simp add: usbip_create_devlist_request_def)
  then show ?thesis using d1(1) d2 got_fromD(4)[OF d1(2)] sent_toD(1)[OF d2(2)]
    by (auto simp: client_handle_request_def after_recv_def)
qed

lemma import_busid_31: "(iq_busid (usbip_create_import_request (Some b)))[31 := 0] = iq_busid (usbip_create_import_request (Some b))"
proof -
  have "iq_busid (usbip_create_import_request (Some b)) ! 31 = 0"
    by (simp add: usbip_create_import_request_def strncpy_def Let_def nth_append)
  then show ?thesis by (metis list_update_id)
qed

lemma handle_import_request:
  assumes "rx_bytes (rx d) = import_request_wire busid @ tl_bytes"
  shows "\<exists>d1. client_handle_request env joined p (s, d) =
      client_handle_import env joined p (iq_busid (usbip_create_import_request (Some busid))) (s, d1) \<and>
    sent d1 = sent d \<and> txs d1 = txs d"
proof -
  let ?q = "usbip_create_import_request (Some busid)"
  have b: "rx_bytes (rx d) = wire_header_basic (iq_header ?q) @ iq_busid ?q @ tl_bytes"
    using assms by (simp add: import_request_wire_def)
  obtain d1 where d1: "usbip_recv_header_basic d = Some (Inr (iq_header ?q), d1)"
    "got_from d (wire_header_basic (iq_header ?q)) d1" using hb_io.recv_ok[OF _ b] by blast
  have b1: "rx_bytes (rx d1) = iq_busid ?q @ tl_bytes" using got_fromD(1)[OF d1(2)] b by simp
  have l: "length (iq_busid ?q) = 32" by (simp add: usbip_create_import_request_def)
  obtain d2 where d2: "net_recv_all 32 d1 = Some (int 32, iq_busid ?q, d2)" "got_from d1 (iq_busid ?q) d2"
    using net_recv_all_got[OF b1 l] by blast
  have "hb_command (iq_header ?q) = OP_REQ_IMPORT" by (simp add: usbip_create_import_request_def)
  then have "client_handle_request env joined p (s, d) = client_handle_import env joined p (iq_busid ?q) (s, d2)"
    using d1(1) d2(1) by (simp add: client_handle_request_def after_recv_def import_busid_31)
  then show ?thesis using got_fromD(3,4)[OF d1(2)] got_fromD(3,4)[OF d2(2)] by auto
qed

text \<open>
  C2: the device list arrives. A client without token asks a server for its devices, the
  server handles the request, and each side reads what the other one sends, in chunks of any
  size. The request succeeds on both sides, the server is unchanged, and the client gets the
  shared devices in the order of the list, as many as the server announced and the client has
  room for; these are all of them when every shared device is available.
\<close>

theorem devlist_end_to_end:
  assumes "tx_ok (txs c)" and "sent c = []" and "tx_ok (txs d)" and "sent d = []"
    and "rx_bytes (rx d) = wire_header_basic usbip_create_devlist_request @ later"
    and "client_handle_request env joined p (s, d) = Returns (err, s', d')"
    and "rx_bytes (rx c) = sent d'"
    and "\<forall>e \<in> set (shared_entries (ss_list s)). interfaces_complete e" and "length (dl_head (ss_list s)) < 2 ^ 32"
  shows "err = ERR_SUCCESS \<and> s' = s \<and>
    (\<exists>c'. request_devices None max_devices c =
       Some (ERR_SUCCESS,
         take (min (announced (ss_list s)) (nat max_devices))
           (map (\<lambda>e. usb_device_to_usbip (de_device e)) (shared_entries (ss_list s))), c') \<and>
       sent c' = wire_header_basic usbip_create_devlist_request) \<and>
    ((\<forall>e \<in> set (shared_entries (ss_list s)). de_state e = DEVICE_STATE_AVAILABLE) \<longrightarrow>
      announced (ss_list s) = length (shared_entries (ss_list s)))"
proof -
  let ?l = "ss_list s" and ?h = "dr_header (usbip_create_devlist_reply 0)"
  let ?rs = "map entry_record (shared_entries ?l)"
  have r: "err = ERR_SUCCESS" "s' = s" "sent d' = devlist_wire ?l"
    using handle_devlist_request[OF assms(3,5), of env joined p s] assms(4,6) by auto
  have n: "unat (word_of_nat (announced ?l) :: uint32_t) = announced ?l"
    using announced_le[of ?l] assms(9) by (simp add: unat_of_nat)
  have "list_all record_ok ?rs" using assms(8) record_ok_entry by (auto simp: list_all_iff)
  moreover have "rx_bytes (rx c) = wire_header_basic ?h @ be32 (word_of_nat (announced ?l)) @ concat (map record_wire ?rs) @ []"
    using assms(7) r(3) by (simp add: devlist_wire_def comp_def record_wire_entry)
  moreover have "hb_status ?h = USBIP_ST_OK" by (simp add: usbip_create_devlist_reply_def)
  moreover have "token_fits None" "auth_bytes None = []" by (simp_all add: token_fits_def auth_bytes_def auth_is_enabled_def)
  ultimately obtain c' where c': "request_devices None max_devices c =
      Some (ERR_SUCCESS, map fst (take (min (announced ?l) (nat max_devices)) ?rs), c')"
      "sent c' = wire_header_basic usbip_create_devlist_request"
    using request_devices_ok[of c None ?h "word_of_nat (announced ?l)" ?rs "[]" max_devices] assms(1,2) announced_le(1)[of ?l] n
    by auto
  have "map fst (take k ?rs) = take k (map (\<lambda>e. usb_device_to_usbip (de_device e)) (shared_entries ?l))" for k
    by (simp add: take_map entry_record_def)
  moreover have "announced ?l = length (shared_entries ?l)"
    if "\<forall>e \<in> set (shared_entries ?l). de_state e = DEVICE_STATE_AVAILABLE"
    using that by (simp add: announced_def filter_True)
  ultimately show ?thesis using r c' by metis
qed

text \<open>
  C1: an import ends the same way on both sides. A client that is connected and not attached
  sends its import request; the server handles it; the client reads the reply. If the server
  attached the device, then its entry is exported to this client, and what the client hands to
  its virtual host controller is the description of exactly that device; a device that the
  client has attached at the end carries it. If the server refused, the client gives up with
  \<open>ERR_DEVICE_BUSY\<close> for a device in use and \<open>ERR_USB_NOT_FOUND\<close> otherwise.
\<close>

theorem import_end_to_end:
  assumes "attach_inv s" and "client_at s p = Some cl" and "\<not> attached cl"
    and "tx_ok (txs d)" and "sent d = []" and "rx_bytes (rx d) = import_request_wire busid @ later"
    and "client_attach_device env p (iq_busid (usbip_create_import_request (Some busid))) s = Some (err, s')"
    and "client_handle_request env joined p (s, d) = Returns (err', t, d')"
    and "tx_ok (txs c)" and "sent c = []" and "rx_bytes (rx c) = sent d'"
  shows "err' = err \<and> t = s' \<and>
    (\<exists>cerr out u' c'. import_remote None drv server_ip server_port busid q device u c = Some (cerr, out, u', c') \<and>
       sent c' = import_request_wire busid \<and>
       (if err = ERR_SUCCESS then
          \<exists>e. dl_lookup (ss_list s') (iq_busid (usbip_create_import_request (Some busid))) = Some e \<and>
            de_state e = DEVICE_STATE_EXPORTED \<and> de_client_id e = cc_id cl \<and>
            attach_remote drv server_ip server_port q (device\<lparr>rd_device_info := usb_device_to_usbip (de_device e)\<rparr>) u =
              (cerr, out, u') \<and>
            (cerr = ERR_SUCCESS \<longrightarrow> (\<exists>dv. rl_head (cl_list u') = (q, dv) # rl_head (cl_list u) \<and>
               rd_device_info dv = usb_device_to_usbip (de_device e)))
        else out = None \<and> cerr = (if err = ERR_DEVICE_BUSY then ERR_DEVICE_BUSY else ERR_USB_NOT_FOUND)))"
proof -
  let ?b = "iq_busid (usbip_create_import_request (Some busid))"
  let ?h = "zero_header_basic\<lparr>hb_version := USBIP_PROTO_VERSION, hb_command := OP_REP_IMPORT, hb_status := import_status err\<rparr>"
  have tok: "token_fits None" "auth_bytes None = []" by (simp_all add: token_fits_def auth_bytes_def auth_is_enabled_def)
  obtain d1 where d1: "client_handle_request env joined p (s, d) = client_handle_import env joined p ?b (s, d1)"
    "sent d1 = sent d" "txs d1 = txs d" using handle_import_request[OF assms(6)] by blast
  obtain k' dev where k: "client_handle_import env joined p ?b (s, d1) = Returns (err, s', k')"
    "sent_to d1 (import_wire err dev) k'" "dev = (if err = ERR_SUCCESS then map_option de_device (dl_lookup (ss_list s') ?b) else None)"
    "err = ERR_SUCCESS \<longrightarrow> exported_to (cc_id cl) (dl_lookup (ss_list s') ?b)"
    using client_handle_import_ok[where k = d1 and joined = joined, OF assms(1-3) _ assms(7)] assms(4) d1(3) by auto
  have eq: "err' = err" "t = s'" "d' = k'" using assms(8) d1(1) k(1) by auto
  have rx: "rx_bytes (rx c) = import_wire err dev" using assms(5,11) d1(2) eq(3) sent_toD(1)[OF k(2)] by simp
  show ?thesis
  proof (cases "err = ERR_SUCCESS")
    case True
    then obtain e where e: "dl_lookup (ss_list s') ?b = Some e" "de_state e = DEVICE_STATE_EXPORTED" "de_client_id e = cc_id cl"
      using k(4) by (auto simp: exported_to_def split: option.splits)
    let ?d = "usb_device_to_usbip (de_device e)"
    have "rx_bytes (rx c) = wire_header_basic ?h @ wire_device ?d @ []" "hb_status ?h = USBIP_ST_OK"
      using rx k(3) e(1) True by (simp_all add: import_wire_def import_status_def)
    from import_remote_ok[OF assms(9) tok(1) device_wf_to_usbip this(2,1), of drv server_ip server_port busid q device u]
    obtain c' where c': "import_remote None drv server_ip server_port busid q device u c =
        (case attach_remote drv server_ip server_port q (device\<lparr>rd_device_info := ?d\<rparr>) u of (err, out, s') \<Rightarrow> Some (err, out, s', c'))"
      "sent c' = import_request_wire busid" using tok(2) assms(10) by auto
    obtain cerr out u' where a: "attach_remote drv server_ip server_port q (device\<lparr>rd_device_info := ?d\<rparr>) u = (cerr, out, u')"
      by (metis prod_cases3)
    have "\<exists>dv. rl_head (cl_list u') = (q, dv) # rl_head (cl_list u) \<and> rd_device_info dv = ?d" if "cerr = ERR_SUCCESS"
      using a that by (auto simp: attach_remote_def link_remote_def Let_def split: if_splits prod.splits)
    then show ?thesis using eq(1,2) True e c' a by auto
  next
    case False
    then have "rx_bytes (rx c) = wire_header_basic ?h @ []" "hb_status ?h \<noteq> USBIP_ST_OK"
      "(hb_status ?h = USBIP_ST_DEV_BUSY) = (err = ERR_DEVICE_BUSY)"
      using rx k(3) by (simp_all add: import_wire_def import_status_def)
    with import_remote_refused[OF assms(9) tok(1) this(2,1), of drv server_ip server_port busid q device u]
    show ?thesis using eq(1,2) False tok(2) assms(10) by auto
  qed
qed

theorem devlist_end_to_end_witness:
  "\<exists>d' c'. client_handle_request sample_env (\<lambda>h hr. Some (h, hr)) 100
      (sample_connected, sample_conn\<lparr>rx := [RxData (wire_header_basic usbip_create_devlist_request)]\<rparr>) =
      Returns (ERR_SUCCESS, sample_connected, d') \<and>
    request_devices None 32 (sample_conn\<lparr>rx := [RxData (take 5 (sent d')), RxWouldBlock, RxData (drop 5 (sent d'))]\<rparr>) =
      Some (ERR_SUCCESS, map usb_device_to_usbip [sample_device ''1-2'', sample_device ''1-1''], c')"
proof -
  let ?d = "sample_conn\<lparr>rx := [RxData (wire_header_basic usbip_create_devlist_request)]\<rparr>"
  let ?w = "\<lambda>h hr. Some (h, hr)"
  have tx: "tx_ok (txs ?d)" "sent ?d = []" "rx_bytes (rx ?d) = wire_header_basic usbip_create_devlist_request @ []"
    by (simp_all add: sample_conn_def tx_ok_def)
  obtain d' where r: "client_handle_request sample_env ?w 100 (sample_connected, ?d) = Returns (ERR_SUCCESS, sample_connected, d')"
    using handle_devlist_request[OF tx(1,3)] by blast
  let ?c = "sample_conn\<lparr>rx := [RxData (take 5 (sent d')), RxWouldBlock, RxData (drop 5 (sent d'))]\<rparr>"
  have c: "tx_ok (txs ?c)" "sent ?c = []" "rx_bytes (rx ?c) = sent d'" by (simp_all add: sample_conn_def tx_ok_def)
  have "list_all interfaces_complete (shared_entries (ss_list sample_connected))"
    "length (dl_head (ss_list sample_connected)) = 2" "announced (ss_list sample_connected) = 2" by code_simp+
  moreover have "map de_device (shared_entries (ss_list sample_connected)) = [sample_device ''1-2'', sample_device ''1-1'']"
    by (simp add: sample_connected_def sample_server_def shared_entries_def new_entry_def)
  ultimately have f: "\<forall>e \<in> set (shared_entries (ss_list sample_connected)). interfaces_complete e"
    "length (dl_head (ss_list sample_connected)) < 2 ^ 32" "announced (ss_list sample_connected) = 2"
    "map (\<lambda>e. usb_device_to_usbip (de_device e)) (shared_entries (ss_list sample_connected)) =
      map usb_device_to_usbip [sample_device ''1-2'', sample_device ''1-1'']"
    by (auto simp: list_all_iff comp_def dest: arg_cong[where f = "map usb_device_to_usbip"])
  from devlist_end_to_end[OF c(1,2) tx r c(3) f(1,2), of 32] show ?thesis using r unfolding f(3,4) by auto
qed

theorem import_end_to_end_witness:
  "\<exists>s' d' cerr u' c' e dv. client_handle_request sample_env (\<lambda>h hr. Some (h, hr)) 100
      (sample_connected, sample_conn\<lparr>rx := [RxData (import_request_wire (ascii ''1-1''))]\<rparr>) = Returns (ERR_SUCCESS, s', d') \<and>
    import_remote None sample_driver (ascii ''10.0.0.1'') 3240 (ascii ''1-1'') 40
      new_remote_device (start_sys sample_driver fresh_world) (sample_conn\<lparr>rx := [RxData (sent d')]\<rparr>) =
      Some (ERR_SUCCESS, Some 40, u', c') \<and>
    dl_lookup (ss_list s') (ascii ''1-1'') = Some e \<and> de_state e = DEVICE_STATE_EXPORTED \<and>
    rl_head (cl_list u') = [(40, dv)] \<and> rd_device_info dv = usb_device_to_usbip (de_device e)"
proof -
  let ?b = "iq_busid (usbip_create_import_request (Some (ascii ''1-1'')))"
  let ?d = "sample_conn\<lparr>rx := [RxData (import_request_wire (ascii ''1-1''))]\<rparr>"
  let ?w = "\<lambda>h hr. Some (h, hr)" and ?u = "start_sys sample_driver fresh_world"
  have tx: "tx_ok (txs ?d)" "sent ?d = []" "rx_bytes (rx ?d) = import_request_wire (ascii ''1-1'') @ []"
    by (simp_all add: sample_conn_def tx_ok_def)
  obtain cl where cl: "client_at sample_connected 100 = Some cl" "\<not> attached cl"
  proof -
    have "case client_at sample_connected 100 of None \<Rightarrow> False | Some c \<Rightarrow> \<not> attached c" by code_simp
    then show thesis using that by (auto split: option.splits)
  qed
  have "map_option fst (client_attach_device sample_env 100 ?b sample_connected) = Some ERR_SUCCESS" by code_simp
  then obtain s' where a: "client_attach_device sample_env 100 ?b sample_connected = Some (ERR_SUCCESS, s')" by auto
  obtain d1 where d1: "client_handle_request sample_env ?w 100 (sample_connected, ?d) =
      client_handle_import sample_env ?w 100 ?b (sample_connected, d1)" "txs d1 = txs ?d"
    using handle_import_request[OF tx(3)] by blast
  obtain d' where r: "client_handle_request sample_env ?w 100 (sample_connected, ?d) = Returns (ERR_SUCCESS, s', d')"
    using client_handle_import_ok[where k = d1 and joined = ?w, OF sample_connected_inv cl _ a] tx(1) d1 by auto
  let ?c = "sample_conn\<lparr>rx := [RxData (sent d')]\<rparr>"
  have c: "tx_ok (txs ?c)" "sent ?c = []" "rx_bytes (rx ?c) = sent d'" by (simp_all add: sample_conn_def tx_ok_def)
  obtain cerr out u' c' e where x: "import_remote None sample_driver (ascii ''10.0.0.1'') 3240 (ascii ''1-1'') 40 new_remote_device ?u ?c =
      Some (cerr, out, u', c')" "dl_lookup (ss_list s') ?b = Some e" "de_state e = DEVICE_STATE_EXPORTED"
    "attach_remote sample_driver (ascii ''10.0.0.1'') 3240 40 (new_remote_device\<lparr>rd_device_info := usb_device_to_usbip (de_device e)\<rparr>) ?u =
      (cerr, out, u')"
    "cerr = ERR_SUCCESS \<longrightarrow> (\<exists>dv. rl_head (cl_list u') = (40, dv) # rl_head (cl_list ?u) \<and>
       rd_device_info dv = usb_device_to_usbip (de_device e))"
    using import_end_to_end[OF sample_connected_inv cl tx a r c, of sample_driver "ascii ''10.0.0.1''" 3240 40 new_remote_device ?u]
    by auto
  have ok: "cerr = ERR_SUCCESS" "out = Some 40" using x(4) by (auto simp: attach_remote_def new_remote_device_def)
  have h: "rl_head (cl_list ?u) = []" by code_simp
  have "cstr ?b = cstr (ascii ''1-1'')" by code_simp
  then have "dl_lookup (ss_list s') (ascii ''1-1'') = Some e" using x(2) by (simp add: dl_lookup_def)
  then show ?thesis using r x ok h by auto
qed

section \<open>The two windows\<close>

text \<open>The two programs test in different ways whether a check mark changed; the tests agree.\<close>

lemma mark_tests_agree: "server_mark_changed n = client_mark_changed n"
proof -
  have "(a XOR b) AND m = 0 \<longleftrightarrow> b AND m = a AND m" for a b m :: uint32_t
    by (auto simp: bit_eq_iff bit_simps)
  then show ?thesis by (simp add: server_mark_changed_def client_mark_changed_def)
qed

end
